(* ===== verification/Gw_Prelude.thy ===== *)
theory Gw_Prelude
  imports Complex_Main
begin

text \<open>
  Shared ground of the gateway development: the collections of rewrite rules the component
  proofs run on, the type names of the model, and the generic facts on lists and options that
  several components need.

  Python's \<^verbatim>\<open>int\<close> is \<open>int\<close> (or \<open>nat\<close> for a length or an index); Python's \<^verbatim>\<open>float\<close> is an exact
  rational \<open>pyfloat\<close>: IEEE rounding is not modelled. A Python string is a \<open>string\<close>, one \<open>char\<close> per
  code point, so code points above 255 are outside the model.
\<close>

named_theorems gw_simps "definitions unfolded by the proofs of a component"
named_theorems redis_simps "effect of the Redis commands on the keyspace"
named_theorems key_simps "facts on Redis key strings"

type_synonym pyfloat = rat
type_synonym instant = rat

subsection \<open>Exceptions\<close>

text \<open>
  The Python exceptions that are not values of the gateway's own error hierarchies. A function that
  may raise one returns \<open>py_error + 'a\<close>.
\<close>

datatype py_error =
    ValueError
  | KeyError
  | NotImplementedError
  | UnknownSlot
  | ConfigError
  | InvariantViolation "nat option"
  | FileUnreadable
  | OtherError

type_synonym 'a exn = "py_error + 'a"

definition ebind :: "'e + 'a \<Rightarrow> ('a \<Rightarrow> 'e + 'b) \<Rightarrow> 'e + 'b" where
  "ebind m f = (case m of Inl e \<Rightarrow> Inl e | Inr x \<Rightarrow> f x)"

lemma ebind_simps [simp]: "ebind (Inl e) f = Inl e" "ebind (Inr x) f = f x"
  by (simp_all add: ebind_def)

lemma ebind_Inr_iff: "ebind m f = Inr y \<longleftrightarrow> (\<exists>x. m = Inr x \<and> f x = Inr y)"
  by (cases m) auto

subsection \<open>Lists\<close>

text \<open>\<^verbatim>\<open>min(xs, default=None)\<close> of Python.\<close>

fun min_default :: "('a::linorder) list \<Rightarrow> 'a option" where
  "min_default [] = None"
| "min_default (x # xs) = (case min_default xs of None \<Rightarrow> Some x | Some y \<Rightarrow> Some (min x y))"

lemma min_default_None [simp]: "min_default xs = None \<longleftrightarrow> xs = []"
  by (cases xs) (auto split: option.splits)

lemma min_default_Some: "min_default xs = Some m \<Longrightarrow> m \<in> set xs \<and> (\<forall>x\<in>set xs. m \<le> x)"
proof (induction xs arbitrary: m)
  case Nil
  then show ?case by simp
next
  case (Cons x xs)
  show ?case
  proof (cases "min_default xs")
    case None
    with Cons.prems show ?thesis by simp
  next
    case (Some y)
    with Cons.IH have y: "y \<in> set xs" "\<forall>z\<in>set xs. y \<le> z" by blast+
    from Cons.prems Some have m: "m = min x y" by simp
    have "m \<in> set (x # xs)" using y(1) m by (auto simp: min_def)
    moreover have "\<forall>z\<in>set (x # xs). m \<le> z" using y(2) m by (auto simp: min_le_iff_disj)
    ultimately show ?thesis by blast
  qed
qed

text \<open>Python's \<^verbatim>\<open>sum\<close> over a list of integers splits over positions.\<close>

lemma sum_list_map_le:
  fixes f g :: "'a \<Rightarrow> int"
  assumes "\<And>x. x \<in> set xs \<Longrightarrow> f x \<le> g x"
  shows "sum_list (map f xs) \<le> sum_list (map g xs)"
  using assms by (induction xs) (auto intro: add_mono)

text \<open>The first element of a list with a property, as \<^verbatim>\<open>next((x for x in xs if p(x)), None)\<close>.\<close>

lemma find_Some_in: "List.find P xs = Some x \<Longrightarrow> x \<in> set xs \<and> P x"
  by (induction xs) (auto split: if_splits)

subsection \<open>Strings\<close>

text \<open>
  Keys are built by joining segments with colons. A segment without a colon is determined by
  what follows it up to the first colon.
\<close>

lemma split_at_sep:
  assumes "c \<notin> set xs" "c \<notin> set ys" "xs @ c # us = ys @ c # vs"
  shows "xs = ys \<and> us = vs"
  using assms
proof (induction xs arbitrary: ys)
  case Nil
  then show ?case by (cases ys) auto
next
  case (Cons x xs)
  then show ?case by (cases ys) auto
qed

end
