(* ===== verification/Gw_Types.thy ===== *)
theory Gw_Types
  imports Gw_Prelude
begin

text \<open>
  The provider contract's plain data (\<^verbatim>\<open>app/providers/types.py\<close>) and the normalized error
  hierarchy (\<^verbatim>\<open>app/providers/errors.py\<close>) with its translation to the client-facing errors of
  \<^verbatim>\<open>app/core/errors.py\<close>. The human-readable message of an error and the provider's raw body are
  not modelled: nothing branches on them.
\<close>

subsection \<open>Types of the provider contract\<close>

datatype finish_reason = FR_stop | FR_length | FR_content_filter | FR_error
datatype attachment_mode = Native | Injected
datatype confidence = High | Medium | Low
datatype extraction_tier = TierCache | TierNative | TierLlm | TierLocal
datatype key_pool = Shared | Private

record ModelSpec =
  ms_slot :: string
  ms_provider :: string
  ms_model :: string
  ms_context_window :: int
  ms_max_output_tokens :: int
  ms_supports_streaming :: bool
  ms_supports_vision :: bool
  ms_supports_pdf :: bool
  ms_supports_system_field :: bool
  ms_max_file_bytes :: "int option"
  ms_priority :: nat
  ms_reserved_fraction :: pyfloat

definition ms_key :: "ModelSpec \<Rightarrow> string \<times> string" where
  "ms_key spec = (ms_provider spec, ms_model spec)"

definition startswith :: "string \<Rightarrow> string \<Rightarrow> bool" where
  "startswith s p \<longleftrightarrow> take (length p) s = p"

definition supports_mime :: "ModelSpec \<Rightarrow> string \<Rightarrow> bool" where
  "supports_mime spec mime =
     (if mime = ''application/pdf'' then ms_supports_pdf spec
      else ms_supports_vision spec \<and> startswith mime ''image/'')"

record GenParams =
  gp_temperature :: pyfloat
  gp_max_tokens :: "int option"
  gp_top_p :: "pyfloat option"
  gp_stop :: "string list"
  gp_stream :: bool

record Usage =
  us_tokens_in :: int
  us_tokens_out :: int
  us_estimated :: bool

record Completion =
  cp_text :: string
  cp_usage :: Usage
  cp_finish_reason :: finish_reason
  cp_raw_id :: "string option"

record StreamChunk =
  sc_delta :: string
  sc_finish_reason :: "string option"
  sc_usage :: "Usage option"

record ResolvedAttachment =
  ra_file_hash :: string
  ra_filename :: string
  ra_mime :: string
  ra_size_bytes :: int
  ra_mode :: attachment_mode
  ra_data :: "string option"
  ra_text :: "string option"
  ra_confidence :: "confidence option"
  ra_tier :: "extraction_tier option"
  ra_token_cost :: int
  ra_pages :: "int option"

record QuotaHint =
  qh_requests_remaining :: "int option"
  qh_tokens_remaining :: "int option"
  qh_requests_reset_s :: "pyfloat option"
  qh_tokens_reset_s :: "pyfloat option"

definition hint_is_empty :: "QuotaHint \<Rightarrow> bool" where
  "hint_is_empty h \<longleftrightarrow> qh_requests_remaining h = None \<and> qh_tokens_remaining h = None \<and>
     qh_requests_reset_s h = None \<and> qh_tokens_reset_s h = None"

subsection \<open>The normalized error hierarchy\<close>

text \<open>
  One constructor per class, carrying the field only that class declares.
  \<open>ContextTooLong\<close> is a subclass of \<open>BadRequest\<close> in the source; \<open>is_bad_request\<close> is
  \<^verbatim>\<open>isinstance(exc, BadRequest)\<close>.
\<close>

datatype error_class =
    RateLimited "pyfloat option"
  | Unavailable
  | AuthFailed
  | BadRequest
  | ContextTooLong "int option"
  | ContentFiltered
  | EmptyResponse

record ProviderError =
  pe_class :: error_class
  pe_provider :: string
  pe_model :: string
  pe_status_code :: "int option"

fun retryable_same_provider :: "error_class \<Rightarrow> bool" where
  "retryable_same_provider (RateLimited _) = False"
| "retryable_same_provider Unavailable = True"
| "retryable_same_provider AuthFailed = False"
| "retryable_same_provider BadRequest = False"
| "retryable_same_provider (ContextTooLong _) = True"
| "retryable_same_provider ContentFiltered = False"
| "retryable_same_provider EmptyResponse = True"

fun failover_eligible :: "error_class \<Rightarrow> bool" where
  "failover_eligible (RateLimited _) = True"
| "failover_eligible Unavailable = True"
| "failover_eligible AuthFailed = True"
| "failover_eligible BadRequest = False"
| "failover_eligible (ContextTooLong _) = False"
| "failover_eligible ContentFiltered = False"
| "failover_eligible EmptyResponse = True"

fun breaker_eligible :: "error_class \<Rightarrow> bool" where
  "breaker_eligible (RateLimited _) = True"
| "breaker_eligible Unavailable = True"
| "breaker_eligible AuthFailed = True"
| "breaker_eligible BadRequest = False"
| "breaker_eligible (ContextTooLong _) = False"
| "breaker_eligible ContentFiltered = False"
| "breaker_eligible EmptyResponse = False"

fun alert :: "error_class \<Rightarrow> bool" where
  "alert AuthFailed = True"
| "alert _ = False"

fun error_code :: "error_class \<Rightarrow> string" where
  "error_code (RateLimited _) = ''rate_limited''"
| "error_code Unavailable = ''provider_unavailable''"
| "error_code AuthFailed = ''provider_auth_failed''"
| "error_code BadRequest = ''bad_request''"
| "error_code (ContextTooLong _) = ''context_too_long''"
| "error_code ContentFiltered = ''content_filtered''"
| "error_code EmptyResponse = ''empty_response''"

fun is_rate_limited :: "error_class \<Rightarrow> bool" where
  "is_rate_limited (RateLimited _) = True"
| "is_rate_limited _ = False"

fun is_context_too_long :: "error_class \<Rightarrow> bool" where
  "is_context_too_long (ContextTooLong _) = True"
| "is_context_too_long _ = False"

fun is_bad_request :: "error_class \<Rightarrow> bool" where
  "is_bad_request BadRequest = True"
| "is_bad_request (ContextTooLong _) = True"
| "is_bad_request _ = False"

text \<open>The retry hint is declared on \<open>RateLimited\<close> only.\<close>

fun retry_after_s :: "error_class \<Rightarrow> pyfloat option" where
  "retry_after_s (RateLimited r) = r"
| "retry_after_s _ = None"

subsection \<open>Translation to the client-facing errors\<close>

datatype app_error_class = InvalidRequest | UpstreamUnavailable

record AppError =
  ae_class :: app_error_class
  ae_code :: string
  ae_message :: string
  ae_limit_tokens :: "int option"
  ae_retry_after :: "int option"

fun ae_status_code :: "app_error_class \<Rightarrow> int" where
  "ae_status_code InvalidRequest = 400"
| "ae_status_code UpstreamUnavailable = 502"

definition client_facing_message :: "string \<Rightarrow> string option" where
  "client_facing_message = map_of
    [(''bad_request'', ''The request could not be processed by the model provider.''),
     (''context_too_long'', ''This conversation is too long for the selected model.''),
     (''content_filtered'', ''The model declined to answer this request.''),
     (''rate_limited'', ''The model provider is rate limiting this gateway. Try again shortly.''),
     (''provider_auth_failed'', ''The gateway could not authenticate with the model provider.''),
     (''provider_unavailable'', ''The model provider is currently unavailable.''),
     (''empty_response'', ''The model returned an empty response.'')]"

text \<open>
  \<^verbatim>\<open>details["limit_tokens"]\<close> and the \<^verbatim>\<open>Retry-After\<close> header are the only details and headers the
  translation ever sets; \<^verbatim>\<open>int(x)\<close> on a float truncates towards zero.
\<close>

definition py_int_of_float :: "pyfloat \<Rightarrow> int" where
  "py_int_of_float x = (if 0 \<le> x then \<lfloor>x\<rfloor> else \<lceil>x\<rceil>)"

definition to_app_error :: "ProviderError \<Rightarrow> AppError" where
  "to_app_error exc =
    (let c = pe_class exc;
         code = error_code c;
         message = (case client_facing_message code of
                      Some m \<Rightarrow> m | None \<Rightarrow> ''The request could not be completed.'');
         base = \<lparr>ae_class = UpstreamUnavailable, ae_code = code, ae_message = message,
                 ae_limit_tokens = None, ae_retry_after = None\<rparr>
     in case c of
          ContextTooLong limit \<Rightarrow> base\<lparr>ae_class := InvalidRequest, ae_limit_tokens := limit\<rparr>
        | ContentFiltered \<Rightarrow> base\<lparr>ae_class := InvalidRequest\<rparr>
        | BadRequest \<Rightarrow> base
        | RateLimited r \<Rightarrow> base\<lparr>ae_retry_after := map_option py_int_of_float r\<rparr>
        | _ \<Rightarrow> base)"

subsection \<open>Facts about the flags\<close>

text \<open>What the failover loop reads off the table of flags.\<close>

lemma retryable_only:
  "retryable_same_provider c \<Longrightarrow> \<not> failover_eligible c \<Longrightarrow> is_context_too_long c"
  by (cases c) auto

lemma breaker_eligible_failover: "breaker_eligible c \<Longrightarrow> failover_eligible c"
  by (cases c) auto

lemma rate_limited_flags: "is_rate_limited c \<Longrightarrow>
  \<not> retryable_same_provider c \<and> failover_eligible c \<and> breaker_eligible c"
  by (cases c) auto

lemma client_facing_message_total: "client_facing_message (error_code c) \<noteq> None"
  by (cases c) (auto simp: client_facing_message_def)

text \<open>Only failures a client can act on become 4xx.\<close>

lemma to_app_error_status:
  "ae_status_code (ae_class (to_app_error exc)) =
     (if is_context_too_long (pe_class exc) \<or> pe_class exc = ContentFiltered then 400 else 502)"
  by (cases "pe_class exc") (auto simp: to_app_error_def Let_def)

end
