(* ===== verification/Gw_Json.thy ===== *)
theory Gw_Json
  imports Gw_Prelude
begin

text \<open>
  JSON values as Python holds them after \<^verbatim>\<open>json.loads\<close>. An object is a list of fields; a dict read from JSON has
  each key once.
\<close>

datatype json = JNull | JBool bool | JInt int | JFloat pyfloat | JStr string | JArr "json list" | JObj "(string \<times> json) list"

definition jget :: "(string \<times> json) list \<Rightarrow> string \<Rightarrow> json" where
  "jget kvs k = (case map_of kvs k of Some v \<Rightarrow> v | None \<Rightarrow> JNull)"

text \<open>\<^verbatim>\<open>raw.get(key, default)\<close>.\<close>

definition jget_or :: "(string \<times> json) list \<Rightarrow> string \<Rightarrow> json \<Rightarrow> json" where
  "jget_or kvs k d = (case map_of kvs k of Some v \<Rightarrow> v | None \<Rightarrow> d)"

fun is_int :: "json \<Rightarrow> bool" where
  "is_int (JInt _) = True"
| "is_int _ = False"

fun is_str :: "json \<Rightarrow> bool" where
  "is_str (JStr _) = True"
| "is_str _ = False"

lemma json_shapes [simp]:
  "is_str v \<longleftrightarrow> (\<exists>s. v = JStr s)" "is_int v \<longleftrightarrow> (\<exists>n. v = JInt n)"
  by (cases v; simp)+

lemma jget_list [simp]: "jget [] k = JNull" "jget ((a, v) # kvs) k = (if k = a then v else jget kvs k)"
  by (simp_all add: jget_def)

end
