(* ===== verification/Gw_Redis.thy ===== *)
theory Gw_Redis
  imports Gw_Prelude Gw_Json
begin

text \<open>
  The interface to Redis. Redis is a service outside the repository, so its commands are a
  parameter of every definition that issues one: a record \<open>'r redis\<close> of operations on an opaque
  server state \<open>'r\<close>. The locale \<open>redis_server\<close> states what the source relies on, the documented
  effect of each command on the keyspace that the server state represents (\<open>view\<close>). The locale is
  interpreted on \<open>mem_redis\<close>, an in-memory keyspace, which is also what the witnesses run on.

  The Python client reaches the server over a connection that can fail. A \<open>world\<close> is the server
  with a schedule: for each command in turn, what happened to the keyspace since the previous one
  (other workers, keys expiring) and whether the command raised, before or after taking effect.
\<close>

subsection \<open>Values\<close>

text \<open>
  A value at rest is text. \<open>FInt n\<close> is the decimal text of an integer, \<open>FFloat x\<close> the text of a
  Python float (\<^verbatim>\<open>float(str(x)) == x\<close>), \<open>FJson j\<close> the text \<^verbatim>\<open>json.dumps\<close> writes of an array or an
  object, \<open>FText s\<close> any other text.
\<close>

datatype fval = FInt int | FFloat pyfloat | FJson json | FText string

text \<open>\<^verbatim>\<open>json.loads\<close>; \<open>None\<close> is its \<^verbatim>\<open>ValueError\<close>.\<close>

fun json_loads :: "fval \<Rightarrow> json option" where
  "json_loads (FInt n) = Some (JInt n)"
| "json_loads (FFloat x) = Some (JFloat x)"
| "json_loads (FJson j) = Some j"
| "json_loads (FText s) = None"

datatype rentry = RStr fval | RHash "string \<rightharpoonup> fval"

text \<open>A keyspace: live keys only, each with its remaining time to live in seconds, if any.\<close>

type_synonym keyspace = "string \<rightharpoonup> rentry \<times> int option"

subsection \<open>The commands\<close>

record 'r redis =
  rd_get :: "string \<Rightarrow> 'r \<Rightarrow> fval option"
  rd_exists :: "string \<Rightarrow> 'r \<Rightarrow> bool"
  rd_ttl :: "string \<Rightarrow> 'r \<Rightarrow> int"
  rd_incrby :: "string \<Rightarrow> int \<Rightarrow> 'r \<Rightarrow> int \<times> 'r"
  rd_expire :: "string \<Rightarrow> int \<Rightarrow> 'r \<Rightarrow> 'r"
  rd_set_ex :: "string \<Rightarrow> fval \<Rightarrow> int \<Rightarrow> 'r \<Rightarrow> 'r"
  rd_set_keepttl :: "string \<Rightarrow> fval \<Rightarrow> 'r \<Rightarrow> 'r"
  rd_set_nx_ex :: "string \<Rightarrow> fval \<Rightarrow> int \<Rightarrow> 'r \<Rightarrow> bool \<times> 'r"
  rd_del :: "string \<Rightarrow> 'r \<Rightarrow> 'r"
  rd_hgetall :: "string \<Rightarrow> 'r \<Rightarrow> (string \<rightharpoonup> fval)"
  rd_hset :: "string \<Rightarrow> (string \<times> fval) list \<Rightarrow> 'r \<Rightarrow> 'r"
  rd_hsetnx :: "string \<Rightarrow> string \<Rightarrow> fval \<Rightarrow> 'r \<Rightarrow> bool \<times> 'r"
  rd_hincrby :: "string \<Rightarrow> string \<Rightarrow> int \<Rightarrow> 'r \<Rightarrow> int \<times> 'r"
  rd_hdel :: "string \<Rightarrow> string \<Rightarrow> 'r \<Rightarrow> 'r"

text \<open>\<^verbatim>\<open>HGET\<close> is \<^verbatim>\<open>HGETALL\<close> at one field.\<close>

definition rd_hget :: "'r redis \<Rightarrow> string \<Rightarrow> string \<Rightarrow> 'r \<Rightarrow> fval option" where
  "rd_hget R k f s = rd_hgetall R k s f"

subsection \<open>What the commands do to a keyspace\<close>

definition ks_ttl :: "keyspace \<Rightarrow> string \<Rightarrow> int" where
  "ks_ttl v k = (case v k of None \<Rightarrow> -2 | Some (_, None) \<Rightarrow> -1 | Some (_, Some t) \<Rightarrow> t)"

text \<open>A counter key is absent or holds an integer; a hash key is absent or holds a hash.\<close>

definition counter_at :: "keyspace \<Rightarrow> string \<Rightarrow> bool" where
  "counter_at v k \<longleftrightarrow> (case v k of None \<Rightarrow> True | Some (RStr (FInt _), _) \<Rightarrow> True | _ \<Rightarrow> False)"

definition hash_at :: "keyspace \<Rightarrow> string \<Rightarrow> bool" where
  "hash_at v k \<longleftrightarrow> (case v k of None \<Rightarrow> True | Some (RHash _, _) \<Rightarrow> True | _ \<Rightarrow> False)"

definition string_at :: "keyspace \<Rightarrow> string \<Rightarrow> bool" where
  "string_at v k \<longleftrightarrow> (case v k of None \<Rightarrow> True | Some (RStr _, _) \<Rightarrow> True | _ \<Rightarrow> False)"

definition ks_get :: "keyspace \<Rightarrow> string \<Rightarrow> fval option" where
  "ks_get v k = (case v k of Some (RStr x, _) \<Rightarrow> Some x | _ \<Rightarrow> None)"

definition ks_count :: "keyspace \<Rightarrow> string \<Rightarrow> int" where
  "ks_count v k = (case v k of Some (RStr (FInt n), _) \<Rightarrow> n | _ \<Rightarrow> 0)"

definition ks_expiry :: "keyspace \<Rightarrow> string \<Rightarrow> int option" where
  "ks_expiry v k = (case v k of Some (_, t) \<Rightarrow> t | None \<Rightarrow> None)"

definition ks_hash :: "keyspace \<Rightarrow> string \<Rightarrow> (string \<rightharpoonup> fval)" where
  "ks_hash v k = (case v k of Some (RHash h, _) \<Rightarrow> h | _ \<Rightarrow> Map.empty)"

fun fval_int :: "fval \<Rightarrow> int" where
  "fval_int (FInt n) = n"
| "fval_int _ = 0"

definition ks_hcount :: "keyspace \<Rightarrow> string \<Rightarrow> string \<Rightarrow> int" where
  "ks_hcount v k f = (case ks_hash v k f of Some (FInt n) \<Rightarrow> n | _ \<Rightarrow> 0)"

definition int_field :: "keyspace \<Rightarrow> string \<Rightarrow> string \<Rightarrow> bool" where
  "int_field v k f \<longleftrightarrow> (case ks_hash v k f of None \<Rightarrow> True | Some (FInt _) \<Rightarrow> True | _ \<Rightarrow> False)"

definition ks_expire :: "string \<Rightarrow> int \<Rightarrow> keyspace \<Rightarrow> keyspace" where
  "ks_expire k t v = (case v k of None \<Rightarrow> v
     | Some (e, _) \<Rightarrow> if t \<le> 0 then v(k := None) else v(k \<mapsto> (e, Some t)))"

definition ks_put_hash :: "string \<Rightarrow> (string \<rightharpoonup> fval) \<Rightarrow> keyspace \<Rightarrow> keyspace" where
  "ks_put_hash k h v = v(k \<mapsto> (RHash h, ks_expiry v k))"

text \<open>\<^verbatim>\<open>HDEL\<close> of the last field removes the key.\<close>

definition ks_hdel :: "string \<Rightarrow> string \<Rightarrow> keyspace \<Rightarrow> keyspace" where
  "ks_hdel k f v = (case v k of
      Some (RHash h, t) \<Rightarrow> (let h' = h(f := None) in if h' = Map.empty then v(k := None)
                             else v(k \<mapsto> (RHash h', t)))
    | _ \<Rightarrow> v)"

subsection \<open>The contract\<close>

locale redis_server =
  fixes R :: "'r redis" and view :: "'r \<Rightarrow> keyspace"
  assumes get_spec: "string_at (view s) k \<Longrightarrow> rd_get R k s = ks_get (view s) k"
    and exists_spec: "rd_exists R k s \<longleftrightarrow> view s k \<noteq> None"
    and ttl_spec: "rd_ttl R k s = ks_ttl (view s) k"
    and incrby_reply: "counter_at (view s) k \<Longrightarrow> fst (rd_incrby R k d s) = ks_count (view s) k + d"
    and incrby_view: "counter_at (view s) k \<Longrightarrow> view (snd (rd_incrby R k d s)) =
          (view s)(k \<mapsto> (RStr (FInt (ks_count (view s) k + d)), ks_expiry (view s) k))"
    and expire_view: "view (rd_expire R k t s) = ks_expire k t (view s)"
    and set_ex_view: "0 < t \<Longrightarrow> view (rd_set_ex R k x t s) = (view s)(k \<mapsto> (RStr x, Some t))"
    and set_keepttl_view:
          "view (rd_set_keepttl R k x s) = (view s)(k \<mapsto> (RStr x, ks_expiry (view s) k))"
    and set_nx_reply: "fst (rd_set_nx_ex R k x t s) \<longleftrightarrow> view s k = None"
    and set_nx_view: "0 < t \<Longrightarrow> view (snd (rd_set_nx_ex R k x t s)) =
          (if view s k = None then (view s)(k \<mapsto> (RStr x, Some t)) else view s)"
    and del_view: "view (rd_del R k s) = (view s)(k := None)"
    and hgetall_spec: "hash_at (view s) k \<Longrightarrow> rd_hgetall R k s = ks_hash (view s) k"
    and hset_view: "hash_at (view s) k \<Longrightarrow> fs \<noteq> [] \<Longrightarrow> view (rd_hset R k fs s) =
          ks_put_hash k (ks_hash (view s) k ++ map_of (rev fs)) (view s)"
    and hsetnx_reply: "hash_at (view s) k \<Longrightarrow>
          fst (rd_hsetnx R k f x s) \<longleftrightarrow> ks_hash (view s) k f = None"
    and hsetnx_view: "hash_at (view s) k \<Longrightarrow> view (snd (rd_hsetnx R k f x s)) =
          (if ks_hash (view s) k f = None
           then ks_put_hash k ((ks_hash (view s) k)(f \<mapsto> x)) (view s) else view s)"
    and hincrby_reply: "hash_at (view s) k \<Longrightarrow> int_field (view s) k f \<Longrightarrow>
          fst (rd_hincrby R k f d s) = ks_hcount (view s) k f + d"
    and hincrby_view: "hash_at (view s) k \<Longrightarrow> int_field (view s) k f \<Longrightarrow>
          view (snd (rd_hincrby R k f d s)) =
          ks_put_hash k ((ks_hash (view s) k)(f \<mapsto> FInt (ks_hcount (view s) k f + d))) (view s)"
    and hdel_view: "hash_at (view s) k \<Longrightarrow> view (rd_hdel R k f s) = ks_hdel k f (view s)"
begin

lemmas redis_laws = get_spec exists_spec ttl_spec incrby_reply incrby_view expire_view set_ex_view
  set_keepttl_view set_nx_reply set_nx_view del_view hgetall_spec hset_view hsetnx_reply
  hsetnx_view hincrby_reply hincrby_view hdel_view

end

subsection \<open>An in-memory server\<close>

definition mem_redis :: "keyspace redis" where
  "mem_redis = \<lparr>
     rd_get = (\<lambda>k v. ks_get v k),
     rd_exists = (\<lambda>k v. v k \<noteq> None),
     rd_ttl = (\<lambda>k v. ks_ttl v k),
     rd_incrby = (\<lambda>k d v. let n = ks_count v k + d
                           in (n, v(k \<mapsto> (RStr (FInt n), ks_expiry v k)))),
     rd_expire = ks_expire,
     rd_set_ex = (\<lambda>k x t v. v(k \<mapsto> (RStr x, Some t))),
     rd_set_keepttl = (\<lambda>k x v. v(k \<mapsto> (RStr x, ks_expiry v k))),
     rd_set_nx_ex = (\<lambda>k x t v. if v k = None then (True, v(k \<mapsto> (RStr x, Some t))) else (False, v)),
     rd_del = (\<lambda>k v. v(k := None)),
     rd_hgetall = (\<lambda>k v. ks_hash v k),
     rd_hset = (\<lambda>k fs v. ks_put_hash k (ks_hash v k ++ map_of (rev fs)) v),
     rd_hsetnx = (\<lambda>k f x v. if ks_hash v k f = None
                             then (True, ks_put_hash k ((ks_hash v k)(f \<mapsto> x)) v) else (False, v)),
     rd_hincrby = (\<lambda>k f d v. let n = ks_hcount v k f + d
                              in (n, ks_put_hash k ((ks_hash v k)(f \<mapsto> FInt n)) v)),
     rd_hdel = ks_hdel\<rparr>"

interpretation mem: redis_server mem_redis "\<lambda>v. v"
  by unfold_locales (simp_all add: mem_redis_def Let_def)

lemma mem_redis_server: "redis_server mem_redis (\<lambda>v. v)"
  by (rule mem.redis_server_axioms)

subsection \<open>Facts on keyspaces\<close>

lemma counter_at_upd [redis_simps]:
  "counter_at (v(k' \<mapsto> (RStr (FInt n), t))) k \<longleftrightarrow> k = k' \<or> counter_at v k"
  "k \<noteq> k' \<Longrightarrow> counter_at (v(k' := e)) k \<longleftrightarrow> counter_at v k"
  by (auto simp: counter_at_def)

lemma ks_count_upd [redis_simps]:
  "ks_count (v(k' \<mapsto> (RStr (FInt n), t))) k = (if k = k' then n else ks_count v k)"
  "k \<noteq> k' \<Longrightarrow> ks_count (v(k' := e)) k = ks_count v k"
  by (auto simp: ks_count_def)

lemma ks_expire_other [redis_simps]: "k \<noteq> k' \<Longrightarrow> ks_expire k' t v k = v k"
  by (auto simp: ks_expire_def split: option.splits)

lemma ks_put_hash_other [redis_simps]: "k \<noteq> k' \<Longrightarrow> ks_put_hash k' h v k = v k"
  by (simp add: ks_put_hash_def)

lemma ks_hash_put [redis_simps]:
  "ks_hash (ks_put_hash k' h v) k = (if k = k' then h else ks_hash v k)"
  by (auto simp: ks_put_hash_def ks_hash_def)

lemma hash_at_put [redis_simps]: "hash_at (ks_put_hash k' h v) k \<longleftrightarrow> k = k' \<or> hash_at v k"
  by (auto simp: ks_put_hash_def hash_at_def)

lemma ks_same_key:
  assumes "v k = v' k"
  shows "counter_at v k = counter_at v' k" "ks_count v k = ks_count v' k"
    "hash_at v k = hash_at v' k" "ks_hash v k = ks_hash v' k" "ks_ttl v k = ks_ttl v' k"
    "ks_expiry v k = ks_expiry v' k" "ks_get v k = ks_get v' k" "string_at v k = string_at v' k"
  using assms by (auto simp: counter_at_def ks_count_def hash_at_def ks_hash_def ks_ttl_def
      ks_expiry_def ks_get_def string_at_def)

lemma counter_string: "counter_at v k \<Longrightarrow> string_at v k"
  by (auto simp: counter_at_def string_at_def split: option.splits rentry.splits)

text \<open>With a positive lifetime, \<^verbatim>\<open>EXPIRE\<close> changes nothing but the lifetime.\<close>

lemma ks_expire_pos:
  assumes "0 < t"
  shows "ks_count (ks_expire k t v) k' = ks_count v k'"
    "counter_at (ks_expire k t v) k' = counter_at v k'"
    "ks_hash (ks_expire k t v) k' = ks_hash v k'"
    "hash_at (ks_expire k t v) k' = hash_at v k'"
    "(ks_expire k t v k' = None) = (v k' = None)"
    "v k \<noteq> None \<Longrightarrow> ks_ttl (ks_expire k t v) k = t"
  using assms
  by (auto simp: ks_expire_def ks_count_def counter_at_def ks_hash_def hash_at_def ks_ttl_def
      split: option.splits)

subsection \<open>The client's connection\<close>

text \<open>
  What happens to one command the client sends: it runs and the reply arrives; it is never run; or
  it runs and the reply is lost. The last two raise in the client.
\<close>

datatype delivery = Delivered | NotSent | ReplyLost

record 'r world =
  wd_srv :: 'r
  wd_sent :: nat
  wd_link :: "nat \<Rightarrow> delivery"
  wd_between :: "nat \<Rightarrow> 'r \<Rightarrow> 'r"

definition client_call :: "('r \<Rightarrow> 'a \<times> 'r) \<Rightarrow> 'r world \<Rightarrow> 'a option \<times> 'r world" where
  "client_call op w =
    (let n = wd_sent w; s = wd_between w n (wd_srv w); w' = w\<lparr>wd_sent := Suc n, wd_srv := s\<rparr>
     in case wd_link w n of
          Delivered \<Rightarrow> (let (x, s') = op s in (Some x, w'\<lparr>wd_srv := s'\<rparr>))
        | NotSent \<Rightarrow> (None, w')
        | ReplyLost \<Rightarrow> (None, w'\<lparr>wd_srv := snd (op s)\<rparr>))"

text \<open>A read-only command and a command with no interesting reply, as operations.\<close>

definition reading :: "('r \<Rightarrow> 'a) \<Rightarrow> 'r \<Rightarrow> 'a \<times> 'r" where
  "reading f s = (f s, s)"

definition writing :: "('r \<Rightarrow> 'r) \<Rightarrow> 'r \<Rightarrow> unit \<times> 'r" where
  "writing f s = ((), f s)"

text \<open>
  Sequencing of client calls: a raised exception (\<open>None\<close>) leaves the \<^verbatim>\<open>try\<close> block at once.
\<close>

definition cbind :: "('w \<Rightarrow> 'a option \<times> 'w) \<Rightarrow> ('a \<Rightarrow> 'w \<Rightarrow> 'b option \<times> 'w) \<Rightarrow> 'w \<Rightarrow> 'b option \<times> 'w" where
  "cbind m f w = (case m w of (None, w') \<Rightarrow> (None, w') | (Some x, w') \<Rightarrow> f x w')"

definition creturn :: "'a \<Rightarrow> 'w \<Rightarrow> 'a option \<times> 'w" where
  "creturn x w = (Some x, w)"

text \<open>A quiet world: nobody else acts, every command is delivered.\<close>

definition quiet :: "'r world \<Rightarrow> bool" where
  "quiet w \<longleftrightarrow> (\<forall>n. wd_link w n = Delivered) \<and> (\<forall>n s. wd_between w n s = s)"

definition calm :: "'r \<Rightarrow> 'r world" where
  "calm s = \<lparr>wd_srv = s, wd_sent = 0, wd_link = (\<lambda>_. Delivered), wd_between = (\<lambda>_ s. s)\<rparr>"

lemma quiet_calm [simp]: "quiet (calm s)"
  by (simp add: quiet_def calm_def)

lemma calm_srv [simp]: "wd_srv (calm s) = s"
  by (simp add: calm_def)

lemma client_call_quiet:
  assumes "quiet w"
  shows "client_call op w = (Some (fst (op (wd_srv w))),
           w\<lparr>wd_sent := Suc (wd_sent w), wd_srv := snd (op (wd_srv w))\<rparr>)"
  using assms by (simp add: client_call_def quiet_def Let_def split_beta)

lemma quiet_upd [simp]: "quiet (w\<lparr>wd_sent := n, wd_srv := s\<rparr>) = quiet w"
  "quiet (w\<lparr>wd_sent := n\<rparr>) = quiet w" "quiet (w\<lparr>wd_srv := s\<rparr>) = quiet w"
  by (auto simp: quiet_def)

text \<open>A world whose connection is down: no command ever reaches the server or is answered.\<close>

definition link_down :: "'r world \<Rightarrow> bool" where
  "link_down w \<longleftrightarrow> (\<forall>n. wd_link w n \<noteq> Delivered)"

lemma client_call_down: "link_down w \<Longrightarrow> fst (client_call op w) = None"
  by (auto simp: client_call_def link_down_def Let_def split: delivery.splits)

lemmas cmd_defs = cbind_def creturn_def reading_def writing_def

end
