(* ===== verification/Gw_Scripts.thy ===== *)
theory Gw_Scripts
  imports Gw_Redis
begin

text \<open>
  The three Lua scripts of \<^verbatim>\<open>app/quota/scripts\<close>. Redis runs a script to completion before it serves
  another command, so each is one function on the server state. \<^verbatim>\<open>KEYS\<close> and \<^verbatim>\<open>ARGV\<close> come as a list
  of blocks, one per window, each with its counter key.
\<close>

subsection \<open>reserve.lua\<close>

record rblock =
  rb_key :: string
  rb_name :: string
  rb_limit :: int
  rb_cost :: int
  rb_ttl :: int
  rb_refresh :: bool

datatype reserve_reply = Reserved | Blocked string int

text \<open>\<^verbatim>\<open>tonumber(redis.call('GET', key)) or 0\<close>; counters only ever hold integers.\<close>

definition lua_count :: "'r redis \<Rightarrow> string \<Rightarrow> 'r \<Rightarrow> int" where
  "lua_count R k s = (case rd_get R k s of None \<Rightarrow> 0 | Some x \<Rightarrow> fval_int x)"

definition lua_hcount :: "'r redis \<Rightarrow> string \<Rightarrow> string \<Rightarrow> 'r \<Rightarrow> int" where
  "lua_hcount R k f s = (case rd_hget R k f s of None \<Rightarrow> 0 | Some x \<Rightarrow> fval_int x)"

text \<open>Pass 1: the first window that cannot afford the cost, with its remaining lifetime.\<close>

fun reserve_check :: "'r redis \<Rightarrow> rblock list \<Rightarrow> 'r \<Rightarrow> (string \<times> int) option" where
  "reserve_check R [] s = None"
| "reserve_check R (b # bs) s =
    (if lua_count R (rb_key b) s + rb_cost b > rb_limit b
     then Some (rb_name b, (let t = rd_ttl R (rb_key b) s in if t < 0 then 0 else t))
     else reserve_check R bs s)"

text \<open>Pass 2, one window: increment, set the lifetime where it must be set, record the cost.\<close>

definition reserve_spend1 :: "'r redis \<Rightarrow> string \<Rightarrow> rblock \<Rightarrow> 'r \<Rightarrow> 'r" where
  "reserve_spend1 R res_key b s =
    (let (value, s1) = rd_incrby R (rb_key b) (rb_cost b) s;
         s2 = (if rb_refresh b \<or> value = rb_cost b \<or> rd_ttl R (rb_key b) s1 < 0
               then rd_expire R (rb_key b) (rb_ttl b) s1 else s1)
     in snd (rd_hincrby R res_key (rb_name b) (rb_cost b) s2))"

fun reserve_spend :: "'r redis \<Rightarrow> string \<Rightarrow> rblock list \<Rightarrow> 'r \<Rightarrow> 'r" where
  "reserve_spend R res_key [] s = s"
| "reserve_spend R res_key (b # bs) s = reserve_spend R res_key bs (reserve_spend1 R res_key b s)"

definition reserve_script ::
  "'r redis \<Rightarrow> string \<Rightarrow> rblock list \<Rightarrow> int \<Rightarrow> string \<Rightarrow> 'r \<Rightarrow> reserve_reply \<times> 'r" where
  "reserve_script R res_key bs res_ttl request_id s =
    (case reserve_check R bs s of
       Some (name, ttl) \<Rightarrow> (Blocked name ttl, s)
     | None \<Rightarrow>
         (let s1 = reserve_spend R res_key bs s;
              s2 = snd (rd_hsetnx R res_key ''request_id'' (FText request_id) s1)
          in (Reserved, rd_expire R res_key res_ttl s2)))"

subsection \<open>commit.lua\<close>

record cblock =
  cb_key :: string
  cb_name :: string
  cb_actual :: int
  cb_ttl :: int
  cb_refresh :: bool

definition commit1 :: "'r redis \<Rightarrow> string \<Rightarrow> cblock \<Rightarrow> 'r \<Rightarrow> 'r" where
  "commit1 R res_key c s =
    (let reserved = lua_hcount R res_key (cb_name c) s;
         delta = cb_actual c - reserved
     in if 0 < delta then
          (let s1 = snd (rd_incrby R (cb_key c) delta s)
           in if cb_refresh c \<or> rd_ttl R (cb_key c) s1 < 0
              then rd_expire R (cb_key c) (cb_ttl c) s1 else s1)
        else if delta < 0 \<and> rd_exists R (cb_key c) s then
          (let (value, s1) = rd_incrby R (cb_key c) delta s
           in if value < 0 then snd (rd_incrby R (cb_key c) (- value) s1) else s1)
        else s)"

definition commit_script :: "'r redis \<Rightarrow> string \<Rightarrow> cblock list \<Rightarrow> 'r \<Rightarrow> bool \<times> 'r" where
  "commit_script R res_key cs s =
    (if \<not> rd_exists R res_key s then (False, s)
     else (True, rd_del R res_key (fold (commit1 R res_key) cs s)))"

subsection \<open>release.lua\<close>

definition release1 :: "'r redis \<Rightarrow> string \<Rightarrow> string \<times> string \<Rightarrow> 'r \<Rightarrow> 'r" where
  "release1 R res_key nk s =
    (let (name, counter_key) = nk;
         reserved = lua_hcount R res_key name s
     in if 0 < reserved \<and> rd_exists R counter_key s then
          (let (value, s1) = rd_incrby R counter_key (- reserved) s
           in if value < 0 then snd (rd_incrby R counter_key (- value) s1) else s1)
        else s)"

definition release_script :: "'r redis \<Rightarrow> string \<Rightarrow> (string \<times> string) list \<Rightarrow> 'r \<Rightarrow> bool \<times> 'r" where
  "release_script R res_key nks s =
    (if \<not> rd_exists R res_key s then (False, s)
     else (True, rd_del R res_key (fold (release1 R res_key) nks s)))"

subsection \<open>Well-formed arguments\<close>

text \<open>
  What the tracker guarantees about a call: lifetimes are positive, the reservation key is none of
  the counters, no window is called \<open>request_id\<close>, and the keys hold what they should.
\<close>

definition spend_ok :: "keyspace \<Rightarrow> string \<Rightarrow> rblock list \<Rightarrow> bool" where
  "spend_ok v rk bs \<longleftrightarrow> hash_at v rk \<and> (\<forall>f. f \<noteq> ''request_id'' \<longrightarrow> int_field v rk f) \<and>
     (\<forall>b\<in>set bs. counter_at v (rb_key b) \<and> rb_key b \<noteq> rk \<and> 0 < rb_ttl b \<and> rb_name b \<noteq> ''request_id'')"

abbreviation cost_on :: "rblock list \<Rightarrow> string \<Rightarrow> int" where
  "cost_on bs k \<equiv> (\<Sum>b\<leftarrow>bs. if rb_key b = k then rb_cost b else 0)"

abbreviation cost_named :: "rblock list \<Rightarrow> string \<Rightarrow> int" where
  "cost_named bs f \<equiv> (\<Sum>b\<leftarrow>bs. if rb_name b = f then rb_cost b else 0)"

lemma cost_on_distinct:
  "distinct (map rb_key bs) \<Longrightarrow> b \<in> set bs \<Longrightarrow> cost_on bs (rb_key b) = rb_cost b"
proof (induction bs)
  case (Cons a bs)
  have zero: "rb_key a \<notin> rb_key ` set bs \<Longrightarrow> cost_on bs (rb_key a) = 0"
    by (induction bs) auto
  with Cons show ?case by auto
qed simp

lemma cost_on_notin: "k \<notin> rb_key ` set bs \<Longrightarrow> cost_on bs k = 0"
  by (induction bs) auto

lemma cost_named_distinct:
  "distinct (map rb_name bs) \<Longrightarrow> b \<in> set bs \<Longrightarrow> cost_named bs (rb_name b) = rb_cost b"
proof (induction bs)
  case (Cons a bs)
  have zero: "rb_name a \<notin> rb_name ` set bs \<Longrightarrow> cost_named bs (rb_name a) = 0"
    by (induction bs) auto
  with Cons show ?case by auto
qed simp

text \<open>Both settling scripts walk a list of counters, moving each one by an amount read off the
  reservation and never below zero. What one step needs and what a whole walk does:\<close>

definition settle_pre :: "keyspace \<Rightarrow> string \<Rightarrow> string \<Rightarrow> bool" where
  "settle_pre v rk k \<longleftrightarrow> hash_at v rk \<and> counter_at v k \<and> k \<noteq> rk \<and> 0 \<le> ks_count v k"

definition settles :: "keyspace \<Rightarrow> keyspace \<Rightarrow> string \<Rightarrow> int \<Rightarrow> bool" where
  "settles v v' k d \<longleftrightarrow> (\<forall>k'. k' \<noteq> k \<longrightarrow> v' k' = v k') \<and> counter_at v' k \<and>
     ks_count v' k = max 0 (ks_count v k + d)"

subsection \<open>Effect of the scripts\<close>

context redis_server
begin

lemma lua_count_view: "counter_at (view s) k \<Longrightarrow> lua_count R k s = ks_count (view s) k"
  using get_spec [OF counter_string, of s k]
  by (auto simp: lua_count_def ks_get_def ks_count_def counter_at_def
      split: option.splits rentry.splits fval.splits)

lemma lua_hcount_view: "hash_at (view s) k \<Longrightarrow> lua_hcount R k f s = ks_hcount (view s) k f"
  by (auto simp: lua_hcount_def rd_hget_def hgetall_spec ks_hcount_def
      split: option.splits fval.splits)

lemma reserve_check_None:
  assumes "\<forall>b\<in>set bs. counter_at (view s) (rb_key b)"
  shows "reserve_check R bs s = None \<longleftrightarrow>
     (\<forall>b\<in>set bs. ks_count (view s) (rb_key b) + rb_cost b \<le> rb_limit b)"
  using assms by (induction bs) (auto simp: lua_count_view)

lemma reserve_check_Some:
  assumes "\<forall>b\<in>set bs. counter_at (view s) (rb_key b)" "reserve_check R bs s = Some (name, ttl)"
  shows "\<exists>b\<in>set bs. rb_name b = name \<and> ks_count (view s) (rb_key b) + rb_cost b > rb_limit b
     \<and> ttl = max 0 (ks_ttl (view s) (rb_key b))"
  using assms by (induction bs) (auto simp: lua_count_view ttl_spec Let_def split: if_splits)

lemma ks_hcount_put [redis_simps]:
  "ks_hcount (ks_put_hash rk h v) k f =
     (if k = rk then (case h f of Some (FInt n) \<Rightarrow> n | _ \<Rightarrow> 0) else ks_hcount v k f)"
  by (simp add: ks_hcount_def redis_simps)

text \<open>One window's spend: the counter and the reservation field grow by the cost, the counter is
  left with a positive lifetime, and no other key changes.\<close>

lemma spend1_view:
  fixes s :: 'r
  assumes "spend_ok (view s) rk (b # bs)"
  defines "v \<equiv> view s" and "v' \<equiv> view (reserve_spend1 R rk b s)"
  shows "ks_count v' (rb_key b) = ks_count v (rb_key b) + rb_cost b"
    and "ks_ttl v' (rb_key b) = (if rb_refresh b \<or> ks_count v (rb_key b) = 0 \<or> ks_ttl v (rb_key b) < 0
           then rb_ttl b else ks_ttl v (rb_key b))"
    and "k \<noteq> rb_key b \<Longrightarrow> k \<noteq> rk \<Longrightarrow> v' k = v k"
    and "ks_hash v' rk = (ks_hash v rk)(rb_name b \<mapsto> FInt (ks_hcount v rk (rb_name b) + rb_cost b))"
    and "spend_ok v' rk bs"
    and "counter_at v' (rb_key b)"
proof -
  define n where "n = ks_count v (rb_key b) + rb_cost b"
  define s1 where "s1 = snd (rd_incrby R (rb_key b) (rb_cost b) s)"
  define c where "c \<longleftrightarrow> rb_refresh b \<or> n = rb_cost b \<or> ks_ttl (view s1) (rb_key b) < 0"
  define s2 where "s2 = (if c then rd_expire R (rb_key b) (rb_ttl b) s1 else s1)"
  from assms(1) have ctr: "counter_at v (rb_key b)" and ne: "rb_key b \<noteq> rk" and hash: "hash_at v rk"
    and fld: "int_field v rk (rb_name b)" and ttl: "0 < rb_ttl b"
    and rest: "\<forall>b\<in>set bs. counter_at v (rb_key b) \<and> rb_key b \<noteq> rk \<and> 0 < rb_ttl b \<and> rb_name b \<noteq> ''request_id''"
    and flds: "\<forall>f. f \<noteq> ''request_id'' \<longrightarrow> int_field v rk f"
    by (auto simp: spend_ok_def v_def)
  have v1: "view s1 = v(rb_key b \<mapsto> (RStr (FInt n), ks_expiry v (rb_key b)))"
    using ctr by (simp add: s1_def n_def v_def incrby_view)
  have v2: "view s2 = (if c then ks_expire (rb_key b) (rb_ttl b) (view s1) else view s1)"
    by (simp add: s2_def expire_view)
  have same: "view s2 k = v k" if "k \<noteq> rb_key b" for k
    using that by (simp add: v2 v1 redis_simps)
  have rk2: "hash_at (view s2) rk" "ks_hash (view s2) rk = ks_hash v rk"
      "int_field (view s2) rk f = int_field v rk f" "ks_hcount (view s2) rk f = ks_hcount v rk f" for f
    using ks_same_key [of "view s2" rk v] same [of rk] ne hash by (auto simp: int_field_def ks_hcount_def)
  have "v' = view (snd (rd_hincrby R rk (rb_name b) (rb_cost b) s2))"
    using ctr by (simp add: v'_def reserve_spend1_def s2_def c_def s1_def n_def v_def split_beta
        Let_def incrby_reply ttl_spec)
  also have "\<dots> = ks_put_hash rk ((ks_hash v rk)(rb_name b \<mapsto> FInt (ks_hcount v rk (rb_name b) + rb_cost b))) (view s2)"
    using rk2 fld by (simp add: hincrby_view)
  finally have v': "v' = ks_put_hash rk ((ks_hash v rk)(rb_name b \<mapsto>
      FInt (ks_hcount v rk (rb_name b) + rb_cost b))) (view s2)" .
  have k': "v' (rb_key b) = view s2 (rb_key b)" using ne by (simp add: v' redis_simps)
  note same_b = ks_same_key [of v' "rb_key b" "view s2", OF k']
  show "ks_count v' (rb_key b) = ks_count v (rb_key b) + rb_cost b"
    using ttl by (simp add: same_b(2) v2 v1 ks_expire_pos redis_simps n_def)
  have t1: "ks_ttl (view s1) (rb_key b) = (if v (rb_key b) = None then -1 else ks_ttl v (rb_key b))"
    by (auto simp: v1 ks_ttl_def ks_expiry_def split: option.splits)
  then have c: "c \<longleftrightarrow> rb_refresh b \<or> ks_count v (rb_key b) = 0 \<or> ks_ttl v (rb_key b) < 0"
    by (auto simp: c_def n_def ks_ttl_def)
  have "view s1 (rb_key b) \<noteq> None" by (simp add: v1)
  then have "ks_ttl v' (rb_key b) = (if c then rb_ttl b else ks_ttl (view s1) (rb_key b))"
    using ttl by (simp add: same_b(5) v2 ks_expire_pos)
  then show "ks_ttl v' (rb_key b) = (if rb_refresh b \<or> ks_count v (rb_key b) = 0 \<or> ks_ttl v (rb_key b) < 0
      then rb_ttl b else ks_ttl v (rb_key b))"
    using t1 c by (auto simp: ks_ttl_def)
  show other: "v' k = v k" if "k \<noteq> rb_key b" "k \<noteq> rk" for k
    using that by (simp add: v' redis_simps same)
  show "ks_hash v' rk = (ks_hash v rk)(rb_name b \<mapsto> FInt (ks_hcount v rk (rb_name b) + rb_cost b))"
    by (simp add: v' redis_simps)
  show ctr': "counter_at v' (rb_key b)"
    using ttl by (simp add: same_b(1) v2 v1 ks_expire_pos redis_simps)
  have "counter_at v' k" if "counter_at v k" "k \<noteq> rk" for k
    using that ctr' ks_same_key(1) [of v' k v] other [of k] by (cases "k = rb_key b") auto
  then show "spend_ok v' rk bs"
    using rest flds by (auto simp: spend_ok_def v' redis_simps int_field_def)
qed

text \<open>All windows: every counter grows by the costs charged to it, every reservation field by the
  costs recorded under its name.\<close>

lemma spend_view:
  assumes "spend_ok (view s) rk bs"
  shows "(\<forall>k. k \<noteq> rk \<longrightarrow> ks_count (view (reserve_spend R rk bs s)) k = ks_count (view s) k + cost_on bs k) \<and>
    (\<forall>k. k \<noteq> rk \<longrightarrow> k \<notin> rb_key ` set bs \<longrightarrow> view (reserve_spend R rk bs s) k = view s k) \<and>
    (\<forall>f. ks_hcount (view (reserve_spend R rk bs s)) rk f = ks_hcount (view s) rk f + cost_named bs f) \<and>
    spend_ok (view (reserve_spend R rk bs s)) rk [] \<and>
    (\<forall>k. k \<noteq> rk \<longrightarrow> counter_at (view s) k \<longrightarrow> counter_at (view (reserve_spend R rk bs s)) k)"
  using assms
proof (induction bs arbitrary: s)
  case (Cons b bs)
  note one = spend1_view [OF Cons.prems]
  let ?s1 = "reserve_spend1 R rk b s"
  note IH = Cons.IH [OF one(5)]
  have same: "k \<noteq> rk \<Longrightarrow> k \<noteq> rb_key b \<Longrightarrow> ks_count (view ?s1) k = ks_count (view s) k \<and>
      counter_at (view ?s1) k = counter_at (view s) k" for k
    using one(3) [of k] ks_same_key(1,2) [of "view ?s1" k "view s"] by auto
  have cnt: "k \<noteq> rk \<Longrightarrow> ks_count (view ?s1) k = ks_count (view s) k + (if rb_key b = k then rb_cost b else 0)" for k
    using one(1) same [of k] by auto
  have fld: "ks_hcount (view ?s1) rk f = ks_hcount (view s) rk f + (if rb_name b = f then rb_cost b else 0)" for f
    using one(4) by (auto simp: ks_hcount_def)
  have ctr: "k \<noteq> rk \<Longrightarrow> counter_at (view s) k \<Longrightarrow> counter_at (view ?s1) k" for k
    using one(6) same [of k] by (cases "k = rb_key b") auto
  show ?case using IH one(3) ctr by (simp add: cnt fld)
qed (simp add: spend_ok_def)

lemmas spend_count = spend_view [THEN conjunct1, rule_format]
  and spend_other = spend_view [THEN conjunct2, THEN conjunct1, rule_format]
  and spend_field = spend_view [THEN conjunct2, THEN conjunct2, THEN conjunct1, rule_format]
  and spend_keeps = spend_view [THEN conjunct2, THEN conjunct2, THEN conjunct2, THEN conjunct1]
  and spend_counter = spend_view [THEN conjunct2, THEN conjunct2, THEN conjunct2, THEN conjunct2, rule_format]

subsection \<open>The reserve script\<close>

lemma reserve_reply_iff:
  assumes "\<forall>b\<in>set bs. counter_at (view s) (rb_key b)"
  shows "fst (reserve_script R rk bs rt rid s) = Reserved \<longleftrightarrow>
    (\<forall>b\<in>set bs. ks_count (view s) (rb_key b) + rb_cost b \<le> rb_limit b)"
  using reserve_check_None [OF assms] by (auto simp: reserve_script_def Let_def split: option.splits)

lemma reserve_blocked: "fst (reserve_script R rk bs rt rid s) \<noteq> Reserved \<Longrightarrow>
    snd (reserve_script R rk bs rt rid s) = s"
  by (auto simp: reserve_script_def Let_def split: option.splits)

lemma reserve_finish_view:
  fixes rid :: string
  assumes "spend_ok (view s1) rk []" "0 < rt"
  defines "v' \<equiv> view (rd_expire R rk rt (snd (rd_hsetnx R rk ''request_id'' (FText rid) s1)))"
  shows "k \<noteq> rk \<Longrightarrow> v' k = view s1 k" "ks_hcount v' rk f = ks_hcount (view s1) rk f"
    "hash_at v' rk" "f \<noteq> ''request_id'' \<Longrightarrow> int_field v' rk f" "v' rk \<noteq> None"
proof -
  have h: "hash_at (view s1) rk" "\<forall>f. f \<noteq> ''request_id'' \<longrightarrow> int_field (view s1) rk f"
    using assms(1) by (auto simp: spend_ok_def)
  let ?s2 = "snd (rd_hsetnx R rk ''request_id'' (FText rid) s1)"
  have v2: "view ?s2 = (if ks_hash (view s1) rk ''request_id'' = None
      then ks_put_hash rk ((ks_hash (view s1) rk)(''request_id'' \<mapsto> FText rid)) (view s1) else view s1)"
    using h(1) by (rule hsetnx_view)
  have v': "v' = ks_expire rk rt (view ?s2)" by (simp add: v'_def expire_view)
  show "k \<noteq> rk \<Longrightarrow> v' k = view s1 k" by (simp add: v' v2 redis_simps)
  show "hash_at v' rk" using assms(2) h by (simp add: v' ks_expire_pos v2 redis_simps)
  show "ks_hcount v' rk f = ks_hcount (view s1) rk f"
    using assms(2) by (simp add: v' ks_hcount_def ks_expire_pos v2 redis_simps)
  show "f \<noteq> ''request_id'' \<Longrightarrow> int_field v' rk f"
    using assms(2) h by (simp add: v' int_field_def ks_expire_pos v2 redis_simps)
  have "view s1 rk \<noteq> None" if "ks_hash (view s1) rk ''request_id'' \<noteq> None"
    using that by (cases "view s1 rk") (auto simp: ks_hash_def)
  then have "view ?s2 rk \<noteq> None" by (auto simp: v2 ks_put_hash_def)
  with assms(2) show "v' rk \<noteq> None" by (simp add: v' ks_expire_pos)
qed

lemma reserve_granted:
  assumes "spend_ok (view s) rk bs" "0 < rt" "reserve_script R rk bs rt rid s = (Reserved, s')"
  shows "k \<noteq> rk \<Longrightarrow> ks_count (view s') k = ks_count (view s) k + cost_on bs k"
    and "k \<noteq> rk \<Longrightarrow> k \<notin> rb_key ` set bs \<Longrightarrow> view s' k = view s k"
    and "ks_hcount (view s') rk f = ks_hcount (view s) rk f + cost_named bs f"
    and "k \<noteq> rk \<Longrightarrow> counter_at (view s) k \<Longrightarrow> counter_at (view s') k"
    and "hash_at (view s') rk" "view s' rk \<noteq> None"
    and "f \<noteq> ''request_id'' \<Longrightarrow> int_field (view s') rk f"
proof -
  let ?s1 = "reserve_spend R rk bs s"
  have s': "s' = rd_expire R rk rt (snd (rd_hsetnx R rk ''request_id'' (FText rid) ?s1))"
    using assms(3) by (auto simp: reserve_script_def Let_def split: option.splits)
  note fin = reserve_finish_view [OF spend_keeps [OF assms(1)] assms(2), where rid = rid, folded s']
  show "k \<noteq> rk \<Longrightarrow> ks_count (view s') k = ks_count (view s) k + cost_on bs k"
    using fin(1) [of k] spend_count [OF assms(1)] ks_same_key(2) [of "view s'" k "view ?s1"] by simp
  show "k \<noteq> rk \<Longrightarrow> k \<notin> rb_key ` set bs \<Longrightarrow> view s' k = view s k"
    using fin(1) [of k] spend_other [OF assms(1)] by simp
  show "ks_hcount (view s') rk f = ks_hcount (view s) rk f + cost_named bs f"
    using fin(2) spend_field [OF assms(1)] by simp
  show "k \<noteq> rk \<Longrightarrow> counter_at (view s) k \<Longrightarrow> counter_at (view s') k"
    using fin(1) [of k] spend_counter [OF assms(1)] ks_same_key(1) [of "view s'" k "view ?s1"] by simp
  show "hash_at (view s') rk" "view s' rk \<noteq> None" using fin(3,5) by auto
  show "f \<noteq> ''request_id'' \<Longrightarrow> int_field (view s') rk f" by (rule fin(4))
qed

text \<open>A granted reservation leaves every counter it charged within the limit it was checked against.\<close>

lemma reserve_within_limit:
  assumes "spend_ok (view s) rk bs" "0 < rt" "distinct (map rb_key bs)" "b \<in> set bs"
    "reserve_script R rk bs rt rid s = (Reserved, s')"
  shows "ks_count (view s') (rb_key b) \<le> rb_limit b"
proof -
  have ne: "rb_key b \<noteq> rk" and ctr: "\<forall>b\<in>set bs. counter_at (view s) (rb_key b)"
    using assms(1,4) by (auto simp: spend_ok_def)
  have "ks_count (view s) (rb_key b) + rb_cost b \<le> rb_limit b"
    using reserve_reply_iff [OF ctr, of rk rt rid] assms(4,5) by simp
  then show ?thesis
    using reserve_granted(1) [OF assms(1,2,5) ne] cost_on_distinct [OF assms(3,4)] by simp
qed

subsection \<open>Settling a reservation\<close>

lemma clamped_add_settles:
  assumes "counter_at (view s) k" "0 \<le> ks_count (view s) k"
  shows "settles (view s) (view (let (value, s1) = rd_incrby R k d s
     in if value < 0 then snd (rd_incrby R k (- value) s1) else s1)) k d"
  using assms by (auto simp: settles_def split_beta Let_def incrby_reply incrby_view redis_simps)

lemma settles_refl: "counter_at v k \<Longrightarrow> 0 \<le> ks_count v k \<Longrightarrow> v k = None \<or> d = 0 \<Longrightarrow> d \<le> 0 \<Longrightarrow> settles v v k d"
  by (auto simp: settles_def ks_count_def)

lemma commit1_settles:
  assumes "settle_pre (view s) rk (cb_key c)" "0 < cb_ttl c"
  shows "settles (view s) (view (commit1 R rk c s)) (cb_key c)
           (cb_actual c - ks_hcount (view s) rk (cb_name c))"
proof -
  define d where "d = cb_actual c - ks_hcount (view s) rk (cb_name c)"
  from assms(1) have pre: "hash_at (view s) rk" "counter_at (view s) (cb_key c)" "0 \<le> ks_count (view s) (cb_key c)"
    by (auto simp: settle_pre_def)
  have up: "settles (view s) (view (let s1 = snd (rd_incrby R (cb_key c) d s)
      in if cb_refresh c \<or> rd_ttl R (cb_key c) s1 < 0 then rd_expire R (cb_key c) (cb_ttl c) s1 else s1)) (cb_key c) d"
    if "0 < d"
    using that pre assms(2)
    by (simp add: settles_def Let_def incrby_view expire_view ks_expire_pos redis_simps)
  have eq: "commit1 R rk c s = (if 0 < d then
        (let s1 = snd (rd_incrby R (cb_key c) d s)
         in if cb_refresh c \<or> rd_ttl R (cb_key c) s1 < 0 then rd_expire R (cb_key c) (cb_ttl c) s1 else s1)
      else if d < 0 \<and> view s (cb_key c) \<noteq> None then
        (let (value, s1) = rd_incrby R (cb_key c) d s
         in if value < 0 then snd (rd_incrby R (cb_key c) (- value) s1) else s1)
      else s)"
    unfolding commit1_def lua_hcount_view [OF pre(1)] exists_spec d_def Let_def by (rule refl)
  have down: "settles (view s) (view (if d < 0 \<and> view s (cb_key c) \<noteq> None then
        (let (value, s1) = rd_incrby R (cb_key c) d s
         in if value < 0 then snd (rd_incrby R (cb_key c) (- value) s1) else s1)
      else s)) (cb_key c) d" if "\<not> 0 < d"
    using that clamped_add_settles [OF pre(2,3), of d] settles_refl [OF pre(2,3), of d]
    by (cases "d = 0"; cases "view s (cb_key c) = None") simp_all
  show ?thesis
    using up down unfolding eq d_def [symmetric] by presburger
qed

lemma release1_settles:
  assumes "settle_pre (view s) rk k" "0 \<le> ks_hcount (view s) rk f"
  shows "settles (view s) (view (release1 R rk (f, k) s)) k (- ks_hcount (view s) rk f)"
proof -
  from assms(1) have pre: "hash_at (view s) rk" "counter_at (view s) k" "0 \<le> ks_count (view s) k"
    by (auto simp: settle_pre_def)
  show ?thesis
    using assms(2) clamped_add_settles [OF pre(2,3), of "- ks_hcount (view s) rk f"]
      settles_refl [OF pre(2,3), of "- ks_hcount (view s) rk f"]
    by (cases "ks_hcount (view s) rk f = 0"; cases "view s k = None")
      (simp_all add: release1_def lua_hcount_view [OF pre(1)] exists_spec)
qed

lemma fold_settles:
  assumes step: "\<And>c s. c \<in> set cs \<Longrightarrow> settle_pre (view s) rk (kf c) \<Longrightarrow> ks_hash (view s) rk = h \<Longrightarrow>
      settles (view s) (view (f c s)) (kf c) (g c)"
    and "distinct (map kf cs)" "\<forall>c\<in>set cs. settle_pre (view s) rk (kf c)" "ks_hash (view s) rk = h"
  shows "(\<forall>k. k \<notin> kf ` set cs \<longrightarrow> view (fold f cs s) k = view s k) \<and>
    (\<forall>c\<in>set cs. counter_at (view (fold f cs s)) (kf c) \<and>
       ks_count (view (fold f cs s)) (kf c) = max 0 (ks_count (view s) (kf c) + g c))"
  using assms
proof (induction cs arbitrary: s)
  case (Cons c cs)
  have one: "settles (view s) (view (f c s)) (kf c) (g c)"
    using Cons.prems by auto
  then have other: "k \<noteq> kf c \<Longrightarrow> view (f c s) k = view s k" for k
    by (simp add: settles_def)
  have rk: "rk \<noteq> kf c" using Cons.prems(3) by (auto simp: settle_pre_def)
  have pres: "\<forall>c'\<in>set cs. settle_pre (view (f c s)) rk (kf c')"
  proof
    fix c' assume c': "c' \<in> set cs"
    then have "kf c' \<noteq> kf c" using Cons.prems(2) by (metis distinct.simps(2) image_eqI list.set_map list.simps(9))
    then show "settle_pre (view (f c s)) rk (kf c')"
      using Cons.prems(3) c' ks_same_key [of "view (f c s)" "kf c'" "view s"]
        ks_same_key [of "view (f c s)" rk "view s"] other rk by (auto simp: settle_pre_def)
  qed
  have h: "ks_hash (view (f c s)) rk = h"
    using ks_same_key(4) [of "view (f c s)" rk "view s"] other rk Cons.prems(4) by simp
  have IH: "(\<forall>k. k \<notin> kf ` set cs \<longrightarrow> view (fold f cs (f c s)) k = view (f c s) k) \<and>
    (\<forall>c'\<in>set cs. counter_at (view (fold f cs (f c s))) (kf c') \<and>
       ks_count (view (fold f cs (f c s))) (kf c') = max 0 (ks_count (view (f c s)) (kf c') + g c'))"
    using Cons.prems(1,2) pres h by (intro Cons.IH) auto
  have c: "view (fold f cs (f c s)) (kf c) = view (f c s) (kf c)"
    using IH Cons.prems(2) by auto
  have old: "c' \<in> set cs \<Longrightarrow> ks_count (view (f c s)) (kf c') = ks_count (view s) (kf c')" for c'
    using ks_same_key(2) [of "view (f c s)" "kf c'" "view s"] other [of "kf c'"] Cons.prems(2)
    by (metis distinct.simps(2) image_eqI list.set_map list.simps(9))
  show ?case
    using IH c one other old ks_same_key(1,2) [of "view (fold f cs (f c s))" "kf c" "view (f c s)"]
    by (auto simp: settles_def)
qed simp

text \<open>What a commit and a release do to the counters they name.\<close>

lemma commit_view:
  assumes "commit_script R rk cs s = (True, s')" "distinct (map cb_key cs)"
    "\<forall>c\<in>set cs. settle_pre (view s) rk (cb_key c) \<and> 0 < cb_ttl c"
  shows "c \<in> set cs \<Longrightarrow> ks_count (view s') (cb_key c) =
      max 0 (ks_count (view s) (cb_key c) + (cb_actual c - ks_hcount (view s) rk (cb_name c)))"
    and "k \<notin> cb_key ` set cs \<Longrightarrow> k \<noteq> rk \<Longrightarrow> view s' k = view s k" and "view s' rk = None"
proof -
  have s': "view s' = (view (fold (commit1 R rk) cs s))(rk := None)"
    using assms(1) by (auto simp: commit_script_def del_view split: if_splits)
  have "(\<forall>k. k \<notin> cb_key ` set cs \<longrightarrow> view (fold (commit1 R rk) cs s) k = view s k) \<and>
    (\<forall>c\<in>set cs. counter_at (view (fold (commit1 R rk) cs s)) (cb_key c) \<and>
       ks_count (view (fold (commit1 R rk) cs s)) (cb_key c) =
         max 0 (ks_count (view s) (cb_key c) + (cb_actual c - ks_hcount (view s) rk (cb_name c))))"
  proof (rule fold_settles)
    fix c s' assume "c \<in> set cs" "settle_pre (view s') rk (cb_key c)" "ks_hash (view s') rk = ks_hash (view s) rk"
    then show "settles (view s') (view (commit1 R rk c s')) (cb_key c)
        (cb_actual c - ks_hcount (view s) rk (cb_name c))"
      using commit1_settles [of s' rk c] assms(3) by (auto simp: ks_hcount_def)
  qed (use assms in auto)
  then show "c \<in> set cs \<Longrightarrow> ks_count (view s') (cb_key c) =
      max 0 (ks_count (view s) (cb_key c) + (cb_actual c - ks_hcount (view s) rk (cb_name c)))"
    "k \<notin> cb_key ` set cs \<Longrightarrow> k \<noteq> rk \<Longrightarrow> view s' k = view s k"
    using assms(3) by (auto simp: s' settle_pre_def redis_simps)
  show "view s' rk = None" by (simp add: s')
qed

lemma release_view:
  assumes "release_script R rk nks s = (True, s')" "distinct (map snd nks)"
    "\<forall>nk\<in>set nks. settle_pre (view s) rk (snd nk) \<and> 0 \<le> ks_hcount (view s) rk (fst nk)"
  shows "nk \<in> set nks \<Longrightarrow> ks_count (view s') (snd nk) =
      max 0 (ks_count (view s) (snd nk) - ks_hcount (view s) rk (fst nk))"
    and "k \<notin> snd ` set nks \<Longrightarrow> k \<noteq> rk \<Longrightarrow> view s' k = view s k" and "view s' rk = None"
proof -
  have s': "view s' = (view (fold (release1 R rk) nks s))(rk := None)"
    using assms(1) by (auto simp: release_script_def del_view split: if_splits)
  have "(\<forall>k. k \<notin> snd ` set nks \<longrightarrow> view (fold (release1 R rk) nks s) k = view s k) \<and>
    (\<forall>nk\<in>set nks. counter_at (view (fold (release1 R rk) nks s)) (snd nk) \<and>
       ks_count (view (fold (release1 R rk) nks s)) (snd nk) =
         max 0 (ks_count (view s) (snd nk) + - ks_hcount (view s) rk (fst nk)))"
  proof (rule fold_settles)
    fix nk s' assume "nk \<in> set nks" "settle_pre (view s') rk (snd nk)" "ks_hash (view s') rk = ks_hash (view s) rk"
    then show "settles (view s') (view (release1 R rk nk s')) (snd nk) (- ks_hcount (view s) rk (fst nk))"
      using release1_settles [of s' rk "snd nk" "fst nk"] assms(3) by (auto simp: ks_hcount_def)
  qed (use assms in auto)
  then show "nk \<in> set nks \<Longrightarrow> ks_count (view s') (snd nk) =
      max 0 (ks_count (view s) (snd nk) - ks_hcount (view s) rk (fst nk))"
    "k \<notin> snd ` set nks \<Longrightarrow> k \<noteq> rk \<Longrightarrow> view s' k = view s k"
    using assms(3) by (auto simp: s' settle_pre_def redis_simps)
  show "view s' rk = None" by (simp add: s')
qed

text \<open>A settled or expired reservation settles nothing a second time.\<close>

lemma settle_twice:
  "view s rk = None \<Longrightarrow> commit_script R rk cs s = (False, s)"
  "view s rk = None \<Longrightarrow> release_script R rk nks s = (False, s)"
  by (simp_all add: commit_script_def release_script_def exists_spec)

end

end
