(* ===== verification/Gw_Keys.thy ===== *)
theory Gw_Keys
  imports Gw_Prelude
begin

text \<open>
  \<^verbatim>\<open>app/cache/keys.py\<close>: every Redis key the gateway writes. Each builder checks its segments and
  joins them with colons; a bad segment raises \<open>ValueError\<close>. The lemmas say which keys can never
  meet: the four counters of one model, the counters of two scopes, a counter and a reservation, a
  personal allocation and a shared counter, and the keys of two namespaces.
\<close>

subsection \<open>Windows and lifetimes\<close>

datatype QuotaWindow = Rpm | Rpd | Tpm | Tpd
datatype GatewayWindow = GRpm | GRpd | GRph

fun window_name :: "QuotaWindow \<Rightarrow> string" where
  "window_name Rpm = ''rpm''"
| "window_name Rpd = ''rpd''"
| "window_name Tpm = ''tpm''"
| "window_name Tpd = ''tpd''"

fun gateway_window_name :: "GatewayWindow \<Rightarrow> string" where
  "gateway_window_name GRpm = ''rpm''"
| "gateway_window_name GRpd = ''rpd''"
| "gateway_window_name GRph = ''rph''"

definition SYSTEM_SCOPE :: string where "SYSTEM_SCOPE = ''system''"
definition QUOTA_WINDOW_TTL_S :: int where "QUOTA_WINDOW_TTL_S = 60"
definition RESERVATION_TTL_S :: int where "RESERVATION_TTL_S = 120"
definition BREAKER_TTL_S :: int where "BREAKER_TTL_S = 3600"
definition EXACT_CACHE_TTL_S :: int where "EXACT_CACHE_TTL_S = 3600"
definition IDEMPOTENCY_TTL_S :: int where "IDEMPOTENCY_TTL_S = 86400"
definition RATE_LIMIT_TTL_MULTIPLIER :: int where "RATE_LIMIT_TTL_MULTIPLIER = 2"
definition STREAM_ATTEMPTS_TTL_S :: int where "STREAM_ATTEMPTS_TTL_S = 300"

subsection \<open>Segments\<close>

text \<open>\<^verbatim>\<open>str.isspace\<close> on one code point below 256.\<close>

definition isspace :: "char \<Rightarrow> bool" where
  "isspace c = (let n = (of_char c :: nat) in (9 \<le> n \<and> n \<le> 13) \<or> (28 \<le> n \<and> n \<le> 32) \<or> n = 133 \<or> n = 160)"

definition seg_ok :: "string \<Rightarrow> bool" where
  "seg_ok t \<longleftrightarrow> t \<noteq> [] \<and> \<not> list_ex isspace t"

definition segment :: "string \<Rightarrow> string exn" where
  "segment t = (if t = [] then Inl ValueError
                else if list_ex isspace t then Inl ValueError else Inr t)"

lemma segment_eq: "segment t = (if seg_ok t then Inr t else Inl ValueError)"
  by (auto simp: segment_def seg_ok_def)

text \<open>Decimal text of a non-negative integer.\<close>

fun dec :: "nat \<Rightarrow> string" where
  "dec n = (if n < 10 then [char_of (48 + n)] else dec (n div 10) @ [char_of (48 + n mod 10)])"

declare dec.simps [simp del]

subsection \<open>The builders\<close>

definition model_scoped :: "string \<Rightarrow> string \<Rightarrow> string \<Rightarrow> string exn" where
  "model_scoped scope provider model =
     ebind (segment scope) (\<lambda>s. ebind (segment provider) (\<lambda>p. ebind (segment model) (\<lambda>m.
       Inr (''q:'' @ s @ '':'' @ p @ '':'' @ m))))"

definition quota :: "string \<Rightarrow> string \<Rightarrow> string \<Rightarrow> QuotaWindow \<Rightarrow> string exn" where
  "quota scope provider model window =
     ebind (model_scoped scope provider model) (\<lambda>pre. Inr (pre @ '':'' @ window_name window))"

definition quota_reservation :: "string \<Rightarrow> string \<Rightarrow> string \<Rightarrow> string \<Rightarrow> string exn" where
  "quota_reservation scope provider model request_id =
     ebind (model_scoped scope provider model) (\<lambda>pre. ebind (segment request_id) (\<lambda>r.
       Inr (pre @ '':res:'' @ r)))"

definition quota_perception_lane :: "string \<Rightarrow> string \<Rightarrow> string \<Rightarrow> string exn" where
  "quota_perception_lane scope provider model =
     ebind (model_scoped scope provider model) (\<lambda>pre. Inr (pre @ '':lane:perception''))"

definition user_allocation :: "string \<Rightarrow> string \<Rightarrow> string \<Rightarrow> string exn" where
  "user_allocation user_id provider model =
     ebind (model_scoped user_id provider model) (\<lambda>pre. Inr (pre @ '':alloc:rpd''))"

definition breaker :: "string \<Rightarrow> string \<Rightarrow> string exn" where
  "breaker provider model =
     ebind (segment provider) (\<lambda>p. ebind (segment model) (\<lambda>m. Inr (''cb:'' @ p @ '':'' @ m)))"

definition exact_cache :: "string \<Rightarrow> string exn" where
  "exact_cache request_hash = ebind (segment request_hash) (\<lambda>h. Inr (''cache:exact:'' @ h))"

definition extraction :: "string \<Rightarrow> string exn" where
  "extraction file_hash = ebind (segment file_hash) (\<lambda>h. Inr (''extract:'' @ h))"

definition extraction_lock :: "string \<Rightarrow> string exn" where
  "extraction_lock file_hash = ebind (segment file_hash) (\<lambda>h. Inr (''lock:extract:'' @ h))"

definition idempotency :: "string \<Rightarrow> string \<Rightarrow> string exn" where
  "idempotency user_id idem_key =
     ebind (segment user_id) (\<lambda>u. ebind (segment idem_key) (\<lambda>k. Inr (''idem:'' @ u @ '':'' @ k)))"

definition rate_limit :: "string \<Rightarrow> GatewayWindow \<Rightarrow> int \<Rightarrow> string exn" where
  "rate_limit user_id window window_start =
     (if window_start < 0 then Inl ValueError
      else ebind (segment user_id) (\<lambda>u.
        Inr (''rl:'' @ u @ '':'' @ gateway_window_name window @ '':'' @ dec (nat window_start))))"

definition jwks_supabase :: string where
  "jwks_supabase = ''jwks:supabase''"

definition stream_attempts :: "string \<Rightarrow> string exn" where
  "stream_attempts message_id =
     ebind (segment message_id) (\<lambda>m. Inr (''stream:'' @ m @ '':attempts''))"

subsection \<open>Shape of the keys\<close>

abbreviation q_prefix :: "string \<Rightarrow> string \<Rightarrow> string \<Rightarrow> string" where
  "q_prefix s p m \<equiv> ''q:'' @ s @ '':'' @ p @ '':'' @ m"

lemma model_scoped_Inr [key_simps]: "model_scoped s p m = Inr x \<longleftrightarrow>
    seg_ok s \<and> seg_ok p \<and> seg_ok m \<and> x = q_prefix s p m"
  by (auto simp: model_scoped_def segment_eq)

lemma quota_Inr [key_simps]: "quota s p m w = Inr x \<longleftrightarrow>
    seg_ok s \<and> seg_ok p \<and> seg_ok m \<and> x = q_prefix s p m @ '':'' @ window_name w"
  by (auto simp: quota_def ebind_Inr_iff model_scoped_Inr)

lemma quota_reservation_Inr [key_simps]: "quota_reservation s p m r = Inr x \<longleftrightarrow>
    seg_ok s \<and> seg_ok p \<and> seg_ok m \<and> seg_ok r \<and> x = q_prefix s p m @ '':res:'' @ r"
  by (auto simp: quota_reservation_def ebind_Inr_iff model_scoped_Inr segment_eq)

lemma quota_perception_lane_Inr [key_simps]: "quota_perception_lane s p m = Inr x \<longleftrightarrow>
    seg_ok s \<and> seg_ok p \<and> seg_ok m \<and> x = q_prefix s p m @ '':lane:perception''"
  by (auto simp: quota_perception_lane_def ebind_Inr_iff model_scoped_Inr)

lemma user_allocation_Inr [key_simps]: "user_allocation s p m = Inr x \<longleftrightarrow>
    seg_ok s \<and> seg_ok p \<and> seg_ok m \<and> x = q_prefix s p m @ '':alloc:rpd''"
  by (auto simp: user_allocation_def ebind_Inr_iff model_scoped_Inr)

lemma breaker_Inr [key_simps]: "breaker p m = Inr x \<longleftrightarrow>
    seg_ok p \<and> seg_ok m \<and> x = ''cb:'' @ p @ '':'' @ m"
  by (auto simp: breaker_def segment_eq)

lemma idempotency_Inr [key_simps]: "idempotency u k = Inr x \<longleftrightarrow>
    seg_ok u \<and> seg_ok k \<and> x = ''idem:'' @ u @ '':'' @ k"
  by (auto simp: idempotency_def segment_eq)

lemma exact_cache_Inr [key_simps]: "exact_cache h = Inr x \<longleftrightarrow> seg_ok h \<and> x = ''cache:exact:'' @ h"
  by (auto simp: exact_cache_def segment_eq)

lemma rate_limit_Inr [key_simps]: "rate_limit u w n = Inr x \<longleftrightarrow> 0 \<le> n \<and> seg_ok u \<and>
    x = ''rl:'' @ u @ '':'' @ gateway_window_name w @ '':'' @ dec (nat n)"
  by (auto simp: rate_limit_def segment_eq)

lemma window_name_inj [simp]: "window_name w = window_name w' \<longleftrightarrow> w = w'"
  by (cases w; cases w') auto

lemma gateway_window_name_inj [simp]: "gateway_window_name w = gateway_window_name w' \<longleftrightarrow> w = w'"
  by (cases w; cases w') auto

lemma window_name_not: "window_name w \<noteq> ''res:'' @ r" "window_name w \<noteq> ''lane:perception''"
    "window_name w \<noteq> ''alloc:rpd''" "window_name w \<noteq> ''request_id''"
  by (cases w; simp)+

subsection \<open>Keys that never meet\<close>

text \<open>A scope without a colon (\<open>system\<close>, or the text of a UUID) is determined by any quota key.\<close>

abbreviation no_colon :: "string \<Rightarrow> bool" where
  "no_colon s \<equiv> CHR '':'' \<notin> set s"

lemma q_prefix_scope:
  assumes "no_colon s" "no_colon s'" "q_prefix s p m @ x = q_prefix s' p' m' @ x'"
  shows "s = s'"
proof -
  from assms(3) have "s @ CHR '':'' # (p @ '':'' @ m @ x) = s' @ CHR '':'' # (p' @ '':'' @ m' @ x')"
    by simp
  from split_at_sep [OF assms(1,2) this] show ?thesis by simp
qed

lemma quota_window_neq:
  assumes "quota s p m w = Inr k" "quota s p m w' = Inr k'" "w \<noteq> w'"
  shows "k \<noteq> k'"
  using assms by (auto simp: key_simps)

lemma quota_reservation_neq:
  assumes "quota s p m w = Inr k" "quota_reservation s p m r = Inr k'"
  shows "k \<noteq> k'"
  using assms by (cases w) (auto simp: key_simps)

lemma lane_reservation_neq:
  assumes "quota_perception_lane s p m = Inr k" "quota_reservation s p m r = Inr k'"
  shows "k \<noteq> k'"
  using assms by (auto simp: key_simps)

lemma quota_lane_neq:
  assumes "quota s p m w = Inr k" "quota_perception_lane s p m = Inr k'"
  shows "k \<noteq> k'"
  using assms by (cases w) (auto simp: key_simps)

lemma allocation_neq:
  assumes "user_allocation u p m = Inr k" "no_colon u" "no_colon s" "u \<noteq> s"
  shows "quota s p m w = Inr k' \<Longrightarrow> k \<noteq> k'" "quota_reservation s p m r = Inr k'' \<Longrightarrow> k \<noteq> k''"
proof -
  have k: "k = q_prefix u p m @ '':alloc:rpd''" using assms(1) by (simp add: key_simps)
  show "k \<noteq> k'" if "quota s p m w = Inr k'"
  proof
    assume "k = k'"
    with k that have "q_prefix u p m @ '':alloc:rpd'' = q_prefix s p m @ '':'' @ window_name w"
      by (simp add: key_simps)
    from q_prefix_scope [OF assms(2,3) this] assms(4) show False by simp
  qed
  show "k \<noteq> k''" if "quota_reservation s p m r = Inr k''"
  proof
    assume "k = k''"
    with k that have "q_prefix u p m @ '':alloc:rpd'' = q_prefix s p m @ '':res:'' @ r"
      by (simp add: key_simps)
    from q_prefix_scope [OF assms(2,3) this] assms(4) show False by simp
  qed
qed

lemma no_colon_system [simp]: "no_colon SYSTEM_SCOPE"
  by (simp add: SYSTEM_SCOPE_def)

lemma seg_ok_system [simp]: "seg_ok SYSTEM_SCOPE"
  by (simp add: SYSTEM_SCOPE_def seg_ok_def isspace_def)

text \<open>Keys of different users never meet, whatever the client chose as its idempotency key.\<close>

lemma idempotency_inj:
  assumes "idempotency u k = Inr x" "idempotency u' k' = Inr x" "no_colon u" "no_colon u'"
  shows "u = u' \<and> k = k'"
proof -
  from assms(1,2) have "u @ CHR '':'' # k = u' @ CHR '':'' # k'" by (auto simp: key_simps)
  from split_at_sep [OF assms(3,4) this] show ?thesis .
qed

lemma dec_no_colon: "no_colon (dec n)"
proof (induction n rule: dec.induct)
  case (1 n)
  have digit: "char_of (48 + d) \<noteq> CHR '':''" if "d < 10" for d :: nat
  proof
    assume "char_of (48 + d) = CHR '':''"
    then have "of_char (char_of (48 + d)) = (of_char (CHR '':'') :: nat)" by simp
    with that show False by simp
  qed
  show ?case
  proof (cases "n < 10")
    case True
    then show ?thesis using digit [of n] by (subst dec.simps) auto
  next
    case False
    with "1.IH" show ?thesis using digit [of "n mod 10"] by (subst dec.simps) auto
  qed
qed

end
