(* ===== verification/Gw_Windows.thy ===== *)
theory Gw_Windows
  imports Gw_Keys
begin

text \<open>
  \<^verbatim>\<open>app/quota/windows.py\<close> and the limit tables of \<^verbatim>\<open>app/config.py\<close>: when a quota window resets, how
  long its counter lives, which windows a model declares, and the two-bucket interpolation of the
  gateway's own rate limit. The time zone database is outside the repository: a zone is a
  parameter \<open>tz\<close> (the local date of an instant, the instant of a local midnight) under the laws of
  the locale \<open>timezone\<close>, interpreted on UTC, which the source also uses.
\<close>

subsection \<open>Zones\<close>

record tz =
  tz_day :: "instant \<Rightarrow> int"
  tz_midnight :: "int \<Rightarrow> instant"

text \<open>
  A local day begins at its midnight, contains every instant up to the next one, and with daylight
  saving lasts between 23 and 25 hours.
\<close>

locale timezone =
  fixes Z :: tz
  assumes day_start: "tz_midnight Z (tz_day Z t) \<le> t"
    and day_end: "t < tz_midnight Z (tz_day Z t + 1)"
    and day_length: "82800 \<le> tz_midnight Z (d + 1) - tz_midnight Z d"
      "tz_midnight Z (d + 1) - tz_midnight Z d \<le> 90000"

definition utc :: tz where
  "utc = \<lparr>tz_day = (\<lambda>t. \<lfloor>t / 86400\<rfloor>), tz_midnight = (\<lambda>d. of_int d * 86400)\<rparr>"

interpretation utc: timezone utc
proof
  fix t :: instant and d :: int
  have "of_int \<lfloor>t / 86400\<rfloor> * 86400 \<le> t" using of_int_floor_le [of "t / 86400"] by linarith
  then show "tz_midnight utc (tz_day utc t) \<le> t" by (simp add: utc_def)
  have "t / 86400 < of_int (\<lfloor>t / 86400\<rfloor> + 1)" by linarith
  then show "t < tz_midnight utc (tz_day utc t + 1)" by (simp add: utc_def field_simps)
  show "82800 \<le> tz_midnight utc (d + 1) - tz_midnight utc d"
    "tz_midnight utc (d + 1) - tz_midnight utc d \<le> 90000"
    by (simp_all add: utc_def algebra_simps)
qed

subsection \<open>Limits as configured\<close>

datatype ResetKind = Rolling60s | FixedDailyUtc | FixedDailyPt | RollingDaily

record ModelLimits =
  ml_rpm :: "int option"
  ml_rpd :: "int option"
  ml_tpm :: "int option"
  ml_tpd :: "int option"
  rp_rpm :: "ResetKind option"
  rp_rpd :: "ResetKind option"
  rp_tpm :: "ResetKind option"
  rp_tpd :: "ResetKind option"

fun limit_attr :: "ModelLimits \<Rightarrow> QuotaWindow \<Rightarrow> int option" where
  "limit_attr l Rpm = ml_rpm l"
| "limit_attr l Rpd = ml_rpd l"
| "limit_attr l Tpm = ml_tpm l"
| "limit_attr l Tpd = ml_tpd l"

fun reset_attr :: "ModelLimits \<Rightarrow> QuotaWindow \<Rightarrow> ResetKind option" where
  "reset_attr l Rpm = rp_rpm l"
| "reset_attr l Rpd = rp_rpd l"
| "reset_attr l Tpm = rp_tpm l"
| "reset_attr l Tpd = rp_tpd l"

text \<open>The validation of the limits file: every declared limit is positive.\<close>

definition limits_valid :: "ModelLimits \<Rightarrow> bool" where
  "limits_valid l \<longleftrightarrow> list_all (\<lambda>w. case limit_attr l w of None \<Rightarrow> True | Some n \<Rightarrow> 0 < n) [Rpm, Rpd, Tpm, Tpd]"

record GatewayLimits =
  gl_rpm :: int
  gl_rpd :: int
  gl_shared_pool_daily_cap :: "int option"

record LimitsConfig =
  lc_limits :: "string \<rightharpoonup> (string \<rightharpoonup> ModelLimits)"
  lc_gateway :: "string \<rightharpoonup> GatewayLimits"

definition for_model :: "LimitsConfig \<Rightarrow> string \<Rightarrow> string \<Rightarrow> ModelLimits option" where
  "for_model c provider model = (case lc_limits c provider of None \<Rightarrow> None | Some d \<Rightarrow> d model)"

subsection \<open>Window specifications\<close>

record WindowSpec =
  ws_window :: QuotaWindow
  ws_limit :: int
  ws_reset :: ResetKind
  ws_cost_is_tokens :: bool

record WindowState =
  wst_window :: QuotaWindow
  wst_limit :: int
  wst_used :: int
  wst_resets_at :: instant

definition wst_remaining :: "WindowState \<Rightarrow> int" where
  "wst_remaining s = max 0 (wst_limit s - wst_used s)"

definition wst_exhausted :: "WindowState \<Rightarrow> bool" where
  "wst_exhausted s \<longleftrightarrow> wst_used s \<ge> wst_limit s"

definition token_window :: "QuotaWindow \<Rightarrow> bool" where
  "token_window w \<longleftrightarrow> w = Tpm \<or> w = Tpd"

definition all_windows :: "QuotaWindow list" where
  "all_windows = [Rpm, Rpd, Tpm, Tpd]"

text \<open>Python's \<^verbatim>\<open>round\<close> to an integer: ties go to the even neighbour.\<close>

definition py_round :: "pyfloat \<Rightarrow> int" where
  "py_round x = (let f = \<lfloor>x\<rfloor>; r = x - of_int f
     in if r < 1/2 then f else if 1/2 < r then f + 1 else if even f then f else f + 1)"

definition next_midnight :: "tz \<Rightarrow> instant \<Rightarrow> instant" where
  "next_midnight Z now = tz_midnight Z (tz_day Z now + 1)"

fun resets_at :: "tz \<Rightarrow> ResetKind \<Rightarrow> instant \<Rightarrow> instant" where
  "resets_at PT Rolling60s now = now + of_int QUOTA_WINDOW_TTL_S"
| "resets_at PT RollingDaily now = now + 86400"
| "resets_at PT FixedDailyUtc now = next_midnight utc now"
| "resets_at PT FixedDailyPt now = next_midnight PT now"

definition ttl_s :: "tz \<Rightarrow> ResetKind \<Rightarrow> instant \<Rightarrow> int" where
  "ttl_s PT reset now = max 1 (py_round (resets_at PT reset now - now))"

fun declared_from :: "ModelLimits \<Rightarrow> QuotaWindow list \<Rightarrow> WindowSpec list exn" where
  "declared_from limits [] = Inr []"
| "declared_from limits (window # rest) =
    (case limit_attr limits window of
       None \<Rightarrow> declared_from limits rest
     | Some limit \<Rightarrow>
         (case reset_attr limits window of
            None \<Rightarrow> Inl ValueError
          | Some reset \<Rightarrow> ebind (declared_from limits rest) (\<lambda>specs.
              Inr (\<lparr>ws_window = window, ws_limit = limit, ws_reset = reset,
                    ws_cost_is_tokens = token_window window\<rparr> # specs))))"

definition declared :: "ModelLimits \<Rightarrow> WindowSpec list exn" where
  "declared limits = declared_from limits all_windows"

definition sliding_count :: "int \<Rightarrow> int \<Rightarrow> pyfloat \<Rightarrow> pyfloat exn" where
  "sliding_count previous current elapsed_fraction =
     (if \<not> (0 \<le> elapsed_fraction \<and> elapsed_fraction \<le> 1) then Inl ValueError
      else Inr (of_int previous * (1 - elapsed_fraction) + of_int current))"

subsection \<open>Reset instants\<close>

lemma py_round_near: "\<bar>of_int (py_round x) - x\<bar> \<le> 1/2"
proof -
  have "of_int \<lfloor>x\<rfloor> \<le> x" "x < of_int \<lfloor>x\<rfloor> + 1" by linarith+
  then show ?thesis by (auto simp: py_round_def Let_def abs_le_iff)
qed

lemma ttl_s_pos [simp]: "0 < ttl_s PT reset now"
  by (simp add: ttl_s_def)

lemma ttl_s_rolling [simp]: "ttl_s PT Rolling60s now = 60" "ttl_s PT RollingDaily now = 86400"
  by (simp_all add: ttl_s_def py_round_def QUOTA_WINDOW_TTL_S_def)

context timezone
begin

lemma next_midnight_bounds: "now < next_midnight Z now" "next_midnight Z now \<le> now + 90000"
  using day_start [of now] day_end [of now] day_length(2) [of "tz_day Z now"]
  by (auto simp: next_midnight_def)

lemma midnight_strict: "tz_midnight Z d < tz_midnight Z (d + 1)"
  using day_length(1) [of d] by simp

lemma midnight_mono_nat: "tz_midnight Z d \<le> tz_midnight Z (d + int n)"
proof (induction n)
  case (Suc n)
  then show ?case using midnight_strict [of "d + int n"] by (simp add: algebra_simps)
qed simp

lemma midnight_mono: "d \<le> e \<Longrightarrow> tz_midnight Z d \<le> tz_midnight Z e"
  using midnight_mono_nat [of d "nat (e - d)"] by simp

text \<open>Every instant before the next midnight is in the same day or an earlier one.\<close>

lemma day_until_midnight:
  assumes "now \<le> t" "t < next_midnight Z now"
  shows "tz_day Z t = tz_day Z now"
proof (rule antisym)
  show "tz_day Z t \<le> tz_day Z now"
  proof (rule ccontr)
    assume "\<not> tz_day Z t \<le> tz_day Z now"
    then have "tz_midnight Z (tz_day Z now + 1) \<le> tz_midnight Z (tz_day Z t)"
      by (intro midnight_mono) simp
    with day_start [of t] assms(2) show False by (simp add: next_midnight_def)
  qed
  show "tz_day Z now \<le> tz_day Z t"
  proof (rule ccontr)
    assume "\<not> tz_day Z now \<le> tz_day Z t"
    then have "tz_midnight Z (tz_day Z t + 1) \<le> tz_midnight Z (tz_day Z now)"
      by (intro midnight_mono) simp
    with day_end [of t] day_start [of now] assms(1) show False by simp
  qed
qed

lemma next_midnight_stable:
  assumes "now \<le> t" "t < next_midnight Z now"
  shows "next_midnight Z t = next_midnight Z now"
  using day_until_midnight [OF assms] by (simp add: next_midnight_def)

lemma resets_at_later: "now < resets_at Z reset now" "resets_at Z reset now \<le> now + 90000"
  using next_midnight_bounds [of now] utc.next_midnight_bounds [of now]
  by (cases reset; simp add: QUOTA_WINDOW_TTL_S_def)+

lemma ttl_s_bound: "ttl_s Z reset now \<le> 90000"
proof -
  have "of_int (py_round (resets_at Z reset now - now)) \<le> (90000 + 1/2 :: rat)"
    using py_round_near [of "resets_at Z reset now - now"] resets_at_later(2) [of reset now]
    by linarith
  then have "py_round (resets_at Z reset now - now) \<le> 90000" by linarith
  then show ?thesis by (simp add: ttl_s_def)
qed

end

subsection \<open>Declared windows\<close>

lemma declared_from_windows:
  assumes "declared_from l ws = Inr specs"
  shows "map ws_window specs = filter (\<lambda>w. limit_attr l w \<noteq> None) ws"
    "sp \<in> set specs \<Longrightarrow> limit_attr l (ws_window sp) = Some (ws_limit sp) \<and>
       reset_attr l (ws_window sp) = Some (ws_reset sp) \<and>
       ws_cost_is_tokens sp = token_window (ws_window sp)"
  using assms
  by (induction ws arbitrary: specs) (auto simp: ebind_Inr_iff split: option.splits)

lemma declared_distinct: "declared l = Inr specs \<Longrightarrow> distinct (map ws_window specs)"
  unfolding declared_def using declared_from_windows(1) [of l all_windows specs]
  by (simp add: all_windows_def)

lemma declared_error:
  "declared l = Inl e \<longleftrightarrow> e = ValueError \<and> (\<exists>w. limit_attr l w \<noteq> None \<and> reset_attr l w = None)"
proof -
  have "declared_from l ws = Inl e \<longleftrightarrow>
      e = ValueError \<and> (\<exists>w\<in>set ws. limit_attr l w \<noteq> None \<and> reset_attr l w = None)" for ws
    by (induction ws) (auto simp: ebind_def split: option.splits sum.splits)
  moreover have "w \<in> set all_windows" for w by (cases w) (auto simp: all_windows_def)
  ultimately show ?thesis by (auto simp: declared_def)
qed

lemma limits_valid_pos: "limits_valid l \<Longrightarrow> limit_attr l w = Some n \<Longrightarrow> 0 < n"
  by (cases w) (auto simp: limits_valid_def)

subsection \<open>The sliding count\<close>

lemma sliding_count_bounds:
  assumes "0 \<le> previous" "sliding_count previous current f = Inr c"
  shows "of_int current \<le> c" "c \<le> of_int (previous + current)"
  using assms by (auto simp: sliding_count_def mult_left_le split: if_splits)

lemma sliding_count_antimono:
  assumes "0 \<le> previous" "sliding_count previous current f = Inr c"
    "sliding_count previous current g = Inr d" "f \<le> g"
  shows "d \<le> c"
  using assms by (auto simp: sliding_count_def intro!: mult_left_mono split: if_splits)

end
