(* ===== verification/Gw_Quota.thy ===== *)
theory Gw_Quota
  imports Gw_Types Gw_Scripts Gw_Windows
begin

text \<open>
  The quota tracker (\<^verbatim>\<open>app/quota/tracker.py\<close>), the lane split (\<^verbatim>\<open>app/quota/lanes.py\<close>) and the personal
  cap on the shared pool (\<^verbatim>\<open>app/quota/allocations.py\<close>). The clock's answer is the argument \<open>now\<close>;
  the Redis commands are the parameter \<open>R\<close>, reached through the connection of a \<open>world\<close>.
\<close>

subsection \<open>Data\<close>

record Reservation =
  rv_scope :: string
  rv_provider :: string
  rv_model :: string
  rv_request_id :: string
  rv_tokens :: int
  rv_windows :: "QuotaWindow list"
  rv_counter_keys :: "string list"

definition rv_is_empty :: "Reservation \<Rightarrow> bool" where
  "rv_is_empty r \<longleftrightarrow> rv_windows r = []"

record WindowGrant =
  wg_window :: QuotaWindow
  wg_limit :: int
  wg_reset :: ResetKind
  wg_cost_is_tokens :: bool
  wg_key :: string

record QuotaDecision =
  qd_allowed :: bool
  qd_reservation :: "Reservation option"
  qd_blocked_window :: "QuotaWindow option"
  qd_retry_after_s :: "pyfloat option"
  qd_resets_at :: "instant option"
  qd_degraded :: bool

record QuotaTracker =
  qt_limits :: LimitsConfig
  qt_headroom :: pyfloat
  qt_pt :: tz

definition converging :: "ResetKind \<Rightarrow> bool" where
  "converging r \<longleftrightarrow> r = FixedDailyUtc \<or> r = FixedDailyPt"

definition as_window :: "string \<Rightarrow> QuotaWindow option" where
  "as_window name = List.find (\<lambda>w. window_name w = name) [Rpm, Rpd, Tpm, Tpd]"

subsection \<open>Shares and budgets\<close>

definition answer_share :: "ModelSpec \<Rightarrow> pyfloat" where
  "answer_share spec = 1 - ms_reserved_fraction spec"

definition effective_limit :: "QuotaTracker \<Rightarrow> int \<Rightarrow> ModelSpec \<Rightarrow> int" where
  "effective_limit qt published spec =
     max 1 \<lfloor>of_int published * (1 - qt_headroom qt) * answer_share spec\<rfloor>"

definition declared_for :: "QuotaTracker \<Rightarrow> string \<Rightarrow> string \<Rightarrow> WindowSpec list exn" where
  "declared_for qt provider model =
     (case for_model (qt_limits qt) provider model of None \<Rightarrow> Inr [] | Some l \<Rightarrow> declared l)"

definition budget :: "QuotaTracker \<Rightarrow> ModelSpec \<Rightarrow> WindowSpec list exn" where
  "budget qt spec = ebind (declared_for qt (ms_provider spec) (ms_model spec)) (\<lambda>ws.
     Inr (map (\<lambda>w. w\<lparr>ws_limit := effective_limit qt (ws_limit w) spec\<rparr>) ws))"

subsection \<open>Reserving\<close>

definition block_of :: "QuotaTracker \<Rightarrow> instant \<Rightarrow> int \<Rightarrow> WindowGrant \<Rightarrow> rblock" where
  "block_of qt now est g = \<lparr>rb_key = wg_key g, rb_name = window_name (wg_window g),
     rb_limit = wg_limit g, rb_cost = (if wg_cost_is_tokens g then est else 1),
     rb_ttl = ttl_s (qt_pt qt) (wg_reset g) now, rb_refresh = converging (wg_reset g)\<rparr>"

definition quota_allowed :: "Reservation \<Rightarrow> QuotaDecision" where
  "quota_allowed r = \<lparr>qd_allowed = True, qd_reservation = Some r, qd_blocked_window = None,
     qd_retry_after_s = None, qd_resets_at = None, qd_degraded = False\<rparr>"

definition quota_fail_closed :: QuotaDecision where
  "quota_fail_closed = \<lparr>qd_allowed = False, qd_reservation = None, qd_blocked_window = None,
     qd_retry_after_s = None, qd_resets_at = None, qd_degraded = True\<rparr>"

definition quota_blocked :: "QuotaTracker \<Rightarrow> instant \<Rightarrow> WindowGrant list \<Rightarrow> string \<Rightarrow> int \<Rightarrow> QuotaDecision" where
  "quota_blocked qt now grants blocked ttl =
    (let blocking = List.find (\<lambda>g. window_name (wg_window g) = blocked) grants;
         ttl' = (case blocking of Some g \<Rightarrow> if ttl \<le> 0 then ttl_s (qt_pt qt) (wg_reset g) now else ttl
                  | None \<Rightarrow> ttl);
         retry = of_int (max ttl' 0)
     in \<lparr>qd_allowed = False, qd_reservation = None, qd_blocked_window = as_window blocked,
         qd_retry_after_s = Some retry, qd_resets_at = Some (now + retry), qd_degraded = False\<rparr>)"

definition reserve_windows ::
  "'r redis \<Rightarrow> QuotaTracker \<Rightarrow> instant \<Rightarrow> WindowGrant list \<Rightarrow> string \<Rightarrow> string \<Rightarrow> string \<Rightarrow> int \<Rightarrow> string
    \<Rightarrow> 'r world \<Rightarrow> QuotaDecision exn \<times> 'r world" where
  "reserve_windows R qt now grants scope provider model est request_id w =
    (if est < 0 then (Inl ValueError, w)
     else
      (let reservation = \<lparr>rv_scope = scope, rv_provider = provider, rv_model = model,
             rv_request_id = request_id, rv_tokens = est, rv_windows = map wg_window grants,
             rv_counter_keys = map wg_key grants\<rparr>
       in if grants = [] then (Inr (quota_allowed reservation), w)
          else case quota_reservation scope provider model request_id of
            Inl _ \<Rightarrow> (Inr quota_fail_closed, w)
          | Inr rk \<Rightarrow>
             (case client_call (reserve_script R rk (map (block_of qt now est) grants)
                                  RESERVATION_TTL_S request_id) w of
                (None, w') \<Rightarrow> (Inr quota_fail_closed, w')
              | (Some Reserved, w') \<Rightarrow> (Inr (quota_allowed reservation), w')
              | (Some (Blocked name ttl), w') \<Rightarrow> (Inr (quota_blocked qt now grants name ttl), w'))))"

fun answer_grants :: "string \<Rightarrow> ModelSpec \<Rightarrow> WindowSpec list \<Rightarrow> WindowGrant list exn" where
  "answer_grants scope spec [] = Inr []"
| "answer_grants scope spec (w # ws) =
    ebind (quota scope (ms_provider spec) (ms_model spec) (ws_window w)) (\<lambda>key.
    ebind (answer_grants scope spec ws) (\<lambda>gs.
      Inr (\<lparr>wg_window = ws_window w, wg_limit = ws_limit w, wg_reset = ws_reset w,
            wg_cost_is_tokens = ws_cost_is_tokens w, wg_key = key\<rparr> # gs)))"

definition reserve ::
  "'r redis \<Rightarrow> QuotaTracker \<Rightarrow> instant \<Rightarrow> ModelSpec \<Rightarrow> string \<Rightarrow> int \<Rightarrow> string \<Rightarrow> WindowGrant list
    \<Rightarrow> 'r world \<Rightarrow> QuotaDecision exn \<times> 'r world" where
  "reserve R qt now spec scope est request_id extra_grants w =
    (case ebind (budget qt spec) (answer_grants scope spec) of
       Inl e \<Rightarrow> (Inl e, w)
     | Inr gs \<Rightarrow> reserve_windows R qt now (gs @ extra_grants) scope (ms_provider spec) (ms_model spec)
                   est request_id w)"

subsection \<open>Settling\<close>

fun each_exn :: "('a \<Rightarrow> 'b exn) \<Rightarrow> 'a list \<Rightarrow> 'b list exn" where
  "each_exn f [] = Inr []"
| "each_exn f (x # xs) = ebind (f x) (\<lambda>y. ebind (each_exn f xs) (\<lambda>ys. Inr (y # ys)))"

text \<open>\<^verbatim>\<open>dict(zip(windows, counter_keys, strict=True))\<close>: a later pair overrides an earlier one.\<close>

definition by_window :: "Reservation \<Rightarrow> (QuotaWindow \<rightharpoonup> string) exn" where
  "by_window r = (if length (rv_windows r) = length (rv_counter_keys r)
     then Inr (map_of (rev (zip (rv_windows r) (rv_counter_keys r)))) else Inl ValueError)"

definition keys_for :: "Reservation \<Rightarrow> QuotaWindow list \<Rightarrow> string list exn" where
  "keys_for r settled =
    (if rv_counter_keys r \<noteq> [] then
       ebind (by_window r) (\<lambda>m. each_exn (\<lambda>w. case m w of None \<Rightarrow> Inl KeyError | Some k \<Rightarrow> Inr k) settled)
     else each_exn (quota (rv_scope r) (rv_provider r) (rv_model r)) settled)"

definition settlement_keys :: "Reservation \<Rightarrow> QuotaWindow list \<Rightarrow> (string \<times> string list) exn" where
  "settlement_keys r settled =
    ebind (quota_reservation (rv_scope r) (rv_provider r) (rv_model r) (rv_request_id r)) (\<lambda>rk.
    ebind (keys_for r settled) (\<lambda>ks. Inr (rk, ks)))"

text \<open>\<^verbatim>\<open>_run_settlement\<close> swallows whatever is raised: \<open>None\<close> is then its result.\<close>

definition run_settlement ::
  "Reservation \<Rightarrow> QuotaWindow list \<Rightarrow> (string \<Rightarrow> string list \<Rightarrow> 'r \<Rightarrow> bool \<times> 'r) \<Rightarrow> 'r world \<Rightarrow> bool option \<times> 'r world" where
  "run_settlement r settled script w =
    (case settlement_keys r settled of
       Inl _ \<Rightarrow> (None, w)
     | Inr (rk, ks) \<Rightarrow> client_call (script rk ks) w)"

definition commit_block :: "QuotaTracker \<Rightarrow> instant \<Rightarrow> int \<Rightarrow> WindowSpec \<times> string \<Rightarrow> cblock" where
  "commit_block qt now actual wk = \<lparr>cb_key = snd wk, cb_name = window_name (ws_window (fst wk)),
     cb_actual = actual, cb_ttl = ttl_s (qt_pt qt) (ws_reset (fst wk)) now,
     cb_refresh = converging (ws_reset (fst wk))\<rparr>"

definition commit ::
  "'r redis \<Rightarrow> QuotaTracker \<Rightarrow> instant \<Rightarrow> Reservation \<Rightarrow> int \<Rightarrow> int \<Rightarrow> 'r world \<Rightarrow> unit exn \<times> 'r world" where
  "commit R qt now r tokens_in tokens_out w =
    (if rv_is_empty r then (Inr (), w)
     else case declared_for qt (rv_provider r) (rv_model r) of
       Inl e \<Rightarrow> (Inl e, w)
     | Inr ws \<Rightarrow>
        (let token_windows = filter (\<lambda>x. ws_cost_is_tokens x \<and> ws_window x \<in> set (rv_windows r)) ws;
             (_, w') = run_settlement r (map ws_window token_windows)
               (\<lambda>rk ks. commit_script R rk
                  (map (commit_block qt now (tokens_in + tokens_out)) (zip token_windows ks))) w
         in (Inr (), w')))"

definition release :: "'r redis \<Rightarrow> Reservation \<Rightarrow> 'r world \<Rightarrow> 'r world" where
  "release R r w =
    (if rv_is_empty r then w
     else snd (run_settlement r (rv_windows r)
            (\<lambda>rk ks. release_script R rk (zip (map window_name (rv_windows r)) ks)) w))"

subsection \<open>Reporting\<close>

fun read_int :: "fval option \<Rightarrow> int" where
  "read_int (Some (FInt n)) = n"
| "read_int _ = 0"

text \<open>The pipeline of \<^verbatim>\<open>remaining\<close> is one round trip of read-only commands.\<close>

definition remaining ::
  "'r redis \<Rightarrow> QuotaTracker \<Rightarrow> instant \<Rightarrow> ModelSpec \<Rightarrow> string \<Rightarrow> 'r world \<Rightarrow> WindowState list exn \<times> 'r world" where
  "remaining R qt now spec scope w =
    (case budget qt spec of
       Inl e \<Rightarrow> (Inl e, w)
     | Inr [] \<Rightarrow> (Inr [], w)
     | Inr ws \<Rightarrow>
        (case each_exn (quota scope (ms_provider spec) (ms_model spec)) (map ws_window ws) of
           Inl e \<Rightarrow> (Inl e, w)
         | Inr ks \<Rightarrow>
            (case client_call (reading (\<lambda>s. map (\<lambda>k. (rd_get R k s, rd_ttl R k s)) ks)) w of
               (None, w') \<Rightarrow> (Inr [], w')
             | (Some raw, w') \<Rightarrow>
                (Inr (map (\<lambda>(x, (value, ttl)). \<lparr>wst_window = ws_window x, wst_limit = ws_limit x,
                    wst_used = read_int value,
                    wst_resets_at = (if 0 < ttl then now + of_int ttl
                                     else resets_at (qt_pt qt) (ws_reset x) now)\<rparr>) (zip ws raw)), w'))))"

subsection \<open>Hints\<close>

fun first_min :: "('a \<Rightarrow> 'b::linorder) \<Rightarrow> 'a \<Rightarrow> 'a list \<Rightarrow> 'a" where
  "first_min f best [] = best"
| "first_min f best (x # xs) = (if f x < f best then first_min f x xs else first_min f best xs)"

definition closest_window ::
  "QuotaTracker \<Rightarrow> instant \<Rightarrow> WindowSpec list \<Rightarrow> pyfloat option \<Rightarrow> WindowSpec option" where
  "closest_window qt now candidates reported_reset_s =
    (case candidates of
       [] \<Rightarrow> None
     | [c] \<Rightarrow> Some c
     | c # cs \<Rightarrow> (case reported_reset_s of None \<Rightarrow> None
          | Some r \<Rightarrow> Some (first_min (\<lambda>x. \<bar>of_int (ttl_s (qt_pt qt) (ws_reset x) now) - r\<bar>) c cs)))"

text \<open>The counter is read, compared, and written up; the lifetime of a rolling window is kept.\<close>

definition apply_hint_at ::
  "'r redis \<Rightarrow> QuotaTracker \<Rightarrow> instant \<Rightarrow> WindowSpec \<Rightarrow> int \<Rightarrow> string \<Rightarrow> 'r world \<Rightarrow> unit option \<times> 'r world" where
  "apply_hint_at R qt now window used key =
    cbind (client_call (reading (rd_get R key))) (\<lambda>raw.
      if used \<le> read_int raw then creturn ()
      else if converging (ws_reset window)
      then client_call (writing (rd_set_ex R key (FInt used) (ttl_s (qt_pt qt) (ws_reset window) now)))
      else cbind (client_call (reading (rd_ttl R key))) (\<lambda>ttl.
             if 0 < ttl then client_call (writing (rd_set_keepttl R key (FInt used)))
             else client_call (writing (rd_set_ex R key (FInt used)
                    (ttl_s (qt_pt qt) (ws_reset window) now)))))"

definition apply_one ::
  "'r redis \<Rightarrow> QuotaTracker \<Rightarrow> instant \<Rightarrow> ModelSpec \<Rightarrow> string \<Rightarrow> WindowSpec list \<Rightarrow> bool \<Rightarrow> int \<Rightarrow> pyfloat option
    \<Rightarrow> 'r world \<Rightarrow> unit exn \<times> 'r world" where
  "apply_one R qt now spec scope ws cost_is_tokens remain reported_reset_s w =
    (case closest_window qt now (filter (\<lambda>x. ws_cost_is_tokens x = cost_is_tokens) ws) reported_reset_s of
       None \<Rightarrow> (Inr (), w)
     | Some window \<Rightarrow>
        (let eff = effective_limit qt (ws_limit window) spec;
             used = min eff (max 0 (eff - remain))
         in case quota scope (ms_provider spec) (ms_model spec) (ws_window window) of
              Inl e \<Rightarrow> (Inl e, w)
            | Inr key \<Rightarrow> (Inr (), snd (apply_hint_at R qt now window used key w))))"

definition apply_hint ::
  "'r redis \<Rightarrow> QuotaTracker \<Rightarrow> instant \<Rightarrow> ModelSpec \<Rightarrow> string \<Rightarrow> QuotaHint \<Rightarrow> 'r world \<Rightarrow> unit exn \<times> 'r world" where
  "apply_hint R qt now spec scope hint w =
    (case declared_for qt (ms_provider spec) (ms_model spec) of
       Inl e \<Rightarrow> (Inl e, w)
     | Inr ws \<Rightarrow>
        (case (case qh_requests_remaining hint of None \<Rightarrow> (Inr (), w)
               | Some n \<Rightarrow> apply_one R qt now spec scope ws False n (qh_requests_reset_s hint) w) of
           (Inl e, w1) \<Rightarrow> (Inl e, w1)
         | (Inr _, w1) \<Rightarrow>
            (case qh_tokens_remaining hint of None \<Rightarrow> (Inr (), w1)
             | Some n \<Rightarrow> apply_one R qt now spec scope ws True n (qh_tokens_reset_s hint) w1)))"

subsection \<open>The perception lane's half\<close>

definition perception_budget :: "ModelSpec \<Rightarrow> ModelLimits \<Rightarrow> (QuotaWindow \<times> int) list exn" where
  "perception_budget spec limits = ebind (declared limits) (\<lambda>ws.
     Inr (map (\<lambda>w. (ws_window w, \<lfloor>of_int (ws_limit w) * ms_reserved_fraction spec\<rfloor>)) ws))"

definition daily_window :: "QuotaWindow \<Rightarrow> bool" where
  "daily_window w \<longleftrightarrow> w = Rpd \<or> w = Tpd"

fun perception_grants ::
  "QuotaTracker \<Rightarrow> ModelSpec \<Rightarrow> string \<Rightarrow> string \<Rightarrow> (QuotaWindow \<times> int) list \<Rightarrow> WindowSpec list \<Rightarrow> WindowGrant list exn" where
  "perception_grants qt spec scope lane_key daily [] = Inr []"
| "perception_grants qt spec scope lane_key daily (w # ws) =
    ebind (if daily_window (ws_window w)
           then Inr (max 1 \<lfloor>of_int (case map_of daily (ws_window w) of None \<Rightarrow> 0 | Some n \<Rightarrow> n)
                             * (1 - qt_headroom qt)\<rfloor>, lane_key)
           else ebind (quota scope (ms_provider spec) (ms_model spec) (ws_window w)) (\<lambda>k.
                  Inr (max 1 \<lfloor>of_int (ws_limit w) * (1 - qt_headroom qt)\<rfloor>, k))) (\<lambda>(limit, key).
    ebind (perception_grants qt spec scope lane_key daily ws) (\<lambda>gs.
      Inr (\<lparr>wg_window = ws_window w, wg_limit = limit, wg_reset = ws_reset w,
            wg_cost_is_tokens = ws_cost_is_tokens w, wg_key = key\<rparr> # gs)))"

definition reserve_perception ::
  "'r redis \<Rightarrow> QuotaTracker \<Rightarrow> instant \<Rightarrow> ModelSpec \<Rightarrow> string \<Rightarrow> int \<Rightarrow> string \<Rightarrow> 'r world
    \<Rightarrow> QuotaDecision exn \<times> 'r world" where
  "reserve_perception R qt now spec scope est request_id w =
    (case ebind (quota_perception_lane scope (ms_provider spec) (ms_model spec)) (\<lambda>lane_key.
          ebind (case for_model (qt_limits qt) (ms_provider spec) (ms_model spec) of
                   None \<Rightarrow> Inr [] | Some l \<Rightarrow> perception_budget spec l) (\<lambda>daily.
          ebind (declared_for qt (ms_provider spec) (ms_model spec)) (\<lambda>ws.
            perception_grants qt spec scope lane_key daily ws))) of
       Inl e \<Rightarrow> (Inl e, w)
     | Inr gs \<Rightarrow> reserve_windows R qt now gs scope (ms_provider spec) (ms_model spec) est request_id w)"

definition commit_perception ::
  "'r redis \<Rightarrow> QuotaTracker \<Rightarrow> instant \<Rightarrow> Reservation \<Rightarrow> int \<Rightarrow> int \<Rightarrow> 'r world \<Rightarrow> unit exn \<times> 'r world" where
  "commit_perception R qt now r tokens_in tokens_out w = commit R qt now r tokens_in tokens_out w"

definition release_perception :: "'r redis \<Rightarrow> Reservation \<Rightarrow> 'r world \<Rightarrow> 'r world" where
  "release_perception R r w = release R r w"

subsection \<open>The personal cap on the shared pool\<close>

definition shared_pool_grants :: "ModelSpec \<Rightarrow> string \<Rightarrow> int option \<Rightarrow> WindowGrant list exn" where
  "shared_pool_grants spec user_id cap =
    (case cap of None \<Rightarrow> Inr []
     | Some c \<Rightarrow> ebind (user_allocation user_id (ms_provider spec) (ms_model spec)) (\<lambda>key.
         Inr [\<lparr>wg_window = Rpd, wg_limit = c, wg_reset = RollingDaily, wg_cost_is_tokens = False,
               wg_key = key\<rparr>]))"

end
