(* ===== verification/Gw_Quota_Laws.thy ===== *)
theory Gw_Quota_Laws
  imports Gw_Quota
begin

text \<open>
  What the quota tracker guarantees: a reservation is all or nothing and never oversubscribes a
  window, a Redis failure refuses the attempt, settling corrects or undoes exactly what was
  reserved, hints only move counters up, and the two lanes' shares of a daily limit never add up to
  more than the limit. The last section puts any number of workers together.
\<close>

subsection \<open>Grants of the answer lane\<close>

lemma answer_grants_windows:
  "answer_grants scope spec ws = Inr gs \<Longrightarrow> map wg_window gs = map ws_window ws"
  by (induction ws arbitrary: gs) (auto simp: ebind_Inr_iff)

lemma answer_grants_each:
  "answer_grants scope spec ws = Inr gs \<Longrightarrow> \<forall>g\<in>set gs.
     quota scope (ms_provider spec) (ms_model spec) (wg_window g) = Inr (wg_key g) \<and>
     (\<exists>x\<in>set ws. wg_window g = ws_window x \<and> wg_limit g = ws_limit x \<and>
        wg_cost_is_tokens g = ws_cost_is_tokens x)"
  by (induction ws arbitrary: gs) (fastforce simp: ebind_Inr_iff)+

lemmas answer_grants_props = answer_grants_windows answer_grants_each [rule_format]

lemma answer_grants_distinct:
  assumes "answer_grants scope spec ws = Inr gs" "distinct (map ws_window ws)"
  shows "distinct (map wg_key gs)"
proof -
  have w: "distinct (map wg_window gs)" using answer_grants_props(1) [OF assms(1)] assms(2) by simp
  have "inj_on wg_key (set gs)"
  proof (rule inj_onI)
    fix g g' assume "g \<in> set gs" "g' \<in> set gs" "wg_key g = wg_key g'"
    then have "wg_window g = wg_window g'"
      using answer_grants_props(2) [OF assms(1)] quota_window_neq by metis
    with w \<open>g \<in> set gs\<close> \<open>g' \<in> set gs\<close> show "g = g'" by (auto simp: distinct_map inj_on_def)
  qed
  with w show ?thesis by (auto simp: distinct_map)
qed

lemma budget_props:
  assumes "budget qt spec = Inr ws"
  shows "distinct (map ws_window ws)"
    and "x \<in> set ws \<Longrightarrow> ws_cost_is_tokens x = token_window (ws_window x) \<and>
       (\<exists>l n. for_model (qt_limits qt) (ms_provider spec) (ms_model spec) = Some l \<and>
          limit_attr l (ws_window x) = Some n \<and> ws_limit x = effective_limit qt n spec)"
proof -
  obtain ds where ds: "declared_for qt (ms_provider spec) (ms_model spec) = Inr ds"
    and ws: "ws = map (\<lambda>w. w\<lparr>ws_limit := effective_limit qt (ws_limit w) spec\<rparr>) ds"
    using assms by (auto simp: budget_def ebind_Inr_iff)
  have wins: "map ws_window ws = map ws_window ds" by (simp add: ws)
  consider "ds = []" | l where "for_model (qt_limits qt) (ms_provider spec) (ms_model spec) = Some l" "declared l = Inr ds"
    using ds by (auto simp: declared_for_def split: option.splits)
  note c = this
  show "distinct (map ws_window ws)"
    using c by cases (auto simp: wins declared_distinct)
  show "x \<in> set ws \<Longrightarrow> ws_cost_is_tokens x = token_window (ws_window x) \<and>
       (\<exists>l n. for_model (qt_limits qt) (ms_provider spec) (ms_model spec) = Some l \<and>
          limit_attr l (ws_window x) = Some n \<and> ws_limit x = effective_limit qt n spec)"
    using c
  proof cases
    case (2 l)
    assume "x \<in> set ws"
    then obtain y where y: "y \<in> set ds" "x = y\<lparr>ws_limit := effective_limit qt (ws_limit y) spec\<rparr>"
      by (auto simp: ws)
    with declared_from_windows(2) [OF 2(2) [unfolded declared_def]] 2(1) show ?thesis by auto
  qed (simp add: ws)
qed

lemma effective_limit_pos: "1 \<le> effective_limit qt n spec"
  by (simp add: effective_limit_def)

lemma block_of_simps [simp]:
  "rb_key (block_of qt now est g) = wg_key g" "rb_name (block_of qt now est g) = window_name (wg_window g)"
  "rb_limit (block_of qt now est g) = wg_limit g" "0 < rb_ttl (block_of qt now est g)"
  "rb_cost (block_of qt now est g) = (if wg_cost_is_tokens g then est else 1)"
  by (simp_all add: block_of_def)

lemma map_block_keys: "map rb_key (map (block_of qt now est) gs) = map wg_key gs"
  by simp

lemma as_window_name [simp]: "as_window (window_name w) = Some w"
  by (cases w) (simp_all add: as_window_def)

subsection \<open>Reserving\<close>

text \<open>The server as a call finds it, after whatever the other workers did.\<close>

abbreviation srv_now :: "'r world \<Rightarrow> 'r" where
  "srv_now w \<equiv> wd_between w (wd_sent w) (wd_srv w)"

text \<open>A reservation key no one has used yet, and counters of the right type that are not it.\<close>

definition fresh_for :: "keyspace \<Rightarrow> string \<Rightarrow> WindowGrant list \<Rightarrow> bool" where
  "fresh_for v rk gs \<longleftrightarrow> v rk = None \<and> (\<forall>g\<in>set gs. counter_at v (wg_key g) \<and> wg_key g \<noteq> rk)"

lemma fresh_spend_ok: "fresh_for v rk gs \<Longrightarrow> spend_ok v rk (map (block_of qt now est) gs)"
  by (auto simp: fresh_for_def spend_ok_def hash_at_def int_field_def ks_hash_def window_name_not)

lemma reserve_windows_run:
  assumes "0 \<le> est" "grants \<noteq> []" "quota_reservation scope p m rid = Inr rk"
  shows "reserve_windows R qt now grants scope p m est rid w =
    (case client_call (reserve_script R rk (map (block_of qt now est) grants) RESERVATION_TTL_S rid) w of
       (None, w') \<Rightarrow> (Inr quota_fail_closed, w')
     | (Some Reserved, w') \<Rightarrow> (Inr (quota_allowed \<lparr>rv_scope = scope, rv_provider = p, rv_model = m,
         rv_request_id = rid, rv_tokens = est, rv_windows = map wg_window grants,
         rv_counter_keys = map wg_key grants\<rparr>), w')
     | (Some (Blocked name ttl), w') \<Rightarrow> (Inr (quota_blocked qt now grants name ttl), w'))"
  using assms by (simp add: reserve_windows_def Let_def)

lemma quota_decisions [simp]:
  "qd_allowed (quota_allowed r)" "\<not> qd_allowed quota_fail_closed" "qd_degraded quota_fail_closed"
  "\<not> qd_allowed (quota_blocked qt now gs name ttl)" "\<not> qd_degraded (quota_blocked qt now gs name ttl)"
  "qd_blocked_window (quota_blocked qt now gs name ttl) = as_window name"
  "qd_reservation (quota_allowed r) = Some r" "\<not> qd_degraded (quota_allowed r)"
  by (simp_all add: quota_allowed_def quota_fail_closed_def quota_blocked_def Let_def)

lemma client_call_Some:
  assumes "client_call op w = (Some x, w')"
  shows "x = fst (op (srv_now w))" "wd_srv w' = snd (op (srv_now w))"
  using assms by (auto simp: client_call_def Let_def split: delivery.splits prod.splits)

context redis_server
begin

text \<open>A grant charges every window exactly its cost and leaves each within its limit; a refusal that
  is not degraded changes nothing and names a window that could not afford the cost.\<close>

lemma reserve_windows_granted:
  assumes "0 \<le> est" "quota_reservation scope p m rid = Inr rk" "distinct (map wg_key grants)"
    "fresh_for (view (srv_now w)) rk grants" "grants \<noteq> []"
    "reserve_windows R qt now grants scope p m est rid w = (Inr d, w')"
  shows "qd_allowed d \<Longrightarrow> g \<in> set grants \<Longrightarrow>
      ks_count (view (wd_srv w')) (wg_key g) =
        ks_count (view (srv_now w)) (wg_key g) + (if wg_cost_is_tokens g then est else 1)
      \<and> ks_count (view (wd_srv w')) (wg_key g) \<le> wg_limit g"
    and "\<not> qd_allowed d \<Longrightarrow> \<not> qd_degraded d \<Longrightarrow> wd_srv w' = srv_now w \<and>
      (\<exists>g\<in>set grants. qd_blocked_window d = Some (wg_window g) \<and>
         ks_count (view (srv_now w)) (wg_key g) + (if wg_cost_is_tokens g then est else 1) > wg_limit g)"
proof -
  let ?bs = "map (block_of qt now est) grants"
  let ?run = "reserve_script R rk ?bs RESERVATION_TTL_S rid"
  have ok: "spend_ok (view (srv_now w)) rk ?bs" using assms(4) by (rule fresh_spend_ok)
  have rt: "0 < RESERVATION_TTL_S" by (simp add: RESERVATION_TTL_S_def)
  obtain reply w1 where call: "client_call ?run w = (reply, w1)" by (cases "client_call ?run w") auto
  have w1: "w' = w1"
    using assms(6) call unfolding reserve_windows_run [OF assms(1,5,2)]
    by (auto split: option.splits reserve_reply.splits)
  have ctr: "\<forall>b\<in>set ?bs. counter_at (view (srv_now w)) (rb_key b)"
    using assms(4) by (auto simp: fresh_for_def)
  { assume "qd_allowed d" "g \<in> set grants"
    then have "reply = Some Reserved"
      using assms(6) call unfolding reserve_windows_run [OF assms(1,5,2)]
      by (auto split: option.splits reserve_reply.splits)
    with call have "?run (srv_now w) = (Reserved, wd_srv w')"
      using client_call_Some [of ?run w] w1 by (metis prod.collapse)
    note r = ok rt this
    let ?b = "block_of qt now est g"
    have b: "?b \<in> set ?bs" "wg_key g \<noteq> rk" "distinct (map rb_key ?bs)"
      using \<open>g \<in> set grants\<close> assms(3,4) by (auto simp: fresh_for_def o_def)
    have on: "cost_on ?bs (wg_key g) = (if wg_cost_is_tokens g then est else 1)"
      using cost_on_distinct [OF b(3,1)] by simp
    show "ks_count (view (wd_srv w')) (wg_key g) =
        ks_count (view (srv_now w)) (wg_key g) + (if wg_cost_is_tokens g then est else 1)
      \<and> ks_count (view (wd_srv w')) (wg_key g) \<le> wg_limit g"
      using reserve_granted(1) [OF r b(2)] reserve_within_limit [OF r(1,2) b(3,1) r(3)]
      unfolding on by simp }
  { assume "\<not> qd_allowed d" "\<not> qd_degraded d"
    then obtain name ttl where rep: "reply = Some (Blocked name ttl)" and d: "d = quota_blocked qt now grants name ttl"
      using assms(6) call unfolding reserve_windows_run [OF assms(1,5,2)]
      by (auto split: option.splits reserve_reply.splits)
    have run: "?run (srv_now w) = (Blocked name ttl, wd_srv w')"
      using client_call_Some [of ?run w] call rep w1 by (metis prod.collapse)
    then have "reserve_check R ?bs (srv_now w) = Some (name, ttl)" "wd_srv w' = srv_now w"
      by (auto simp: reserve_script_def Let_def split: option.splits)
    with reserve_check_Some [OF ctr this(1)] d show "wd_srv w' = srv_now w \<and>
      (\<exists>g\<in>set grants. qd_blocked_window d = Some (wg_window g) \<and>
         ks_count (view (srv_now w)) (wg_key g) + (if wg_cost_is_tokens g then est else 1) > wg_limit g)"
      by auto }
qed

end

subsection \<open>Settling\<close>

lemma each_exn_map: "(\<And>x. x \<in> set xs \<Longrightarrow> f x = Inr (g x)) \<Longrightarrow> each_exn f xs = Inr (map g xs)"
  by (induction xs) auto

text \<open>The receipt of a granted reservation.\<close>

definition receipt :: "WindowGrant list \<Rightarrow> string \<Rightarrow> string \<Rightarrow> string \<Rightarrow> string \<Rightarrow> int \<Rightarrow> Reservation" where
  "receipt gs scope p m rid est = \<lparr>rv_scope = scope, rv_provider = p, rv_model = m,
     rv_request_id = rid, rv_tokens = est, rv_windows = map wg_window gs, rv_counter_keys = map wg_key gs\<rparr>"

lemma reserve_receipt:
  assumes "0 \<le> est" "reserve_windows R qt now gs scope p m est rid w = (Inr d, w')" "qd_allowed d"
  shows "qd_reservation d = Some (receipt gs scope p m rid est)"
  using assms by (auto simp: reserve_windows_def receipt_def Let_def
      split: if_splits sum.splits prod.splits option.splits reserve_reply.splits)

text \<open>A grant is unique in a list when no other grant carries its window's label.\<close>

definition sole :: "WindowGrant list \<Rightarrow> WindowGrant \<Rightarrow> bool" where
  "sole gs g \<longleftrightarrow> filter (\<lambda>g'. wg_window g' = wg_window g) gs = [g]"

lemma sole_in: "sole gs g \<Longrightarrow> g \<in> set gs"
  unfolding sole_def by (metis (no_types, lifting) filter_is_subset list.set_intros(1) subsetD)

lemma distinct_sole: "distinct (map wg_window gs) \<Longrightarrow> g \<in> set gs \<Longrightarrow> sole gs g"
proof (induction gs)
  case (Cons a gs)
  have none: "wg_window a \<notin> wg_window ` set gs \<Longrightarrow> filter (\<lambda>g'. wg_window g' = wg_window a) gs = []"
    by (auto simp: filter_empty_conv) (metis imageI)
  show ?case
  proof (cases "g = a")
    case True
    then show ?thesis using Cons.prems none by (simp add: sole_def)
  next
    case False
    then have "g \<in> set gs" "wg_window a \<noteq> wg_window g" using Cons.prems by auto
    then show ?thesis using Cons by (simp add: sole_def)
  qed
qed simp

lemma receipt_key_of:
  assumes "sole gs g"
  shows "map_of (rev (zip (map wg_window gs) (map wg_key gs))) (wg_window g) = Some (wg_key g)"
proof -
  have z: "zip (map wg_window gs) (map wg_key gs) = map (\<lambda>g. (wg_window g, wg_key g)) gs"
    by (simp add: zip_map_map zip_same_conv_map o_def)
  have only: "\<forall>g'\<in>set gs. wg_window g' = wg_window g \<longrightarrow> g' = g"
  proof safe
    fix g' assume "g' \<in> set gs" "wg_window g' = wg_window g"
    then have "g' \<in> set (filter (\<lambda>g'. wg_window g' = wg_window g) gs)" by simp
    then have "g' \<in> set [g]" by (simp only: assms [unfolded sole_def])
    then show "g' = g" by simp
  qed
  have "map_of (rev (map (\<lambda>g. (wg_window g, wg_key g)) gs)) (wg_window g) \<noteq> None"
    using sole_in [OF assms] by (simp add: map_of_eq_None_iff image_image)
  then obtain k where k: "map_of (rev (map (\<lambda>g. (wg_window g, wg_key g)) gs)) (wg_window g) = Some k" by auto
  from map_of_SomeD [OF this] only have "k = wg_key g" by auto
  with k show ?thesis unfolding z by simp
qed

lemma receipt_keys_for:
  assumes "\<forall>g\<in>set sub. sole gs g" "gs \<noteq> []"
  shows "keys_for (receipt gs scope p m rid est) (map wg_window sub) = Inr (map wg_key sub)"
proof -
  let ?m = "map_of (rev (zip (map wg_window gs) (map wg_key gs)))"
  have "each_exn (\<lambda>w. case ?m w of None \<Rightarrow> Inl KeyError | Some k \<Rightarrow> Inr k) (map wg_window sub)
      = Inr (map (\<lambda>w. the (?m w)) (map wg_window sub))"
    using receipt_key_of assms(1) by (intro each_exn_map) force
  moreover have "map (\<lambda>w. the (?m w)) (map wg_window sub) = map wg_key sub"
    using receipt_key_of assms(1) by auto
  ultimately show ?thesis using assms(2) by (simp add: keys_for_def by_window_def receipt_def)
qed

lemma cost_named_sole:
  assumes "sole gs g"
  shows "cost_named (map (block_of qt now est) gs) (window_name (wg_window g)) =
    (if wg_cost_is_tokens g then est else 1)"
proof -
  have "cost_named (map (block_of qt now est) gs) (window_name (wg_window g)) =
     (\<Sum>g'\<leftarrow>filter (\<lambda>g'. wg_window g' = wg_window g) gs. if wg_cost_is_tokens g' then est else 1)"
    by (simp add: sum_list_map_filter' o_def cong: if_cong)
  then show ?thesis using assms by (simp add: sole_def)
qed

text \<open>What a granted reservation in a quiet world leaves behind, ready to be settled.\<close>

context redis_server
begin

lemma reserved_state:
  assumes "0 \<le> est" "quota_reservation scope p m rid = Inr rk"
    "distinct (map wg_key gs)" "fresh_for (view (wd_srv w)) rk gs" "gs \<noteq> []" "quiet w"
    "\<forall>g\<in>set gs. 0 \<le> ks_count (view (wd_srv w)) (wg_key g)"
    "reserve_windows R qt now gs scope p m est rid w = (Inr d, w')" "qd_allowed d"
  shows "g \<in> set gs \<Longrightarrow> settle_pre (view (wd_srv w')) rk (wg_key g)"
    and "g \<in> set gs \<Longrightarrow> ks_count (view (wd_srv w')) (wg_key g) =
       ks_count (view (wd_srv w)) (wg_key g) + (if wg_cost_is_tokens g then est else 1)"
    and "sole gs g \<Longrightarrow> ks_hcount (view (wd_srv w')) rk (window_name (wg_window g)) =
       (if wg_cost_is_tokens g then est else 1)"
    and "k \<noteq> rk \<Longrightarrow> k \<notin> wg_key ` set gs \<Longrightarrow> view (wd_srv w') k = view (wd_srv w) k"
    and "view (wd_srv w') rk \<noteq> None" and "quiet w'"
proof -
  let ?bs = "map (block_of qt now est) gs"
  let ?run = "reserve_script R rk ?bs RESERVATION_TTL_S rid"
  have now: "srv_now w = wd_srv w" using assms(6) by (simp add: quiet_def)
  have ok: "spend_ok (view (wd_srv w)) rk ?bs" using assms(4) by (rule fresh_spend_ok)
  have rt: "0 < RESERVATION_TTL_S" by (simp add: RESERVATION_TTL_S_def)
  have call: "client_call ?run w = (Some (fst (?run (wd_srv w))),
      w\<lparr>wd_sent := Suc (wd_sent w), wd_srv := snd (?run (wd_srv w))\<rparr>)"
    by (rule client_call_quiet [OF assms(6)])
  have r: "fst (?run (wd_srv w)) = Reserved" "w' = w\<lparr>wd_sent := Suc (wd_sent w), wd_srv := snd (?run (wd_srv w))\<rparr>"
    using assms(8,9) unfolding reserve_windows_run [OF assms(1,5,2)] call
    by (auto split: reserve_reply.splits)
  have "?run (wd_srv w) = (Reserved, wd_srv w')" using r by (simp add: prod_eq_iff)
  note g = reserve_granted [OF ok rt this]
  show other: "k \<noteq> rk \<Longrightarrow> k \<notin> wg_key ` set gs \<Longrightarrow> view (wd_srv w') k = view (wd_srv w) k"
    using g(2) [of k] by (simp add: image_image)
  show "view (wd_srv w') rk \<noteq> None" by (rule g(6))
  show "quiet w'" using assms(6) r(2) by simp
  have old: "ks_hcount (view (wd_srv w)) rk f = 0" for f
    using assms(4) by (simp add: fresh_for_def ks_hcount_def ks_hash_def)
  have keys: "distinct (map rb_key ?bs)" using assms(3) by (simp add: o_def)
  show "ks_hcount (view (wd_srv w')) rk (window_name (wg_window g)) = (if wg_cost_is_tokens g then est else 1)"
    if "sole gs g"
    using g(3) old cost_named_sole [OF that] by simp
  { assume "g \<in> set gs"
    then have b: "block_of qt now est g \<in> set ?bs" and ne: "wg_key g \<noteq> rk"
      and ctr: "counter_at (view (wd_srv w)) (wg_key g)"
      using assms(4) by (auto simp: fresh_for_def)
    have on: "cost_on ?bs (wg_key g) = (if wg_cost_is_tokens g then est else 1)"
      using cost_on_distinct [OF keys b] by simp
    show cnt: "ks_count (view (wd_srv w')) (wg_key g) =
       ks_count (view (wd_srv w)) (wg_key g) + (if wg_cost_is_tokens g then est else 1)"
      using g(1) [OF ne] unfolding on by simp
    show "settle_pre (view (wd_srv w')) rk (wg_key g)"
      using g(4) [OF ne ctr] g(5) ne cnt assms(1,7) \<open>g \<in> set gs\<close> by (auto simp: settle_pre_def) }
qed

text \<open>Releasing gives every window back exactly what was taken, and forgets the reservation.\<close>

lemma release_restores:
  assumes "0 \<le> est" "quota_reservation scope p m rid = Inr rk" "distinct (map wg_window gs)"
    "distinct (map wg_key gs)" "fresh_for (view (wd_srv w)) rk gs" "gs \<noteq> []" "quiet w"
    "\<forall>g\<in>set gs. 0 \<le> ks_count (view (wd_srv w)) (wg_key g)"
    "reserve_windows R qt now gs scope p m est rid w = (Inr d, w1)" "qd_allowed d"
  defines "w2 \<equiv> release R (receipt gs scope p m rid est) w1"
  shows "ks_count (view (wd_srv w2)) k = ks_count (view (wd_srv w)) k" and "view (wd_srv w2) rk = None"
proof -
  note st = reserved_state [OF assms(1,2,4-10)]
  have sole: "\<forall>g\<in>set gs. sole gs g" using distinct_sole [OF assms(3)] by blast
  let ?nks = "map (\<lambda>g. (window_name (wg_window g), wg_key g)) gs"
  have keys: "settlement_keys (receipt gs scope p m rid est) (map wg_window gs) = Inr (rk, map wg_key gs)"
    using receipt_keys_for [OF sole assms(6)] assms(2)
    by (simp add: settlement_keys_def receipt_def)
  have zip: "zip (map window_name (map wg_window gs)) (map wg_key gs) = ?nks"
    by (simp add: zip_map_map zip_same_conv_map o_def)
  have "\<not> rv_is_empty (receipt gs scope p m rid est)" "rv_windows (receipt gs scope p m rid est) = map wg_window gs"
    using assms(6) by (simp_all add: rv_is_empty_def receipt_def)
  then have w2: "wd_srv w2 = snd (release_script R rk ?nks (wd_srv w1))"
    using keys by (simp add: w2_def release_def run_settlement_def zip [simplified]
        client_call_quiet [OF st(6)])
  have run: "release_script R rk ?nks (wd_srv w1) = (True, wd_srv w2)"
    using st(5) w2 by (simp add: release_script_def exists_spec)
  have "distinct (map snd ?nks)" using assms(4) by (simp add: o_def)
  note rel = release_view [OF run this]
  have pre: "\<forall>nk\<in>set ?nks. settle_pre (view (wd_srv w1)) rk (snd nk) \<and> 0 \<le> ks_hcount (view (wd_srv w1)) rk (fst nk)"
    using st(1,3) sole assms(1) by auto
  show gone: "view (wd_srv w2) rk = None" by (rule rel(3) [OF pre])
  show "ks_count (view (wd_srv w2)) k = ks_count (view (wd_srv w)) k"
  proof (cases "k = rk")
    case True
    then show ?thesis using gone assms(5) by (simp add: fresh_for_def ks_count_def)
  next
    case False
    show ?thesis
    proof (cases "k \<in> wg_key ` set gs")
      case True
      then obtain g where g: "g \<in> set gs" "k = wg_key g" by blast
      then show ?thesis using rel(1) [OF pre, of "(window_name (wg_window g), wg_key g)"] st(2) [OF g(1)] st(3) [of g] sole g(1) assms(8)
        by auto
    next
      case notin: False
      then have "view (wd_srv w2) k = view (wd_srv w1) k"
        using rel(2) [OF pre, of k] False by (force simp: image_iff)
      then show ?thesis using st(4) [OF False notin] ks_same_key(2) [of "view (wd_srv w2)" k "view (wd_srv w)"] by simp
    qed
  qed
qed

end

context redis_server
begin

text \<open>Committing moves every token window from the estimate to what was really spent, leaves every
  request window charged, and forgets the reservation. Grants beyond the declared windows (the
  personal cap) are request grants, so they stay charged too.\<close>

lemma commit_corrects:
  assumes "0 \<le> est" "quota_reservation scope p m rid = Inr rk"
    "distinct (map wg_key gs)" "fresh_for (view (wd_srv w)) rk gs" "gs \<noteq> []" "quiet w"
    "\<forall>g\<in>set gs. 0 \<le> ks_count (view (wd_srv w)) (wg_key g)"
    "reserve_windows R qt now gs scope p m est rid w = (Inr d, w1)" "qd_allowed d"
    and ds: "declared_for qt p m = Inr ds" "filter (\<lambda>x. ws_cost_is_tokens x \<and> ws_window x \<in> wg_window ` set gs) ds = tw"
      "map ws_window tw = map wg_window (filter wg_cost_is_tokens gs)"
    and sole: "\<forall>g\<in>set gs. wg_cost_is_tokens g \<longrightarrow> sole gs g"
    and spent: "0 \<le> tin + tout"
    and run: "commit R qt now2 (receipt gs scope p m rid est) tin tout w1 = (Inr u, w2)"
  shows "g \<in> set gs \<Longrightarrow> ks_count (view (wd_srv w2)) (wg_key g) =
      ks_count (view (wd_srv w)) (wg_key g) + (if wg_cost_is_tokens g then tin + tout else 1)"
    and "view (wd_srv w2) rk = None"
    and "k \<noteq> rk \<Longrightarrow> k \<notin> wg_key ` set gs \<Longrightarrow> view (wd_srv w2) k = view (wd_srv w) k"
proof -
  note st = reserved_state [OF assms(1-9)]
  let ?sub = "filter wg_cost_is_tokens gs"
  let ?cs = "map (commit_block qt now2 (tin + tout)) (zip tw (map wg_key ?sub))"
  have keys: "settlement_keys (receipt gs scope p m rid est) (map ws_window tw) = Inr (rk, map wg_key ?sub)"
    using receipt_keys_for [of ?sub gs] sole assms(2,5) unfolding ds(3)
    by (simp add: settlement_keys_def receipt_def)
  have len: "length tw = length ?sub" using ds(3) by (metis length_map)
  have ckeys: "map cb_key ?cs = map wg_key ?sub" using len by (simp add: commit_block_def o_def)
  have "map cb_name ?cs = map window_name (map ws_window (map fst (zip tw (map wg_key ?sub))))"
    by (simp add: commit_block_def)
  also have "map fst (zip tw (map wg_key ?sub)) = tw" using len by (intro map_fst_zip) simp
  finally have cnames: "map cb_name ?cs = map (window_name \<circ> wg_window) ?sub"
    unfolding ds(3) by simp
  have "\<not> rv_is_empty (receipt gs scope p m rid est)"
    using assms(5) by (simp add: rv_is_empty_def receipt_def)
  then have w2: "wd_srv w2 = snd (commit_script R rk ?cs (wd_srv w1))"
    using run keys ds(1,2) by (auto simp: commit_def run_settlement_def receipt_def split_beta Let_def
        client_call_quiet [OF st(6)])
  have script: "commit_script R rk ?cs (wd_srv w1) = (True, wd_srv w2)"
    using st(5) w2 by (simp add: commit_script_def exists_spec)
  have dist: "distinct (map cb_key ?cs)" unfolding ckeys using assms(3) by (rule distinct_map_filter)
  have pairs: "\<exists>g\<in>set ?sub. cb_key c = wg_key g \<and> cb_name c = window_name (wg_window g)" if c: "c \<in> set ?cs" for c
  proof -
    from c obtain i where i: "i < length ?cs" "?cs ! i = c" by (metis in_set_conv_nth)
    then have il: "i < length ?sub" using len by simp
    have "cb_key c = wg_key (?sub ! i)" "cb_name c = window_name (wg_window (?sub ! i))"
      using arg_cong [OF ckeys, of "\<lambda>xs. xs ! i"] arg_cong [OF cnames, of "\<lambda>xs. xs ! i"] i il by simp_all
    then show ?thesis using il nth_mem by blast
  qed
  have pre: "\<forall>c\<in>set ?cs. settle_pre (view (wd_srv w1)) rk (cb_key c) \<and> 0 < cb_ttl c"
    using pairs st(1) by (fastforce simp: commit_block_def)
  note com = commit_view [OF script dist pre]
  show "view (wd_srv w2) rk = None" by (rule com(3))
  have csub: "cb_key ` set ?cs = wg_key ` set ?sub" by (metis ckeys list.set_map)
  show "k \<noteq> rk \<Longrightarrow> k \<notin> wg_key ` set gs \<Longrightarrow> view (wd_srv w2) k = view (wd_srv w) k"
    using com(2) [of k] st(4) [of k] unfolding csub by auto
  assume g: "g \<in> set gs"
  show "ks_count (view (wd_srv w2)) (wg_key g) =
      ks_count (view (wd_srv w)) (wg_key g) + (if wg_cost_is_tokens g then tin + tout else 1)"
  proof (cases "wg_cost_is_tokens g")
    case True
    then have "wg_key g \<in> cb_key ` set ?cs" using g csub by auto
    then obtain c where c: "c \<in> set ?cs" "wg_key g = cb_key c" by blast
    obtain g' where g': "g' \<in> set ?sub" "cb_key c = wg_key g'" "cb_name c = window_name (wg_window g')"
      using pairs [OF c(1)] by blast
    have "g' = g" using g g' c(2) assms(3) by (auto simp: distinct_map inj_on_def)
    moreover have "cb_actual c = tin + tout" using c(1) by (auto simp: commit_block_def)
    moreover have "ks_hcount (view (wd_srv w1)) rk (window_name (wg_window g)) = est"
      using st(3) [of g] sole g True by simp
    moreover have "ks_count (view (wd_srv w1)) (wg_key g) = ks_count (view (wd_srv w)) (wg_key g) + est"
      using st(2) [OF g] True by simp
    moreover have "0 \<le> ks_count (view (wd_srv w)) (wg_key g)" using assms(7) g by blast
    ultimately show ?thesis using com(1) [OF c(1)] c(2) g'(3) spent True by simp
  next
    case False
    have "wg_key g \<notin> wg_key ` set ?sub"
    proof
      assume "wg_key g \<in> wg_key ` set ?sub"
      then obtain g' where "g' \<in> set gs" "wg_cost_is_tokens g'" "wg_key g = wg_key g'" by auto
      with g assms(3) have "g = g'" by (auto simp: distinct_map inj_on_def)
      with False \<open>wg_cost_is_tokens g'\<close> show False by simp
    qed
    then have "view (wd_srv w2) (wg_key g) = view (wd_srv w1) (wg_key g)"
      using com(2) [of "wg_key g"] st(1) [OF g] unfolding csub by (auto simp: settle_pre_def)
    then show ?thesis using st(2) [OF g] False ks_same_key(2) [of "view (wd_srv w2)" "wg_key g" "view (wd_srv w1)"] by simp
  qed
qed

end

subsection \<open>Hints\<close>

text \<open>What a hint may do: only counters of \<open>K\<close> change, each of them upwards and never past one of the
  limits \<open>L\<close>.\<close>

definition hint_ok :: "string set \<Rightarrow> int set \<Rightarrow> keyspace \<Rightarrow> keyspace \<Rightarrow> bool" where
  "hint_ok K L v v' \<longleftrightarrow> (\<forall>k. k \<notin> K \<longrightarrow> v' k = v k) \<and> (\<forall>k\<in>K. counter_at v' k \<and>
     (v' k = v k \<or> ks_count v k < ks_count v' k \<and> (\<exists>l\<in>L. ks_count v' k \<le> l)))"

lemma hint_ok_refl: "\<forall>k\<in>K. counter_at v k \<Longrightarrow> hint_ok K L v v"
  by (simp add: hint_ok_def)

lemma hint_ok_mono: "hint_ok K L v v' \<Longrightarrow> ks_count v k \<le> ks_count v' k"
  unfolding hint_ok_def using ks_same_key(2) [of v' k v] by (cases "k \<in> K") force+

lemma hint_ok_trans:
  assumes "hint_ok K L v v'" "hint_ok K L v' v''"
  shows "hint_ok K L v v''"
proof -
  have "v'' k = v k \<or> ks_count v k < ks_count v'' k \<and> (\<exists>l\<in>L. ks_count v'' k \<le> l)" if "k \<in> K" for k
    using assms that ks_same_key(2) [of v' k v] ks_same_key(2) [of v'' k v'] unfolding hint_ok_def
    by (metis order_less_trans)
  then show ?thesis using assms unfolding hint_ok_def by simp
qed

definition model_counters :: "string \<Rightarrow> ModelSpec \<Rightarrow> string set" where
  "model_counters scope spec = {k. \<exists>x. quota scope (ms_provider spec) (ms_model spec) x = Inr k}"

definition effective_limits :: "QuotaTracker \<Rightarrow> ModelSpec \<Rightarrow> WindowSpec list \<Rightarrow> int set" where
  "effective_limits qt spec ws = (\<lambda>x. effective_limit qt (ws_limit x) spec) ` set ws"

lemma closest_window_in: "closest_window qt now cs reset = Some x \<Longrightarrow> x \<in> set cs"
proof -
  have min: "first_min f b xs \<in> insert b (set xs)" for f :: "WindowSpec \<Rightarrow> rat" and b xs
    by (induction xs arbitrary: b) auto
  assume "closest_window qt now cs reset = Some x"
  then show ?thesis using min
    by (fastforce simp: closest_window_def split: list.splits option.splits)
qed

context redis_server
begin

lemma apply_hint_at_view:
  assumes "quiet w" "counter_at (view (wd_srv w)) key" "w' = snd (apply_hint_at R qt now window used key w)"
  shows "ks_count (view (wd_srv w')) key = max (ks_count (view (wd_srv w)) key) used"
    and "k \<noteq> key \<or> used \<le> ks_count (view (wd_srv w)) key \<Longrightarrow> view (wd_srv w') k = view (wd_srv w) k"
    and "\<not> converging (ws_reset window) \<Longrightarrow> 0 < ks_ttl (view (wd_srv w)) key \<Longrightarrow>
       ks_ttl (view (wd_srv w')) key = ks_ttl (view (wd_srv w)) key"
    and "counter_at (view (wd_srv w')) key" and "quiet w'"
proof -
  have cur: "read_int (rd_get R key (wd_srv w)) = ks_count (view (wd_srv w)) key"
    using assms(2) by (auto simp: get_spec counter_string ks_get_def ks_count_def counter_at_def
        split: option.splits rentry.splits fval.splits)
  note run = assms(3) apply_hint_at_def cbind_def creturn_def client_call_quiet [OF assms(1)] reading_def
    writing_def cur client_call_quiet ttl_spec set_ex_view set_keepttl_view
  show "ks_count (view (wd_srv w')) key = max (ks_count (view (wd_srv w)) key) used"
    "k \<noteq> key \<or> used \<le> ks_count (view (wd_srv w)) key \<Longrightarrow> view (wd_srv w') k = view (wd_srv w) k"
    "counter_at (view (wd_srv w')) key" "quiet w'"
    using assms(1,2) by (auto simp: run redis_simps)
  show "\<not> converging (ws_reset window) \<Longrightarrow> 0 < ks_ttl (view (wd_srv w)) key \<Longrightarrow>
       ks_ttl (view (wd_srv w')) key = ks_ttl (view (wd_srv w)) key"
    using assms(1,2) by (auto simp: run ks_ttl_def ks_expiry_def split: option.splits)
qed

lemma apply_one_hint_ok:
  assumes "quiet w" "\<forall>k\<in>model_counters scope spec. counter_at (view (wd_srv w)) k"
    "apply_one R qt now spec scope ws tok remain reset w = (Inr u, w')"
  shows "hint_ok (model_counters scope spec) (effective_limits qt spec ws) (view (wd_srv w)) (view (wd_srv w')) \<and> quiet w'"
proof (cases "closest_window qt now (filter (\<lambda>x. ws_cost_is_tokens x = tok) ws) reset")
  case None
  then show ?thesis using assms by (simp add: apply_one_def hint_ok_refl)
next
  case (Some x)
  let ?eff = "effective_limit qt (ws_limit x) spec"
  let ?used = "min ?eff (max 0 (?eff - remain))"
  obtain key where key: "quota scope (ms_provider spec) (ms_model spec) (ws_window x) = Inr key"
    and w': "w' = snd (apply_hint_at R qt now x ?used key w)"
    using assms(3) Some by (auto simp: apply_one_def Let_def split: sum.splits)
  then have K: "key \<in> model_counters scope spec" by (auto simp: model_counters_def)
  have L: "?eff \<in> effective_limits qt spec ws"
    using closest_window_in [OF Some] by (auto simp: effective_limits_def)
  note h = apply_hint_at_view [OF assms(1) bspec [OF assms(2) K] w']
  have "counter_at (view (wd_srv w')) k" if "k \<in> model_counters scope spec" for k
    using that assms(2) h(2,4) ks_same_key(1) [of "view (wd_srv w')" k "view (wd_srv w)"] by (cases "k = key") auto
  moreover have "view (wd_srv w') k = view (wd_srv w) k \<or> ks_count (view (wd_srv w)) k < ks_count (view (wd_srv w')) k \<and>
      (\<exists>l\<in>effective_limits qt spec ws. ks_count (view (wd_srv w')) k \<le> l)" for k
    using h(1,2) L by (cases "k = key"; cases "?used \<le> ks_count (view (wd_srv w)) key") (auto simp: max_def intro: bexI [OF _ L])
  moreover have "view (wd_srv w') k = view (wd_srv w) k" if "k \<notin> model_counters scope spec" for k
    using that K by (intro h(2)) auto
  ultimately show ?thesis using h(5) by (simp add: hint_ok_def)
qed

end

subsection \<open>The lanes\<close>

text \<open>The daily limit the perception lane enforces for a window of the given published size.\<close>

definition perception_daily_limit :: "QuotaTracker \<Rightarrow> int \<Rightarrow> ModelSpec \<Rightarrow> int" where
  "perception_daily_limit qt published spec =
     max 1 \<lfloor>of_int \<lfloor>of_int published * ms_reserved_fraction spec\<rfloor> * (1 - qt_headroom qt)\<rfloor>"

lemma perception_grants_limits:
  assumes "perception_budget spec l = Inr daily" "declared l = Inr ds" "set ws \<subseteq> set ds"
    "perception_grants qt spec scope lane daily ws = Inr gs" "g \<in> set gs"
  shows "\<exists>x\<in>set ws. wg_window g = ws_window x \<and>
    (if daily_window (ws_window x)
     then wg_key g = lane \<and> wg_limit g = perception_daily_limit qt (ws_limit x) spec
     else quota scope (ms_provider spec) (ms_model spec) (ws_window x) = Inr (wg_key g) \<and>
          wg_limit g = max 1 \<lfloor>of_int (ws_limit x) * (1 - qt_headroom qt)\<rfloor>)"
proof -
  have daily: "map_of daily (ws_window x) = Some \<lfloor>of_int (ws_limit x) * ms_reserved_fraction spec\<rfloor>" if "x \<in> set ds" for x
  proof -
    have "daily = map (\<lambda>w. (ws_window w, \<lfloor>of_int (ws_limit w) * ms_reserved_fraction spec\<rfloor>)) ds"
      using assms(1,2) by (auto simp: perception_budget_def)
    moreover have "distinct (map ws_window ds)" by (rule declared_distinct [OF assms(2)])
    ultimately show ?thesis using that by (intro map_of_is_SomeI) (auto simp: o_def)
  qed
  show ?thesis using assms(3-)
  proof (induction ws arbitrary: gs)
    case (Cons x ws)
    then show ?case using daily [of x]
      by (auto simp: ebind_Inr_iff perception_daily_limit_def split: if_splits)
  qed simp
qed

lemma floor_mult_le: "0 \<le> x \<Longrightarrow> 0 \<le> h \<Longrightarrow> h \<le> 1 \<Longrightarrow> \<lfloor>x * (1 - h)\<rfloor> \<le> \<lfloor>x :: rat\<rfloor>"
  by (intro floor_mono) (simp add: mult_left_le)

end
