(* ===== verification/Gw_Quota_Props.thy ===== *)
theory Gw_Quota_Props
  imports Gw_Quota_Laws
begin

text \<open>
  The properties of the quota tracker, on the operations the router calls: granting, refusing,
  committing and releasing a reservation, applying a provider's hint, and the two lanes. Each witness
  runs on the in-memory server with the small tracker defined below.
\<close>

subsection \<open>The grants of one request\<close>

text \<open>The grants an answer attempt asks for: the model's windows, then the personal cap.\<close>

definition answer_all :: "QuotaTracker \<Rightarrow> ModelSpec \<Rightarrow> string \<Rightarrow> string \<Rightarrow> int option \<Rightarrow> WindowGrant list exn" where
  "answer_all qt spec scope user cap =
     ebind (ebind (budget qt spec) (answer_grants scope spec)) (\<lambda>gs.
       ebind (shared_pool_grants spec user cap) (\<lambda>extra. Inr (gs @ extra)))"

text \<open>Whose quota is spent is never confused with who is asking: two different colon-free names.\<close>

definition separate :: "string \<Rightarrow> string \<Rightarrow> bool" where
  "separate user scope \<longleftrightarrow> no_colon user \<and> no_colon scope \<and> user \<noteq> scope"

lemma extra_key:
  assumes "shared_pool_grants spec user cap = Inr extra" "g \<in> set extra"
  shows "\<exists>c. cap = Some c \<and> wg_limit g = c \<and> \<not> wg_cost_is_tokens g \<and> wg_window g = Rpd \<and>
    user_allocation user (ms_provider spec) (ms_model spec) = Inr (wg_key g) \<and> extra = [g]"
  using assms by (auto simp: shared_pool_grants_def ebind_Inr_iff split: option.splits)

lemma cap_grant:
  assumes "shared_pool_grants spec user cap = Inr extra" "cap = Some c"
    "user_allocation user (ms_provider spec) (ms_model spec) = Inr k"
  shows "\<exists>g\<in>set extra. wg_key g = k \<and> wg_limit g = c \<and> \<not> wg_cost_is_tokens g"
  using assms by (auto simp: shared_pool_grants_def)

lemma all_keys_distinct:
  assumes "separate user scope" "answer_all qt spec scope user cap = Inr all"
  shows "distinct (map wg_key all)"
proof -
  obtain ws gs extra where b: "budget qt spec = Inr ws" "answer_grants scope spec ws = Inr gs"
    and e: "shared_pool_grants spec user cap = Inr extra" and all: "all = gs @ extra"
    using assms(2) by (auto simp: answer_all_def ebind_Inr_iff)
  have "wg_key g \<noteq> wg_key g'" if "g \<in> set gs" "g' \<in> set extra" for g g'
    using extra_key [OF e that(2)] answer_grants_props(2) [OF b(2) that(1)] assms(1) allocation_neq(1)
    unfolding separate_def by metis
  moreover have "distinct (map wg_key extra)"
    using e by (auto simp: shared_pool_grants_def ebind_Inr_iff split: option.splits)
  ultimately show ?thesis
    using answer_grants_distinct [OF b(2) budget_props(1) [OF b(1)]] by (fastforce simp: all)
qed

text \<open>Every declared window of the model has its grant, with the effective limit.\<close>

lemma declared_grant:
  assumes "ebind (budget qt spec) (answer_grants scope spec) = Inr gs"
    "for_model (qt_limits qt) (ms_provider spec) (ms_model spec) = Some l" "limit_attr l x = Some n"
    "quota scope (ms_provider spec) (ms_model spec) x = Inr k"
  shows "\<exists>g\<in>set gs. wg_window g = x \<and> wg_key g = k \<and> wg_limit g = effective_limit qt n spec \<and>
    wg_cost_is_tokens g = token_window x"
proof -
  obtain ws where b: "budget qt spec = Inr ws" "answer_grants scope spec ws = Inr gs"
    using assms(1) by (auto simp: ebind_Inr_iff)
  obtain ds where ds: "declared l = Inr ds"
    and ws: "ws = map (\<lambda>w. w\<lparr>ws_limit := effective_limit qt (ws_limit w) spec\<rparr>) ds"
    using b(1) assms(2) by (auto simp: budget_def declared_for_def ebind_Inr_iff)
  have "x \<in> set (map ws_window ds)"
    using declared_from_windows(1) [OF ds [unfolded declared_def]] assms(3)
    by (cases x) (auto simp: all_windows_def)
  then have "x \<in> set (map wg_window gs)" unfolding answer_grants_props(1) [OF b(2)] ws by (simp add: o_def)
  then obtain g where g: "g \<in> set gs" "wg_window g = x" by auto
  obtain y where y: "y \<in> set ws" "wg_window g = ws_window y" "wg_limit g = ws_limit y"
      "wg_cost_is_tokens g = ws_cost_is_tokens y"
    and k: "quota scope (ms_provider spec) (ms_model spec) (wg_window g) = Inr (wg_key g)"
    using answer_grants_props(2) [OF b(2) g(1)] by blast
  with budget_props(2) [OF b(1) y(1)] g assms(2-4) show ?thesis by (intro bexI [of _ g]) auto
qed

text \<open>Reserving on the grants of one request, through the connection.\<close>

lemma reserve_all:
  assumes "shared_pool_grants spec user cap = Inr extra"
    "reserve R qt now spec scope est rid extra w = (Inr d, w')"
  obtains all where "answer_all qt spec scope user cap = Inr all" "0 \<le> est"
    "reserve_windows R qt now all scope (ms_provider spec) (ms_model spec) est rid w = (Inr d, w')"
proof -
  obtain gs where gs: "ebind (budget qt spec) (answer_grants scope spec) = Inr gs"
    and run: "reserve_windows R qt now (gs @ extra) scope (ms_provider spec) (ms_model spec) est rid w = (Inr d, w')"
    using assms(2) by (auto simp: reserve_def split: sum.splits)
  show ?thesis
  proof (rule that)
    show "answer_all qt spec scope user cap = Inr (gs @ extra)" by (simp add: answer_all_def gs assms(1))
    show "0 \<le> est" using run by (auto simp: reserve_windows_def split: if_splits)
  qed (fact run)
qed

lemma reserve_eq:
  assumes "shared_pool_grants spec user cap = Inr extra" "answer_all qt spec scope user cap = Inr all"
  shows "reserve R qt now spec scope est rid extra w =
    reserve_windows R qt now all scope (ms_provider spec) (ms_model spec) est rid w"
  using assms by (auto simp: answer_all_def ebind_Inr_iff reserve_def)

text \<open>The state a request may find: its reservation key is unused and its counters hold integers.\<close>

definition ready :: "keyspace \<Rightarrow> QuotaTracker \<Rightarrow> ModelSpec \<Rightarrow> string \<Rightarrow> string \<Rightarrow> int option \<Rightarrow> string \<Rightarrow> bool" where
  "ready v qt spec scope user cap rid \<longleftrightarrow>
    (case quota_reservation scope (ms_provider spec) (ms_model spec) rid of Inl _ \<Rightarrow> False
     | Inr rk \<Rightarrow> v rk = None) \<and>
    (case answer_all qt spec scope user cap of Inl _ \<Rightarrow> True
     | Inr all \<Rightarrow> list_all (\<lambda>g. counter_at v (wg_key g) \<and> 0 \<le> ks_count v (wg_key g)) all)"

lemma ready_fresh:
  assumes "ready v qt spec scope user cap rid" "separate user scope" "answer_all qt spec scope user cap = Inr all"
  obtains rk where "quota_reservation scope (ms_provider spec) (ms_model spec) rid = Inr rk"
    "fresh_for v rk all" "\<forall>g\<in>set all. 0 \<le> ks_count v (wg_key g)"
proof -
  obtain rk where rk: "quota_reservation scope (ms_provider spec) (ms_model spec) rid = Inr rk" "v rk = None"
    and c: "\<forall>g\<in>set all. counter_at v (wg_key g) \<and> 0 \<le> ks_count v (wg_key g)"
    using assms(1,3) by (auto simp: ready_def list_all_iff split: sum.splits)
  obtain ws gs extra where b: "answer_grants scope spec ws = Inr gs"
    and e: "shared_pool_grants spec user cap = Inr extra" and all: "all = gs @ extra"
    using assms(3) by (auto simp: answer_all_def ebind_Inr_iff)
  have "wg_key g \<noteq> rk" if "g \<in> set all" for g
    using that extra_key [OF e, of g] answer_grants_props(2) [OF b, of g] rk(1) assms(2)
      allocation_neq(2) quota_reservation_neq unfolding separate_def all by (metis Un_iff set_append)
  with c rk show ?thesis by (intro that [of rk]) (auto simp: fresh_for_def)
qed

subsection \<open>A concrete tracker\<close>

text \<open>One model with three windows, used by the witnesses: 2 requests a minute, 10 a day, 100 tokens a
  minute, no headroom, nothing reserved for the other lane.\<close>

definition ex_limits :: ModelLimits where
  "ex_limits = \<lparr>ml_rpm = Some 2, ml_rpd = Some 10, ml_tpm = Some 100, ml_tpd = None,
     rp_rpm = Some Rolling60s, rp_rpd = Some FixedDailyUtc, rp_tpm = Some Rolling60s, rp_tpd = None\<rparr>"

definition ex_spec :: ModelSpec where
  "ex_spec = \<lparr>ms_slot = ''s'', ms_provider = ''p'', ms_model = ''m'', ms_context_window = 1000,
     ms_max_output_tokens = 100, ms_supports_streaming = True, ms_supports_vision = False,
     ms_supports_pdf = False, ms_supports_system_field = True, ms_max_file_bytes = None,
     ms_priority = 0, ms_reserved_fraction = 0\<rparr>"

definition ex_tracker :: QuotaTracker where
  "ex_tracker = \<lparr>qt_limits = \<lparr>lc_limits = [''p'' \<mapsto> [''m'' \<mapsto> ex_limits]], lc_gateway = Map.empty\<rparr>,
     qt_headroom = 0, qt_pt = utc\<rparr>"

definition ex_seen :: keyspace where
  "ex_seen = [''q:system:p:m:rpm'' \<mapsto> (RStr (FInt 1), Some 40), ''q:system:p:m:tpm'' \<mapsto> (RStr (FInt 30), Some 40)]"

lemmas ex_defs = ex_limits_def ex_spec_def ex_tracker_def

definition ex_cap :: "WindowGrant list" where
  "ex_cap = [\<lparr>wg_window = Rpd, wg_limit = 5, wg_reset = RollingDaily, wg_cost_is_tokens = False, wg_key = ''q:u:p:m:alloc:rpd''\<rparr>]"

definition ex_all :: "WindowGrant list" where
  "ex_all = [\<lparr>wg_window = Rpm, wg_limit = 2, wg_reset = Rolling60s, wg_cost_is_tokens = False, wg_key = ''q:system:p:m:rpm''\<rparr>,
   \<lparr>wg_window = Rpd, wg_limit = 10, wg_reset = FixedDailyUtc, wg_cost_is_tokens = False, wg_key = ''q:system:p:m:rpd''\<rparr>,
   \<lparr>wg_window = Tpm, wg_limit = 100, wg_reset = Rolling60s, wg_cost_is_tokens = True, wg_key = ''q:system:p:m:tpm''\<rparr>] @ ex_cap"

lemma ex_cap_eq: "shared_pool_grants ex_spec ''u'' (Some 5) = Inr ex_cap"
  by code_simp

lemma ex_all_eq: "answer_all ex_tracker ex_spec ''system'' ''u'' (Some 5) = Inr ex_all"
  by code_simp

lemma ex_ready: "ready ex_seen ex_tracker ex_spec ''system'' ''u'' (Some 5) ''r1''"
  by code_simp


subsection \<open>What a reservation does\<close>

text \<open>The cost a grant charges for a request of \<open>est\<close> tokens.\<close>

abbreviation grant_cost :: "int \<Rightarrow> WindowGrant \<Rightarrow> int" where
  "grant_cost est g \<equiv> (if wg_cost_is_tokens g then est else 1)"

lemma reserve_decides:
  assumes "redis_server R view" "0 \<le> est" "quota_reservation scope p m rid = Inr rk"
    "fresh_for (view (srv_now w)) rk gs" "wd_link w (wd_sent w) = Delivered"
  shows "\<exists>d w'. reserve_windows R qt now gs scope p m est rid w = (Inr d, w') \<and> \<not> qd_degraded d \<and>
    (qd_allowed d \<longleftrightarrow> (\<forall>g\<in>set gs. ks_count (view (srv_now w)) (wg_key g) + grant_cost est g \<le> wg_limit g))"
proof (cases "gs = []")
  case True
  then show ?thesis using assms(2) by (simp add: reserve_windows_def Let_def)
next
  case False
  let ?bs = "map (block_of qt now est) gs"
  let ?run = "reserve_script R rk ?bs RESERVATION_TTL_S rid"
  have ctr: "\<forall>b\<in>set ?bs. counter_at (view (srv_now w)) (rb_key b)"
    using assms(4) by (auto simp: fresh_for_def)
  have call: "fst (client_call ?run w) = Some (fst (?run (srv_now w)))"
    using assms(5) by (simp add: client_call_def Let_def split_beta)
  have iff: "fst (?run (srv_now w)) = Reserved \<longleftrightarrow>
      (\<forall>g\<in>set gs. ks_count (view (srv_now w)) (wg_key g) + grant_cost est g \<le> wg_limit g)"
    unfolding redis_server.reserve_reply_iff [OF assms(1) ctr] by simp
  show ?thesis
  proof (cases "fst (?run (srv_now w))")
    case Reserved
    then show ?thesis using iff call reserve_windows_run [OF assms(2) False assms(3), of R qt now w]
      by (cases "client_call ?run w") auto
  next
    case (Blocked name ttl)
    then show ?thesis using iff call reserve_windows_run [OF assms(2) False assms(3), of R qt now w]
      by (cases "client_call ?run w") auto
  qed
qed

text \<open>C1: whenever a reservation is granted - whatever other workers did just before - every declared
  window of the model has been charged exactly its cost and stands within its effective limit, and so
  does the caller's personal allocation on the shared pool.\<close>

theorem reserve_never_oversubscribes:
  assumes "redis_server R view" "separate user scope"
    "shared_pool_grants spec user cap = Inr extra"
    "for_model (qt_limits qt) (ms_provider spec) (ms_model spec) = Some l"
    "ready (view (srv_now w)) qt spec scope user cap rid"
    "reserve R qt now spec scope est rid extra w = (Inr d, w')" "qd_allowed d"
  shows "(\<forall>x n k. limit_attr l x = Some n \<and> quota scope (ms_provider spec) (ms_model spec) x = Inr k \<longrightarrow>
      ks_count (view (wd_srv w')) k = ks_count (view (srv_now w)) k + (if token_window x then est else 1) \<and>
      ks_count (view (wd_srv w')) k \<le> effective_limit qt n spec) \<and>
    (\<forall>c k. cap = Some c \<and> user_allocation user (ms_provider spec) (ms_model spec) = Inr k \<longrightarrow>
      ks_count (view (wd_srv w')) k = ks_count (view (srv_now w)) k + 1 \<and> ks_count (view (wd_srv w')) k \<le> c)"
proof -
  obtain all where all: "answer_all qt spec scope user cap = Inr all" "0 \<le> est"
    "reserve_windows R qt now all scope (ms_provider spec) (ms_model spec) est rid w = (Inr d, w')"
    by (rule reserve_all [OF assms(3,6)])
  obtain rk where rk: "quota_reservation scope (ms_provider spec) (ms_model spec) rid = Inr rk"
    "fresh_for (view (srv_now w)) rk all"
    by (rule ready_fresh [OF assms(5,2) all(1)])
  obtain gs where gs: "ebind (budget qt spec) (answer_grants scope spec) = Inr gs" "all = gs @ extra"
    using all(1) assms(3) by (auto simp: answer_all_def ebind_Inr_iff)
  have each: "ks_count (view (wd_srv w')) (wg_key g) = ks_count (view (srv_now w)) (wg_key g) + grant_cost est g \<and>
      ks_count (view (wd_srv w')) (wg_key g) \<le> wg_limit g" if "g \<in> set all" for g
    using redis_server.reserve_windows_granted(1) [OF assms(1) all(2) rk(1) all_keys_distinct [OF assms(2) all(1)] rk(2) _ all(3) assms(7) that]
      that by force
  have model: "ks_count (view (wd_srv w')) k = ks_count (view (srv_now w)) k + (if token_window x then est else 1) \<and>
      ks_count (view (wd_srv w')) k \<le> effective_limit qt n spec"
    if x: "limit_attr l x = Some n" "quota scope (ms_provider spec) (ms_model spec) x = Inr k" for x n k
  proof -
    obtain g where "g \<in> set gs" "wg_key g = k" "wg_limit g = effective_limit qt n spec" "wg_cost_is_tokens g = token_window x"
      using declared_grant [OF gs(1) assms(4) x] by blast
    with each [of g] gs(2) show ?thesis by auto
  qed
  have "ks_count (view (wd_srv w')) k = ks_count (view (srv_now w)) k + 1 \<and> ks_count (view (wd_srv w')) k \<le> c"
    if c: "cap = Some c" "user_allocation user (ms_provider spec) (ms_model spec) = Inr k" for c k
  proof -
    obtain g where "g \<in> set extra" "wg_key g = k" "wg_limit g = c" "\<not> wg_cost_is_tokens g"
      using cap_grant [OF assms(3) c] by blast
    with each [of g] gs(2) show ?thesis by auto
  qed
  with model show ?thesis by blast
qed

text \<open>The witnesses' request: 50 tokens for user \<open>u\<close>, capped at 5 requests a day.\<close>

lemma ex_separate: "separate ''u'' ''system''"
  by (simp add: separate_def)

lemma ex_model: "for_model (qt_limits ex_tracker) (ms_provider ex_spec) (ms_model ex_spec) = Some ex_limits"
  by (simp add: for_model_def ex_defs)

lemma ex_srv [simp]: "wd_between (calm s) n s' = s'" "wd_link (calm s) n = Delivered"
  by (simp_all add: calm_def)

lemma ex_ready': "ready (srv_now (calm ex_seen)) ex_tracker ex_spec ''system'' ''u'' (Some 5) ''r1''"
  using ex_ready by simp

lemma affordable_reserve:
  assumes "shared_pool_grants spec user cap = Inr extra" "answer_all qt spec scope user cap = Inr all"
    "ready v qt spec scope user cap rid" "separate user scope" "0 \<le> est"
    "list_all (\<lambda>g. ks_count v (wg_key g) + grant_cost est g \<le> wg_limit g) all"
  shows "\<exists>d w' r. reserve mem_redis qt now spec scope est rid extra (calm v) = (Inr d, w') \<and> qd_allowed d \<and>
    qd_reservation d = Some r"
proof -
  obtain rk where rk: "quota_reservation scope (ms_provider spec) (ms_model spec) rid = Inr rk" "fresh_for v rk all"
    by (rule ready_fresh [OF assms(3,4,2)])
  have "\<exists>d w'. reserve_windows mem_redis qt now all scope (ms_provider spec) (ms_model spec) est rid (calm v) = (Inr d, w') \<and> qd_allowed d"
    using reserve_decides [where R = mem_redis and view = "\<lambda>v. v" and w = "calm v" and gs = all and qt = qt and now = now,
        OF mem_redis_server assms(5) rk(1)]
      rk(2) assms(6) by (auto simp: list_all_iff)
  then show ?thesis using reserve_receipt [OF assms(5)] unfolding reserve_eq [OF assms(1,2)] by blast
qed

lemma ex_reserve:
  "\<exists>d w' r. reserve mem_redis ex_tracker 0 ex_spec ''system'' 50 ''r1'' ex_cap (calm ex_seen) = (Inr d, w') \<and> qd_allowed d \<and>
     qd_reservation d = Some r"
  by (rule affordable_reserve [OF ex_cap_eq ex_all_eq ex_ready ex_separate])
    (simp_all add: ex_all_def ex_cap_def ex_seen_def ks_count_def)

lemma ex_nocap: "answer_all ex_tracker ex_spec ''system'' ''u'' None = Inr (take 3 ex_all)"
  "shared_pool_grants ex_spec ''u'' None = Inr []" "ready ex_seen ex_tracker ex_spec ''system'' ''u'' None ''r1''"
  by code_simp+

lemma ex_reserve_nocap:
  "\<exists>d w' r. reserve mem_redis ex_tracker 0 ex_spec ''system'' 50 ''r1'' [] (calm ex_seen) = (Inr d, w') \<and> qd_allowed d \<and>
     qd_reservation d = Some r"
  by (rule affordable_reserve [OF ex_nocap(2,1,3) ex_separate])
    (simp_all add: ex_all_def ex_cap_def ex_seen_def ks_count_def)

theorem reserve_never_oversubscribes_witness:
  "\<exists>d w'. reserve mem_redis ex_tracker 0 ex_spec ''system'' 50 ''r1'' ex_cap (calm ex_seen) = (Inr d, w') \<and>
     qd_allowed d \<and> ks_count (wd_srv w') ''q:system:p:m:tpm'' = 80 \<and> ks_count (wd_srv w') ''q:u:p:m:alloc:rpd'' = 1"
proof -
  obtain d w' where run: "reserve mem_redis ex_tracker 0 ex_spec ''system'' 50 ''r1'' ex_cap (calm ex_seen) = (Inr d, w')"
    and ok: "qd_allowed d" using ex_reserve by blast
  have k: "quota ''system'' (ms_provider ex_spec) (ms_model ex_spec) Tpm = Inr ''q:system:p:m:tpm''"
    "user_allocation ''u'' (ms_provider ex_spec) (ms_model ex_spec) = Inr ''q:u:p:m:alloc:rpd''" by code_simp+
  have l: "limit_attr ex_limits Tpm = Some 100" by (simp add: ex_limits_def)
  have seen: "ks_count (srv_now (calm ex_seen)) ''q:system:p:m:tpm'' = 30" "ks_count (srv_now (calm ex_seen)) ''q:u:p:m:alloc:rpd'' = 0"
    by (simp_all add: calm_def ex_seen_def ks_count_def)
  note th = reserve_never_oversubscribes [OF mem_redis_server ex_separate ex_cap_eq ex_model ex_ready' run ok]
  have "ks_count (wd_srv w') ''q:system:p:m:tpm'' = 80"
    using th [THEN conjunct1, rule_format, OF conjI [OF l k(1)]] seen(1) by (simp add: token_window_def)
  moreover have "ks_count (wd_srv w') ''q:u:p:m:alloc:rpd'' = 1"
    using th [THEN conjunct2, rule_format, OF conjI [OF refl k(2)]] seen(2) by simp
  ultimately show ?thesis using run ok by blast
qed
text \<open>C11: a reservation whose script call is delivered is granted exactly when every window (the
  personal cap included) can still afford its cost; a refusal leaves the server untouched and names a
  window that could not.\<close>

theorem reserve_all_or_nothing:
  assumes "redis_server R view" "separate user scope" "shared_pool_grants spec user cap = Inr extra"
    "answer_all qt spec scope user cap = Inr all" "0 \<le> est"
    "ready (view (srv_now w)) qt spec scope user cap rid" "wd_link w (wd_sent w) = Delivered"
  shows "\<exists>d w'. reserve R qt now spec scope est rid extra w = (Inr d, w') \<and> \<not> qd_degraded d \<and>
    (qd_allowed d \<longleftrightarrow> (\<forall>g\<in>set all. ks_count (view (srv_now w)) (wg_key g) + grant_cost est g \<le> wg_limit g)) \<and>
    (\<not> qd_allowed d \<longrightarrow> wd_srv w' = srv_now w \<and> (\<exists>g\<in>set all. qd_blocked_window d = Some (wg_window g) \<and>
       ks_count (view (srv_now w)) (wg_key g) + grant_cost est g > wg_limit g))"
proof -
  obtain rk where rk: "quota_reservation scope (ms_provider spec) (ms_model spec) rid = Inr rk"
    "fresh_for (view (srv_now w)) rk all"
    by (rule ready_fresh [OF assms(6,2,4)])
  obtain d w' where run: "reserve_windows R qt now all scope (ms_provider spec) (ms_model spec) est rid w = (Inr d, w')"
    and d: "\<not> qd_degraded d" "qd_allowed d \<longleftrightarrow> (\<forall>g\<in>set all. ks_count (view (srv_now w)) (wg_key g) + grant_cost est g \<le> wg_limit g)"
    using reserve_decides [OF assms(1,5) rk assms(7)] by blast
  have "all \<noteq> []" if "\<not> qd_allowed d" using that d(2) by auto
  then have "\<not> qd_allowed d \<longrightarrow> wd_srv w' = srv_now w \<and> (\<exists>g\<in>set all. qd_blocked_window d = Some (wg_window g) \<and>
       ks_count (view (srv_now w)) (wg_key g) + grant_cost est g > wg_limit g)"
    using redis_server.reserve_windows_granted(2) [OF assms(1,5) rk(1) all_keys_distinct [OF assms(2,4)] rk(2) _ run] d(1)
    by blast
  with run d show ?thesis unfolding reserve_eq [OF assms(3,4)] by blast
qed

theorem reserve_all_or_nothing_witness:
  "\<exists>d w'. reserve mem_redis ex_tracker 0 ex_spec ''system'' 71 ''r1'' ex_cap (calm ex_seen) = (Inr d, w') \<and>
     \<not> qd_allowed d \<and> wd_srv w' = ex_seen"
proof -
  have link: "wd_link (calm ex_seen) (wd_sent (calm ex_seen)) = Delivered" and now: "srv_now (calm ex_seen) = ex_seen"
    by (simp_all add: calm_def)
  obtain d w' where "reserve mem_redis ex_tracker 0 ex_spec ''system'' 71 ''r1'' ex_cap (calm ex_seen) = (Inr d, w')"
    "qd_allowed d \<longleftrightarrow> (\<forall>g\<in>set ex_all. ks_count ex_seen (wg_key g) + grant_cost 71 g \<le> wg_limit g)"
    "\<not> qd_allowed d \<longrightarrow> wd_srv w' = ex_seen"
    using reserve_all_or_nothing [where R = mem_redis and view = "\<lambda>v. v" and w = "calm ex_seen" and est = 71
        and qt = ex_tracker and now = 0, OF mem_redis_server ex_separate ex_cap_eq ex_all_eq _ ex_ready' link] now
    by auto
  moreover have "\<not> (\<forall>g\<in>set ex_all. ks_count ex_seen (wg_key g) + grant_cost 71 g \<le> wg_limit g)"
    by (simp add: ex_all_def ex_seen_def ks_count_def)
  ultimately show ?thesis by blast
qed

text \<open>When Redis cannot be reached a request with any quota to check is refused as degraded, never
  let through: the tracker fails closed.\<close>

theorem reserve_fails_closed:
  assumes "link_down w" "shared_pool_grants spec user cap = Inr extra"
    "answer_all qt spec scope user cap = Inr all" "all \<noteq> []" "0 \<le> est"
  shows "\<exists>w'. reserve R qt now spec scope est rid extra w = (Inr quota_fail_closed, w') \<and> \<not> qd_allowed quota_fail_closed"
proof (cases "quota_reservation scope (ms_provider spec) (ms_model spec) rid")
  case (Inl e)
  then show ?thesis using assms(4,5) by (simp add: reserve_eq [OF assms(2,3)] reserve_windows_def Let_def)
next
  case (Inr rk)
  let ?run = "reserve_script R rk (map (block_of qt now est) all) RESERVATION_TTL_S rid"
  have "fst (client_call ?run w) = None" by (rule client_call_down [OF assms(1)])
  then show ?thesis unfolding reserve_eq [OF assms(2,3)] reserve_windows_run [OF assms(5,4) Inr]
    by (cases "client_call ?run w") auto
qed

theorem reserve_fails_closed_witness:
  "\<exists>w'. reserve mem_redis ex_tracker 0 ex_spec ''system'' 50 ''r1'' ex_cap
     \<lparr>wd_srv = ex_seen, wd_sent = 0, wd_link = (\<lambda>_. NotSent), wd_between = (\<lambda>_ s. s)\<rparr> = (Inr quota_fail_closed, w')"
proof -
  have "link_down \<lparr>wd_srv = ex_seen, wd_sent = 0, wd_link = (\<lambda>_. NotSent), wd_between = (\<lambda>_ s. s)\<rparr>"
    by (simp add: link_down_def)
  from reserve_fails_closed [OF this ex_cap_eq ex_all_eq, where est = 50] show ?thesis by (simp add: ex_all_def)
qed

subsection \<open>What settling does\<close>

text \<open>A decision that carries a reservation was granted, and the reservation lists the grants.\<close>

lemma reserve_granted_receipt:
  assumes "shared_pool_grants spec user cap = Inr extra"
    "reserve R qt now spec scope est rid extra w = (Inr d, w1)" "qd_reservation d = Some r"
  obtains all where "answer_all qt spec scope user cap = Inr all" "0 \<le> est" "qd_allowed d"
    "reserve_windows R qt now all scope (ms_provider spec) (ms_model spec) est rid w = (Inr d, w1)"
    "r = receipt all scope (ms_provider spec) (ms_model spec) rid est"
proof -
  obtain all where all: "answer_all qt spec scope user cap = Inr all" "0 \<le> est"
    and run: "reserve_windows R qt now all scope (ms_provider spec) (ms_model spec) est rid w = (Inr d, w1)"
    by (rule reserve_all [OF assms(1,2)])
  have ok: "qd_allowed d" using run assms(3)
    by (auto simp: reserve_windows_def Let_def quota_fail_closed_def quota_blocked_def
        split: if_splits sum.splits prod.splits option.splits reserve_reply.splits)
  show ?thesis using reserve_receipt [OF all(2) run ok] assms(3) by (intro that [OF all ok run]) simp
qed

text \<open>Releasing a reservation of the model's own windows (no personal cap) puts every counter back
  where it was and forgets the reservation.\<close>

theorem release_undoes_reserve:
  assumes "redis_server R view" "separate user scope" "quiet w"
    "ready (view (wd_srv w)) qt spec scope user None rid"
    "reserve R qt now spec scope est rid [] w = (Inr d, w1)" "qd_reservation d = Some r"
  shows "\<forall>k. ks_count (view (wd_srv (release R r w1))) k = ks_count (view (wd_srv w)) k"
proof -
  have e: "shared_pool_grants spec user None = Inr []" by (simp add: shared_pool_grants_def)
  obtain all where all: "answer_all qt spec scope user None = Inr all" "0 \<le> est" and ok: "qd_allowed d"
    and run: "reserve_windows R qt now all scope (ms_provider spec) (ms_model spec) est rid w = (Inr d, w1)"
    and r: "r = receipt all scope (ms_provider spec) (ms_model spec) rid est"
    by (rule reserve_granted_receipt [OF e assms(5,6)])
  obtain rk where rk: "quota_reservation scope (ms_provider spec) (ms_model spec) rid = Inr rk"
    "fresh_for (view (wd_srv w)) rk all" "\<forall>g\<in>set all. 0 \<le> ks_count (view (wd_srv w)) (wg_key g)"
    by (rule ready_fresh [OF assms(4,2) all(1)])
  show ?thesis
  proof (cases "all = []")
    case True
    then have "w1 = w" using run all(2) by (simp add: reserve_windows_def Let_def)
    then show ?thesis using r True by (simp add: release_def rv_is_empty_def receipt_def)
  next
    case False
    obtain ws where "budget qt spec = Inr ws" "answer_grants scope spec ws = Inr all"
      using all(1) e by (auto simp: answer_all_def ebind_Inr_iff)
    then have "distinct (map wg_window all)" using answer_grants_props(1) budget_props(1) by metis
    from redis_server.release_restores(1) [OF assms(1) all(2) rk(1) this all_keys_distinct [OF assms(2) all(1)]
        rk(2) False assms(3) rk(3) run ok]
    show ?thesis unfolding r by blast
  qed
qed

theorem release_undoes_reserve_witness:
  "\<exists>d w1 r. reserve mem_redis ex_tracker 0 ex_spec ''system'' 50 ''r1'' [] (calm ex_seen) = (Inr d, w1) \<and>
     qd_reservation d = Some r \<and> ks_count (wd_srv (release mem_redis r w1)) ''q:system:p:m:tpm'' = 30"
proof -
  obtain d w1 r where run: "reserve mem_redis ex_tracker 0 ex_spec ''system'' 50 ''r1'' [] (calm ex_seen) = (Inr d, w1)"
    and r: "qd_reservation d = Some r" using ex_reserve_nocap by blast
  have "ready (wd_srv (calm ex_seen)) ex_tracker ex_spec ''system'' ''u'' None ''r1''" using ex_nocap(3) by simp
  from release_undoes_reserve [where view = "\<lambda>v. v", OF mem_redis_server ex_separate quiet_calm this run r]
  have "ks_count (wd_srv (release mem_redis r w1)) ''q:system:p:m:tpm'' = 30"
    by (simp add: ex_seen_def ks_count_def)
  with run r show ?thesis by blast
qed

text \<open>The token windows a commit settles are the token grants of the reservation.\<close>

lemma commit_windows:
  assumes "answer_all qt spec scope user cap = Inr all"
  obtains ds where "declared_for qt (ms_provider spec) (ms_model spec) = Inr ds"
    "map ws_window (filter (\<lambda>x. ws_cost_is_tokens x \<and> ws_window x \<in> wg_window ` set all) ds) =
       map wg_window (filter wg_cost_is_tokens all)"
    "\<forall>g\<in>set all. wg_cost_is_tokens g \<longrightarrow> sole all g"
proof -
  obtain ws gs extra where b: "budget qt spec = Inr ws" "answer_grants scope spec ws = Inr gs"
    and e: "shared_pool_grants spec user cap = Inr extra" and all: "all = gs @ extra"
    using assms by (auto simp: answer_all_def ebind_Inr_iff)
  obtain ds where ds: "declared_for qt (ms_provider spec) (ms_model spec) = Inr ds"
    and ws: "ws = map (\<lambda>w. w\<lparr>ws_limit := effective_limit qt (ws_limit w) spec\<rparr>) ds"
    using b(1) by (auto simp: budget_def ebind_Inr_iff)
  have wins: "map wg_window gs = map ws_window ds" using answer_grants_props(1) [OF b(2)] by (simp add: ws)
  have tok: "wg_cost_is_tokens g = token_window (wg_window g)" if "g \<in> set gs" for g
    using answer_grants_props(2) [OF b(2) that] budget_props(2) [OF b(1)] by force
  have dtok: "ws_cost_is_tokens x = token_window (ws_window x)" if "x \<in> set ds" for x
    using budget_props(2) [OF b(1), of "x\<lparr>ws_limit := effective_limit qt (ws_limit x) spec\<rparr>"] that by (auto simp: ws)
  have xtra: "\<not> wg_cost_is_tokens g \<and> wg_window g = Rpd" if "g \<in> set extra" for g
    using extra_key [OF e that] by blast
  have F: "filter wg_cost_is_tokens all = filter (\<lambda>g. token_window (wg_window g)) gs"
    using tok xtra by (auto simp: all filter_empty_conv intro: filter_cong)
  have in_all: "ws_window x \<in> wg_window ` set all" if "x \<in> set ds" for x
  proof -
    have "ws_window x \<in> set (map wg_window gs)" unfolding wins using that by simp
    then show ?thesis by (auto simp: all)
  qed
  have "filter (\<lambda>x. ws_cost_is_tokens x \<and> ws_window x \<in> wg_window ` set all) ds = filter (\<lambda>x. token_window (ws_window x)) ds"
    using dtok in_all by (intro filter_cong) auto
  moreover have "map ws_window (filter (\<lambda>x. token_window (ws_window x)) ds) = filter token_window (map ws_window ds)"
    by (simp add: filter_map o_def)
  moreover have "map wg_window (filter (\<lambda>g. token_window (wg_window g)) gs) = filter token_window (map wg_window gs)"
    by (simp add: filter_map o_def)
  ultimately have "map ws_window (filter (\<lambda>x. ws_cost_is_tokens x \<and> ws_window x \<in> wg_window ` set all) ds) =
       map wg_window (filter wg_cost_is_tokens all)" by (simp add: F wins)
  moreover have "sole all g" if "g \<in> set all" "wg_cost_is_tokens g" for g
  proof -
    have "g \<in> set gs" using that xtra by (auto simp: all)
    moreover have "distinct (map wg_window gs)" using answer_grants_props(1) [OF b(2)] budget_props(1) [OF b(1)] by simp
    ultimately have "sole gs g" by (rule distinct_sole [rotated])
    moreover have "filter (\<lambda>g'. wg_window g' = wg_window g) extra = []"
      using xtra tok [OF \<open>g \<in> set gs\<close>] that(2) by (auto simp: filter_empty_conv token_window_def)
    ultimately show ?thesis by (simp add: sole_def all)
  qed
  ultimately show ?thesis using that ds by blast
qed

text \<open>C15: committing replaces the estimate by what was really spent: every token window ends at its
  earlier value plus the tokens used, every request window (the personal cap too) at its earlier value
  plus one, and no other counter moves.\<close>

theorem commit_charges_actual:
  assumes "redis_server R view" "separate user scope" "quiet w"
    "ready (view (wd_srv w)) qt spec scope user cap rid" "shared_pool_grants spec user cap = Inr extra"
    "reserve R qt now spec scope est rid extra w = (Inr d, w1)" "qd_reservation d = Some r"
    "answer_all qt spec scope user cap = Inr all" "all \<noteq> []" "0 \<le> tokens_in + tokens_out"
    "quota_reservation scope (ms_provider spec) (ms_model spec) rid = Inr rk"
  shows "\<exists>w2. commit R qt later r tokens_in tokens_out w1 = (Inr (), w2) \<and> view (wd_srv w2) rk = None \<and>
    (\<forall>g\<in>set all. ks_count (view (wd_srv w2)) (wg_key g) =
       ks_count (view (wd_srv w)) (wg_key g) + grant_cost (tokens_in + tokens_out) g) \<and>
    (\<forall>k. k \<noteq> rk \<and> k \<notin> wg_key ` set all \<longrightarrow> view (wd_srv w2) k = view (wd_srv w) k)"
proof -
  obtain est0: "0 \<le> est" and ok: "qd_allowed d"
    and run: "reserve_windows R qt now all scope (ms_provider spec) (ms_model spec) est rid w = (Inr d, w1)"
    and r: "r = receipt all scope (ms_provider spec) (ms_model spec) rid est"
    using reserve_granted_receipt [OF assms(5-7)] assms(8) by (metis Inr_inject)
  have rk: "fresh_for (view (wd_srv w)) rk all" "\<forall>g\<in>set all. 0 \<le> ks_count (view (wd_srv w)) (wg_key g)"
    using ready_fresh [OF assms(4,2,8)] assms(11) by (metis Inr_inject)+
  obtain ds where ds: "declared_for qt (ms_provider spec) (ms_model spec) = Inr ds"
    "map ws_window (filter (\<lambda>x. ws_cost_is_tokens x \<and> ws_window x \<in> wg_window ` set all) ds) =
       map wg_window (filter wg_cost_is_tokens all)"
    "\<forall>g\<in>set all. wg_cost_is_tokens g \<longrightarrow> sole all g"
    by (rule commit_windows [OF assms(8)])
  obtain w2 where w2: "commit R qt later r tokens_in tokens_out w1 = (Inr (), w2)"
    using ds(1) assms(9) unfolding r by (auto simp: commit_def receipt_def rv_is_empty_def split_beta Let_def)
  note c = redis_server.commit_corrects [OF assms(1) est0 assms(11) all_keys_distinct [OF assms(2,8)] rk(1) assms(9,3)
      rk(2) run ok ds(1) refl ds(2,3) assms(10) w2 [unfolded r]]
  show ?thesis using w2 c by blast
qed

theorem commit_charges_actual_witness:
  "\<exists>d w1 r w2. reserve mem_redis ex_tracker 0 ex_spec ''system'' 50 ''r1'' ex_cap (calm ex_seen) = (Inr d, w1) \<and>
     qd_reservation d = Some r \<and> commit mem_redis ex_tracker 7 r 12 8 w1 = (Inr (), w2) \<and>
     ks_count (wd_srv w2) ''q:system:p:m:tpm'' = 50 \<and> ks_count (wd_srv w2) ''q:system:p:m:rpm'' = 2"
proof -
  obtain d w1 r where run: "reserve mem_redis ex_tracker 0 ex_spec ''system'' 50 ''r1'' ex_cap (calm ex_seen) = (Inr d, w1)"
    and r: "qd_reservation d = Some r" using ex_reserve by blast
  have rk: "quota_reservation ''system'' (ms_provider ex_spec) (ms_model ex_spec) ''r1'' = Inr ''q:system:p:m:res:r1''"
    by code_simp
  have ready: "ready (wd_srv (calm ex_seen)) ex_tracker ex_spec ''system'' ''u'' (Some 5) ''r1''" using ex_ready by simp
  have pre: "ex_all \<noteq> []" "0 \<le> 12 + (8::int)" by (simp_all add: ex_all_def)
  from commit_charges_actual [where view = "\<lambda>v. v" and later = 7, OF mem_redis_server ex_separate quiet_calm ready ex_cap_eq run r ex_all_eq pre rk]
  obtain w2 where w2: "commit mem_redis ex_tracker 7 r 12 8 w1 = (Inr (), w2)"
    "\<forall>g\<in>set ex_all. ks_count (wd_srv w2) (wg_key g) = ks_count ex_seen (wg_key g) + grant_cost (12 + 8) g" by auto
  from w2(2) have "ks_count (wd_srv w2) ''q:system:p:m:tpm'' = 50" "ks_count (wd_srv w2) ''q:system:p:m:rpm'' = 2"
    by (simp_all add: ex_all_def ex_seen_def ks_count_def)
  with run r w2(1) show ?thesis by blast
qed

subsection \<open>What a hint does\<close>

lemma apply_one_reaches:
  assumes "redis_server R view" "quiet w" "\<forall>k\<in>model_counters scope spec. counter_at (view (wd_srv w)) k"
    "apply_one R qt now spec scope ws tok remain reset w = (Inr u, w')"
    "closest_window qt now (filter (\<lambda>x. ws_cost_is_tokens x = tok) ws) reset = Some x"
    "quota scope (ms_provider spec) (ms_model spec) (ws_window x) = Inr k"
  shows "effective_limit qt (ws_limit x) spec - ks_count (view (wd_srv w')) k \<le> max 0 remain"
proof -
  let ?eff = "effective_limit qt (ws_limit x) spec"
  have w': "w' = snd (apply_hint_at R qt now x (min ?eff (max 0 (?eff - remain))) k w)"
    using assms(4-6) by (auto simp: apply_one_def Let_def)
  have "k \<in> model_counters scope spec" using assms(6) by (auto simp: model_counters_def)
  with redis_server.apply_hint_at_view(1) [OF assms(1,2) _ w'] assms(3)
  have "ks_count (view (wd_srv w')) k = max (ks_count (view (wd_srv w)) k) (min ?eff (max 0 (?eff - remain)))" by blast
  moreover have "1 \<le> ?eff" by (rule effective_limit_pos)
  ultimately show ?thesis by (simp add: max_def min_def)
qed

text \<open>With no other worker in between, a provider's hint only ever moves counters of its own model
  up, never past an effective limit, and afterwards the gateway believes at most as many requests
  (tokens) are left in the window the hint is about as the provider reported.\<close>

theorem hint_only_raises:
  assumes "redis_server R view" "quiet w" "declared_for qt (ms_provider spec) (ms_model spec) = Inr ws"
    "\<forall>k\<in>model_counters scope spec. counter_at (view (wd_srv w)) k"
    "apply_hint R qt now spec scope hint w = (Inr u, w')"
  shows "hint_ok (model_counters scope spec) (effective_limits qt spec ws) (view (wd_srv w)) (view (wd_srv w')) \<and>
    (\<forall>n x k. qh_requests_remaining hint = Some n \<and>
       closest_window qt now (filter (\<lambda>x. ws_cost_is_tokens x = False) ws) (qh_requests_reset_s hint) = Some x \<and>
       quota scope (ms_provider spec) (ms_model spec) (ws_window x) = Inr k \<longrightarrow>
       effective_limit qt (ws_limit x) spec - ks_count (view (wd_srv w')) k \<le> max 0 n) \<and>
    (\<forall>n x k. qh_tokens_remaining hint = Some n \<and>
       closest_window qt now (filter (\<lambda>x. ws_cost_is_tokens x = True) ws) (qh_tokens_reset_s hint) = Some x \<and>
       quota scope (ms_provider spec) (ms_model spec) (ws_window x) = Inr k \<longrightarrow>
       effective_limit qt (ws_limit x) spec - ks_count (view (wd_srv w')) k \<le> max 0 n)"
proof -
  let ?ok = "\<lambda>w w'. hint_ok (model_counters scope spec) (effective_limits qt spec ws) (view (wd_srv w)) (view (wd_srv w'))"
  obtain w1 where a: "(case qh_requests_remaining hint of None \<Rightarrow> (Inr (), w)
      | Some n \<Rightarrow> apply_one R qt now spec scope ws False n (qh_requests_reset_s hint) w) = (Inr (), w1)"
    and b: "(case qh_tokens_remaining hint of None \<Rightarrow> (Inr (), w1)
      | Some n \<Rightarrow> apply_one R qt now spec scope ws True n (qh_tokens_reset_s hint) w1) = (Inr (), w')"
    using assms(3,5) by (auto simp: apply_hint_def split: sum.splits prod.splits)
  have one: "?ok w w1 \<and> quiet w1"
    using a assms(2,4) hint_ok_refl redis_server.apply_one_hint_ok [OF assms(1,2,4)]
    by (auto split: option.splits)
  then have ctr: "\<forall>k\<in>model_counters scope spec. counter_at (view (wd_srv w1)) k" by (simp add: hint_ok_def)
  have two: "?ok w1 w'"
    using b one hint_ok_refl [OF ctr] redis_server.apply_one_hint_ok [OF assms(1) _ ctr]
    by (auto split: option.splits)
  have "effective_limit qt (ws_limit x) spec - ks_count (view (wd_srv w')) k \<le> max 0 n"
    if "qh_requests_remaining hint = Some n"
      "closest_window qt now (filter (\<lambda>x. ws_cost_is_tokens x = False) ws) (qh_requests_reset_s hint) = Some x"
      "quota scope (ms_provider spec) (ms_model spec) (ws_window x) = Inr k" for n x k
    using apply_one_reaches [OF assms(1,2,4) _ that(2,3), of n "()" w1] a that(1) hint_ok_mono [OF two, of k] by simp
  moreover have "effective_limit qt (ws_limit x) spec - ks_count (view (wd_srv w')) k \<le> max 0 n"
    if "qh_tokens_remaining hint = Some n"
      "closest_window qt now (filter (\<lambda>x. ws_cost_is_tokens x = True) ws) (qh_tokens_reset_s hint) = Some x"
      "quota scope (ms_provider spec) (ms_model spec) (ws_window x) = Inr k" for n x k
    using apply_one_reaches [OF assms(1) _ ctr _ that(2,3), of n "()" w'] one b that(1) by simp
  ultimately show ?thesis using hint_ok_trans one two by blast
qed

definition ex_hint :: QuotaHint where
  "ex_hint = \<lparr>qh_requests_remaining = Some 3, qh_tokens_remaining = None, qh_requests_reset_s = Some 80000, qh_tokens_reset_s = None\<rparr>"

lemma ex_declared: "declared_for ex_tracker (ms_provider ex_spec) (ms_model ex_spec) = Inr
  [\<lparr>ws_window = Rpm, ws_limit = 2, ws_reset = Rolling60s, ws_cost_is_tokens = False\<rparr>,
   \<lparr>ws_window = Rpd, ws_limit = 10, ws_reset = FixedDailyUtc, ws_cost_is_tokens = False\<rparr>,
   \<lparr>ws_window = Tpm, ws_limit = 100, ws_reset = Rolling60s, ws_cost_is_tokens = True\<rparr>]"
  by code_simp

theorem hint_only_raises_witness:
  "\<exists>u w'. apply_hint mem_redis ex_tracker 0 ex_spec ''system'' ex_hint (calm ex_seen) = (Inr u, w') \<and>
     7 \<le> ks_count (wd_srv w') ''q:system:p:m:rpd''"
proof -
  have k: "quota ''system'' (ms_provider ex_spec) (ms_model ex_spec) Rpd = Inr ''q:system:p:m:rpd''" by code_simp
  have e: "effective_limit ex_tracker 10 ex_spec = 10" by code_simp
  let ?x = "\<lparr>ws_window = Rpd, ws_limit = 10, ws_reset = FixedDailyUtc, ws_cost_is_tokens = False\<rparr>"
  let ?y = "\<lparr>ws_window = Rpm, ws_limit = 2, ws_reset = Rolling60s, ws_cost_is_tokens = False\<rparr>"
  have c: "closest_window ex_tracker 0 [?y, ?x] (Some 80000) = Some ?x" by code_simp
  obtain w' where run: "apply_hint mem_redis ex_tracker 0 ex_spec ''system'' ex_hint (calm ex_seen) = (Inr (), w')"
    by (auto simp: apply_hint_def ex_declared ex_hint_def apply_one_def c k Let_def)
  have ctr: "\<forall>k\<in>model_counters ''system'' ex_spec. counter_at (wd_srv (calm ex_seen)) k"
    by (simp add: counter_at_def ex_seen_def)
  have f: "filter (\<lambda>x. ws_cost_is_tokens x = False) [?y, ?x,
      \<lparr>ws_window = Tpm, ws_limit = 100, ws_reset = Rolling60s, ws_cost_is_tokens = True\<rparr>] = [?y, ?x]" by simp
  have "7 \<le> ks_count (wd_srv w') ''q:system:p:m:rpd''"
    using hint_only_raises [where view = "\<lambda>v. v", OF mem_redis_server quiet_calm ex_declared ctr run,
        THEN conjunct2, THEN conjunct1, rule_format, of 3 ?x "''q:system:p:m:rpd''"] k c e unfolding f
    by (simp add: ex_hint_def)
  with run show ?thesis by blast
qed

subsection \<open>The lanes\<close>

lemma lanes_sum:
  fixes h r :: rat
  assumes "2 \<le> n" "0 < r" "r < 1" "0 \<le> h" "h \<le> 1"
  shows "max 1 \<lfloor>of_int n * (1 - h) * (1 - r)\<rfloor> + max 1 \<lfloor>of_int \<lfloor>of_int n * r\<rfloor> * (1 - h)\<rfloor> \<le> n"
proof -
  let ?a = "\<lfloor>of_int n * (1 - h) * (1 - r)\<rfloor>" let ?b = "\<lfloor>of_int \<lfloor>of_int n * r\<rfloor> * (1 - h)\<rfloor>"
  have n: "0 < (of_int n :: rat)" using assms(1) by simp
  have a: "of_int ?a \<le> of_int n * (1 - r)"
  proof -
    have "of_int n * (1 - h) \<le> of_int n" using n assms(4) by (simp add: mult_left_le)
    then have "of_int n * (1 - h) * (1 - r) \<le> of_int n * (1 - r)" using assms(3) by (intro mult_right_mono) auto
    then show ?thesis using of_int_floor_le order_trans by blast
  qed
  have b: "of_int ?b \<le> of_int n * r"
  proof -
    have "0 \<le> \<lfloor>of_int n * r\<rfloor>" using n assms(2) by simp
    then have "?b \<le> \<lfloor>of_int n * r\<rfloor>" using floor_mult_le [of "of_int \<lfloor>of_int n * r\<rfloor>" h] assms(4,5) by simp
    then have "(of_int ?b :: rat) \<le> of_int \<lfloor>of_int n * r\<rfloor>" by simp
    then show ?thesis using of_int_floor_le order_trans by blast
  qed
  have "of_int n * r < of_int n" "of_int n * (1 - r) < of_int n" using n assms(2,3) by simp_all
  with a b have "(of_int ?a :: rat) < of_int n" "(of_int ?b :: rat) < of_int n" by linarith+
  moreover have "(of_int (?a + ?b) :: rat) \<le> of_int n" using a b by (simp add: algebra_simps)
  ultimately have "?a < n" "?b < n" "?a + ?b \<le> n" by linarith+
  with assms(1) show ?thesis by (auto simp: max_def)
qed

text \<open>The two lanes fence a daily limit. Whatever the answer lane and the perception lane are granted
  on a daily window sits on different counters, and the two limits together never exceed the published
  one (published limits of at least two, a proper reserved fraction).\<close>

theorem lanes_share_daily_limit:
  assumes "for_model (qt_limits qt) (ms_provider spec) (ms_model spec) = Some l"
    "answer_all qt spec scope user None = Inr gs"
    "declared l = Inr ds" "perception_budget spec l = Inr daily"
    "quota_perception_lane scope (ms_provider spec) (ms_model spec) = Inr lane"
    "perception_grants qt spec scope lane daily ds = Inr ps"
    "g \<in> set gs" "p \<in> set ps" "wg_window p = wg_window g" "daily_window (wg_window g)"
    "limit_attr l (wg_window g) = Some n" "2 \<le> n"
    "0 < ms_reserved_fraction spec" "ms_reserved_fraction spec < 1" "0 \<le> qt_headroom qt" "qt_headroom qt \<le> 1"
  shows "wg_key g \<noteq> wg_key p \<and> wg_limit g + wg_limit p \<le> n"
proof -
  have gs: "ebind (budget qt spec) (answer_grants scope spec) = Inr gs"
    using assms(2) by (auto simp: answer_all_def shared_pool_grants_def ebind_Inr_iff)
  then obtain ws where ws: "budget qt spec = Inr ws" "answer_grants scope spec ws = Inr gs" by (auto simp: ebind_Inr_iff)
  have kg: "quota scope (ms_provider spec) (ms_model spec) (wg_window g) = Inr (wg_key g)"
    using answer_grants_props(2) [OF ws(2) assms(7)] by blast
  obtain y where y: "y \<in> set ws" "wg_window g = ws_window y" "wg_limit g = ws_limit y"
    using answer_grants_props(2) [OF ws(2) assms(7)] by blast
  with budget_props(2) [OF ws(1) y(1)] assms(1,11) have lg: "wg_limit g = effective_limit qt n spec" by auto
  obtain x where x: "x \<in> set ds" "wg_window p = ws_window x" "wg_key p = lane"
    "wg_limit p = perception_daily_limit qt (ws_limit x) spec"
    using perception_grants_limits [OF assms(4,3) subset_refl assms(6,8)] assms(9,10) by auto
  have "ws_limit x = n"
    using declared_from_windows(2) [OF assms(3) [unfolded declared_def] x(1)] assms(9,11) x(2) by simp
  then have "wg_limit g + wg_limit p \<le> n"
    using lanes_sum [OF assms(12-16)] lg x(4)
    by (simp add: effective_limit_def perception_daily_limit_def answer_share_def)
  moreover have "wg_key g \<noteq> wg_key p" using quota_lane_neq [OF kg assms(5)] x(3) by simp
  ultimately show ?thesis by blast
qed

text \<open>A model whose daily limit of 10 is split: three tenths for perception.\<close>

definition ex_lane_spec :: ModelSpec where
  "ex_lane_spec = ex_spec\<lparr>ms_reserved_fraction := 3/10\<rparr>"

theorem lanes_share_daily_limit_witness:
  "\<exists>gs daily ps g p. answer_all ex_tracker ex_lane_spec ''system'' ''u'' None = Inr gs \<and> perception_budget ex_lane_spec ex_limits = Inr daily \<and>
     perception_grants ex_tracker ex_lane_spec ''system'' ''q:system:p:m:lane:perception'' daily
       (case declared ex_limits of Inr ds \<Rightarrow> ds | Inl _ \<Rightarrow> []) = Inr ps \<and>
     g \<in> set gs \<and> p \<in> set ps \<and> wg_window g = Rpd \<and> wg_window p = Rpd \<and> wg_limit g = 7 \<and> wg_limit p = 3 \<and>
     wg_key g \<noteq> wg_key p \<and> wg_limit g + wg_limit p \<le> 10"
proof -
  let ?lane = "''q:system:p:m:lane:perception''"
  let ?g = "\<lparr>wg_window = Rpd, wg_limit = 7, wg_reset = FixedDailyUtc, wg_cost_is_tokens = False, wg_key = ''q:system:p:m:rpd''\<rparr>"
  let ?p = "\<lparr>wg_window = Rpd, wg_limit = 3, wg_reset = FixedDailyUtc, wg_cost_is_tokens = False, wg_key = ?lane\<rparr>"
  have m: "for_model (qt_limits ex_tracker) (ms_provider ex_lane_spec) (ms_model ex_lane_spec) = Some ex_limits"
    by (simp add: for_model_def ex_defs ex_lane_spec_def)
  obtain gs where gs: "answer_all ex_tracker ex_lane_spec ''system'' ''u'' None = Inr gs" "?g \<in> set gs"
  proof -
    have "case answer_all ex_tracker ex_lane_spec ''system'' ''u'' None of Inr gs \<Rightarrow> ?g \<in> set gs | Inl _ \<Rightarrow> False" by code_simp
    then show ?thesis using that by (auto split: sum.splits)
  qed
  obtain ds daily ps where d: "declared ex_limits = Inr ds" "perception_budget ex_lane_spec ex_limits = Inr daily"
    "perception_grants ex_tracker ex_lane_spec ''system'' ?lane daily ds = Inr ps" "?p \<in> set ps"
  proof -
    have "case declared ex_limits of Inl _ \<Rightarrow> False | Inr ds \<Rightarrow> (case perception_budget ex_lane_spec ex_limits of Inl _ \<Rightarrow> False
      | Inr daily \<Rightarrow> (case perception_grants ex_tracker ex_lane_spec ''system'' ?lane daily ds of Inl _ \<Rightarrow> False | Inr ps \<Rightarrow> ?p \<in> set ps))"
      by code_simp
    then show ?thesis using that by (auto split: sum.splits)
  qed
  have lane: "quota_perception_lane ''system'' (ms_provider ex_lane_spec) (ms_model ex_lane_spec) = Inr ?lane" by code_simp
  have "wg_key ?g \<noteq> wg_key ?p \<and> wg_limit ?g + wg_limit ?p \<le> 10"
    by (rule lanes_share_daily_limit [OF m gs(1) d(1,2) lane d(3) gs(2) d(4)])
      (simp_all add: daily_window_def ex_limits_def ex_lane_spec_def ex_tracker_def)
  then show ?thesis using gs d by fastforce
qed
end
