(* ===== verification/Gw_Quota_Workers.thy ===== *)
theory Gw_Quota_Workers
  imports Gw_Quota_Props
begin

text \<open>
  Any number of workers on one Redis server. The atomic changes the tracker makes, and whatever else
  happens to the keyspace, are the rules of \<open>worker_step\<close>; \<open>quota_inv\<close> is kept by every one of them,
  so it holds in every reachable state. The last section records two behaviours of the tracker that
  fall short of its documentation.
\<close>

subsection \<open>The invariant\<close>

definition typed_counter :: "keyspace \<Rightarrow> string \<Rightarrow> bool" where
  "typed_counter v k \<longleftrightarrow> counter_at v k \<and> 0 \<le> ks_count v k"

definition allocation_keys :: "string \<Rightarrow> ModelSpec \<Rightarrow> string set" where
  "allocation_keys scope spec = {k. \<exists>user. separate user scope \<and> user_allocation user (ms_provider spec) (ms_model spec) = Inr k}"

definition reservation_keys :: "string \<Rightarrow> ModelSpec \<Rightarrow> string set" where
  "reservation_keys scope spec = {k. \<exists>rid. quota_reservation scope (ms_provider spec) (ms_model spec) rid = Inr k}"

text \<open>A reservation hash counts in integers, none of them negative.\<close>

definition typed_reservation :: "keyspace \<Rightarrow> string \<Rightarrow> bool" where
  "typed_reservation v rk \<longleftrightarrow> hash_at v rk \<and>
     (\<forall>f. f \<noteq> ''request_id'' \<longrightarrow> int_field v rk f \<and> 0 \<le> ks_hcount v rk f)"

text \<open>The counter of every request window the model declares is within its effective limit.\<close>

definition requests_within :: "QuotaTracker \<Rightarrow> ModelSpec \<Rightarrow> string \<Rightarrow> keyspace \<Rightarrow> bool" where
  "requests_within qt spec scope v \<longleftrightarrow> (\<forall>l x n k.
     for_model (qt_limits qt) (ms_provider spec) (ms_model spec) = Some l \<longrightarrow> limit_attr l x = Some n \<longrightarrow>
     \<not> token_window x \<longrightarrow> quota scope (ms_provider spec) (ms_model spec) x = Inr k \<longrightarrow>
     ks_count v k \<le> effective_limit qt n spec)"

definition quota_inv :: "QuotaTracker \<Rightarrow> ModelSpec \<Rightarrow> string \<Rightarrow> keyspace \<Rightarrow> bool" where
  "quota_inv qt spec scope v \<longleftrightarrow>
     (\<forall>k\<in>model_counters scope spec \<union> allocation_keys scope spec. typed_counter v k) \<and>
     (\<forall>rk\<in>reservation_keys scope spec. typed_reservation v rk) \<and> requests_within qt spec scope v"

lemma quota_inv_empty: "quota_inv qt spec scope Map.empty"
proof -
  have "0 \<le> effective_limit qt n spec" for n using effective_limit_pos [of qt n spec] by simp
  then show ?thesis
    by (auto simp: quota_inv_def typed_counter_def typed_reservation_def requests_within_def counter_at_def
        ks_count_def hash_at_def int_field_def ks_hash_def ks_hcount_def)
qed

subsection \<open>Steps\<close>

text \<open>What the workers of one gateway, and whatever else uses the server, may do between two looks at
  it. Every rule is one atomic change: a script runs to the end, a hint's write is one \<^verbatim>\<open>SET\<close> of the
  value \<^verbatim>\<open>_apply_one\<close> computes, whatever was read before it. A counter may expire at any time.\<close>

inductive worker_step :: "'r redis \<Rightarrow> ('r \<Rightarrow> keyspace) \<Rightarrow> QuotaTracker \<Rightarrow> ModelSpec \<Rightarrow> string \<Rightarrow> 'r \<Rightarrow> 'r \<Rightarrow> bool"
  for R view qt spec scope where
  ws_reserve: "separate user scope \<Longrightarrow> shared_pool_grants spec user cap = Inr extra \<Longrightarrow>
     reserve R qt now spec scope est rid extra (calm s) = (d, w') \<Longrightarrow> worker_step R view qt spec scope s (wd_srv w')"
| ws_commit: "separate user scope \<Longrightarrow> answer_all qt spec scope user cap = Inr all \<Longrightarrow>
     r = receipt all scope (ms_provider spec) (ms_model spec) rid est \<Longrightarrow>
     commit R qt now r tokens_in tokens_out (calm s) = (u, w') \<Longrightarrow> worker_step R view qt spec scope s (wd_srv w')"
| ws_release: "separate user scope \<Longrightarrow> answer_all qt spec scope user cap = Inr all \<Longrightarrow>
     r = receipt all scope (ms_provider spec) (ms_model spec) rid est \<Longrightarrow>
     worker_step R view qt spec scope s (wd_srv (release R r (calm s)))"
| ws_hint_ex: "declared_for qt (ms_provider spec) (ms_model spec) = Inr ds \<Longrightarrow> x \<in> set ds \<Longrightarrow>
     quota scope (ms_provider spec) (ms_model spec) (ws_window x) = Inr k \<Longrightarrow> eff = effective_limit qt (ws_limit x) spec \<Longrightarrow>
     worker_step R view qt spec scope s
       (rd_set_ex R k (FInt (min eff (max 0 (eff - remain)))) (ttl_s (qt_pt qt) (ws_reset x) now) s)"
| ws_hint_keep: "declared_for qt (ms_provider spec) (ms_model spec) = Inr ds \<Longrightarrow> x \<in> set ds \<Longrightarrow>
     quota scope (ms_provider spec) (ms_model spec) (ws_window x) = Inr k \<Longrightarrow> eff = effective_limit qt (ws_limit x) spec \<Longrightarrow>
     worker_step R view qt spec scope s (rd_set_keepttl R k (FInt (min eff (max 0 (eff - remain)))) s)"
| ws_other: "(\<And>k. k \<in> model_counters scope spec \<union> allocation_keys scope spec \<union> reservation_keys scope spec \<Longrightarrow>
     view s' k = view s k \<or> view s' k = None) \<Longrightarrow> worker_step R view qt spec scope s s'"

text \<open>A change of one typed counter that does not push a request window over keeps the invariant.\<close>

lemma counter_not_reservation:
  assumes "k \<in> model_counters scope spec \<union> allocation_keys scope spec" "rk \<in> reservation_keys scope spec"
  shows "k \<noteq> rk"
  using assms allocation_neq(2) quota_reservation_neq
  unfolding model_counters_def allocation_keys_def reservation_keys_def separate_def
  by (smt (verit, best) Un_iff mem_Collect_eq)

lemma inv_counter:
  assumes "quota_inv qt spec scope v" "k \<in> model_counters scope spec \<union> allocation_keys scope spec"
    "\<And>k'. k' \<noteq> k \<Longrightarrow> v' k' = v k'" "typed_counter v' k"
    "ks_count v' k \<le> ks_count v k \<or> (\<forall>l x n. for_model (qt_limits qt) (ms_provider spec) (ms_model spec) = Some l \<longrightarrow>
       limit_attr l x = Some n \<longrightarrow> \<not> token_window x \<longrightarrow> quota scope (ms_provider spec) (ms_model spec) x = Inr k \<longrightarrow>
       ks_count v' k \<le> effective_limit qt n spec)"
  shows "quota_inv qt spec scope v'"
proof -
  have "typed_counter v' k'" if "k' \<in> model_counters scope spec \<union> allocation_keys scope spec" for k'
    using that assms(1,3,4) ks_same_key(1,2) [of v' k' v]
    by (cases "k' = k") (auto simp: quota_inv_def typed_counter_def)
  moreover have "typed_reservation v' rk" if "rk \<in> reservation_keys scope spec" for rk
    using that assms(1) assms(3) [of rk] counter_not_reservation [OF assms(2) that] ks_same_key(3,4) [of v' rk v]
    by (auto simp: quota_inv_def typed_reservation_def int_field_def ks_hcount_def)
  moreover have "requests_within qt spec scope v'"
    unfolding requests_within_def
  proof (intro allI impI)
    fix l x n k'
    assume a: "for_model (qt_limits qt) (ms_provider spec) (ms_model spec) = Some l" "limit_attr l x = Some n"
      "\<not> token_window x" "quota scope (ms_provider spec) (ms_model spec) x = Inr k'"
    then have "ks_count v k' \<le> effective_limit qt n spec" using assms(1) by (auto simp: quota_inv_def requests_within_def)
    then show "ks_count v' k' \<le> effective_limit qt n spec"
      using a assms(3) [of k'] assms(5) ks_same_key(2) [of v' k' v] by (cases "k' = k") force+
  qed
  ultimately show ?thesis by (simp add: quota_inv_def)
qed

text \<open>Removing a reservation, or any key, keeps it too.\<close>

lemma inv_drop:
  assumes "quota_inv qt spec scope v"
    "\<And>k. k \<in> model_counters scope spec \<union> allocation_keys scope spec \<union> reservation_keys scope spec \<Longrightarrow> v' k = v k \<or> v' k = None"
  shows "quota_inv qt spec scope v'"
proof -
  have gone: "typed_counter v' k" "ks_count v' k = 0" "typed_reservation v' k" if "v' k = None" for k
    using that by (auto simp: typed_counter_def typed_reservation_def counter_at_def ks_count_def hash_at_def
        int_field_def ks_hash_def ks_hcount_def)
  have same: "typed_counter v' k = typed_counter v k" "ks_count v' k = ks_count v k"
    "typed_reservation v' k = typed_reservation v k" if "v' k = v k" for k
    by (simp_all add: typed_counter_def typed_reservation_def int_field_def ks_hcount_def ks_same_key(1-4) [of v' k v, OF that])
  have pos: "0 \<le> effective_limit qt n spec" for n using effective_limit_pos [of qt n spec] by simp
  have "requests_within qt spec scope v'"
    unfolding requests_within_def
  proof (intro allI impI)
    fix l x n k
    assume a: "for_model (qt_limits qt) (ms_provider spec) (ms_model spec) = Some l" "limit_attr l x = Some n"
      "\<not> token_window x" "quota scope (ms_provider spec) (ms_model spec) x = Inr k"
    then have "k \<in> model_counters scope spec" by (auto simp: model_counters_def)
    then have "v' k = v k \<or> v' k = None" by (intro assms(2)) simp
    moreover have "ks_count v k \<le> effective_limit qt n spec" using a assms(1) by (auto simp: quota_inv_def requests_within_def)
    ultimately show "ks_count v' k \<le> effective_limit qt n spec" using gone(2) [of k] same(2) [of k] pos [of n] by auto
  qed
  moreover have "typed_counter v' k" if "k \<in> model_counters scope spec \<union> allocation_keys scope spec" for k
    using that assms gone(1) same(1) unfolding quota_inv_def by blast
  moreover have "typed_reservation v' k" if "k \<in> reservation_keys scope spec" for k
    using that assms gone(3) same(3) unfolding quota_inv_def by blast
  ultimately show ?thesis by (simp add: quota_inv_def)
qed

lemma all_keys_tracked:
  assumes "answer_all qt spec scope user cap = Inr all" "separate user scope" "g \<in> set all"
  shows "wg_key g \<in> model_counters scope spec \<union> allocation_keys scope spec"
    and "token_window (wg_window g) \<Longrightarrow> quota scope (ms_provider spec) (ms_model spec) (wg_window g) = Inr (wg_key g)"
proof -
  obtain ws gs extra where b: "answer_grants scope spec ws = Inr gs"
    and e: "shared_pool_grants spec user cap = Inr extra" and all: "all = gs @ extra"
    using assms(1) by (auto simp: answer_all_def ebind_Inr_iff)
  consider "g \<in> set gs" | "g \<in> set extra" using assms(3) all by auto
  then have "wg_key g \<in> model_counters scope spec \<union> allocation_keys scope spec \<and>
     (token_window (wg_window g) \<longrightarrow> quota scope (ms_provider spec) (ms_model spec) (wg_window g) = Inr (wg_key g))"
  proof cases
    case 1
    with answer_grants_props(2) [OF b] show ?thesis by (auto simp: model_counters_def)
  next
    case 2
    with extra_key [OF e] assms(2) show ?thesis by (auto simp: allocation_keys_def token_window_def)
  qed
  then show "wg_key g \<in> model_counters scope spec \<union> allocation_keys scope spec"
    "token_window (wg_window g) \<Longrightarrow> quota scope (ms_provider spec) (ms_model spec) (wg_window g) = Inr (wg_key g)" by blast+
qed

lemma token_key_not_request:
  assumes "quota scope p m x = Inr k" "quota scope p m y = Inr k" "token_window x"
  shows "token_window y"
  using assms quota_window_neq by blast

text \<open>A settlement finds, for every window it names, the key of some grant with that label.\<close>

lemma settlement_keys_in:
  assumes "settlement_keys (receipt all scope p m rid est) wins = Inr (rk, ks)" "all \<noteq> []"
  shows "quota_reservation scope p m rid = Inr rk" "length ks = length wins"
    "\<forall>(x, k)\<in>set (zip wins ks). \<exists>g\<in>set all. wg_window g = x \<and> wg_key g = k"
proof -
  let ?m = "map_of (rev (zip (map wg_window all) (map wg_key all)))"
  have each: "length ks = length ws \<and> (\<forall>(x, k)\<in>set (zip ws ks). ?m x = Some k)"
    if "each_exn (\<lambda>w. case ?m w of None \<Rightarrow> Inl KeyError | Some k \<Rightarrow> Inr k) ws = Inr ks" for ws ks
    using that by (induction ws arbitrary: ks) (auto simp: ebind_Inr_iff split: option.splits)
  have run: "each_exn (\<lambda>w. case ?m w of None \<Rightarrow> Inl KeyError | Some k \<Rightarrow> Inr k) wins = Inr ks"
    using assms by (auto simp: settlement_keys_def keys_for_def by_window_def receipt_def ebind_Inr_iff)
  have in_all: "\<exists>g\<in>set all. wg_window g = x \<and> wg_key g = k" if "?m x = Some k" for x k
  proof -
    have "(x, k) \<in> set (zip (map wg_window all) (map wg_key all))" using map_of_SomeD [OF that] by simp
    then show ?thesis by (auto simp: zip_map_map zip_same_conv_map)
  qed
  show "quota_reservation scope p m rid = Inr rk" "length ks = length wins"
    "\<forall>(x, k)\<in>set (zip wins ks). \<exists>g\<in>set all. wg_window g = x \<and> wg_key g = k"
    using assms(1) each [OF run] in_all by (auto simp: settlement_keys_def receipt_def ebind_Inr_iff)
qed

context redis_server
begin

text \<open>A walk of counter changes, each keeping the invariant and the reservation, keeps it as a whole.\<close>

lemma fold_inv:
  assumes "\<And>c s. c \<in> set cs \<Longrightarrow> quota_inv qt spec scope (view s) \<Longrightarrow> quota_inv qt spec scope (view (f c s))"
    "quota_inv qt spec scope (view s)"
  shows "quota_inv qt spec scope (view (fold f cs s))"
  using assms by (induction cs arbitrary: s) auto

lemma settle_pre_inv:
  assumes "quota_inv qt spec scope (view s)" "k \<in> model_counters scope spec \<union> allocation_keys scope spec"
    "rk \<in> reservation_keys scope spec"
  shows "settle_pre (view s) rk k"
  using assms counter_not_reservation [OF assms(2,3)]
  by (auto simp: settle_pre_def quota_inv_def typed_counter_def typed_reservation_def)

lemma settles_inv:
  assumes "quota_inv qt spec scope v" "k \<in> model_counters scope spec \<union> allocation_keys scope spec"
    "settles v v' k d" "d \<le> 0 \<or> (\<exists>x. token_window x \<and> quota scope (ms_provider spec) (ms_model spec) x = Inr k)"
  shows "quota_inv qt spec scope v'"
proof (rule inv_counter [OF assms(1,2)])
  show "\<And>k'. k' \<noteq> k \<Longrightarrow> v' k' = v k'" using assms(3) by (simp add: settles_def)
  show "typed_counter v' k" using assms(3) by (simp add: settles_def typed_counter_def)
  have "0 \<le> ks_count v k" using assms(1,2) unfolding quota_inv_def typed_counter_def by blast
  then have low: "d \<le> 0 \<Longrightarrow> ks_count v' k \<le> ks_count v k" using assms(3) by (simp add: settles_def)
  show "ks_count v' k \<le> ks_count v k \<or> (\<forall>l x n. for_model (qt_limits qt) (ms_provider spec) (ms_model spec) = Some l \<longrightarrow>
       limit_attr l x = Some n \<longrightarrow> \<not> token_window x \<longrightarrow> quota scope (ms_provider spec) (ms_model spec) x = Inr k \<longrightarrow>
       ks_count v' k \<le> effective_limit qt n spec)"
    using assms(4) low token_key_not_request by blast
qed

lemma release_step:
  assumes "quota_inv qt spec scope (view s)" "separate user scope" "answer_all qt spec scope user cap = Inr all" "all \<noteq> []"
    "settlement_keys (receipt all scope (ms_provider spec) (ms_model spec) rid est) (map wg_window all) = Inr (rk, ks)"
    "nk \<in> set (zip (map window_name (map wg_window all)) ks)"
  shows "quota_inv qt spec scope (view (release1 R rk nk s))" "k \<noteq> snd nk \<Longrightarrow> view (release1 R rk nk s) k = view s k"
proof -
  note in_all = settlement_keys_in [OF assms(5,4)]
  have rk: "rk \<in> reservation_keys scope spec" using in_all(1) by (auto simp: reservation_keys_def)
  obtain name key where nk: "nk = (name, key)" by fastforce
  then obtain x where x: "name = window_name x" "(x, key) \<in> set (zip (map wg_window all) ks)"
    using assms(6) by (force simp: zip_map1)
  from bspec [OF in_all(3) x(2)] obtain g where g: "g \<in> set all" "wg_key g = key" by auto
  then have key: "key \<in> model_counters scope spec \<union> allocation_keys scope spec"
    using all_keys_tracked(1) [OF assms(3,2)] by blast
  have h: "0 \<le> ks_hcount (view s) rk name" using assms(1) rk x(1) window_name_not(4)
    unfolding quota_inv_def typed_reservation_def by metis
  note rel = release1_settles [OF settle_pre_inv [OF assms(1) key rk] h]
  show "quota_inv qt spec scope (view (release1 R rk nk s))"
    unfolding nk using settles_inv [OF assms(1) key rel] h by simp
  show "k \<noteq> snd nk \<Longrightarrow> view (release1 R rk nk s) k = view s k" using rel unfolding nk by (simp add: settles_def)
qed

lemma release_run:
  assumes "r = receipt all scope (ms_provider spec) (ms_model spec) rid est"
  shows "wd_srv (release R r (calm s)) = s \<or> (\<exists>rk ks. all \<noteq> [] \<and> settlement_keys r (map wg_window all) = Inr (rk, ks) \<and>
    wd_srv (release R r (calm s)) = rd_del R rk (fold (release1 R rk) (zip (map window_name (map wg_window all)) ks) s))"
  by (auto simp: assms release_def rv_is_empty_def receipt_def run_settlement_def client_call_quiet release_script_def
      split: sum.splits)

lemma release_inv:
  assumes "quota_inv qt spec scope (view s)" "separate user scope" "answer_all qt spec scope user cap = Inr all"
    "r = receipt all scope (ms_provider spec) (ms_model spec) rid est"
  shows "quota_inv qt spec scope (view (wd_srv (release R r (calm s))))"
  using release_run [OF assms(4), of s]
proof (elim disjE exE conjE)
  fix rk ks
  assume ne: "all \<noteq> []" and keys: "settlement_keys r (map wg_window all) = Inr (rk, ks)"
    and run: "wd_srv (release R r (calm s)) = rd_del R rk (fold (release1 R rk) (zip (map window_name (map wg_window all)) ks) s)"
  have "quota_inv qt spec scope (view (fold (release1 R rk) (zip (map window_name (map wg_window all)) ks) s))"
    by (rule fold_inv [OF release_step(1) [OF _ assms(2,3) ne keys [unfolded assms(4)]] assms(1)])
  then show ?thesis unfolding run by (rule inv_drop) (simp add: del_view)
qed (simp add: assms(1))

text \<open>A key that no label of the reservation maps to is left alone.\<close>

lemma release_untouched:
  assumes "quota_inv qt spec scope (view s)" "separate user scope" "answer_all qt spec scope user cap = Inr all"
    "r = receipt all scope (ms_provider spec) (ms_model spec) rid est" "k \<notin> reservation_keys scope spec"
    "\<And>rk ks. settlement_keys r (map wg_window all) = Inr (rk, ks) \<Longrightarrow> k \<notin> set ks"
  shows "view (wd_srv (release R r (calm s))) k = view s k"
  using release_run [OF assms(4), of s]
proof (elim disjE exE conjE)
  fix rk ks
  assume ne: "all \<noteq> []" and keys: "settlement_keys r (map wg_window all) = Inr (rk, ks)"
    and run: "wd_srv (release R r (calm s)) = rd_del R rk (fold (release1 R rk) (zip (map window_name (map wg_window all)) ks) s)"
  note step = release_step [OF _ assms(2,3) ne keys [unfolded assms(4)]]
  have "view (fold (release1 R rk) nks s) k = view s k"
    if "set nks \<subseteq> set (zip (map window_name (map wg_window all)) ks)" for nks
    using that assms(1)
  proof (induction nks arbitrary: s)
    case (Cons nk nks)
    then have "snd nk \<in> set ks" by (cases nk) (auto dest: set_zip_rightD)
    then have "k \<noteq> snd nk" using assms(6) [OF keys] by blast
    with Cons step [of s nk] show ?case by simp
  qed simp
  moreover have "k \<noteq> rk" using settlement_keys_in(1) [OF keys [unfolded assms(4)] ne] assms(5)
    by (auto simp: reservation_keys_def)
  ultimately show ?thesis unfolding run by (simp add: del_view)
qed simp

lemma commit_inv:
  assumes "quota_inv qt spec scope (view s)" "separate user scope" "answer_all qt spec scope user cap = Inr all"
    "r = receipt all scope (ms_provider spec) (ms_model spec) rid est"
    "commit R qt now r tokens_in tokens_out (calm s) = (u, w')"
  shows "quota_inv qt spec scope (view (wd_srv w'))"
proof -
  obtain ds where ds: "declared_for qt (ms_provider spec) (ms_model spec) = Inr ds" by (rule commit_windows [OF assms(3)])
  define tw where "tw = filter (\<lambda>x. ws_cost_is_tokens x \<and> ws_window x \<in> set (rv_windows r)) ds"
  define run where "run = (\<lambda>rk ks. commit_script R rk (map (commit_block qt now (tokens_in + tokens_out)) (zip tw ks)))"
  have w': "w' = (if rv_is_empty r then calm s else snd (run_settlement r (map ws_window tw) run (calm s)))"
    using assms(5) ds unfolding assms(4) tw_def run_def
    by (auto simp: commit_def Let_def split_beta receipt_def)
  have dtok: "token_window (ws_window x)" if x: "x \<in> set tw" for x
  proof -
    have "x \<in> set ds" "ws_cost_is_tokens x" using x by (auto simp: tw_def)
    moreover have "budget qt spec = Inr (map (\<lambda>w. w\<lparr>ws_limit := effective_limit qt (ws_limit w) spec\<rparr>) ds)"
      by (simp add: budget_def ds)
    ultimately show ?thesis using budget_props(2) [of qt spec _ "x\<lparr>ws_limit := effective_limit qt (ws_limit x) spec\<rparr>"] by fastforce
  qed
  show ?thesis
  proof (cases "rv_is_empty r \<or> (\<exists>e. settlement_keys r (map ws_window tw) = Inl e)")
    case True
    then show ?thesis using assms(1) w' by (auto simp: run_settlement_def)
  next
    case False
    then obtain rk ks where keys: "settlement_keys r (map ws_window tw) = Inr (rk, ks)" and ne: "all \<noteq> []"
      using assms(4) by (cases "settlement_keys r (map ws_window tw)") (auto simp: receipt_def rv_is_empty_def)
    note in_all = settlement_keys_in [OF keys [unfolded assms(4)] ne]
    have rk: "rk \<in> reservation_keys scope spec" using in_all(1) by (auto simp: reservation_keys_def)
    let ?cs = "map (commit_block qt now (tokens_in + tokens_out)) (zip tw ks)"
    have step: "quota_inv qt spec scope (view (commit1 R rk c s))"
      if c: "c \<in> set ?cs" and inv: "quota_inv qt spec scope (view s)" for c s
    proof -
      obtain x k where xk: "(x, k) \<in> set (zip tw ks)" "c = commit_block qt now (tokens_in + tokens_out) (x, k)" using c by auto
      then have "(ws_window x, k) \<in> set (zip (map ws_window tw) ks)" by (force simp: zip_map1)
      from bspec [OF in_all(3) this] obtain g where g: "g \<in> set all" "wg_window g = ws_window x" "wg_key g = k" by auto
      have k: "k \<in> model_counters scope spec \<union> allocation_keys scope spec"
        using all_keys_tracked(1) [OF assms(3,2) g(1)] g(3) by simp
      have tok: "token_window (ws_window x)" using dtok xk(1) by (meson set_zip_leftD)
      then have q: "quota scope (ms_provider spec) (ms_model spec) (ws_window x) = Inr k"
        using all_keys_tracked(2) [OF assms(3,2) g(1)] g(2,3) by simp
      have "cb_key c = k" "0 < cb_ttl c" by (simp_all add: xk(2) commit_block_def)
      with commit1_settles [of s rk c] settle_pre_inv [OF inv k rk] show ?thesis
        using settles_inv [OF inv k] tok q by auto
    qed
    have "quota_inv qt spec scope (view (fold (commit1 R rk) ?cs s))" by (rule fold_inv [OF step assms(1)])
    then have "quota_inv qt spec scope (view (rd_del R rk (fold (commit1 R rk) ?cs s)))"
      by (rule inv_drop) (simp add: del_view)
    then show ?thesis using assms(1) keys False w'
      by (simp add: run_settlement_def client_call_quiet commit_script_def run_def)
  qed
qed

lemma reserve_script_inv:
  assumes "quota_inv qt spec scope (view s)" "separate user scope" "answer_all qt spec scope user cap = Inr all"
    "quota_reservation scope (ms_provider spec) (ms_model spec) rid = Inr rk" "0 \<le> est"
    "reserve_script R rk (map (block_of qt now est) all) RESERVATION_TTL_S rid s = (Reserved, s')"
  shows "quota_inv qt spec scope (view s')"
proof -
  let ?bs = "map (block_of qt now est) all"
  have rkin: "rk \<in> reservation_keys scope spec" using assms(4) by (auto simp: reservation_keys_def)
  have typed: "typed_reservation (view s) rk" using assms(1) rkin by (auto simp: quota_inv_def)
  have key: "typed_counter (view s) (wg_key g) \<and> wg_key g \<noteq> rk" if "g \<in> set all" for g
    using all_keys_tracked(1) [OF assms(3,2) that] counter_not_reservation [OF _ rkin] assms(1)
    by (auto simp: quota_inv_def)
  have ok: "spend_ok (view s) rk ?bs"
    using typed key by (auto simp: spend_ok_def typed_reservation_def typed_counter_def window_name_not)
  have rt: "0 < RESERVATION_TTL_S" by (simp add: RESERVATION_TTL_S_def)
  note g = reserve_granted [OF ok rt assms(6)]
  have nonneg: "0 \<le> cost_on ?bs k" "0 \<le> cost_named ?bs f" for k f
    using assms(5) by (auto intro!: sum_list_nonneg)
  have keys: "distinct (map rb_key ?bs)" using all_keys_distinct [OF assms(2,3)] by (simp add: o_def)
  have tc: "typed_counter (view s') k" if "k \<in> model_counters scope spec \<union> allocation_keys scope spec" for k
    using that g(1,4) [OF counter_not_reservation [OF that rkin]] nonneg(1) [of k] assms(1)
    by (auto simp: quota_inv_def typed_counter_def)
  have tr: "typed_reservation (view s') k" if "k \<in> reservation_keys scope spec" for k
  proof (cases "k = rk")
    case True
    then show ?thesis using g(3,5,7) nonneg(2) typed by (auto simp: typed_reservation_def)
  next
    case False
    have "k \<notin> rb_key ` set ?bs" using all_keys_tracked(1) [OF assms(3,2)] counter_not_reservation [OF _ that] by fastforce
    then have "view s' k = view s k" using g(2) False by blast
    then show ?thesis using assms(1) that ks_same_key(3,4) [of "view s'" k "view s"]
      by (auto simp: quota_inv_def typed_reservation_def int_field_def ks_hcount_def)
  qed
  have "requests_within qt spec scope (view s')"
    unfolding requests_within_def
  proof (intro allI impI)
    fix l x n k
    assume a: "for_model (qt_limits qt) (ms_provider spec) (ms_model spec) = Some l" "limit_attr l x = Some n"
      "\<not> token_window x" "quota scope (ms_provider spec) (ms_model spec) x = Inr k"
    obtain gs where gs: "ebind (budget qt spec) (answer_grants scope spec) = Inr gs" "set gs \<subseteq> set all"
      using assms(3) by (auto simp: answer_all_def ebind_Inr_iff)
    obtain gr where gr: "gr \<in> set all" "wg_key gr = k" "wg_limit gr = effective_limit qt n spec"
      using declared_grant [OF gs(1) a(1,2,4)] gs(2) by blast
    then show "ks_count (view s') k \<le> effective_limit qt n spec"
      using reserve_within_limit [OF ok rt keys _ assms(6), of "block_of qt now est gr"] by simp
  qed
  with tc tr show ?thesis by (simp add: quota_inv_def)
qed

lemma reserve_inv:
  assumes "quota_inv qt spec scope (view s)" "separate user scope" "shared_pool_grants spec user cap = Inr extra"
    "reserve R qt now spec scope est rid extra (calm s) = (d, w')"
  shows "quota_inv qt spec scope (view (wd_srv w'))"
proof (cases "ebind (budget qt spec) (answer_grants scope spec)")
  case (Inl e)
  then show ?thesis using assms(1,4) by (auto simp: reserve_def)
next
  case (Inr gs)
  then have all: "answer_all qt spec scope user cap = Inr (gs @ extra)" by (simp add: answer_all_def assms(3))
  show ?thesis
  proof (cases "quota_reservation scope (ms_provider spec) (ms_model spec) rid")
    case Inl': (Inl e)
    then show ?thesis using assms(1,4) Inr by (auto simp: reserve_def reserve_windows_def Let_def split: if_splits)
  next
    case Inr': (Inr rk)
    let ?run = "reserve_script R rk (map (block_of qt now est) (gs @ extra)) RESERVATION_TTL_S rid s"
    have "wd_srv w' = s \<or> 0 \<le> est \<and> wd_srv w' = snd ?run"
      using assms(4) Inr Inr' unfolding reserve_def reserve_windows_def Let_def
      by (auto simp: client_call_quiet split: if_splits option.splits reserve_reply.splits)
    moreover have "quota_inv qt spec scope (view (snd ?run))" if "0 \<le> est"
    proof (cases "fst ?run = Reserved")
      case True
      then have "?run = (Reserved, snd ?run)" by (simp add: prod_eq_iff)
      from reserve_script_inv [OF assms(1,2) all Inr' that this] show ?thesis .
    next
      case False
      then show ?thesis using reserve_blocked assms(1) by metis
    qed
    ultimately show ?thesis using assms(1) by auto
  qed
qed

lemma hint_write_inv:
  assumes "quota_inv qt spec scope (view s)" "declared_for qt (ms_provider spec) (ms_model spec) = Inr ds" "x \<in> set ds"
    "quota scope (ms_provider spec) (ms_model spec) (ws_window x) = Inr k" "eff = effective_limit qt (ws_limit x) spec"
    "view s' = (view s)(k \<mapsto> (RStr (FInt (min eff (max 0 (eff - remain)))), t))"
  shows "quota_inv qt spec scope (view s')"
proof (rule inv_counter [OF assms(1)])
  have eff: "1 \<le> eff" using effective_limit_pos assms(5) by simp
  show "k \<in> model_counters scope spec \<union> allocation_keys scope spec" using assms(4) by (auto simp: model_counters_def)
  show "\<And>k'. k' \<noteq> k \<Longrightarrow> view s' k' = view s k'" by (simp add: assms(6))
  show "typed_counter (view s') k" using eff by (simp add: assms(6) typed_counter_def redis_simps)
  have "\<forall>l y n. for_model (qt_limits qt) (ms_provider spec) (ms_model spec) = Some l \<longrightarrow>
       limit_attr l y = Some n \<longrightarrow> \<not> token_window y \<longrightarrow> quota scope (ms_provider spec) (ms_model spec) y = Inr k \<longrightarrow>
       ks_count (view s') k \<le> effective_limit qt n spec"
  proof (intro allI impI)
    fix l y n
    assume a: "for_model (qt_limits qt) (ms_provider spec) (ms_model spec) = Some l" "limit_attr l y = Some n"
      "quota scope (ms_provider spec) (ms_model spec) y = Inr k"
    then have "y = ws_window x" "declared l = Inr ds"
      using quota_window_neq [OF assms(4)] assms(2) by (auto simp: declared_for_def)
    then have "ws_limit x = n" using declared_from_windows(2) [OF _ assms(3)] a(2) by (auto simp: declared_def)
    then show "ks_count (view s') k \<le> effective_limit qt n spec" using assms(5) by (simp add: assms(6) redis_simps)
  qed
  then show "ks_count (view s') k \<le> ks_count (view s) k \<or> (\<forall>l x n. for_model (qt_limits qt) (ms_provider spec) (ms_model spec) = Some l \<longrightarrow>
       limit_attr l x = Some n \<longrightarrow> \<not> token_window x \<longrightarrow> quota scope (ms_provider spec) (ms_model spec) x = Inr k \<longrightarrow>
       ks_count (view s') k \<le> effective_limit qt n spec)" by blast
qed

lemma worker_step_inv:
  assumes "worker_step R view qt spec scope s s'" "quota_inv qt spec scope (view s)"
  shows "quota_inv qt spec scope (view s')"
  using assms
proof cases
  case ws_reserve
  then show ?thesis using reserve_inv [OF assms(2)] by blast
next
  case ws_commit
  then show ?thesis using commit_inv [OF assms(2)] by blast
next
  case ws_release
  then show ?thesis using release_inv [OF assms(2)] by blast
next
  case (ws_hint_ex ds x k eff remain now)
  show ?thesis by (rule hint_write_inv [OF assms(2) ws_hint_ex(2-5)]) (simp add: ws_hint_ex(1) set_ex_view)
next
  case (ws_hint_keep ds x k eff remain)
  show ?thesis by (rule hint_write_inv [OF assms(2) ws_hint_keep(2-5)]) (simp add: ws_hint_keep(1) set_keepttl_view)
next
  case ws_other
  then show ?thesis using inv_drop [OF assms(2)] by blast
qed

lemma worker_steps_inv:
  assumes "(worker_step R view qt spec scope)\<^sup>*\<^sup>* s s'" "quota_inv qt spec scope (view s)"
  shows "quota_inv qt spec scope (view s')"
  using assms by (induction rule: rtranclp_induct) (auto intro: worker_step_inv)

end


text \<open>The witnesses' first request, on an empty server.\<close>

lemma ex_first:
  "\<exists>d w'. reserve mem_redis ex_tracker 0 ex_spec ''system'' 50 ''r1'' ex_cap (calm Map.empty) = (Inr d, w') \<and> qd_allowed d \<and>
     ks_count (wd_srv w') ''q:system:p:m:rpd'' = 1 \<and> wd_srv w' ''q:system:p:m:res:r1'' \<noteq> None"
proof -
  have rdy: "ready Map.empty ex_tracker ex_spec ''system'' ''u'' (Some 5) ''r1''" by code_simp
  obtain d w' where run: "reserve mem_redis ex_tracker 0 ex_spec ''system'' 50 ''r1'' ex_cap (calm Map.empty) = (Inr d, w')"
    and ok: "qd_allowed d"
    using affordable_reserve [OF ex_cap_eq ex_all_eq rdy ex_separate, of 50 0]
    by (auto simp: ex_all_def ex_cap_def ks_count_def)
  have rk: "quota_reservation ''system'' (ms_provider ex_spec) (ms_model ex_spec) ''r1'' = Inr ''q:system:p:m:res:r1''"
    by code_simp
  have f: "fresh_for (wd_srv (calm Map.empty)) ''q:system:p:m:res:r1'' ex_all"
    "\<forall>g\<in>set ex_all. 0 \<le> ks_count (wd_srv (calm Map.empty)) (wg_key g)"
    by (simp_all add: fresh_for_def ex_all_def ex_cap_def ks_count_def counter_at_def)
  have ne: "ex_all \<noteq> []" "(0::int) \<le> 50" by (simp_all add: ex_all_def)
  note st = mem.reserved_state [OF ne(2) rk all_keys_distinct [OF ex_separate ex_all_eq] f(1) ne(1) quiet_calm f(2)
      run [unfolded reserve_eq [OF ex_cap_eq ex_all_eq]] ok]
  have "ks_count (wd_srv w') ''q:system:p:m:rpd'' = 1"
    using st(2) [of "ex_all ! 1"] by (simp add: ex_all_def ks_count_def)
  with run ok st(5) show ?thesis by blast
qed


subsection \<open>Two places where the tracker does less than it says\<close>

lemma receipt_last_key:
  assumes "all = gs @ [c]" "settlement_keys (receipt all scope p m rid est) wins = Inr (rk, ks)" "(x, k) \<in> set (zip wins ks)"
    "x = wg_window c"
  shows "k = wg_key c"
proof -
  let ?m = "map_of (rev (zip (map wg_window all) (map wg_key all)))"
  have each: "length ks = length ws \<and> (\<forall>(x, k)\<in>set (zip ws ks). ?m x = Some k)"
    if "each_exn (\<lambda>w. case ?m w of None \<Rightarrow> Inl KeyError | Some k \<Rightarrow> Inr k) ws = Inr ks" for ws ks
    using that by (induction ws arbitrary: ks) (auto simp: ebind_Inr_iff split: option.splits)
  have "each_exn (\<lambda>w. case ?m w of None \<Rightarrow> Inl KeyError | Some k \<Rightarrow> Inr k) wins = Inr ks"
    using assms(1,2) by (auto simp: settlement_keys_def keys_for_def by_window_def receipt_def ebind_Inr_iff)
  with each assms(3) have "?m x = Some k" by fastforce
  then show ?thesis using assms(1,4) by simp
qed

text \<open>A release never refunds the model's own daily request counter when the reservation carried a
  personal cap: both grants are labelled \<open>rpd\<close>, and the settlement keeps one key per label, the cap's.\<close>

theorem release_skips_capped_daily:
  assumes "redis_server R view" "separate user scope" "quota_inv qt spec scope (view s)"
    "answer_all qt spec scope user (Some c) = Inr all" "quota scope (ms_provider spec) (ms_model spec) Rpd = Inr k"
  shows "view (wd_srv (release R (receipt all scope (ms_provider spec) (ms_model spec) rid est) (calm s))) k = view s k"
proof (rule redis_server.release_untouched [OF assms(1,3,2,4) refl])
  obtain gs extra where gs: "ebind (budget qt spec) (answer_grants scope spec) = Inr gs"
    and e: "shared_pool_grants spec user (Some c) = Inr extra" "all = gs @ extra"
    using assms(4) by (auto simp: answer_all_def ebind_Inr_iff)
  have "extra \<noteq> []" using e(1) by (auto simp: shared_pool_grants_def ebind_Inr_iff)
  then obtain g where "g \<in> set extra" by (meson last_in_set)
  from extra_key [OF e(1) this]
  have g: "extra = [g]" "wg_window g = Rpd" "user_allocation user (ms_provider spec) (ms_model spec) = Inr (wg_key g)" by simp_all
  have kg: "k \<noteq> wg_key g" using allocation_neq(1) [OF g(3)] assms(2,5) unfolding separate_def by metis
  show "k \<notin> reservation_keys scope spec"
    using quota_reservation_neq [OF assms(5)] by (auto simp: reservation_keys_def)
  show "k \<notin> set ks" if keys: "settlement_keys (receipt all scope (ms_provider spec) (ms_model spec) rid est) (map wg_window all) = Inr (rk, ks)" for rk ks
  proof
    assume "k \<in> set ks"
    have ne: "all \<noteq> []" using e(2) g(1) by simp
    note in_all = settlement_keys_in [OF keys ne]
    obtain i where i: "i < length ks" "ks ! i = k" using \<open>k \<in> set ks\<close> by (metis in_set_conv_nth)
    define x where "x = map wg_window all ! i"
    have xk: "(x, k) \<in> set (zip (map wg_window all) ks)" using i in_all(2) by (auto simp: x_def set_zip intro!: exI [of _ i])
    from bspec [OF in_all(3) this] obtain g' where g': "g' \<in> set all" "wg_window g' = x" "wg_key g' = k" by auto
    then have "g' \<in> set gs" using e(2) g(1) kg by auto
    then have "quota scope (ms_provider spec) (ms_model spec) x = Inr k"
      using gs answer_grants_props(2) g'(2,3) by (auto simp: ebind_Inr_iff)
    then have "x = Rpd" using quota_window_neq [OF assms(5)] by metis
    then have "k = wg_key g" using receipt_last_key [OF _ keys xk] e(2) g(1,2) by simp
    with kg show False by simp
  qed
qed

theorem release_skips_capped_daily_witness:
  "\<exists>d w1. reserve mem_redis ex_tracker 0 ex_spec ''system'' 50 ''r1'' ex_cap (calm Map.empty) = (Inr d, w1) \<and> qd_allowed d \<and>
     ks_count (wd_srv (release mem_redis (receipt ex_all ''system'' (ms_provider ex_spec) (ms_model ex_spec) ''r1'' 50)
       (calm (wd_srv w1)))) ''q:system:p:m:rpd'' = 1"
proof -
  obtain d w1 where run: "reserve mem_redis ex_tracker 0 ex_spec ''system'' 50 ''r1'' ex_cap (calm Map.empty) = (Inr d, w1)"
    and ok: "qd_allowed d" "ks_count (wd_srv w1) ''q:system:p:m:rpd'' = 1" using ex_first by blast
  have inv: "quota_inv ex_tracker ex_spec ''system'' (wd_srv w1)"
    by (rule mem.reserve_inv [OF quota_inv_empty ex_separate ex_cap_eq run])
  have k: "quota ''system'' (ms_provider ex_spec) (ms_model ex_spec) Rpd = Inr ''q:system:p:m:rpd''" by code_simp
  let ?w2 = "release mem_redis (receipt ex_all ''system'' (ms_provider ex_spec) (ms_model ex_spec) ''r1'' 50) (calm (wd_srv w1))"
  have "wd_srv ?w2 ''q:system:p:m:rpd'' = wd_srv w1 ''q:system:p:m:rpd''"
    by (rule release_skips_capped_daily [where view = "\<lambda>v. v", OF mem_redis_server ex_separate inv ex_all_eq k])
  with ks_same_key(2) [of "wd_srv ?w2" "''q:system:p:m:rpd''" "wd_srv w1"] run ok show ?thesis by auto
qed

text \<open>A hint is a read, a comparison and a write in separate commands. Whatever another worker adds
  to the counter between the read and the write is lost: the write leaves the counter at the value the
  hint computed, even when the counter stood higher by then.\<close>

theorem hint_overwrites_concurrent_spend:
  assumes "redis_server R view" "\<forall>n. wd_link w n = Delivered" "converging (ws_reset window)"
    "counter_at (view (srv_now w)) key" "ks_count (view (srv_now w)) key < used"
    "before_set = wd_between w (Suc (wd_sent w)) (srv_now w)" "used < ks_count (view before_set) key"
    "w' = snd (apply_hint_at R qt now window used key w)"
  shows "ks_count (view (wd_srv w')) key = used \<and> ks_count (view (wd_srv w')) key < ks_count (view before_set) key"
proof -
  have cur: "read_int (rd_get R key (srv_now w)) = ks_count (view (srv_now w)) key"
    using assms(4) redis_server.get_spec [OF assms(1) counter_string [OF assms(4)]]
    by (auto simp: ks_get_def ks_count_def counter_at_def split: option.splits rentry.splits fval.splits)
  have "view (wd_srv w') = (view before_set)(key \<mapsto> (RStr (FInt used), Some (ttl_s (qt_pt qt) (ws_reset window) now)))"
    using assms(2,3,5,6) cur unfolding assms(8)
    by (simp add: apply_hint_at_def cbind_def client_call_def reading_def writing_def Let_def
        redis_server.set_ex_view [OF assms(1)])
  then show ?thesis using assms(7) by (simp add: redis_simps)
qed

theorem hint_overwrites_concurrent_spend_witness:
  "\<exists>w. srv_now w = ex_seen \<and> ks_count (wd_srv (snd (apply_hint_at mem_redis ex_tracker 0
        \<lparr>ws_window = Rpd, ws_limit = 10, ws_reset = FixedDailyUtc, ws_cost_is_tokens = False\<rparr> 4 ''q:system:p:m:rpd'' w)))
      ''q:system:p:m:rpd'' = 4 \<and> ks_count (wd_between w 1 ex_seen) ''q:system:p:m:rpd'' = 6"
proof -
  define w :: "keyspace world" where "w = \<lparr>wd_srv = ex_seen, wd_sent = 0, wd_link = (\<lambda>_. Delivered),
    wd_between = (\<lambda>n v. if n = 1 then v(''q:system:p:m:rpd'' \<mapsto> (RStr (FInt 6), Some 100)) else v)\<rparr>"
  let ?x = "\<lparr>ws_window = Rpd, ws_limit = 10, ws_reset = FixedDailyUtc, ws_cost_is_tokens = False\<rparr>"
  have pre: "\<forall>n. wd_link w n = Delivered" "converging (ws_reset ?x)" "counter_at (srv_now w) ''q:system:p:m:rpd''"
    "ks_count (srv_now w) ''q:system:p:m:rpd'' < 4" "4 < ks_count (wd_between w (Suc (wd_sent w)) (srv_now w)) ''q:system:p:m:rpd''"
    by (simp_all add: w_def converging_def counter_at_def ks_count_def ex_seen_def)
  have "ks_count (wd_srv (snd (apply_hint_at mem_redis ex_tracker 0 ?x 4 ''q:system:p:m:rpd'' w))) ''q:system:p:m:rpd'' = 4"
    using hint_overwrites_concurrent_spend [where R = mem_redis and view = "\<lambda>v. v" and w = w and window = ?x and used = 4
        and key = "''q:system:p:m:rpd''", OF mem_redis_server pre(1-4) refl pre(5) refl] by simp
  moreover have "srv_now w = ex_seen" "ks_count (wd_between w 1 ex_seen) ''q:system:p:m:rpd'' = 6"
    by (simp_all add: w_def ks_count_def)
  ultimately show ?thesis by blast
qed

end
