(* ===== verification/Gw_Breaker.thy ===== *)
theory Gw_Breaker
  imports Gw_Types Gw_Redis Gw_Keys
begin

text \<open>
  The circuit breaker (\<^verbatim>\<open>app/routing/circuit_breaker.py\<close>): one Redis hash per provider and model, read
  and written in separate commands. \<open>clk i\<close> is the \<open>i\<close>-th reading of the injected clock within one
  call. Logging and the fail-open metric are left out.

  The second half gives the abstract machine the hash represents (\<open>brk\<close>), shows that with no other
  worker in between every operation is one of its transitions, and that its cooldowns stay on the
  ladder.
\<close>

subsection \<open>States, fields and constants\<close>

datatype BreakerState = CLOSED | OPEN | HALF_OPEN

definition FIELD_STATE :: string where "FIELD_STATE = ''state''"
definition FIELD_FAILURES :: string where "FIELD_FAILURES = ''failures''"
definition FIELD_OPENED_AT :: string where "FIELD_OPENED_AT = ''opened_at''"
definition FIELD_COOLDOWN :: string where "FIELD_COOLDOWN = ''cooldown_s''"
definition FIELD_PROBE_HOLDER :: string where "FIELD_PROBE_HOLDER = ''probe_holder''"

lemmas field_defs = FIELD_STATE_def FIELD_FAILURES_def FIELD_OPENED_AT_def FIELD_COOLDOWN_def FIELD_PROBE_HOLDER_def

fun state_text :: "BreakerState \<Rightarrow> fval" where
  "state_text CLOSED = FText ''closed''"
| "state_text OPEN = FText ''open''"
| "state_text HALF_OPEN = FText ''half_open''"

record BreakerDecision =
  bd_provider :: string
  bd_model :: string
  bd_allowed :: bool
  bd_state :: BreakerState
  bd_is_probe :: bool
  bd_failures :: int
  bd_retry_after_s :: "pyfloat option"
  bd_degraded :: bool

record CircuitBreaker =
  br_failure_threshold :: int
  br_cooldown_initial_s :: pyfloat
  br_cooldown_max_s :: pyfloat
  br_cooldown_factor :: pyfloat

text \<open>The defaults of the constructor.\<close>

definition default_breaker :: CircuitBreaker where
  "default_breaker = \<lparr>br_failure_threshold = 5, br_cooldown_initial_s = 30, br_cooldown_max_s = 300,
     br_cooldown_factor = 2\<rparr>"

subsection \<open>Reading the hash\<close>

fun read_state :: "(string \<rightharpoonup> fval) \<Rightarrow> BreakerState" where
  "read_state raw = (if raw FIELD_STATE = Some (state_text OPEN) then OPEN
     else if raw FIELD_STATE = Some (state_text HALF_OPEN) then HALF_OPEN else CLOSED)"

text \<open>\<^verbatim>\<open>int\<close> and \<^verbatim>\<open>float\<close> of a stored text; anything unreadable is zero.\<close>

fun brk_read_int :: "fval option \<Rightarrow> int" where
  "brk_read_int (Some (FInt n)) = n"
| "brk_read_int _ = 0"

fun read_float :: "fval option \<Rightarrow> pyfloat" where
  "read_float (Some (FInt n)) = of_int n"
| "read_float (Some (FFloat x)) = x"
| "read_float _ = 0"

text \<open>Python's \<^verbatim>\<open>x or y\<close> on a float and on optional strings.\<close>

definition float_or :: "pyfloat \<Rightarrow> pyfloat \<Rightarrow> pyfloat" where
  "float_or x y = (if x = 0 then y else x)"

definition or_id :: "string option \<Rightarrow> string option \<Rightarrow> string" where
  "or_id request_id context_id = (case request_id of Some (c # cs) \<Rightarrow> c # cs
     | _ \<Rightarrow> (case context_id of Some (c # cs) \<Rightarrow> c # cs | _ \<Rightarrow> ''unknown''))"

subsection \<open>Writing the hash\<close>

definition brk_write :: "'r redis \<Rightarrow> string \<Rightarrow> (string \<times> fval) list \<Rightarrow> 'r world \<Rightarrow> unit option \<times> 'r world" where
  "brk_write R key fs = cbind (client_call (writing (rd_hset R key fs)))
     (\<lambda>_. client_call (writing (rd_expire R key BREAKER_TTL_S)))"

definition read_cooldown :: "'r redis \<Rightarrow> string \<Rightarrow> 'r world \<Rightarrow> pyfloat option option \<times> 'r world" where
  "read_cooldown R key = cbind (client_call (reading (rd_hget R key FIELD_COOLDOWN)))
     (\<lambda>raw. creturn (if read_float raw = 0 then None else Some (read_float raw)))"

definition next_cooldown :: "CircuitBreaker \<Rightarrow> pyfloat option \<Rightarrow> pyfloat option \<Rightarrow> pyfloat" where
  "next_cooldown cb previous retry_after = (case retry_after of
     Some r \<Rightarrow> min (max r (br_cooldown_initial_s cb)) (br_cooldown_max_s cb)
   | None \<Rightarrow> (case previous of None \<Rightarrow> br_cooldown_initial_s cb
       | Some p \<Rightarrow> min (p * br_cooldown_factor cb) (br_cooldown_max_s cb)))"

definition brk_open :: "'r redis \<Rightarrow> string \<Rightarrow> instant \<Rightarrow> int \<Rightarrow> pyfloat \<Rightarrow> 'r world \<Rightarrow> unit option \<times> 'r world" where
  "brk_open R key now failures cooldown_s = brk_write R key
     [(FIELD_STATE, state_text OPEN), (FIELD_OPENED_AT, FFloat now), (FIELD_COOLDOWN, FFloat cooldown_s),
      (FIELD_FAILURES, FInt failures)]"

subsection \<open>Asking\<close>

definition fail_open :: "string \<Rightarrow> string \<Rightarrow> BreakerDecision" where
  "fail_open provider model = \<lparr>bd_provider = provider, bd_model = model, bd_allowed = True, bd_state = CLOSED,
     bd_is_probe = False, bd_failures = 0, bd_retry_after_s = None, bd_degraded = True\<rparr>"

definition probe_decision :: "string \<Rightarrow> string \<Rightarrow> int \<Rightarrow> BreakerDecision" where
  "probe_decision provider model failures = \<lparr>bd_provider = provider, bd_model = model, bd_allowed = True,
     bd_state = HALF_OPEN, bd_is_probe = True, bd_failures = failures, bd_retry_after_s = None, bd_degraded = False\<rparr>"

definition claim_probe ::
  "'r redis \<Rightarrow> (nat \<Rightarrow> instant) \<Rightarrow> string \<Rightarrow> string \<Rightarrow> string \<Rightarrow> int \<Rightarrow> pyfloat \<Rightarrow> string \<Rightarrow> 'r world \<Rightarrow> BreakerDecision \<times> 'r world" where
  "claim_probe R clk key provider model failures cooldown_s request_id w =
    (let probe = probe_decision provider model failures;
         (res, w') = cbind (client_call (rd_hsetnx R key FIELD_PROBE_HOLDER (FText request_id))) (\<lambda>claimed.
           if claimed
           then cbind (brk_write R key [(FIELD_STATE, state_text HALF_OPEN), (FIELD_OPENED_AT, FFloat (clk 1))])
                  (\<lambda>_. creturn probe)
           else cbind (client_call (reading (rd_hgetall R key))) (\<lambda>raw.
                  let opened_at = read_float (raw FIELD_OPENED_AT); lease_elapsed = clk 1 - opened_at
                  in if lease_elapsed < cooldown_s
                     then creturn (probe\<lparr>bd_allowed := False, bd_is_probe := False,
                                          bd_retry_after_s := Some (cooldown_s - lease_elapsed)\<rparr>)
                     else cbind (brk_write R key [(FIELD_STATE, state_text HALF_OPEN), (FIELD_OPENED_AT, FFloat (clk 2)),
                                                  (FIELD_PROBE_HOLDER, FText request_id)])
                            (\<lambda>_. creturn probe))) w
     in (case res of Some d \<Rightarrow> d | None \<Rightarrow> fail_open provider model, w'))"

definition brk_allows ::
  "'r redis \<Rightarrow> CircuitBreaker \<Rightarrow> (nat \<Rightarrow> instant) \<Rightarrow> string \<Rightarrow> string \<Rightarrow> string option \<Rightarrow> string option \<Rightarrow> 'r world
    \<Rightarrow> BreakerDecision exn \<times> 'r world" where
  "brk_allows R cb clk provider model request_id context_id w =
    (case breaker provider model of
       Inl e \<Rightarrow> (Inl e, w)
     | Inr key \<Rightarrow>
        (case client_call (reading (rd_hgetall R key)) w of
           (None, w1) \<Rightarrow> (Inr (fail_open provider model), w1)
         | (Some raw, w1) \<Rightarrow>
            (let state = read_state raw; failures = brk_read_int (raw FIELD_FAILURES)
             in if state = CLOSED
                then (Inr \<lparr>bd_provider = provider, bd_model = model, bd_allowed = True, bd_state = CLOSED,
                           bd_is_probe = False, bd_failures = failures, bd_retry_after_s = None, bd_degraded = False\<rparr>, w1)
                else (let opened_at = read_float (raw FIELD_OPENED_AT);
                          cooldown_s = float_or (read_float (raw FIELD_COOLDOWN)) (br_cooldown_initial_s cb);
                          elapsed = clk 0 - opened_at
                      in if elapsed < cooldown_s
                         then (Inr \<lparr>bd_provider = provider, bd_model = model, bd_allowed = False,
                                    bd_state = (if state = OPEN then OPEN else HALF_OPEN), bd_is_probe = False,
                                    bd_failures = failures, bd_retry_after_s = Some (cooldown_s - elapsed),
                                    bd_degraded = False\<rparr>, w1)
                         else (let (d, w2) = claim_probe R clk key provider model failures cooldown_s
                                     (or_id request_id context_id) w1 in (Inr d, w2))))))"

definition peek :: "'r redis \<Rightarrow> CircuitBreaker \<Rightarrow> (nat \<Rightarrow> instant) \<Rightarrow> string \<Rightarrow> string \<Rightarrow> 'r world \<Rightarrow> BreakerDecision exn \<times> 'r world" where
  "peek R cb clk provider model w =
    (case breaker provider model of
       Inl e \<Rightarrow> (Inl e, w)
     | Inr key \<Rightarrow>
        (case client_call (reading (rd_hgetall R key)) w of
           (None, w1) \<Rightarrow> (Inr (fail_open provider model), w1)
         | (Some raw, w1) \<Rightarrow>
            (let state = read_state raw
             in if state = CLOSED
                then (Inr \<lparr>bd_provider = provider, bd_model = model, bd_allowed = True, bd_state = CLOSED,
                           bd_is_probe = False, bd_failures = 0, bd_retry_after_s = None, bd_degraded = False\<rparr>, w1)
                else (let opened_at = read_float (raw FIELD_OPENED_AT);
                          cooldown_s = float_or (read_float (raw FIELD_COOLDOWN)) (br_cooldown_initial_s cb);
                          elapsed = clk 0 - opened_at
                      in (Inr \<lparr>bd_provider = provider, bd_model = model, bd_allowed = False, bd_state = state,
                               bd_is_probe = False, bd_failures = brk_read_int (raw FIELD_FAILURES),
                               bd_retry_after_s = Some (max (cooldown_s - elapsed) 0), bd_degraded = False\<rparr>, w1)))))"

subsection \<open>Recording\<close>

definition record_success :: "'r redis \<Rightarrow> CircuitBreaker \<Rightarrow> BreakerDecision \<Rightarrow> 'r world \<Rightarrow> unit exn \<times> 'r world" where
  "record_success R cb d w =
    (if bd_degraded d then (Inr (), w)
     else case breaker (bd_provider d) (bd_model d) of
       Inl e \<Rightarrow> (Inl e, w)
     | Inr key \<Rightarrow>
        (Inr (), snd ((if bd_is_probe d
             then cbind (brk_write R key [(FIELD_STATE, state_text CLOSED), (FIELD_FAILURES, FInt 0),
                                          (FIELD_COOLDOWN, FFloat (br_cooldown_initial_s cb))])
                    (\<lambda>_. client_call (writing (rd_hdel R key FIELD_PROBE_HOLDER)))
             else if bd_failures d \<noteq> 0 then brk_write R key [(FIELD_FAILURES, FInt 0)]
             else creturn ()) w)))"

definition record_failure ::
  "'r redis \<Rightarrow> CircuitBreaker \<Rightarrow> (nat \<Rightarrow> instant) \<Rightarrow> BreakerDecision \<Rightarrow> error_class \<Rightarrow> 'r world \<Rightarrow> unit exn \<times> 'r world" where
  "record_failure R cb clk d error w =
    (if bd_degraded d \<or> \<not> breaker_eligible error then (Inr (), w)
     else case breaker (bd_provider d) (bd_model d) of
       Inl e \<Rightarrow> (Inl e, w)
     | Inr key \<Rightarrow>
        (let retry_after = (if is_rate_limited error then retry_after_s error else None)
         in (Inr (), snd ((if bd_is_probe d
             then cbind (read_cooldown R key) (\<lambda>previous.
                  cbind (brk_open R key (clk 0) (bd_failures d) (next_cooldown cb previous retry_after))
                    (\<lambda>_. client_call (writing (rd_hdel R key FIELD_PROBE_HOLDER))))
             else cbind (client_call (rd_hincrby R key FIELD_FAILURES 1)) (\<lambda>failures.
                  cbind (client_call (writing (rd_expire R key BREAKER_TTL_S))) (\<lambda>_.
                    if is_rate_limited error \<or> failures \<ge> br_failure_threshold cb
                    then brk_open R key (clk 0) failures (next_cooldown cb None retry_after)
                    else creturn ()))) w))))"

subsection \<open>The abstract machine\<close>

text \<open>What the hash says, as the operations read it.\<close>

record brk =
  ab_state :: BreakerState
  ab_failures :: int
  ab_opened_at :: instant
  ab_cooldown :: pyfloat
  ab_held :: bool

definition brk_of :: "CircuitBreaker \<Rightarrow> (string \<rightharpoonup> fval) \<Rightarrow> brk" where
  "brk_of cb h = \<lparr>ab_state = read_state h, ab_failures = brk_read_int (h FIELD_FAILURES),
     ab_opened_at = read_float (h FIELD_OPENED_AT),
     ab_cooldown = float_or (read_float (h FIELD_COOLDOWN)) (br_cooldown_initial_s cb),
     ab_held = (h FIELD_PROBE_HOLDER \<noteq> None)\<rparr>"

datatype verdict = Pass int | Skip pyfloat | Probe int

text \<open>Asking at time \<open>t\<close>; a claimed or stolen probe starts its lease at \<open>t'\<close>.\<close>

definition abs_allows :: "instant \<Rightarrow> instant \<Rightarrow> brk \<Rightarrow> verdict \<times> brk" where
  "abs_allows t t' b =
    (if ab_state b = CLOSED then (Pass (ab_failures b), b)
     else if t - ab_opened_at b < ab_cooldown b then (Skip (ab_cooldown b - (t - ab_opened_at b)), b)
     else (Probe (ab_failures b), b\<lparr>ab_state := HALF_OPEN, ab_opened_at := t', ab_held := True\<rparr>))"

definition abs_success :: "CircuitBreaker \<Rightarrow> bool \<Rightarrow> brk \<Rightarrow> brk" where
  "abs_success cb probe b = (if probe then b\<lparr>ab_state := CLOSED, ab_failures := 0,
       ab_cooldown := br_cooldown_initial_s cb, ab_held := False\<rparr>
     else b\<lparr>ab_failures := 0\<rparr>)"

definition abs_failure :: "CircuitBreaker \<Rightarrow> instant \<Rightarrow> bool \<Rightarrow> int \<Rightarrow> error_class \<Rightarrow> brk \<Rightarrow> brk" where
  "abs_failure cb t probe seen error b =
    (if probe then b\<lparr>ab_state := OPEN, ab_failures := seen, ab_opened_at := t,
         ab_cooldown := next_cooldown cb (Some (ab_cooldown b)) (retry_after_s error), ab_held := False\<rparr>
     else if is_rate_limited error \<or> ab_failures b + 1 \<ge> br_failure_threshold cb
     then b\<lparr>ab_state := OPEN, ab_failures := ab_failures b + 1, ab_opened_at := t,
            ab_cooldown := next_cooldown cb None (retry_after_s error)\<rparr>
     else b\<lparr>ab_failures := ab_failures b + 1\<rparr>)"

lemma field_neq [simp]:
  "FIELD_STATE \<noteq> FIELD_FAILURES" "FIELD_STATE \<noteq> FIELD_OPENED_AT" "FIELD_STATE \<noteq> FIELD_COOLDOWN" "FIELD_STATE \<noteq> FIELD_PROBE_HOLDER"
  "FIELD_FAILURES \<noteq> FIELD_STATE" "FIELD_FAILURES \<noteq> FIELD_OPENED_AT" "FIELD_FAILURES \<noteq> FIELD_COOLDOWN" "FIELD_FAILURES \<noteq> FIELD_PROBE_HOLDER"
  "FIELD_OPENED_AT \<noteq> FIELD_STATE" "FIELD_OPENED_AT \<noteq> FIELD_FAILURES" "FIELD_OPENED_AT \<noteq> FIELD_COOLDOWN" "FIELD_OPENED_AT \<noteq> FIELD_PROBE_HOLDER"
  "FIELD_COOLDOWN \<noteq> FIELD_STATE" "FIELD_COOLDOWN \<noteq> FIELD_FAILURES" "FIELD_COOLDOWN \<noteq> FIELD_OPENED_AT" "FIELD_COOLDOWN \<noteq> FIELD_PROBE_HOLDER"
  "FIELD_PROBE_HOLDER \<noteq> FIELD_STATE" "FIELD_PROBE_HOLDER \<noteq> FIELD_FAILURES" "FIELD_PROBE_HOLDER \<noteq> FIELD_OPENED_AT" "FIELD_PROBE_HOLDER \<noteq> FIELD_COOLDOWN"
  by (simp_all add: field_defs)

subsection \<open>Effect of the commands\<close>

text \<open>The hash of a breaker, as a well-typed state stores it.\<close>

definition brk_typed :: "keyspace \<Rightarrow> string \<Rightarrow> bool" where
  "brk_typed v key \<longleftrightarrow> hash_at v key \<and> int_field v key FIELD_FAILURES"

lemma ks_hdel_hash:
  assumes "hash_at v k"
  shows "ks_hash (ks_hdel k f v) k = (ks_hash v k)(f := None)" "k' \<noteq> k \<Longrightarrow> ks_hdel k f v k' = v k'"
    "hash_at (ks_hdel k f v) k"
    "ks_hdel k f v k = (if (ks_hash v k)(f := None) = Map.empty then None else Some (RHash ((ks_hash v k)(f := None)), ks_expiry v k))"
  using assms by (auto simp: ks_hdel_def ks_hash_def hash_at_def ks_expiry_def Let_def split: option.splits rentry.splits)

text \<open>One step of a call in a quiet world: the breaker's hash becomes \<open>h\<close> with a full lifetime, no other
  key changes.\<close>

definition brk_moves :: "('r \<Rightarrow> keyspace) \<Rightarrow> string \<Rightarrow> 'r world \<Rightarrow> 'r world \<Rightarrow> (string \<rightharpoonup> fval) \<Rightarrow> bool" where
  "brk_moves view key w w' h \<longleftrightarrow> quiet w' \<and> hash_at (view (wd_srv w')) key \<and> ks_hash (view (wd_srv w')) key = h \<and>
     (\<forall>k. k \<noteq> key \<longrightarrow> view (wd_srv w') k = view (wd_srv w) k)"

definition brk_lasts :: "('r \<Rightarrow> keyspace) \<Rightarrow> string \<Rightarrow> 'r world \<Rightarrow> bool" where
  "brk_lasts view key w \<longleftrightarrow> ks_ttl (view (wd_srv w)) key = BREAKER_TTL_S"

context redis_server
begin

lemma hgetall_quiet:
  assumes "quiet w" "hash_at (view (wd_srv w)) key"
  shows "client_call (reading (rd_hgetall R key)) w = (Some (ks_hash (view (wd_srv w)) key), w\<lparr>wd_sent := Suc (wd_sent w)\<rparr>)"
    "client_call (reading (rd_hget R key f)) w = (Some (ks_hash (view (wd_srv w)) key f), w\<lparr>wd_sent := Suc (wd_sent w)\<rparr>)"
  using assms by (simp_all add: client_call_quiet reading_def hgetall_spec rd_hget_def)

lemma brk_write_quiet:
  assumes "quiet w" "hash_at (view (wd_srv w)) key" "fs \<noteq> []"
  obtains w' where "brk_write R key fs w = (Some (), w')"
    "brk_moves view key w w' (ks_hash (view (wd_srv w)) key ++ map_of (rev fs))" "brk_lasts view key w'"
proof -
  let ?s1 = "rd_hset R key fs (wd_srv w)"
  let ?w' = "w\<lparr>wd_sent := Suc (Suc (wd_sent w)), wd_srv := rd_expire R key BREAKER_TTL_S ?s1\<rparr>"
  have v1: "view ?s1 = ks_put_hash key (ks_hash (view (wd_srv w)) key ++ map_of (rev fs)) (view (wd_srv w))"
    using hset_view assms(2,3) by blast
  have t: "0 < BREAKER_TTL_S" by (simp add: BREAKER_TTL_S_def)
  have "brk_write R key fs w = (Some (), ?w')"
    using assms(1) by (simp add: brk_write_def cbind_def client_call_quiet writing_def)
  moreover have "brk_moves view key w ?w' (ks_hash (view (wd_srv w)) key ++ map_of (rev fs))"
    using assms(1) by (simp add: brk_moves_def expire_view ks_expire_pos [OF t] v1 redis_simps)
  moreover have "brk_lasts view key ?w'"
    using ks_expire_pos(6) [OF t, of "view ?s1" key] by (simp add: brk_lasts_def expire_view v1 ks_put_hash_def)
  ultimately show ?thesis by (rule that)
qed

lemma brk_hdel_quiet:
  assumes "quiet w" "hash_at (view (wd_srv w)) key" "brk_lasts view key w" "(ks_hash (view (wd_srv w)) key)(f := None) \<noteq> Map.empty"
  obtains w' where "client_call (writing (rd_hdel R key f)) w = (Some (), w')"
    "brk_moves view key w w' ((ks_hash (view (wd_srv w)) key)(f := None))" "brk_lasts view key w'"
proof -
  let ?w' = "w\<lparr>wd_sent := Suc (wd_sent w), wd_srv := rd_hdel R key f (wd_srv w)\<rparr>"
  note h = ks_hdel_hash [OF assms(2)]
  have "client_call (writing (rd_hdel R key f)) w = (Some (), ?w')"
    using assms(1) by (simp add: client_call_quiet writing_def)
  moreover have "brk_moves view key w ?w' ((ks_hash (view (wd_srv w)) key)(f := None))"
    using assms(1) h(1-3) by (simp add: brk_moves_def hdel_view [OF assms(2)])
  moreover have "brk_lasts view key ?w'"
    using assms(3,4) h(4) [of f] by (auto simp: brk_lasts_def hdel_view [OF assms(2)] ks_ttl_def ks_expiry_def BREAKER_TTL_S_def
        split: option.splits)
  ultimately show ?thesis by (rule that)
qed

lemma brk_moves_trans: "brk_moves view key w w1 h1 \<Longrightarrow> brk_moves view key w1 w2 h2 \<Longrightarrow> brk_moves view key w w2 h2"
  by (simp add: brk_moves_def)

end

subsection \<open>Refinement\<close>

definition cb_valid :: "CircuitBreaker \<Rightarrow> bool" where
  "cb_valid cb \<longleftrightarrow> 0 < br_cooldown_initial_s cb \<and> br_cooldown_initial_s cb \<le> br_cooldown_max_s cb \<and> 1 \<le> br_cooldown_factor cb"

abbreviation on_ladder :: "CircuitBreaker \<Rightarrow> pyfloat \<Rightarrow> bool" where
  "on_ladder cb c \<equiv> br_cooldown_initial_s cb \<le> c \<and> c \<le> br_cooldown_max_s cb"

lemma next_cooldown_ladder:
  assumes "cb_valid cb" "\<And>p. previous = Some p \<Longrightarrow> on_ladder cb p"
  shows "on_ladder cb (next_cooldown cb previous retry)" "0 < next_cooldown cb previous retry"
proof -
  have grow: "br_cooldown_initial_s cb \<le> p * br_cooldown_factor cb" if "previous = Some p" for p
  proof -
    have "br_cooldown_initial_s cb \<le> p" "0 < br_cooldown_initial_s cb" "1 \<le> br_cooldown_factor cb"
      using assms that by (auto simp: cb_valid_def)
    then show ?thesis by (metis less_eq_rat_def mult.right_neutral mult_mono order.trans zero_le_one)
  qed
  then show 1: "on_ladder cb (next_cooldown cb previous retry)"
    using assms by (auto simp: next_cooldown_def cb_valid_def split: option.splits)
  then show "0 < next_cooldown cb previous retry" using assms(1) by (auto simp: cb_valid_def)
qed

text \<open>A stored breaker: integers where integers belong, a cooldown on the ladder whenever one is stored,
  and one stored whenever the breaker is not closed.\<close>

definition hash_ok :: "CircuitBreaker \<Rightarrow> (string \<rightharpoonup> fval) \<Rightarrow> bool" where
  "hash_ok cb h \<longleftrightarrow> (case h FIELD_FAILURES of None \<Rightarrow> True | Some (FInt n) \<Rightarrow> 0 \<le> n | _ \<Rightarrow> False) \<and>
     (case h FIELD_COOLDOWN of None \<Rightarrow> read_state h = CLOSED | Some (FFloat c) \<Rightarrow> on_ladder cb c | _ \<Rightarrow> False)"

definition brk_ok :: "CircuitBreaker \<Rightarrow> keyspace \<Rightarrow> string \<Rightarrow> bool" where
  "brk_ok cb v key \<longleftrightarrow> hash_at v key \<and> hash_ok cb (ks_hash v key)"

lemma hash_ok_cooldown:
  assumes "cb_valid cb" "hash_ok cb h"
  shows "ab_cooldown (brk_of cb h) = (case h FIELD_COOLDOWN of Some (FFloat c) \<Rightarrow> c | _ \<Rightarrow> br_cooldown_initial_s cb)"
    "on_ladder cb (ab_cooldown (brk_of cb h))"
  using assms by (auto simp: hash_ok_def brk_of_def float_or_def cb_valid_def split: option.splits fval.splits)

lemma hash_ok_int: "hash_ok cb (ks_hash v key) \<Longrightarrow> int_field v key FIELD_FAILURES"
  "hash_ok cb (ks_hash v key) \<Longrightarrow> ks_hcount v key FIELD_FAILURES = brk_read_int (ks_hash v key FIELD_FAILURES)"
  "hash_ok cb (ks_hash v key) \<Longrightarrow> 0 \<le> brk_read_int (ks_hash v key FIELD_FAILURES)"
  by (auto simp: hash_ok_def int_field_def ks_hcount_def split: option.splits fval.splits)

fun decision_of :: "string \<Rightarrow> string \<Rightarrow> BreakerState \<Rightarrow> int \<Rightarrow> verdict \<Rightarrow> BreakerDecision" where
  "decision_of p m st n (Pass k) = \<lparr>bd_provider = p, bd_model = m, bd_allowed = True, bd_state = CLOSED,
     bd_is_probe = False, bd_failures = k, bd_retry_after_s = None, bd_degraded = False\<rparr>"
| "decision_of p m st n (Skip r) = \<lparr>bd_provider = p, bd_model = m, bd_allowed = False, bd_state = st,
     bd_is_probe = False, bd_failures = n, bd_retry_after_s = Some r, bd_degraded = False\<rparr>"
| "decision_of p m st n (Probe k) = probe_decision p m k"

text \<open>How a call relates to the machine: it leaves the hash in a state that reads as \<open>b\<close>, well-formed,
  and touches no other key.\<close>

definition brk_step :: "('r \<Rightarrow> keyspace) \<Rightarrow> CircuitBreaker \<Rightarrow> string \<Rightarrow> 'r world \<Rightarrow> 'r world \<Rightarrow> brk \<Rightarrow> bool" where
  "brk_step view cb key w w' b \<longleftrightarrow> quiet w' \<and> brk_ok cb (view (wd_srv w')) key \<and>
     brk_of cb (ks_hash (view (wd_srv w')) key) = b \<and> (\<forall>k. k \<noteq> key \<longrightarrow> view (wd_srv w') k = view (wd_srv w) k)"

lemma brk_stepI:
  assumes "brk_moves view key w w' h" "hash_ok cb h" "brk_of cb h = b"
  shows "brk_step view cb key w w' b"
  using assms by (auto simp: brk_step_def brk_moves_def brk_ok_def)

lemma drop_holder:
  "brk_of cb (h(FIELD_PROBE_HOLDER := None)) = (brk_of cb h)\<lparr>ab_held := False\<rparr>"
  "hash_ok cb (h(FIELD_PROBE_HOLDER := None)) = hash_ok cb h"
  by (simp_all add: brk_of_def hash_ok_def split: option.split)

lemma state_text_neq [simp]: "state_text HALF_OPEN \<noteq> state_text OPEN" "state_text OPEN \<noteq> state_text HALF_OPEN"
  "state_text CLOSED \<noteq> state_text OPEN" "state_text CLOSED \<noteq> state_text HALF_OPEN"
  by simp_all

context redis_server
begin

lemma claim_probe_refines:
  assumes "quiet w" "brk_ok cb (view (wd_srv w)) key" "b = brk_of cb (ks_hash (view (wd_srv w)) key)"
    "cb_valid cb" "ab_state b \<noteq> CLOSED" "cd = ab_cooldown b" "cd \<le> clk 1 - ab_opened_at b"
  shows "\<exists>w'. claim_probe R clk key p m n cd rid w = (probe_decision p m n, w') \<and>
    brk_step view cb key w w' (b\<lparr>ab_state := HALF_OPEN, ab_opened_at := (if ab_held b then clk 2 else clk 1), ab_held := True\<rparr>) \<and>
    brk_lasts view key w'"
proof -
  let ?v = "view (wd_srv w)" let ?h = "ks_hash ?v key"
  have at: "hash_at ?v key" and ok: "hash_ok cb ?h" using assms(2) by (auto simp: brk_ok_def)
  note cool = hash_ok_cooldown [OF assms(4) ok]
  show ?thesis
  proof (cases "?h FIELD_PROBE_HOLDER")
    case None
    let ?w1 = "w\<lparr>wd_sent := Suc (wd_sent w), wd_srv := snd (rd_hsetnx R key FIELD_PROBE_HOLDER (FText rid) (wd_srv w))\<rparr>"
    have call: "client_call (rd_hsetnx R key FIELD_PROBE_HOLDER (FText rid)) w = (Some True, ?w1)"
      using assms(1) None by (simp add: client_call_quiet hsetnx_reply [OF at])
    have v1: "view (wd_srv ?w1) = ks_put_hash key (?h(FIELD_PROBE_HOLDER \<mapsto> FText rid)) ?v"
      using None by (simp add: hsetnx_view [OF at])
    let ?fs = "[(FIELD_STATE, state_text HALF_OPEN), (FIELD_OPENED_AT, FFloat (clk 1))]"
    have pre: "quiet ?w1" "hash_at (view (wd_srv ?w1)) key" "?fs \<noteq> []"
      unfolding v1 using assms(1) by (simp_all add: redis_simps)
    obtain w' where w': "brk_write R key ?fs ?w1 = (Some (), w')"
      "brk_moves view key ?w1 w' (ks_hash (view (wd_srv ?w1)) key ++ map_of (rev ?fs))" "brk_lasts view key w'"
      by (rule brk_write_quiet [OF pre])
    have moves: "brk_moves view key w w' (?h(FIELD_PROBE_HOLDER \<mapsto> FText rid) ++ map_of (rev ?fs))"
      using w'(2) unfolding v1 brk_moves_def by (simp add: redis_simps)
    have "claim_probe R clk key p m n cd rid w = (probe_decision p m n, w')"
      by (simp add: claim_probe_def cbind_def call w'(1) [simplified] creturn_def Let_def)
    moreover have "brk_step view cb key w w' (b\<lparr>ab_state := HALF_OPEN, ab_opened_at := clk 1, ab_held := True\<rparr>)"
      by (rule brk_stepI [OF moves]) (use ok assms(3,5) in \<open>auto simp: hash_ok_def brk_of_def split: option.splits fval.splits\<close>)
    ultimately show ?thesis using w'(3) None assms(3) by (auto simp: brk_of_def)
  next
    case (Some holder)
    let ?w1 = "w\<lparr>wd_sent := Suc (wd_sent w), wd_srv := snd (rd_hsetnx R key FIELD_PROBE_HOLDER (FText rid) (wd_srv w))\<rparr>"
    have call: "client_call (rd_hsetnx R key FIELD_PROBE_HOLDER (FText rid)) w = (Some False, ?w1)"
      using assms(1) Some by (simp add: client_call_quiet hsetnx_reply [OF at])
    have v1: "view (wd_srv ?w1) = ?v" using Some by (simp add: hsetnx_view [OF at])
    have q1: "quiet ?w1" "hash_at (view (wd_srv ?w1)) key" unfolding v1 using assms(1) at by simp_all
    let ?w2 = "?w1\<lparr>wd_sent := Suc (wd_sent ?w1)\<rparr>"
    have get: "client_call (reading (rd_hgetall R key)) ?w1 = (Some ?h, ?w2)"
      using hgetall_quiet(1) [OF q1] unfolding v1 .
    let ?fs = "[(FIELD_STATE, state_text HALF_OPEN), (FIELD_OPENED_AT, FFloat (clk 2)), (FIELD_PROBE_HOLDER, FText rid)]"
    have pre: "quiet ?w2" "hash_at (view (wd_srv ?w2)) key" "?fs \<noteq> []" using q1 by simp_all
    obtain w' where w': "brk_write R key ?fs ?w2 = (Some (), w')"
      "brk_moves view key ?w2 w' (ks_hash (view (wd_srv ?w2)) key ++ map_of (rev ?fs))" "brk_lasts view key w'"
      by (rule brk_write_quiet [OF pre])
    have moves: "brk_moves view key w w' (?h ++ map_of (rev ?fs))"
      using w'(2) v1 unfolding brk_moves_def by simp
    have stale: "\<not> clk 1 - read_float (?h FIELD_OPENED_AT) < cd" using assms(3,7) by (simp add: brk_of_def)
    have "claim_probe R clk key p m n cd rid w = (probe_decision p m n, w')"
      using stale by (simp add: claim_probe_def cbind_def call get [simplified] w'(1) [simplified] creturn_def Let_def)
    moreover have "brk_step view cb key w w' (b\<lparr>ab_state := HALF_OPEN, ab_opened_at := clk 2, ab_held := True\<rparr>)"
      by (rule brk_stepI [OF moves]) (use ok assms(3,5) in \<open>auto simp: hash_ok_def brk_of_def split: option.splits fval.splits\<close>)
    ultimately show ?thesis using w'(3) Some assms(3) by (auto simp: brk_of_def)
  qed
qed

lemma allows_refines:
  assumes "quiet w" "breaker p m = Inr key" "brk_ok cb (view (wd_srv w)) key" "b = brk_of cb (ks_hash (view (wd_srv w)) key)"
    "cb_valid cb" "clk 0 \<le> clk 1"
  shows "\<exists>w'. brk_allows R cb clk p m rid ctx w =
      (Inr (decision_of p m (ab_state b) (ab_failures b) (fst (abs_allows (clk 0) (if ab_held b then clk 2 else clk 1) b))), w') \<and>
    brk_step view cb key w w' (snd (abs_allows (clk 0) (if ab_held b then clk 2 else clk 1) b))"
proof -
  let ?v = "view (wd_srv w)" let ?h = "ks_hash ?v key" let ?w1 = "w\<lparr>wd_sent := Suc (wd_sent w)\<rparr>"
  have at: "hash_at ?v key" using assms(3) by (auto simp: brk_ok_def)
  have get: "client_call (reading (rd_hgetall R key)) w = (Some ?h, ?w1)" by (rule hgetall_quiet(1) [OF assms(1) at])
  have b: "ab_state b = read_state ?h" "ab_failures b = brk_read_int (?h FIELD_FAILURES)" "ab_opened_at b = read_float (?h FIELD_OPENED_AT)"
    "ab_cooldown b = float_or (read_float (?h FIELD_COOLDOWN)) (br_cooldown_initial_s cb)"
    by (simp_all add: assms(4) brk_of_def)
  have stay: "brk_step view cb key w ?w1 b" using assms(1,3,4) by (simp add: brk_step_def)
  have run: "brk_allows R cb clk p m rid ctx w =
      (if ab_state b = CLOSED then (Inr (decision_of p m CLOSED (ab_failures b) (Pass (ab_failures b))), ?w1)
       else if clk 0 - ab_opened_at b < ab_cooldown b
       then (Inr (decision_of p m (ab_state b) (ab_failures b) (Skip (ab_cooldown b - (clk 0 - ab_opened_at b)))), ?w1)
       else (let (d, w2) = claim_probe R clk key p m (ab_failures b) (ab_cooldown b) (or_id rid ctx) ?w1 in (Inr d, w2)))"
    unfolding brk_allows_def assms(2) b
    by (cases "read_state ?h") (simp_all add: get Let_def del: read_state.simps)
  show ?thesis
  proof (cases "ab_state b = CLOSED \<or> clk 0 - ab_opened_at b < ab_cooldown b")
    case True
    then show ?thesis using stay run by (auto simp: abs_allows_def)
  next
    case False
    have pre: "quiet ?w1" "brk_ok cb (view (wd_srv ?w1)) key" "b = brk_of cb (ks_hash (view (wd_srv ?w1)) key)"
      "ab_state b \<noteq> CLOSED" "ab_cooldown b \<le> clk 1 - ab_opened_at b" using assms False by simp_all
    obtain w' where "claim_probe R clk key p m (ab_failures b) (ab_cooldown b) (or_id rid ctx) ?w1 = (probe_decision p m (ab_failures b), w')"
      "brk_step view cb key ?w1 w' (b\<lparr>ab_state := HALF_OPEN, ab_opened_at := (if ab_held b then clk 2 else clk 1), ab_held := True\<rparr>)"
      using claim_probe_refines [where clk = clk, OF pre(1,2,3) assms(5) pre(4) refl pre(5)] by blast
    with False run show ?thesis by (simp add: abs_allows_def brk_step_def)
  qed
qed

lemma success_refines:
  assumes "quiet w" "breaker (bd_provider d) (bd_model d) = Inr key" "brk_ok cb (view (wd_srv w)) key"
    "b = brk_of cb (ks_hash (view (wd_srv w)) key)" "cb_valid cb" "\<not> bd_degraded d" "\<not> bd_is_probe d \<Longrightarrow> bd_failures d = ab_failures b"
  shows "\<exists>w'. record_success R cb d w = (Inr (), w') \<and> brk_step view cb key w w' (abs_success cb (bd_is_probe d) b)"
proof -
  let ?h = "ks_hash (view (wd_srv w)) key"
  have at: "hash_at (view (wd_srv w)) key" and ok: "hash_ok cb ?h" using assms(3) by (auto simp: brk_ok_def)
  show ?thesis
  proof (cases "bd_is_probe d")
    case True
    let ?fs = "[(FIELD_STATE, state_text CLOSED), (FIELD_FAILURES, FInt 0), (FIELD_COOLDOWN, FFloat (br_cooldown_initial_s cb))]"
    obtain w1 where w1: "brk_write R key ?fs w = (Some (), w1)" "brk_moves view key w w1 (?h ++ map_of (rev ?fs))" "brk_lasts view key w1"
      using brk_write_quiet [OF assms(1) at, of ?fs] by auto
    have h1: "ks_hash (view (wd_srv w1)) key = ?h ++ map_of (rev ?fs)" using w1(2) by (simp add: brk_moves_def)
    have pre: "quiet w1" "hash_at (view (wd_srv w1)) key" using w1(2) by (simp_all add: brk_moves_def)
    have "((?h ++ map_of (rev ?fs))(FIELD_PROBE_HOLDER := None)) FIELD_STATE \<noteq> None" by simp
    then have ne: "(ks_hash (view (wd_srv w1)) key)(FIELD_PROBE_HOLDER := None) \<noteq> Map.empty" unfolding h1 by metis
    obtain w2 where w2: "client_call (writing (rd_hdel R key FIELD_PROBE_HOLDER)) w1 = (Some (), w2)"
      "brk_moves view key w1 w2 ((?h ++ map_of (rev ?fs))(FIELD_PROBE_HOLDER := None))"
      using brk_hdel_quiet [OF pre w1(3) ne] unfolding h1 by blast
    have "record_success R cb d w = (Inr (), w2)"
      using True assms(2,6) by (simp add: record_success_def cbind_def w1(1) [simplified] w2(1))
    moreover have "brk_step view cb key w w2 (abs_success cb True b)"
      by (rule brk_stepI [OF brk_moves_trans [OF w1(2) w2(2)]])
        (use assms(4,5) in \<open>auto simp: hash_ok_def brk_of_def abs_success_def float_or_def cb_valid_def\<close>)
    ultimately show ?thesis using True by auto
  next
    case False
    show ?thesis
    proof (cases "bd_failures d = 0")
      case True
      have "ab_failures b = 0" using True assms(7) False by simp
      then have "abs_success cb False b = b" by (simp add: abs_success_def)
      then show ?thesis using True False assms by (auto simp: record_success_def creturn_def brk_step_def)
    next
      case ne: False
      let ?fs = "[(FIELD_FAILURES, FInt 0)]"
      obtain w1 where w1: "brk_write R key ?fs w = (Some (), w1)" "brk_moves view key w w1 (?h ++ map_of (rev ?fs))"
        using brk_write_quiet [OF assms(1) at, of ?fs] by auto
      have "record_success R cb d w = (Inr (), w1)" using False ne assms(2,6) by (simp add: record_success_def w1(1))
      moreover have "brk_step view cb key w w1 (abs_success cb False b)"
        by (rule brk_stepI [OF w1(2)])
          (use ok assms(4) in \<open>auto simp: hash_ok_def brk_of_def abs_success_def split: option.splits fval.splits\<close>)
      ultimately show ?thesis using False by auto
    qed
  qed
qed

lemma open_refines:
  assumes "quiet w" "hash_at (view (wd_srv w)) key" "cb_valid cb" "on_ladder cb c" "0 \<le> n"
    "b = brk_of cb (ks_hash (view (wd_srv w)) key)"
  obtains w' where "brk_open R key t n c w = (Some (), w')" "brk_lasts view key w'"
    "brk_step view cb key w w' (b\<lparr>ab_state := OPEN, ab_failures := n, ab_opened_at := t, ab_cooldown := c\<rparr>)"
    "ks_hash (view (wd_srv w')) key FIELD_STATE = Some (state_text OPEN)"
proof -
  let ?fs = "[(FIELD_STATE, state_text OPEN), (FIELD_OPENED_AT, FFloat t), (FIELD_COOLDOWN, FFloat c), (FIELD_FAILURES, FInt n)]"
  let ?h = "ks_hash (view (wd_srv w)) key"
  obtain w' where w': "brk_write R key ?fs w = (Some (), w')" "brk_moves view key w w' (?h ++ map_of (rev ?fs))" "brk_lasts view key w'"
    using brk_write_quiet [OF assms(1,2), of ?fs] by auto
  have "brk_step view cb key w w' (b\<lparr>ab_state := OPEN, ab_failures := n, ab_opened_at := t, ab_cooldown := c\<rparr>)"
    by (rule brk_stepI [OF w'(2)]) (use assms(3-6) in \<open>auto simp: hash_ok_def brk_of_def float_or_def cb_valid_def\<close>)
  moreover have "brk_open R key t n c w = (Some (), w')" using w'(1) by (simp add: brk_open_def)
  moreover have "ks_hash (view (wd_srv w')) key FIELD_STATE = Some (state_text OPEN)" using w'(2) by (simp add: brk_moves_def)
  ultimately show ?thesis using w'(3) that by blast
qed

lemma probe_failure_refines:
  assumes "quiet w" "brk_ok cb (view (wd_srv w)) key" "b = brk_of cb (ks_hash (view (wd_srv w)) key)" "cb_valid cb" "0 \<le> n"
    "ab_state b \<noteq> CLOSED" "c = next_cooldown cb (Some (ab_cooldown b)) retry"
  obtains w' where "cbind (read_cooldown R key) (\<lambda>previous. cbind (brk_open R key t n (next_cooldown cb previous retry))
      (\<lambda>_. client_call (writing (rd_hdel R key FIELD_PROBE_HOLDER)))) w = (Some (), w')" "brk_lasts view key w'"
    "brk_step view cb key w w' (b\<lparr>ab_state := OPEN, ab_failures := n, ab_opened_at := t, ab_cooldown := c, ab_held := False\<rparr>)"
proof -
  let ?h = "ks_hash (view (wd_srv w)) key" let ?w1 = "w\<lparr>wd_sent := Suc (wd_sent w)\<rparr>"
  have at: "hash_at (view (wd_srv w)) key" and ok: "hash_ok cb ?h" using assms(2) by (auto simp: brk_ok_def)
  note cool = hash_ok_cooldown [OF assms(4) ok, folded assms(3)]
  have "read_cooldown R key w = (Some (Some (ab_cooldown b)), ?w1)"
    using cool assms(3,4,6) ok hgetall_quiet(2) [OF assms(1) at]
    by (auto simp: read_cooldown_def cbind_def creturn_def hash_ok_def brk_of_def cb_valid_def split: option.splits fval.splits)
  moreover have lad: "on_ladder cb c" unfolding assms(7) by (rule next_cooldown_ladder(1) [OF assms(4)]) (use cool(2) in simp)
  have pre1: "quiet ?w1" "hash_at (view (wd_srv ?w1)) key" "b = brk_of cb (ks_hash (view (wd_srv ?w1)) key)" using assms(1,3) at by simp_all
  obtain w2 where w2: "brk_open R key t n c ?w1 = (Some (), w2)" "brk_lasts view key w2"
    "brk_step view cb key ?w1 w2 (b\<lparr>ab_state := OPEN, ab_failures := n, ab_opened_at := t, ab_cooldown := c\<rparr>)"
    "ks_hash (view (wd_srv w2)) key FIELD_STATE = Some (state_text OPEN)"
    by (rule open_refines [OF pre1(1,2) assms(4) lad assms(5) pre1(3)])
  let ?h2 = "ks_hash (view (wd_srv w2)) key"
  have pre: "quiet w2" "hash_at (view (wd_srv w2)) key" using w2(3) by (simp_all add: brk_step_def brk_ok_def)
  have "(?h2(FIELD_PROBE_HOLDER := None)) FIELD_STATE \<noteq> None" using w2(4) by simp
  then have ne: "?h2(FIELD_PROBE_HOLDER := None) \<noteq> Map.empty" by metis
  obtain w3 where w3: "client_call (writing (rd_hdel R key FIELD_PROBE_HOLDER)) w2 = (Some (), w3)"
    "brk_moves view key w2 w3 (?h2(FIELD_PROBE_HOLDER := None))" "brk_lasts view key w3"
    by (rule brk_hdel_quiet [OF pre w2(2) ne])
  have step: "brk_step view cb key w2 w3 (b\<lparr>ab_state := OPEN, ab_failures := n, ab_opened_at := t, ab_cooldown := c, ab_held := False\<rparr>)"
    by (rule brk_stepI [OF w3(2)]) (use w2(3) in \<open>simp_all add: brk_step_def brk_ok_def drop_holder\<close>)
  have "cbind (read_cooldown R key) (\<lambda>previous. cbind (brk_open R key t n (next_cooldown cb previous retry))
      (\<lambda>_. client_call (writing (rd_hdel R key FIELD_PROBE_HOLDER)))) w = (Some (), w3)"
    using calculation w2(1) w3(1) by (simp add: cbind_def assms(7))
  then show ?thesis using w3(3) step w2(3) by (intro that [of w3]) (auto simp: brk_step_def)
qed

lemma count_failure:
  assumes "quiet w" "brk_ok cb (view (wd_srv w)) key" "b = brk_of cb (ks_hash (view (wd_srv w)) key)"
  obtains w1 w2 where "client_call (rd_hincrby R key FIELD_FAILURES 1) w = (Some (ab_failures b + 1), w1)"
    "client_call (writing (rd_expire R key BREAKER_TTL_S)) w1 = (Some (), w2)"
    "brk_step view cb key w w2 (b\<lparr>ab_failures := ab_failures b + 1\<rparr>)" "brk_lasts view key w2"
proof -
  let ?v = "view (wd_srv w)" let ?h = "ks_hash ?v key" let ?n = "ab_failures b + 1"
  have at: "hash_at ?v key" and ok: "hash_ok cb ?h" using assms(2) by (auto simp: brk_ok_def)
  have cnt: "ks_hcount ?v key FIELD_FAILURES = ab_failures b" "int_field ?v key FIELD_FAILURES" "0 \<le> ab_failures b"
    using hash_ok_int [OF ok] assms(3) by (simp_all add: brk_of_def)
  let ?w1 = "w\<lparr>wd_sent := Suc (wd_sent w), wd_srv := snd (rd_hincrby R key FIELD_FAILURES 1 (wd_srv w))\<rparr>"
  let ?w2 = "?w1\<lparr>wd_sent := Suc (Suc (wd_sent w)), wd_srv := rd_expire R key BREAKER_TTL_S (wd_srv ?w1)\<rparr>"
  have t: "0 < BREAKER_TTL_S" by (simp add: BREAKER_TTL_S_def)
  have v1: "view (wd_srv ?w1) = ks_put_hash key (?h(FIELD_FAILURES \<mapsto> FInt ?n)) ?v"
    using hincrby_view [OF at cnt(2), of 1] by (simp add: cnt(1))
  have "brk_moves view key w ?w2 (?h(FIELD_FAILURES \<mapsto> FInt ?n))"
    using assms(1) v1 by (simp add: brk_moves_def expire_view ks_expire_pos [OF t] redis_simps)
  then have "brk_step view cb key w ?w2 (b\<lparr>ab_failures := ?n\<rparr>)"
    by (rule brk_stepI) (use ok cnt(3) assms(3) in \<open>auto simp: hash_ok_def brk_of_def split: option.splits fval.splits\<close>)
  moreover have "client_call (rd_hincrby R key FIELD_FAILURES 1) w = (Some ?n, ?w1)"
    using assms(1) hincrby_reply [OF at cnt(2), of 1] by (simp add: client_call_quiet cnt(1))
  moreover have "client_call (writing (rd_expire R key BREAKER_TTL_S)) ?w1 = (Some (), ?w2)"
    using assms(1) by (simp add: client_call_quiet writing_def)
  moreover have "brk_lasts view key ?w2"
    using ks_expire_pos(6) [OF t, of "view (wd_srv ?w1)" key] v1 by (simp add: brk_lasts_def expire_view ks_put_hash_def)
  ultimately show ?thesis using that by blast
qed

lemma failure_refines:
  assumes "quiet w" "breaker (bd_provider d) (bd_model d) = Inr key" "brk_ok cb (view (wd_srv w)) key"
    "b = brk_of cb (ks_hash (view (wd_srv w)) key)" "cb_valid cb" "\<not> bd_degraded d" "breaker_eligible error" "0 \<le> bd_failures d"
    "bd_is_probe d \<Longrightarrow> ab_state b \<noteq> CLOSED"
  shows "\<exists>w'. record_failure R cb clk d error w = (Inr (), w') \<and>
    brk_step view cb key w w' (abs_failure cb (clk 0) (bd_is_probe d) (bd_failures d) error b) \<and> brk_lasts view key w'"
proof -
  have retry: "(if is_rate_limited error then retry_after_s error else None) = retry_after_s error" by (cases error) auto
  have elig: "\<not> (bd_degraded d \<or> \<not> breaker_eligible error)" using assms(6,7) by simp
  show ?thesis
  proof (cases "bd_is_probe d")
    case True
    obtain w' where "cbind (read_cooldown R key) (\<lambda>previous. cbind (brk_open R key (clk 0) (bd_failures d) (next_cooldown cb previous (retry_after_s error)))
      (\<lambda>_. client_call (writing (rd_hdel R key FIELD_PROBE_HOLDER)))) w = (Some (), w')" "brk_lasts view key w'"
      "brk_step view cb key w w' (b\<lparr>ab_state := OPEN, ab_failures := bd_failures d, ab_opened_at := clk 0,
         ab_cooldown := next_cooldown cb (Some (ab_cooldown b)) (retry_after_s error), ab_held := False\<rparr>)"
      by (rule probe_failure_refines [OF assms(1,3,4,5,8) assms(9) [OF True] refl])
    then show ?thesis using True elig assms(2) by (simp add: record_failure_def retry Let_def abs_failure_def)
  next
    case False
    obtain w1 w2 where w1: "client_call (rd_hincrby R key FIELD_FAILURES 1) w = (Some (ab_failures b + 1), w1)"
      and w2: "client_call (writing (rd_expire R key BREAKER_TTL_S)) w1 = (Some (), w2)"
      and st: "brk_step view cb key w w2 (b\<lparr>ab_failures := ab_failures b + 1\<rparr>)" and last: "brk_lasts view key w2"
      by (rule count_failure [OF assms(1,3,4)])
    show ?thesis
    proof (cases "is_rate_limited error \<or> ab_failures b + 1 \<ge> br_failure_threshold cb")
      case open_it: True
      have pre: "quiet w2" "hash_at (view (wd_srv w2)) key" "b\<lparr>ab_failures := ab_failures b + 1\<rparr> = brk_of cb (ks_hash (view (wd_srv w2)) key)"
        using st by (simp_all add: brk_step_def brk_ok_def)
      have "0 \<le> ab_failures b" using hash_ok_int(3) [of cb "view (wd_srv w)" key] assms(3,4) by (simp add: brk_ok_def brk_of_def)
      then have n: "0 \<le> ab_failures b + 1" by simp
      have lad: "on_ladder cb (next_cooldown cb None (retry_after_s error))" using next_cooldown_ladder(1) [OF assms(5)] by blast
      obtain w3 where "brk_open R key (clk 0) (ab_failures b + 1) (next_cooldown cb None (retry_after_s error)) w2 = (Some (), w3)" "brk_lasts view key w3"
        "brk_step view cb key w2 w3 (b\<lparr>ab_failures := ab_failures b + 1\<rparr>\<lparr>ab_state := OPEN, ab_failures := ab_failures b + 1,
           ab_opened_at := clk 0, ab_cooldown := next_cooldown cb None (retry_after_s error)\<rparr>)"
        by (rule open_refines [OF pre(1,2) assms(5) lad n pre(3)]) simp
      then show ?thesis using open_it False elig assms(2) st
        by (auto simp: record_failure_def retry Let_def abs_failure_def cbind_def w1 w2 brk_step_def)
    next
      case stay: False
      then show ?thesis using False elig assms(2) st last
        by (auto simp: record_failure_def retry Let_def abs_failure_def cbind_def w1 w2 creturn_def)
    qed
  qed
qed

end

end
