(* ===== verification/Gw_Breaker_Props.thy ===== *)
theory Gw_Breaker_Props
  imports Gw_Breaker
begin

text \<open>
  The properties of the circuit breaker: its calls refine the abstract machine, it opens exactly when
  it should and stays open for its cooldown, one probe is let through at a time, Redis failures let
  requests through, and status reads change nothing. Two theorems record where a probe can strand its
  candidate and where two workers can both hold the probe.
\<close>

subsection \<open>A concrete breaker\<close>

lemma default_valid: "cb_valid default_breaker"
  by (simp add: cb_valid_def default_breaker_def)

lemma ex_breaker_key: "breaker ''p'' ''m'' = Inr ''cb:p:m''"
  by code_simp

lemma brk_ok_absent: "v key = None \<Longrightarrow> brk_ok cb v key"
  by (simp add: brk_ok_def hash_at_def ks_hash_def hash_ok_def)

definition ex_decision :: BreakerDecision where
  "ex_decision = \<lparr>bd_provider = ''p'', bd_model = ''m'', bd_allowed = True, bd_state = CLOSED, bd_is_probe = False,
     bd_failures = 0, bd_retry_after_s = None, bd_degraded = False\<rparr>"

text \<open>A breaker that opened at time 0 for 30 seconds.\<close>

definition ex_open :: keyspace where
  "ex_open = [''cb:p:m'' \<mapsto> (RHash [''state'' \<mapsto> FText ''open'', ''opened_at'' \<mapsto> FFloat 0, ''cooldown_s'' \<mapsto> FFloat 30,
     ''failures'' \<mapsto> FInt 5], Some 3600)]"

lemma ex_open_hash: "ks_hash ex_open ''cb:p:m'' = [''state'' \<mapsto> FText ''open'', ''opened_at'' \<mapsto> FFloat 0, ''cooldown_s'' \<mapsto> FFloat 30,
     ''failures'' \<mapsto> FInt 5]"
  by (simp add: ex_open_def ks_hash_def)

lemma ex_open_ok: "brk_ok default_breaker ex_open ''cb:p:m''"
  "brk_of default_breaker (ks_hash ex_open ''cb:p:m'') = \<lparr>ab_state = OPEN, ab_failures = 5, ab_opened_at = 0, ab_cooldown = 30, ab_held = False\<rparr>"
  by (simp_all add: brk_ok_def ex_open_hash hash_ok_def brk_of_def field_defs default_breaker_def float_or_def)
    (simp add: hash_at_def ex_open_def)

text \<open>C12: with no other worker in between, every call of the breaker is a transition of the abstract
  machine: asking answers what the machine answers, recording a success or an eligible failure moves it
  as the machine moves, and each leaves a well-formed hash and every other key alone.\<close>

theorem breaker_refines_machine:
  assumes "redis_server R view" "cb_valid cb" "quiet w" "breaker p m = Inr key" "brk_ok cb (view (wd_srv w)) key"
    "b = brk_of cb (ks_hash (view (wd_srv w)) key)" "clk 0 \<le> clk 1"
    "bd_provider d = p" "bd_model d = m" "\<not> bd_degraded d" "0 \<le> bd_failures d"
  shows "(\<exists>w'. brk_allows R cb clk p m rid ctx w = (Inr (decision_of p m (ab_state b) (ab_failures b)
           (fst (abs_allows (clk 0) (if ab_held b then clk 2 else clk 1) b))), w') \<and>
         brk_step view cb key w w' (snd (abs_allows (clk 0) (if ab_held b then clk 2 else clk 1) b))) \<and>
    ((\<not> bd_is_probe d \<longrightarrow> bd_failures d = ab_failures b) \<longrightarrow>
       (\<exists>w'. record_success R cb d w = (Inr (), w') \<and> brk_step view cb key w w' (abs_success cb (bd_is_probe d) b))) \<and>
    (breaker_eligible error \<and> (bd_is_probe d \<longrightarrow> ab_state b \<noteq> CLOSED) \<longrightarrow>
       (\<exists>w'. record_failure R cb clk d error w = (Inr (), w') \<and>
         brk_step view cb key w w' (abs_failure cb (clk 0) (bd_is_probe d) (bd_failures d) error b)))"
  using redis_server.allows_refines [OF assms(1,3,4,5,6,2,7)]
    redis_server.success_refines [OF assms(1,3) _ assms(5,6,2,10)]
    redis_server.failure_refines [OF assms(1,3) _ assms(5,6,2,10) _ assms(11)] assms(4,8,9)
  by blast

theorem breaker_refines_machine_witness:
  "\<exists>w'. brk_allows mem_redis default_breaker (\<lambda>_. 31) ''p'' ''m'' (Some ''r'') None (calm ex_open) = (Inr (probe_decision ''p'' ''m'' 5), w') \<and>
     brk_of default_breaker (ks_hash (wd_srv w') ''cb:p:m'') =
       \<lparr>ab_state = HALF_OPEN, ab_failures = 5, ab_opened_at = 31, ab_cooldown = 30, ab_held = True\<rparr>"
proof -
  have ok: "brk_ok default_breaker (wd_srv (calm ex_open)) ''cb:p:m''" using ex_open_ok(1) by simp
  have d: "bd_provider ex_decision = ''p''" "bd_model ex_decision = ''m''" "\<not> bd_degraded ex_decision" "0 \<le> bd_failures ex_decision"
    by (simp_all add: ex_decision_def)
  show ?thesis
    using breaker_refines_machine [where R = mem_redis and view = "\<lambda>v. v" and w = "calm ex_open" and clk = "\<lambda>_. 31" and rid = "Some ''r''"
        and ctx = None and error = Unavailable, OF mem_redis_server default_valid quiet_calm ex_breaker_key ok refl order_refl d, THEN conjunct1]
    by (auto simp: ex_open_ok(2) abs_allows_def brk_step_def)
qed

subsection \<open>Opening\<close>

text \<open>C5: a rate limit, or the failure that reaches the threshold, opens the breaker, with a cooldown on
  the ladder and a full lifetime of the hash; until the cooldown is over every call that asks is refused
  and told how long is left.\<close>

theorem breaker_opens_and_holds:
  assumes "redis_server R view" "cb_valid cb" "quiet w" "breaker p m = Inr key" "brk_ok cb (view (wd_srv w)) key"
    "bd_provider d = p" "bd_model d = m" "\<not> bd_degraded d" "0 \<le> bd_failures d" "\<not> bd_is_probe d"
    "breaker_eligible error"
    "is_rate_limited error \<or> br_failure_threshold cb \<le> ab_failures (brk_of cb (ks_hash (view (wd_srv w)) key)) + 1"
    "c = next_cooldown cb None (retry_after_s error)"
  shows "\<exists>w1. record_failure R cb clk d error w = (Inr (), w1) \<and> on_ladder cb c \<and> ks_ttl (view (wd_srv w1)) key = BREAKER_TTL_S \<and>
    (\<forall>clk' rid ctx. clk' 0 \<le> clk' 1 \<and> clk' 0 - clk 0 < c \<longrightarrow>
       (\<exists>d' w2. brk_allows R cb clk' p m rid ctx w1 = (Inr d', w2) \<and> \<not> bd_allowed d' \<and>
          bd_retry_after_s d' = Some (c - (clk' 0 - clk 0))))"
proof -
  let ?b = "brk_of cb (ks_hash (view (wd_srv w)) key)"
  obtain w1 where w1: "record_failure R cb clk d error w = (Inr (), w1)" "brk_lasts view key w1"
    "brk_step view cb key w w1 (abs_failure cb (clk 0) False (bd_failures d) error ?b)"
    using redis_server.failure_refines [OF assms(1,3) _ assms(5) refl assms(2,8,11,9)] assms(4,6,7,10) by auto
  then have st: "quiet w1" "brk_ok cb (view (wd_srv w1)) key"
    "brk_of cb (ks_hash (view (wd_srv w1)) key) = ?b\<lparr>ab_state := OPEN, ab_failures := ab_failures ?b + 1, ab_opened_at := clk 0, ab_cooldown := c\<rparr>"
    using assms(12,13) by (auto simp: brk_step_def abs_failure_def)
  have "\<exists>d' w2. brk_allows R cb clk' p m rid ctx w1 = (Inr d', w2) \<and> \<not> bd_allowed d' \<and> bd_retry_after_s d' = Some (c - (clk' 0 - clk 0))"
    if "clk' 0 \<le> clk' 1" "clk' 0 - clk 0 < c" for clk' :: "nat \<Rightarrow> rat" and rid ctx
    using redis_server.allows_refines [OF assms(1) st(1) assms(4) st(2) refl assms(2) that(1), of rid ctx] that(2)
    unfolding st(3) by (auto simp: abs_allows_def)
  moreover have "on_ladder cb c" unfolding assms(13) using next_cooldown_ladder(1) [OF assms(2)] by blast
  ultimately show ?thesis using w1(1,2) by (auto simp: brk_lasts_def)
qed

theorem breaker_opens_and_holds_witness:
  "\<exists>w1. record_failure mem_redis default_breaker (\<lambda>_. 100) ex_decision (RateLimited (Some 45)) (calm Map.empty) = (Inr (), w1) \<and>
     (\<exists>d' w2. brk_allows mem_redis default_breaker (\<lambda>_. 120) ''p'' ''m'' (Some ''r'') None w1 = (Inr d', w2) \<and>
        \<not> bd_allowed d' \<and> bd_retry_after_s d' = Some 25)"
proof -
  have ok: "brk_ok default_breaker (wd_srv (calm Map.empty)) ''cb:p:m''" by (rule brk_ok_absent) simp
  have d: "bd_provider ex_decision = ''p''" "bd_model ex_decision = ''m''" "\<not> bd_degraded ex_decision" "0 \<le> bd_failures ex_decision"
    "\<not> bd_is_probe ex_decision" "breaker_eligible (RateLimited (Some 45))" by (simp_all add: ex_decision_def)
  have c: "45 = next_cooldown default_breaker None (retry_after_s (RateLimited (Some 45)))"
    by (simp add: next_cooldown_def default_breaker_def)
  obtain w1 where w1: "record_failure mem_redis default_breaker (\<lambda>_. 100) ex_decision (RateLimited (Some 45)) (calm Map.empty) = (Inr (), w1)"
    "\<forall>clk' rid ctx. clk' 0 \<le> clk' 1 \<and> clk' 0 - 100 < 45 \<longrightarrow>
       (\<exists>d' w2. brk_allows mem_redis default_breaker clk' ''p'' ''m'' rid ctx w1 = (Inr d', w2) \<and> \<not> bd_allowed d' \<and>
          bd_retry_after_s d' = Some (45 - (clk' 0 - 100)))"
    using breaker_opens_and_holds [where R = mem_redis and view = "\<lambda>v. v" and w = "calm Map.empty" and clk = "\<lambda>_. 100",
        OF mem_redis_server default_valid quiet_calm ex_breaker_key ok d _ c] by auto
  have "\<exists>d' w2. brk_allows mem_redis default_breaker (\<lambda>_. 120) ''p'' ''m'' (Some ''r'') None w1 = (Inr d', w2) \<and> \<not> bd_allowed d' \<and>
          bd_retry_after_s d' = Some 25" using w1(2) [rule_format, of "\<lambda>_. 120" "Some ''r''" None] by simp
  with w1(1) show ?thesis by blast
qed

text \<open>A run of failures of one closed candidate, each recorded at its own time.\<close>

fun fail_run :: "'r redis \<Rightarrow> CircuitBreaker \<Rightarrow> BreakerDecision \<Rightarrow> ((nat \<Rightarrow> instant) \<times> error_class) list \<Rightarrow> 'r world \<Rightarrow> 'r world" where
  "fail_run R cb d [] w = w"
| "fail_run R cb d ((clk, e) # es) w = fail_run R cb d es (snd (record_failure R cb clk d e w))"

lemma fail_run_counts:
  assumes "redis_server R view" "cb_valid cb" "breaker p m = Inr key" "bd_provider d = p" "bd_model d = m" "\<not> bd_degraded d"
    "0 \<le> bd_failures d" "\<not> bd_is_probe d"
  shows "quiet w \<Longrightarrow> brk_ok cb (view (wd_srv w)) key \<Longrightarrow> b = brk_of cb (ks_hash (view (wd_srv w)) key) \<Longrightarrow> ab_state b = CLOSED \<Longrightarrow>
    \<forall>(clk, e)\<in>set es. breaker_eligible e \<and> \<not> is_rate_limited e \<Longrightarrow>
    ab_failures b + int (length es) < br_failure_threshold cb \<or> es \<noteq> [] \<and> ab_failures b + int (length es) = br_failure_threshold cb \<Longrightarrow>
    (let b' = brk_of cb (ks_hash (view (wd_srv (fail_run R cb d es w))) key)
     in ab_failures b' = ab_failures b + int (length es) \<and>
        (ab_state b' = CLOSED \<longleftrightarrow> ab_failures b + int (length es) < br_failure_threshold cb))"
proof (induction es arbitrary: w b)
  case (Cons ce es)
  obtain clk e where ce: "ce = (clk, e)" by fastforce
  have e: "breaker_eligible e" "\<not> is_rate_limited e" using Cons.prems(5) ce by auto
  obtain w1 where w1: "record_failure R cb clk d e w = (Inr (), w1)" "brk_step view cb key w w1 (abs_failure cb (clk 0) False (bd_failures d) e b)"
    using redis_server.failure_refines [OF assms(1) Cons.prems(1) _ Cons.prems(2,3) assms(2,6) e(1) assms(7)] assms(3-5,8) by auto
  define b1 where "b1 = brk_of cb (ks_hash (view (wd_srv w1)) key)"
  have st: "quiet w1" "brk_ok cb (view (wd_srv w1)) key" "ab_failures b1 = ab_failures b + 1"
    "ab_state b1 = (if br_failure_threshold cb \<le> ab_failures b + 1 then OPEN else CLOSED)"
    using w1(2) e(2) Cons.prems(4) by (auto simp: brk_step_def abs_failure_def b1_def)
  show ?case
  proof (cases "es = []")
    case True
    then show ?thesis using w1(1) st(3,4) Cons.prems(6) by (auto simp: ce b1_def [symmetric] Let_def)
  next
    case False
    have "ab_failures b + 1 < br_failure_threshold cb" using Cons.prems(6) False by (cases es) auto
    then have "ab_state b1 = CLOSED" using st(4) by simp
    from Cons.IH [OF st(1,2) b1_def this] Cons.prems(5,6) False st(3)
    show ?thesis by (simp add: ce w1(1) Let_def algebra_simps)
  qed
qed simp

text \<open>Failures that are not rate limits are counted one by one: a fresh breaker stays closed until
  exactly the threshold is reached, and then is no longer closed.\<close>

theorem breaker_threshold_exact:
  assumes "redis_server R view" "cb_valid cb" "0 < br_failure_threshold cb" "quiet w" "breaker p m = Inr key" "view (wd_srv w) key = None"
    "bd_provider d = p" "bd_model d = m" "\<not> bd_degraded d" "\<not> bd_is_probe d" "0 \<le> bd_failures d"
    "\<forall>(clk, e)\<in>set es. breaker_eligible e \<and> \<not> is_rate_limited e" "int (length es) \<le> br_failure_threshold cb"
  shows "read_state (ks_hash (view (wd_srv (fail_run R cb d es w))) key) = CLOSED \<longleftrightarrow> int (length es) < br_failure_threshold cb"
proof -
  let ?b = "brk_of cb (ks_hash (view (wd_srv w)) key)"
  have b: "ab_state ?b = CLOSED" "ab_failures ?b = 0" using assms(6) by (simp_all add: brk_of_def ks_hash_def)
  have "ab_failures ?b + int (length es) < br_failure_threshold cb \<or> es \<noteq> [] \<and> ab_failures ?b + int (length es) = br_failure_threshold cb"
    using assms(3,13) b(2) by (cases "es = []") auto
  then have "ab_state (brk_of cb (ks_hash (view (wd_srv (fail_run R cb d es w))) key)) = CLOSED \<longleftrightarrow> int (length es) < br_failure_threshold cb"
    using fail_run_counts [OF assms(1,2,5,7,8,9,11,10,4) brk_ok_absent [of "view (wd_srv w)" key, OF assms(6)] refl b(1) assms(12)] b(2)
    by (simp add: Let_def)
  then show ?thesis by (simp add: brk_of_def)
qed

theorem breaker_threshold_exact_witness:
  "read_state (ks_hash (wd_srv (fail_run mem_redis default_breaker ex_decision (replicate 4 (\<lambda>_. 0, Unavailable)) (calm Map.empty))) ''cb:p:m'') = CLOSED \<and>
   read_state (ks_hash (wd_srv (fail_run mem_redis default_breaker ex_decision (replicate 5 (\<lambda>_. 0, Unavailable)) (calm Map.empty))) ''cb:p:m'') \<noteq> CLOSED"
proof -
  have d: "bd_provider ex_decision = ''p''" "bd_model ex_decision = ''m''" "\<not> bd_degraded ex_decision"
    "\<not> bd_is_probe ex_decision" "0 \<le> bd_failures ex_decision" by (simp_all add: ex_decision_def)
  have e: "wd_srv (calm Map.empty) ''cb:p:m'' = None" "0 < br_failure_threshold default_breaker" by (simp_all add: default_breaker_def)
  have es: "\<forall>(clk, e)\<in>set (replicate n ((\<lambda>_. 0) :: nat \<Rightarrow> rat, Unavailable)). breaker_eligible e \<and> \<not> is_rate_limited e" for n by auto
  note th = breaker_threshold_exact [where R = mem_redis and view = "\<lambda>v. v", OF mem_redis_server default_valid e(2) quiet_calm ex_breaker_key e(1) d es]
  show ?thesis using th [of 4] th [of 5] by (simp add: default_breaker_def del: read_state.simps)
qed

subsection \<open>Probing\<close>

text \<open>A call that is told to probe holds the only probe: every later call - as long as the probe has
  not reported and its lease, one cooldown, has not run out - is refused.\<close>

theorem one_probe_per_cooldown:
  assumes "redis_server R view" "cb_valid cb" "quiet w" "breaker p m = Inr key" "brk_ok cb (view (wd_srv w)) key" "clk 0 \<le> clk 1"
    "clk 1 \<le> clk 2" "brk_allows R cb clk p m rid ctx w = (Inr d, w1)" "bd_is_probe d"
    "c = ab_cooldown (brk_of cb (ks_hash (view (wd_srv w)) key))" "clk' 0 \<le> clk' 1" "clk' 0 < clk 1 + c"
  shows "bd_allowed d \<and> (\<exists>d' w2. brk_allows R cb clk' p m rid' ctx' w1 = (Inr d', w2) \<and> \<not> bd_allowed d' \<and> \<not> bd_is_probe d' \<and>
    view (wd_srv w2) = view (wd_srv w1))"
proof -
  let ?b = "brk_of cb (ks_hash (view (wd_srv w)) key)" let ?t = "if ab_held ?b then clk 2 else clk 1"
  have d: "d = decision_of p m (ab_state ?b) (ab_failures ?b) (fst (abs_allows (clk 0) ?t ?b))"
    "brk_step view cb key w w1 (snd (abs_allows (clk 0) ?t ?b))"
    using redis_server.allows_refines [OF assms(1,3,4,5) refl assms(2,6), of rid ctx] assms(8) by auto
  then have v: "abs_allows (clk 0) ?t ?b = (Probe (ab_failures ?b), ?b\<lparr>ab_state := HALF_OPEN, ab_opened_at := ?t, ab_held := True\<rparr>)"
    using assms(9) by (auto simp: abs_allows_def split: if_splits)
  have st: "quiet w1" "brk_ok cb (view (wd_srv w1)) key"
    "brk_of cb (ks_hash (view (wd_srv w1)) key) = ?b\<lparr>ab_state := HALF_OPEN, ab_opened_at := ?t, ab_held := True\<rparr>"
    using d(2) unfolding v by (simp_all add: brk_step_def)
  have "clk' 0 - ?t < c" using assms(7,12) by auto
  note a2 = redis_server.allows_refines [OF assms(1) st(1) assms(4) st(2) refl assms(2,11), of rid' ctx', unfolded st(3)]
  have still: "view (wd_srv w2) = view (wd_srv w1)" if "brk_allows R cb clk' p m rid' ctx' w1 = (Inr d', w2)" "\<not> bd_is_probe d'" for d' w2
  proof -
    have h: "hash_at (view (wd_srv w1)) key" using st(2) by (simp add: brk_ok_def)
    have "ab_state (brk_of cb (ks_hash (view (wd_srv w1)) key)) = HALF_OPEN" "ab_opened_at (brk_of cb (ks_hash (view (wd_srv w1)) key)) = ?t"
      "ab_cooldown (brk_of cb (ks_hash (view (wd_srv w1)) key)) = c" unfolding st(3) assms(10) by simp_all
    then show ?thesis using that(1) \<open>clk' 0 - ?t < c\<close> assms(4) redis_server.hgetall_quiet(1) [OF assms(1) st(1) h]
      by (auto simp: brk_allows_def brk_of_def Let_def simp del: read_state.simps)
  qed
  have "\<exists>d' w2. brk_allows R cb clk' p m rid' ctx' w1 = (Inr d', w2) \<and> \<not> bd_allowed d' \<and> \<not> bd_is_probe d'"
    using a2 \<open>clk' 0 - ?t < c\<close> assms(10) by (auto simp: abs_allows_def)
  moreover have "bd_allowed d" using d(1) unfolding v by (simp add: probe_decision_def)
  ultimately show ?thesis using still by blast
qed

lemma ex_probe:
  "\<exists>d w1. brk_allows mem_redis default_breaker (\<lambda>_. 31) ''p'' ''m'' (Some ''r'') None (calm ex_open) = (Inr d, w1) \<and> bd_is_probe d"
proof -
  have ok: "brk_ok default_breaker (wd_srv (calm ex_open)) ''cb:p:m''" using ex_open_ok(1) by simp
  show ?thesis using mem.allows_refines [OF quiet_calm ex_breaker_key ok refl default_valid, of "\<lambda>_. 31" "Some ''r''" None]
    by (auto simp: ex_open_ok(2) abs_allows_def probe_decision_def)
qed

theorem one_probe_per_cooldown_witness:
  "\<exists>d w1. brk_allows mem_redis default_breaker (\<lambda>_. 31) ''p'' ''m'' (Some ''r'') None (calm ex_open) = (Inr d, w1) \<and> bd_is_probe d \<and>
     (\<exists>d' w2. brk_allows mem_redis default_breaker (\<lambda>_. 60) ''p'' ''m'' (Some ''r2'') None w1 = (Inr d', w2) \<and> \<not> bd_allowed d')"
proof -
  have ok: "brk_ok default_breaker (wd_srv (calm ex_open)) ''cb:p:m''" using ex_open_ok(1) by simp
  obtain d w1 where d: "brk_allows mem_redis default_breaker (\<lambda>_. 31) ''p'' ''m'' (Some ''r'') None (calm ex_open) = (Inr d, w1)" "bd_is_probe d"
    using ex_probe by blast
  have c: "ab_cooldown (brk_of default_breaker (ks_hash (wd_srv (calm ex_open)) ''cb:p:m'')) = 30" by (simp add: ex_open_ok(2))
  show ?thesis
    using one_probe_per_cooldown [where R = mem_redis and view = "\<lambda>v. v" and w = "calm ex_open" and clk = "\<lambda>_. 31" and clk' = "\<lambda>_. 60" and rid' = "Some ''r2''"
       and ctx' = None, OF mem_redis_server default_valid quiet_calm ex_breaker_key ok order_refl order_refl d c [symmetric]] d by auto
qed

text \<open>A probe whose attempt ends in an error the breaker does not count reports nothing: the hash
  stays half-open with its holder, and the candidate is refused for the rest of the lease although
  nobody is probing it.\<close>

theorem uncounted_probe_strands_candidate:
  assumes "redis_server R view" "cb_valid cb" "quiet w" "breaker p m = Inr key" "brk_ok cb (view (wd_srv w)) key" "clk 0 \<le> clk 1"
    "clk 1 \<le> clk 2" "brk_allows R cb clk p m rid ctx w = (Inr d, w1)" "bd_is_probe d" "\<not> breaker_eligible error"
    "c = ab_cooldown (brk_of cb (ks_hash (view (wd_srv w)) key))" "clk' 0 \<le> clk' 1" "clk' 0 < clk 1 + c"
  shows "\<exists>d' w2. brk_allows R cb clk' p m rid' ctx' (snd (record_failure R cb clk'' d error w1)) = (Inr d', w2) \<and> \<not> bd_allowed d'"
proof -
  let ?b = "brk_of cb (ks_hash (view (wd_srv w)) key)" let ?t = "if ab_held ?b then clk 2 else clk 1"
  have same: "snd (record_failure R cb clk'' d error w1) = w1" using assms(10) by (simp add: record_failure_def)
  have d: "d = decision_of p m (ab_state ?b) (ab_failures ?b) (fst (abs_allows (clk 0) ?t ?b))"
    "brk_step view cb key w w1 (snd (abs_allows (clk 0) ?t ?b))"
    using redis_server.allows_refines [OF assms(1,3,4,5) refl assms(2,6), of rid ctx] assms(8) by auto
  then have "abs_allows (clk 0) ?t ?b = (Probe (ab_failures ?b), ?b\<lparr>ab_state := HALF_OPEN, ab_opened_at := ?t, ab_held := True\<rparr>)"
    using assms(9) by (auto simp: abs_allows_def split: if_splits)
  then have st: "quiet w1" "brk_ok cb (view (wd_srv w1)) key"
    "brk_of cb (ks_hash (view (wd_srv w1)) key) = ?b\<lparr>ab_state := HALF_OPEN, ab_opened_at := ?t, ab_held := True\<rparr>"
    using d(2) by (simp_all add: brk_step_def)
  have "clk' 0 - ?t < c" using assms(7,13) by auto
  then show ?thesis unfolding same
    using redis_server.allows_refines [OF assms(1) st(1) assms(4) st(2) refl assms(2,12), of rid' ctx', unfolded st(3)] assms(11)
    by (auto simp: abs_allows_def)
qed

theorem uncounted_probe_strands_candidate_witness:
  "\<exists>d w1. brk_allows mem_redis default_breaker (\<lambda>_. 31) ''p'' ''m'' (Some ''r'') None (calm ex_open) = (Inr d, w1) \<and> bd_is_probe d \<and>
     (\<exists>d' w2. brk_allows mem_redis default_breaker (\<lambda>_. 60) ''p'' ''m'' (Some ''r2'') None
        (snd (record_failure mem_redis default_breaker (\<lambda>_. 32) d EmptyResponse w1)) = (Inr d', w2) \<and> \<not> bd_allowed d')"
proof -
  have ok: "brk_ok default_breaker (wd_srv (calm ex_open)) ''cb:p:m''" using ex_open_ok(1) by simp
  have c: "ab_cooldown (brk_of default_breaker (ks_hash (wd_srv (calm ex_open)) ''cb:p:m'')) = 30" by (simp add: ex_open_ok(2))
  have e: "\<not> breaker_eligible EmptyResponse" by simp
  obtain d w1 where d: "brk_allows mem_redis default_breaker (\<lambda>_. 31) ''p'' ''m'' (Some ''r'') None (calm ex_open) = (Inr d, w1)" "bd_is_probe d"
    using ex_probe by blast
  show ?thesis
    using uncounted_probe_strands_candidate [where R = mem_redis and view = "\<lambda>v. v" and w = "calm ex_open" and clk = "\<lambda>_. 31" and clk' = "\<lambda>_. 60"
       and clk'' = "\<lambda>_. 32" and rid' = "Some ''r2''" and ctx' = None, OF mem_redis_server default_valid quiet_calm ex_breaker_key ok order_refl order_refl d e c [symmetric]]
      d by auto
qed

text \<open>The claim of a probe is not one atomic step. A caller that reads an elapsed cooldown, and whose
  \<^verbatim>\<open>HSETNX\<close> fails because another worker has just taken the probe, still sees the old opening time until
  that worker writes the new one - takes the holder for stale, and is let through as a second probe.\<close>

theorem probe_claim_race:
  assumes "redis_server R view" "breaker p m = Inr key" "\<forall>n. wd_link w n = Delivered"
    "wd_srv w = s0" "n = wd_sent w" "wd_between w n s0 = s0" "s1 = snd (rd_hsetnx R key FIELD_PROBE_HOLDER (FText other) s0)"
    "wd_between w (Suc n) s0 = s1" "\<forall>s. wd_between w (Suc (Suc n)) s = s"
    "brk_ok cb (view s0) key" "cb_valid cb" "b = brk_of cb (ks_hash (view s0) key)" "ab_state b \<noteq> CLOSED" "\<not> ab_held b"
    "ab_cooldown b \<le> clk 0 - ab_opened_at b" "clk 0 \<le> clk 1"
  shows "fst (rd_hsetnx R key FIELD_PROBE_HOLDER (FText other) s0) \<and>
    (\<exists>d w'. brk_allows R cb clk p m rid ctx w = (Inr d, w') \<and> bd_allowed d \<and> bd_is_probe d)"
proof -
  let ?h = "ks_hash (view s0) key"
  have at: "hash_at (view s0) key" using assms(10) by (simp add: brk_ok_def)
  have free: "?h FIELD_PROBE_HOLDER = None" using assms(12,14) by (simp add: brk_of_def)
  have win: "fst (rd_hsetnx R key FIELD_PROBE_HOLDER (FText other) s0)" using redis_server.hsetnx_reply [OF assms(1) at] free by simp
  have v1: "view s1 = ks_put_hash key (?h(FIELD_PROBE_HOLDER \<mapsto> FText other)) (view s0)"
    using redis_server.hsetnx_view [OF assms(1) at] free by (simp add: assms(7))
  have at1: "hash_at (view s1) key" and h1: "ks_hash (view s1) key = ?h(FIELD_PROBE_HOLDER \<mapsto> FText other)" by (simp_all add: v1 redis_simps)
  have taken: "rd_hsetnx R key FIELD_PROBE_HOLDER x s1 = (False, snd (rd_hsetnx R key FIELD_PROBE_HOLDER x s1))"
    "view (snd (rd_hsetnx R key FIELD_PROBE_HOLDER x s1)) = view s1" for x
    using redis_server.hsetnx_reply [OF assms(1) at1, of FIELD_PROBE_HOLDER x] redis_server.hsetnx_view [OF assms(1) at1, of FIELD_PROBE_HOLDER x]
    by (simp_all add: h1 prod_eq_iff)
  let ?w1 = "w\<lparr>wd_sent := Suc n, wd_srv := s0\<rparr>"
  have get: "client_call (reading (rd_hgetall R key)) w = (Some ?h, ?w1)"
    using assms(3-6) by (simp add: client_call_def reading_def redis_server.hgetall_spec [OF assms(1) at] Let_def)
  have b: "ab_state b = read_state ?h" "ab_failures b = brk_read_int (?h FIELD_FAILURES)" "ab_opened_at b = read_float (?h FIELD_OPENED_AT)"
    "ab_cooldown b = float_or (read_float (?h FIELD_COOLDOWN)) (br_cooldown_initial_s cb)" by (simp_all add: assms(12) brk_of_def)
  have ask: "brk_allows R cb clk p m rid ctx w =
      (let (d, w2) = claim_probe R clk key p m (ab_failures b) (ab_cooldown b) (or_id rid ctx) ?w1 in (Inr d, w2))"
    using assms(13,15) unfolding brk_allows_def assms(2) b by (simp add: get Let_def del: read_state.simps)
  let ?x = "FText (or_id rid ctx)"
  let ?w2 = "?w1\<lparr>wd_sent := Suc (Suc n), wd_srv := snd (rd_hsetnx R key FIELD_PROBE_HOLDER ?x s1)\<rparr>"
  have claim: "client_call (rd_hsetnx R key FIELD_PROBE_HOLDER ?x) ?w1 = (Some False, ?w2)"
    using assms(3,8) arg_cong [OF taken(1) [of ?x], of fst] by (simp add: client_call_def Let_def split_beta)
  let ?w3 = "?w2\<lparr>wd_sent := Suc (Suc (Suc n))\<rparr>"
  have get2: "client_call (reading (rd_hgetall R key)) ?w2 = (Some (ks_hash (view s1) key), ?w3)"
    using assms(3,9) redis_server.hgetall_spec [OF assms(1), of "snd (rd_hsetnx R key FIELD_PROBE_HOLDER ?x s1)" key] at1
    by (simp add: client_call_def reading_def Let_def taken(2))
  have stale: "\<not> clk 1 - read_float (ks_hash (view s1) key FIELD_OPENED_AT) < ab_cooldown b" using assms(15,16) b(3) by (simp add: h1)
  have wr: "\<exists>w4. brk_write R key fs ?w3 = (Some (), w4)" for fs
    using assms(3) by (simp add: brk_write_def cbind_def client_call_def writing_def Let_def)
  have "\<exists>w4. claim_probe R clk key p m (ab_failures b) (ab_cooldown b) (or_id rid ctx) ?w1 = (probe_decision p m (ab_failures b), w4)"
  proof -
    obtain w4 where "brk_write R key [(FIELD_STATE, state_text HALF_OPEN), (FIELD_OPENED_AT, FFloat (clk 2)), (FIELD_PROBE_HOLDER, ?x)] ?w3 = (Some (), w4)"
      using wr by blast
    then show ?thesis using stale claim get2 by (simp add: claim_probe_def cbind_def creturn_def Let_def)
  qed
  then show ?thesis using win ask by (auto simp: probe_decision_def)
qed

theorem probe_claim_race_witness:
  "\<exists>w. wd_srv w = ex_open \<and> fst (rd_hsetnx mem_redis ''cb:p:m'' FIELD_PROBE_HOLDER (FText ''a'') ex_open) \<and>
     (\<exists>d w'. brk_allows mem_redis default_breaker (\<lambda>_. 31) ''p'' ''m'' (Some ''b'') None w = (Inr d, w') \<and> bd_is_probe d)"
proof -
  define s1 where "s1 = snd (rd_hsetnx mem_redis ''cb:p:m'' FIELD_PROBE_HOLDER (FText ''a'') ex_open)"
  define w where "w = \<lparr>wd_srv = ex_open, wd_sent = 0, wd_link = (\<lambda>_. Delivered), wd_between = (\<lambda>n s. if n = 1 then s1 else s)\<rparr>"
  have pre: "\<forall>n. wd_link w n = Delivered" "wd_srv w = ex_open" "wd_between w (wd_sent w) ex_open = ex_open"
    "wd_between w (Suc (wd_sent w)) ex_open = s1" "\<forall>s. wd_between w (Suc (Suc (wd_sent w))) s = s"
    by (simp_all add: w_def)
  have b: "ab_state (brk_of default_breaker (ks_hash ex_open ''cb:p:m'')) \<noteq> CLOSED" "\<not> ab_held (brk_of default_breaker (ks_hash ex_open ''cb:p:m''))"
    "ab_cooldown (brk_of default_breaker (ks_hash ex_open ''cb:p:m'')) \<le> 31 - ab_opened_at (brk_of default_breaker (ks_hash ex_open ''cb:p:m''))"
    by (simp_all add: ex_open_ok(2))
  show ?thesis
    using probe_claim_race [where R = mem_redis and view = "\<lambda>v. v" and clk = "\<lambda>_. 31" and rid = "Some ''b''" and ctx = None,
        OF mem_redis_server ex_breaker_key pre(1,2) refl pre(3) s1_def pre(4,5) ex_open_ok(1) default_valid refl b order_refl] pre(2)
    by blast
qed

subsection \<open>Without Redis, and without side effects\<close>

text \<open>When Redis is unreachable the breaker fails open: the candidate is allowed, the decision says it is
  a guess, and recording an outcome against such a decision sends nothing.\<close>

theorem breaker_fails_open:
  assumes "link_down w" "breaker p m = Inr key"
  shows "\<exists>w'. brk_allows R cb clk p m rid ctx w = (Inr (fail_open p m), w') \<and> peek R cb clk p m w = (Inr (fail_open p m), w') \<and>
    bd_allowed (fail_open p m) \<and> record_success R cb (fail_open p m) w' = (Inr (), w') \<and>
    record_failure R cb clk (fail_open p m) error w' = (Inr (), w')"
proof -
  obtain w' where "client_call (reading (rd_hgetall R key)) w = (None, w')"
    using client_call_down [OF assms(1), of "reading (rd_hgetall R key)"] by (cases "client_call (reading (rd_hgetall R key)) w") auto
  then show ?thesis using assms(2)
    by (simp add: brk_allows_def peek_def record_success_def record_failure_def fail_open_def)
qed

theorem breaker_fails_open_witness:
  "\<exists>w'. brk_allows mem_redis default_breaker (\<lambda>_. 0) ''p'' ''m'' None None
     \<lparr>wd_srv = ex_open, wd_sent = 0, wd_link = (\<lambda>_. ReplyLost), wd_between = (\<lambda>_ s. s)\<rparr> = (Inr (fail_open ''p'' ''m''), w') \<and>
     bd_allowed (fail_open ''p'' ''m'')"
proof -
  have "link_down \<lparr>wd_srv = ex_open, wd_sent = 0, wd_link = (\<lambda>_. ReplyLost), wd_between = (\<lambda>_ s. s)\<rparr>" by (simp add: link_down_def)
  from breaker_fails_open [OF this ex_breaker_key] show ?thesis by blast
qed

text \<open>\<^verbatim>\<open>peek\<close> never writes, and reports a candidate as available exactly when the stored state is
  closed; an open or half-open one comes with a non-negative wait.\<close>

theorem peek_reads_only:
  assumes "redis_server R view" "breaker p m = Inr key" "hash_at (view (wd_between w (wd_sent w) (wd_srv w))) key"
    "wd_link w (wd_sent w) = Delivered"
  shows "\<exists>d w'. peek R cb clk p m w = (Inr d, w') \<and> wd_srv w' = wd_between w (wd_sent w) (wd_srv w) \<and> \<not> bd_is_probe d \<and>
    (bd_allowed d \<longleftrightarrow> read_state (ks_hash (view (wd_srv w')) key) = CLOSED) \<and>
    (\<not> bd_allowed d \<longrightarrow> (\<exists>r. bd_retry_after_s d = Some r \<and> 0 \<le> r))"
proof -
  let ?s = "wd_between w (wd_sent w) (wd_srv w)"
  have "client_call (reading (rd_hgetall R key)) w = (Some (ks_hash (view ?s) key), w\<lparr>wd_sent := Suc (wd_sent w), wd_srv := ?s\<rparr>)"
    using assms(3,4) by (simp add: client_call_def reading_def Let_def redis_server.hgetall_spec [OF assms(1)])
  then show ?thesis using assms(2)
    by (cases "read_state (ks_hash (view ?s) key)") (simp_all add: peek_def Let_def del: read_state.simps)
qed

theorem peek_reads_only_witness:
  "\<exists>d w'. peek mem_redis default_breaker (\<lambda>_. 31) ''p'' ''m'' (calm ex_open) = (Inr d, w') \<and> wd_srv w' = ex_open \<and> \<not> bd_allowed d"
proof -
  have pre: "hash_at (wd_between (calm ex_open) (wd_sent (calm ex_open)) (wd_srv (calm ex_open))) ''cb:p:m''"
    "wd_link (calm ex_open) (wd_sent (calm ex_open)) = Delivered" by (simp_all add: calm_def hash_at_def ex_open_def)
  have st: "read_state (ks_hash ex_open ''cb:p:m'') = OPEN" by (simp add: ex_open_hash field_defs)
  from peek_reads_only [where R = mem_redis and view = "\<lambda>v. v", OF mem_redis_server ex_breaker_key pre, of default_breaker "\<lambda>_. 31"]
  show ?thesis using st by (auto simp: calm_def simp del: read_state.simps)
qed

end
