(* ===== verification/Gw_Registry.thy ===== *)
theory Gw_Registry
  imports Gw_Types Gw_Keys
begin

text \<open>
  The slot table: the configuration types of \<^verbatim>\<open>app/config.py\<close> it is built from, the assembly in
  \<^verbatim>\<open>app/providers/registry.py\<close>, and the latency table of \<^verbatim>\<open>app/usage/metrics.py\<close> that ranks candidates.
  A Python dict whose order matters is an association list with distinct keys. An adapter is
  represented by its provider's name; the settings object is a parameter.
\<close>

subsection \<open>Configuration\<close>

record ProviderEntry =
  pv_enabled :: bool
  pv_base_url :: string
  pv_api_key_env :: string

record SlotCandidate =
  ca_provider :: string
  ca_model :: string
  ca_context_tokens :: int
  ca_max_output_tokens :: int
  ca_capabilities :: "string list"
  ca_supports_streaming :: bool
  ca_max_file_bytes :: "int option"
  ca_reserved_fraction :: pyfloat

record Slot =
  sl_candidates :: "SlotCandidate list"
  sl_internal :: bool
  sl_requires_private_key :: bool

record ProvidersConfig =
  pc_providers :: "(string \<times> ProviderEntry) list"
  pc_slots :: "(string \<times> Slot) list"

definition KNOWN_CAPABILITIES :: "string list" where
  "KNOWN_CAPABILITIES = [''text'', ''vision'', ''pdf'']"

text \<open>The validators of the three models, field constraints included.\<close>

definition candidate_valid :: "SlotCandidate \<Rightarrow> bool" where
  "candidate_valid c \<longleftrightarrow> 0 < ca_context_tokens c \<and> 0 < ca_max_output_tokens c \<and>
     (case ca_max_file_bytes c of None \<Rightarrow> True | Some n \<Rightarrow> 0 < n) \<and>
     0 \<le> ca_reserved_fraction c \<and> ca_reserved_fraction c < 1 \<and>
     list_all (\<lambda>x. x \<in> set KNOWN_CAPABILITIES) (ca_capabilities c)"

definition config_valid :: "ProvidersConfig \<Rightarrow> bool" where
  "config_valid c \<longleftrightarrow> distinct (map fst (pc_providers c)) \<and> distinct (map fst (pc_slots c)) \<and>
     list_all (\<lambda>(name, slot). sl_candidates slot \<noteq> [] \<and> list_all candidate_valid (sl_candidates slot) \<and>
       list_all (\<lambda>k. map_of (pc_providers c) (ca_provider k) \<noteq> None) (sl_candidates slot)) (pc_slots c)"

definition provider_enabled :: "ProvidersConfig \<Rightarrow> string \<Rightarrow> bool" where
  "provider_enabled c p = (case map_of (pc_providers c) p of None \<Rightarrow> False | Some e \<Rightarrow> pv_enabled e)"

definition enabled_slots :: "ProvidersConfig \<Rightarrow> (string \<times> Slot) list" where
  "enabled_slots c = filter (\<lambda>(name, slot). list_ex (\<lambda>k. provider_enabled c (ca_provider k)) (sl_candidates slot)) (pc_slots c)"

subsection \<open>Building the table\<close>

text \<open>\<^verbatim>\<open>_traits\<close>: whether the provider's wire format has a system field; unknown providers are refused.\<close>

definition PROVIDER_TRAITS :: "(string \<times> bool) list" where
  "PROVIDER_TRAITS = [(''groq'', False), (''gemini'', True), (''openrouter'', False)]"

definition traits :: "string \<Rightarrow> bool exn" where
  "traits provider = (case map_of PROVIDER_TRAITS provider of None \<Rightarrow> Inl ConfigError | Some t \<Rightarrow> Inr t)"

definition spec_of :: "string \<Rightarrow> nat \<Rightarrow> SlotCandidate \<Rightarrow> ModelSpec exn" where
  "spec_of slot_name priority candidate = ebind (traits (ca_provider candidate)) (\<lambda>system_field.
     Inr \<lparr>ms_slot = slot_name, ms_provider = ca_provider candidate, ms_model = ca_model candidate,
          ms_context_window = ca_context_tokens candidate, ms_max_output_tokens = ca_max_output_tokens candidate,
          ms_supports_streaming = ca_supports_streaming candidate,
          ms_supports_vision = (''vision'' \<in> set (ca_capabilities candidate)),
          ms_supports_pdf = (''pdf'' \<in> set (ca_capabilities candidate)),
          ms_supports_system_field = system_field, ms_max_file_bytes = ca_max_file_bytes candidate,
          ms_priority = priority, ms_reserved_fraction = ca_reserved_fraction candidate\<rparr>)"

fun specs_from :: "string \<Rightarrow> nat \<Rightarrow> SlotCandidate list \<Rightarrow> ModelSpec list exn" where
  "specs_from slot_name n [] = Inr []"
| "specs_from slot_name n (c # cs) = ebind (spec_of slot_name n c) (\<lambda>s.
     ebind (specs_from slot_name (Suc n) cs) (\<lambda>ss. Inr (s # ss)))"

type_synonym spec_table = "(string \<times> ModelSpec list) list"

fun slot_specs :: "ProvidersConfig \<Rightarrow> (string \<times> Slot) list \<Rightarrow> spec_table exn" where
  "slot_specs c [] = Inr []"
| "slot_specs c ((slot_name, slot) # rest) =
    (let routable = filter (\<lambda>k. provider_enabled c (ca_provider k)) (sl_candidates slot)
     in if routable = [] then slot_specs c rest
        else ebind (specs_from slot_name 0 routable) (\<lambda>specs.
             ebind (slot_specs c rest) (\<lambda>table. Inr ((slot_name, specs) # table))))"

text \<open>The boot check: two slots that share a model agree on its reserved fraction.\<close>

fun fractions_agree :: "(string \<times> string \<rightharpoonup> pyfloat) \<Rightarrow> ModelSpec list \<Rightarrow> unit exn" where
  "fractions_agree seen [] = Inr ()"
| "fractions_agree seen (s # ss) =
    (case seen (ms_key s) of
       None \<Rightarrow> fractions_agree (seen(ms_key s \<mapsto> ms_reserved_fraction s)) ss
     | Some f \<Rightarrow> if f \<noteq> ms_reserved_fraction s then Inl ConfigError else fractions_agree seen ss)"

definition build_model_specs :: "ProvidersConfig \<Rightarrow> spec_table exn" where
  "build_model_specs c = ebind (slot_specs c (pc_slots c)) (\<lambda>table.
     ebind (fractions_agree Map.empty (concat (map snd table))) (\<lambda>_. Inr table))"

subsection \<open>The registry\<close>

record ProviderRegistry =
  pr_specs :: spec_table
  pr_adapters :: "string list"
  pr_keys :: "(string \<times> string) list"
  pr_internal_slots :: "string list"
  pr_private_key_only_slots :: "string list"

definition slots :: "ProviderRegistry \<Rightarrow> string list" where
  "slots r = filter (\<lambda>name. name \<notin> set (pr_internal_slots r)) (map fst (pr_specs r))"

definition is_internal :: "ProviderRegistry \<Rightarrow> string \<Rightarrow> bool" where
  "is_internal r slot \<longleftrightarrow> slot \<in> set (pr_internal_slots r)"

definition requires_private_key :: "ProviderRegistry \<Rightarrow> string \<Rightarrow> bool" where
  "requires_private_key r slot \<longleftrightarrow> slot \<in> set (pr_private_key_only_slots r)"

definition reg_candidates :: "ProviderRegistry \<Rightarrow> string \<Rightarrow> ModelSpec list exn" where
  "reg_candidates r slot = (case map_of (pr_specs r) slot of None \<Rightarrow> Inl UnknownSlot | Some ss \<Rightarrow> Inr ss)"

definition primary :: "ProviderRegistry \<Rightarrow> string \<Rightarrow> ModelSpec exn" where
  "primary r slot = ebind (reg_candidates r slot) (\<lambda>ss. case ss of [] \<Rightarrow> Inl OtherError | s # _ \<Rightarrow> Inr s)"

definition adapter_for :: "ProviderRegistry \<Rightarrow> string \<Rightarrow> string exn" where
  "adapter_for r provider = (if provider \<in> set (pr_adapters r) then Inr provider else Inl UnknownSlot)"

definition system_key :: "ProviderRegistry \<Rightarrow> string \<Rightarrow> string exn" where
  "system_key r provider = (case map_of (pr_keys r) provider of None \<Rightarrow> Inl UnknownSlot | Some k \<Rightarrow> Inr k)"

text \<open>A settings field is absent, a secret, or anything else.\<close>

datatype setting = Secret string | NotSecret

definition resolve_system_key :: "(string \<Rightarrow> setting option) \<Rightarrow> string \<Rightarrow> string exn" where
  "resolve_system_key settings env_name =
    (case settings env_name of None \<Rightarrow> Inl ConfigError
     | Some NotSecret \<Rightarrow> Inl ConfigError
     | Some (Secret v) \<Rightarrow> if list_all isspace v then Inl ConfigError else Inr v)"

fun registry_keys :: "(string \<Rightarrow> setting option) \<Rightarrow> (string \<times> ProviderEntry) list \<Rightarrow> (string \<times> string) list exn" where
  "registry_keys settings [] = Inr []"
| "registry_keys settings ((name, entry) # rest) =
    (if \<not> pv_enabled entry then registry_keys settings rest
     else ebind (traits name) (\<lambda>_. ebind (resolve_system_key settings (pv_api_key_env entry)) (\<lambda>k.
          ebind (registry_keys settings rest) (\<lambda>ks. Inr ((name, k) # ks)))))"

definition build_registry :: "ProvidersConfig \<Rightarrow> (string \<Rightarrow> setting option) \<Rightarrow> ProviderRegistry exn" where
  "build_registry c settings = ebind (registry_keys settings (pc_providers c)) (\<lambda>ks.
     ebind (build_model_specs c) (\<lambda>specs.
       if specs = [] then Inl ConfigError
       else Inr \<lparr>pr_specs = specs, pr_adapters = map fst ks, pr_keys = ks,
         pr_internal_slots = [name. (name, slot) \<leftarrow> pc_slots c, sl_internal slot \<and> name \<in> set (map fst specs)],
         pr_private_key_only_slots = [name. (name, slot) \<leftarrow> pc_slots c,
           sl_requires_private_key slot \<and> name \<in> set (map fst specs)]\<rparr>))"

subsection \<open>Measured latency\<close>

datatype RoutingMode = COMPLETE | STREAM

record LatencySample =
  la_ewma_ms :: pyfloat
  la_samples :: int

record LatencySnapshot =
  ls_mode :: RoutingMode
  ls_entries :: "string \<times> string \<rightharpoonup> LatencySample"
  ls_min_samples :: int

definition ranking_for :: "LatencySnapshot \<Rightarrow> ModelSpec \<Rightarrow> pyfloat option" where
  "ranking_for s spec = (case ls_entries s (ms_key spec) of None \<Rightarrow> None
     | Some x \<Rightarrow> if la_samples x < ls_min_samples s then None else Some (la_ewma_ms x))"

record LatencyTable =
  lt_alpha :: pyfloat
  lt_min_samples :: int
  lt_series :: "string \<times> string \<times> RoutingMode \<rightharpoonup> LatencySample"

definition latency_table :: "pyfloat \<Rightarrow> int \<Rightarrow> LatencyTable exn" where
  "latency_table alpha min_samples = (if \<not> (0 < alpha \<and> alpha \<le> 1) then Inl ValueError
     else Inr \<lparr>lt_alpha = alpha, lt_min_samples = min_samples, lt_series = Map.empty\<rparr>)"

definition lt_record :: "LatencyTable \<Rightarrow> string \<Rightarrow> string \<Rightarrow> RoutingMode \<Rightarrow> pyfloat \<Rightarrow> LatencyTable" where
  "lt_record t provider model mode ms =
    (let observation = max 0 ms; key = (provider, model, mode)
     in case lt_series t key of
          None \<Rightarrow> t\<lparr>lt_series := (lt_series t)(key \<mapsto> \<lparr>la_ewma_ms = observation, la_samples = 1\<rparr>)\<rparr>
        | Some p \<Rightarrow> t\<lparr>lt_series := (lt_series t)(key \<mapsto>
            \<lparr>la_ewma_ms = lt_alpha t * observation + (1 - lt_alpha t) * la_ewma_ms p, la_samples = la_samples p + 1\<rparr>)\<rparr>)"

definition lt_snapshot :: "LatencyTable \<Rightarrow> RoutingMode \<Rightarrow> LatencySnapshot" where
  "lt_snapshot t mode = \<lparr>ls_mode = mode, ls_entries = (\<lambda>(p, m). lt_series t (p, m, mode)), ls_min_samples = lt_min_samples t\<rparr>"

subsection \<open>Facts on the table\<close>

lemma specs_from_props:
  "specs_from name n cs = Inr ss \<Longrightarrow> length ss = length cs \<and>
     (\<forall>i<length cs. spec_of name (n + i) (cs ! i) = Inr (ss ! i))"
proof (induction cs arbitrary: n ss)
  case (Cons c cs)
  then obtain s ss' where s: "spec_of name n c = Inr s" "specs_from name (Suc n) cs = Inr ss'" "ss = s # ss'"
    by (auto simp: ebind_Inr_iff)
  have "spec_of name (n + i) ((c # cs) ! i) = Inr (ss ! i)" if "i < length (c # cs)" for i
    using that s Cons.IH [OF s(2)] by (cases i) auto
  with s Cons.IH [OF s(2)] show ?case by simp
qed simp

lemma slot_specs_entry:
  assumes "slot_specs c sl = Inr table" "(name, specs) \<in> set table"
  shows "\<exists>slot. (name, slot) \<in> set sl \<and> specs \<noteq> [] \<and>
    specs_from name 0 (filter (\<lambda>k. provider_enabled c (ca_provider k)) (sl_candidates slot)) = Inr specs"
  using assms
proof (induction sl arbitrary: table)
  case (Cons x sl)
  obtain nm slot where x: "x = (nm, slot)" by fastforce
  let ?r = "filter (\<lambda>k. provider_enabled c (ca_provider k)) (sl_candidates slot)"
  show ?case
  proof (cases "?r = []")
    case True
    then show ?thesis using Cons x by fastforce
  next
    case False
    then obtain ss t where t: "specs_from nm 0 ?r = Inr ss" "slot_specs c sl = Inr t" "table = (nm, ss) # t"
      using Cons.prems(1) x by (auto simp: ebind_Inr_iff Let_def)
    have "ss \<noteq> []" using specs_from_props [OF t(1)] False by (metis length_0_conv)
    with t Cons.IH [OF t(2)] Cons.prems(2) x show ?thesis by auto
  qed
qed simp

lemma slot_specs_names:
  "slot_specs c sl = Inr table \<Longrightarrow> distinct (map fst sl) \<Longrightarrow> distinct (map fst table) \<and> set (map fst table) \<subseteq> set (map fst sl)"
proof (induction sl arbitrary: table)
  case (Cons x sl)
  obtain nm slot where x: "x = (nm, slot)" by fastforce
  let ?r = "filter (\<lambda>k. provider_enabled c (ca_provider k)) (sl_candidates slot)"
  show ?case
  proof (cases "?r = []")
    case True
    then have "slot_specs c sl = Inr table" using Cons.prems(1) x by (simp add: Let_def)
    from Cons.IH [OF this] Cons.prems(2) show ?thesis by auto
  next
    case False
    then obtain ss t where t: "slot_specs c sl = Inr t" "table = (nm, ss) # t"
      using Cons.prems(1) x by (auto simp: ebind_Inr_iff Let_def)
    from Cons.IH [OF t(1)] Cons.prems(2) x t(2) show ?thesis by auto
  qed
qed simp

lemma fractions_agree_sound:
  assumes "fractions_agree seen ss = Inr ()"
  shows "s \<in> set ss \<Longrightarrow> (case seen (ms_key s) of None \<Rightarrow> True | Some f \<Rightarrow> f = ms_reserved_fraction s)"
    and "s \<in> set ss \<Longrightarrow> s' \<in> set ss \<Longrightarrow> ms_key s = ms_key s' \<Longrightarrow> ms_reserved_fraction s = ms_reserved_fraction s'"
proof -
  have "(\<forall>s\<in>set ss. case seen (ms_key s) of None \<Rightarrow> True | Some f \<Rightarrow> f = ms_reserved_fraction s) \<and>
     (\<forall>s\<in>set ss. \<forall>s'\<in>set ss. ms_key s = ms_key s' \<longrightarrow> ms_reserved_fraction s = ms_reserved_fraction s')"
    using assms
  proof (induction ss arbitrary: seen)
    case (Cons a ss)
    show ?case
    proof (cases "seen (ms_key a)")
      case None
      with Cons.prems have "fractions_agree (seen(ms_key a \<mapsto> ms_reserved_fraction a)) ss = Inr ()" by simp
      note IH = Cons.IH [OF this]
      have same: "ms_reserved_fraction s = ms_reserved_fraction a" if "s \<in> set ss" "ms_key s = ms_key a" for s
        using IH [THEN conjunct1, rule_format, OF that(1)] that(2) by simp
      have "case seen (ms_key s) of None \<Rightarrow> True | Some f \<Rightarrow> f = ms_reserved_fraction s" if "s \<in> set (a # ss)" for s
        using that IH [THEN conjunct1, rule_format, of s] None by (cases "ms_key s = ms_key a") auto
      moreover have "ms_reserved_fraction s = ms_reserved_fraction s'"
        if "s \<in> set (a # ss)" "s' \<in> set (a # ss)" "ms_key s = ms_key s'" for s s'
        using that same [of s] same [of s'] IH [THEN conjunct2, rule_format, of s s'] by (cases "s = a"; cases "s' = a") simp_all
      ultimately show ?thesis by blast
    next
      case (Some f)
      with Cons.prems have "f = ms_reserved_fraction a" "fractions_agree seen ss = Inr ()" by (auto split: if_splits)
      note IH = Cons.IH [OF this(2)] and f = this(1)
      have same: "ms_reserved_fraction s = ms_reserved_fraction a" if "s \<in> set ss" "ms_key s = ms_key a" for s
        using IH [THEN conjunct1, rule_format, OF that(1)] that(2) Some f by simp
      have "case seen (ms_key s) of None \<Rightarrow> True | Some f \<Rightarrow> f = ms_reserved_fraction s" if "s \<in> set (a # ss)" for s
        using that IH [THEN conjunct1, rule_format, of s] Some f by auto
      moreover have "ms_reserved_fraction s = ms_reserved_fraction s'"
        if "s \<in> set (a # ss)" "s' \<in> set (a # ss)" "ms_key s = ms_key s'" for s s'
        using that same [of s] same [of s'] IH [THEN conjunct2, rule_format, of s s'] by (cases "s = a"; cases "s' = a") simp_all
      ultimately show ?thesis by blast
    qed
  qed simp
  then show "s \<in> set ss \<Longrightarrow> (case seen (ms_key s) of None \<Rightarrow> True | Some f \<Rightarrow> f = ms_reserved_fraction s)"
    "s \<in> set ss \<Longrightarrow> s' \<in> set ss \<Longrightarrow> ms_key s = ms_key s' \<Longrightarrow> ms_reserved_fraction s = ms_reserved_fraction s'" by blast+
qed

text \<open>What a built registry looks like: slot names are distinct and each has at least one candidate.\<close>

definition registry_ok :: "ProviderRegistry \<Rightarrow> bool" where
  "registry_ok r \<longleftrightarrow> distinct (map fst (pr_specs r)) \<and> (\<forall>(name, ss)\<in>set (pr_specs r). ss \<noteq> [] \<and> (\<forall>s\<in>set ss. ms_slot s = name))"

lemma build_registry_specs:
  "build_registry c settings = Inr r \<Longrightarrow> build_model_specs c = Inr (pr_specs r) \<and> pr_specs r \<noteq> []"
  by (auto simp: build_registry_def ebind_Inr_iff split: if_splits)

lemma spec_of_slot: "spec_of name n k = Inr s \<Longrightarrow> ms_slot s = name \<and> ms_priority s = n \<and> ms_provider s = ca_provider k \<and> ms_model s = ca_model k"
  by (auto simp: spec_of_def ebind_Inr_iff)

lemma build_registry_ok:
  assumes "config_valid c" "build_registry c settings = Inr r"
  shows "registry_ok r"
proof -
  have t: "slot_specs c (pc_slots c) = Inr (pr_specs r)"
    using build_registry_specs [OF assms(2)] by (auto simp: build_model_specs_def ebind_Inr_iff)
  have "ss \<noteq> [] \<and> (\<forall>s\<in>set ss. ms_slot s = name)" if e: "(name, ss) \<in> set (pr_specs r)" for name ss
  proof -
    obtain cs where cs: "ss \<noteq> []" "specs_from name 0 cs = Inr ss" using slot_specs_entry [OF t e] by blast
    have "ms_slot s = name" if "s \<in> set ss" for s
    proof -
      obtain i where "i < length ss" "ss ! i = s" using \<open>s \<in> set ss\<close> by (auto simp: in_set_conv_nth)
      with specs_from_props [OF cs(2)] spec_of_slot show ?thesis by metis
    qed
    with cs(1) show ?thesis by blast
  qed
  then show ?thesis using slot_specs_names [OF t] assms(1) by (auto simp: registry_ok_def config_valid_def)
qed

end
