(* ===== verification/Gw_Selection.thy ===== *)
theory Gw_Selection
  imports Gw_Registry "HOL-Library.Multiset"
begin

text \<open>
  Candidate selection (\<^verbatim>\<open>app/routing/selection.py\<close>): which models a request may be served by, and in
  which order. The properties: the chain offers every routable model once, the requested slot first;
  ranking by latency only permutes measured candidates among their own positions; a pin is obeyed or
  refused, never replaced.
\<close>

definition AUTO :: string where "AUTO = ''auto''"

definition is_substitution :: "string \<Rightarrow> string \<Rightarrow> bool" where
  "is_substitution requested_slot served_slot \<longleftrightarrow> requested_slot \<noteq> AUTO \<and> requested_slot \<noteq> served_slot"

definition pin_warning :: "string option \<Rightarrow> string \<Rightarrow> string \<Rightarrow> string option" where
  "pin_warning pinned_model requested_slot served_slot =
    (case pinned_model of None \<Rightarrow> None
     | Some p \<Rightarrow> if requested_slot = served_slot then None
                 else Some (''conversation pinned to '' @ p @ '' due to prior tool use''))"

definition resolve_slot :: "ProviderRegistry \<Rightarrow> string \<Rightarrow> ModelSpec exn" where
  "resolve_slot r requested =
    (if requested = AUTO then (case slots r of [] \<Rightarrow> Inl UnknownSlot | s # _ \<Rightarrow> primary r s)
     else primary r requested)"

text \<open>One slot's candidates appended to the fleet, skipping pairs already seen.\<close>

fun add_unseen :: "ModelSpec list \<Rightarrow> ModelSpec list \<Rightarrow> ModelSpec list" where
  "add_unseen flattened [] = flattened"
| "add_unseen flattened (s # ss) =
    (if ms_key s \<in> ms_key ` set flattened then add_unseen flattened ss else add_unseen (flattened @ [s]) ss)"

fun fleet_from :: "ProviderRegistry \<Rightarrow> ModelSpec list \<Rightarrow> string list \<Rightarrow> ModelSpec list exn" where
  "fleet_from r flattened [] = Inr flattened"
| "fleet_from r flattened (slot # rest) =
    (if requires_private_key r slot then fleet_from r flattened rest
     else ebind (reg_candidates r slot) (\<lambda>ss. fleet_from r (add_unseen flattened ss) rest))"

definition fleet :: "ProviderRegistry \<Rightarrow> ModelSpec list exn" where
  "fleet r = fleet_from r [] (slots r)"

definition spec_id :: "ModelSpec \<Rightarrow> string" where
  "spec_id s = ms_provider s @ ''/'' @ ms_model s"

fun resolve_pin_in :: "ProviderRegistry \<Rightarrow> string \<Rightarrow> string list \<Rightarrow> ModelSpec exn" where
  "resolve_pin_in r pinned [] = Inl UnknownSlot"
| "resolve_pin_in r pinned (slot # rest) = ebind (reg_candidates r slot) (\<lambda>ss.
     case List.find (\<lambda>s. spec_id s = pinned) ss of Some s \<Rightarrow> Inr s | None \<Rightarrow> resolve_pin_in r pinned rest)"

definition resolve_pin :: "ProviderRegistry \<Rightarrow> string \<Rightarrow> ModelSpec exn" where
  "resolve_pin r pinned = resolve_pin_in r pinned (slots r)"

definition measured :: "LatencySnapshot \<Rightarrow> ModelSpec list \<Rightarrow> (nat \<times> pyfloat \<times> ModelSpec) list" where
  "measured latency chain = List.map_filter (\<lambda>(i, s). map_option (\<lambda>e. (i, e, s)) (ranking_for latency s)) (List.enumerate 0 chain)"

fun write_back :: "ModelSpec list \<Rightarrow> (nat \<times> ModelSpec) list \<Rightarrow> ModelSpec list" where
  "write_back result [] = result"
| "write_back result ((position, spec) # rest) = write_back (result[position := spec]) rest"

definition rank :: "ModelSpec list \<Rightarrow> LatencySnapshot option \<Rightarrow> ModelSpec list" where
  "rank chain latency = (case latency of None \<Rightarrow> chain
    | Some l \<Rightarrow> (let ms = measured l chain
        in if length ms < 2 then chain
           else let ordered = sort_key (\<lambda>(_, e, _). e) ms
                in write_back chain (zip (map fst ms) (map (\<lambda>(_, _, s). s) ordered))))"

definition candidates :: "ProviderRegistry \<Rightarrow> string \<Rightarrow> string option \<Rightarrow> LatencySnapshot option \<Rightarrow> ModelSpec list exn" where
  "candidates r requested pinned latency =
    (case pinned of Some p \<Rightarrow> ebind (resolve_pin r p) (\<lambda>s. Inr [s])
     | None \<Rightarrow> ebind (fleet r) (\<lambda>fl.
         if requested = AUTO then Inr (rank fl latency)
         else ebind (reg_candidates r requested) (\<lambda>named.
           Inr (rank (named @ filter (\<lambda>s. ms_key s \<notin> ms_key ` set named) fl) latency))))"

subsection \<open>Ranking\<close>

lemma write_back_mset:
  assumes "distinct (map fst pvs)" "\<forall>(p, v)\<in>set pvs. p < length xs"
  shows "mset (write_back xs pvs) + mset (map (\<lambda>(p, v). xs ! p) pvs) = mset xs + mset (map snd pvs)"
  using assms
proof (induction pvs arbitrary: xs)
  case (Cons pv pvs)
  obtain p v where pv: "pv = (p, v)" by fastforce
  have p: "p < length xs" "p \<notin> fst ` set pvs" using Cons.prems pv by auto
  have same: "map (\<lambda>(q, u). xs[p := v0] ! q) pvs = map (\<lambda>(q, u). xs ! q) pvs" for v0
    using p(2) by (intro map_cong) (auto simp: nth_list_update image_iff)
  have upd: "mset (xs[p := v]) + {#xs ! p#} = mset xs + {#v#}" using p(1) by (simp add: mset_update)
  have "mset (write_back (xs[p := v]) pvs) + mset (map (\<lambda>(q, u). xs[p := v] ! q) pvs) = mset (xs[p := v]) + mset (map snd pvs)"
    using Cons.prems pv by (intro Cons.IH) auto
  then have ih: "mset (write_back (xs[p := v]) pvs) + mset (map (\<lambda>(q, u). xs ! q) pvs) = mset (xs[p := v]) + mset (map snd pvs)"
    unfolding same .
  have "mset (write_back xs (pv # pvs)) + mset (map (\<lambda>(p, v). xs ! p) (pv # pvs)) =
      (mset (write_back (xs[p := v]) pvs) + mset (map (\<lambda>(q, u). xs ! q) pvs)) + {#xs ! p#}" by (simp add: pv)
  also have "\<dots> = (mset (xs[p := v]) + {#xs ! p#}) + mset (map snd pvs)" unfolding ih by simp
  also have "\<dots> = mset xs + mset (map snd (pv # pvs))" unfolding upd by (simp add: pv)
  finally show ?case .
qed simp

lemma write_back_length [simp]: "length (write_back xs pvs) = length xs"
  by (induction xs pvs rule: write_back.induct) auto

lemma write_back_other: "i \<notin> fst ` set pvs \<Longrightarrow> write_back xs pvs ! i = xs ! i"
  by (induction xs pvs rule: write_back.induct) auto

lemma write_back_at:
  assumes "distinct (map fst pvs)" "(p, v) \<in> set pvs" "p < length xs"
  shows "write_back xs pvs ! p = v"
  using assms
proof (induction xs pvs rule: write_back.induct)
  case (2 result position spec rest)
  show ?case
  proof (cases "(p, v) = (position, spec)")
    case True
    then have "p \<notin> fst ` set rest" using "2.prems"(1) by simp
    then show ?thesis using write_back_other [of p rest "result[position := spec]"] True "2.prems"(3) by simp
  next
    case False
    then show ?thesis using "2.IH" "2.prems" by auto
  qed
qed simp

lemma measured_snoc: "measured l (xs @ [x]) = measured l xs @ (case ranking_for l x of None \<Rightarrow> [] | Some e \<Rightarrow> [(length xs, e, x)])"
  by (simp add: measured_def enumerate_append_eq map_filter_def split: option.splits)

text \<open>What the measured entries are: increasing positions, each with its candidate and its number.\<close>

lemma measured_props:
  "sorted_wrt (<) (map fst (measured l xs)) \<and>
   (\<forall>i e s. (i, e, s) \<in> set (measured l xs) \<longleftrightarrow> i < length xs \<and> xs ! i = s \<and> ranking_for l s = Some e)"
proof (induction xs rule: rev_induct)
  case Nil
  then show ?case by (simp add: measured_def map_filter_def)
next
  case (snoc x xs)
  have m: "(i, e, s) \<in> set (measured l xs) \<longleftrightarrow> i < length xs \<and> xs ! i = s \<and> ranking_for l s = Some e" for i e s
    using snoc.IH by blast
  have "\<forall>i\<in>set (map fst (measured l xs)). i < length xs" using m by force
  then have "sorted_wrt (<) (map fst (measured l (xs @ [x])))"
    using snoc.IH by (auto simp: measured_snoc sorted_wrt_append split: option.splits)
  moreover have "(i, e, s) \<in> set (measured l (xs @ [x])) \<longleftrightarrow> i < length (xs @ [x]) \<and> (xs @ [x]) ! i = s \<and> ranking_for l s = Some e" for i e s
    using m [of i e s] by (auto simp: measured_snoc nth_append less_Suc_eq split: option.splits)
  ultimately show ?case by blast
qed

lemmas measured_sorted = measured_props [THEN conjunct1] and measured_iff = measured_props [THEN conjunct2, rule_format]

lemma measured_distinct: "distinct (map fst (measured l xs))"
  using measured_sorted [of l xs] strict_sorted_iff by blast

text \<open>How ranking acts on a chain that has at least two measured candidates.\<close>

lemma rank_write:
  fixes l chain
  defines "ms \<equiv> measured l chain" and "ordered \<equiv> sort_key (\<lambda>(_, e, _). e) (measured l chain)"
  assumes "\<not> length ms < 2"
  shows "rank chain (Some l) = write_back chain (zip (map fst ms) (map (\<lambda>(_, _, s). s) ordered))"
    "length ordered = length ms" "mset ordered = mset ms"
  using assms by (simp_all add: rank_def Let_def)

lemma rank_perm: "mset (rank chain latency) = mset chain"
proof (cases latency)
  case (Some l)
  let ?ms = "measured l chain" let ?ord = "sort_key (\<lambda>(_, e, _). e) ?ms"
  let ?pvs = "zip (map fst ?ms) (map (\<lambda>(_, _, s). s) ?ord)"
  show ?thesis
  proof (cases "length ?ms < 2")
    case False
    have fsts: "map fst ?pvs = map fst ?ms" and snds: "map snd ?pvs = map (\<lambda>(_, _, s). s) ?ord" by simp_all
    have pos: "\<forall>(p, v)\<in>set ?pvs. p < length chain"
      using measured_iff [of _ _ _ l chain] by (force dest!: set_zip_leftD)
    have "map (\<lambda>(p, v). chain ! p) ?pvs = map (\<lambda>p. chain ! p) (map fst ?pvs)"
      unfolding map_map by (intro map_cong) auto
    also have "\<dots> = map (\<lambda>(_, _, s). s) ?ms"
      unfolding fsts using measured_iff [of _ _ _ l chain] by (auto simp: case_prod_beta)
    finally have old: "mset (map (\<lambda>(p, v). chain ! p) ?pvs) = image_mset (\<lambda>(_, _, s). s) (mset ?ms)" by simp
    have new: "mset (map snd ?pvs) = image_mset (\<lambda>(_, _, s). s) (mset ?ms)" unfolding snds by simp
    have "mset (write_back chain ?pvs) + mset (map (\<lambda>(p, v). chain ! p) ?pvs) = mset chain + mset (map snd ?pvs)"
      by (rule write_back_mset) (use pos measured_distinct fsts in auto)
    then have "mset (write_back chain ?pvs) = mset chain" unfolding old new by simp
    then show ?thesis using rank_write(1) [OF False] Some by simp
  qed (simp add: rank_def Some)
qed (simp add: rank_def)

lemma rank_length [simp]: "length (rank chain latency) = length chain"
  using rank_perm mset_eq_length by blast


subsection \<open>The fleet\<close>

lemma add_unseen_props:
  "distinct (map ms_key fl) \<Longrightarrow> distinct (map ms_key (add_unseen fl ss)) \<and>
     ms_key ` set (add_unseen fl ss) = ms_key ` set fl \<union> ms_key ` set ss"
  by (induction fl ss rule: add_unseen.induct) auto

lemma fleet_from_props:
  assumes "fleet_from r fl sl = Inr res" "distinct (map ms_key fl)"
  shows "distinct (map ms_key res) \<and> ms_key ` set res = ms_key ` set fl \<union>
    (\<Union>slot\<in>{s \<in> set sl. \<not> requires_private_key r s}. \<Union>ss\<in>{ss. reg_candidates r slot = Inr ss}. ms_key ` set ss)"
  using assms
proof (induction sl arbitrary: fl)
  case (Cons slot sl)
  show ?case
  proof (cases "requires_private_key r slot")
    case True
    then have "fleet_from r fl sl = Inr res" using Cons.prems(1) by simp
    from Cons.IH [OF this Cons.prems(2)] True show ?thesis by auto
  next
    case False
    then obtain ss where ss: "reg_candidates r slot = Inr ss" "fleet_from r (add_unseen fl ss) sl = Inr res"
      using Cons.prems(1) by (auto simp: ebind_Inr_iff)
    from add_unseen_props [OF Cons.prems(2), of ss]
    have u: "distinct (map ms_key (add_unseen fl ss))" "ms_key ` set (add_unseen fl ss) = ms_key ` set fl \<union> ms_key ` set ss" by blast+
    have "(\<Union>s\<in>{s \<in> set (slot # sl). \<not> requires_private_key r s}. \<Union>ss\<in>{ss. reg_candidates r s = Inr ss}. ms_key ` set ss) =
        ms_key ` set ss \<union> (\<Union>s\<in>{s \<in> set sl. \<not> requires_private_key r s}. \<Union>ss\<in>{ss. reg_candidates r s = Inr ss}. ms_key ` set ss)"
      using False ss(1) by auto
    with Cons.IH [OF ss(2) u(1)] u(2) show ?thesis by auto
  qed
qed simp

text \<open>The models \<open>auto\<close> may be served by: those of every slot a client may name that the shared pool can
  serve.\<close>

definition open_models :: "ProviderRegistry \<Rightarrow> (string \<times> string) set" where
  "open_models r = ms_key ` (\<Union>slot\<in>{s \<in> set (slots r). \<not> requires_private_key r s}. set (the (map_of (pr_specs r) slot)))"

lemma slots_known: "slot \<in> set (slots r) \<Longrightarrow> reg_candidates r slot = Inr (the (map_of (pr_specs r) slot))"
  by (auto simp: slots_def reg_candidates_def split: option.splits dest!: weak_map_of_SomeI)

lemma fleet_total: "\<exists>fl. fleet r = Inr fl"
proof -
  have "set sl \<subseteq> set (slots r) \<Longrightarrow> \<exists>fl. fleet_from r acc sl = Inr fl" for sl acc
    using slots_known by (induction sl arbitrary: acc) auto
  then show ?thesis by (simp add: fleet_def)
qed

lemma fleet_props:
  assumes "fleet r = Inr fl"
  shows "distinct (map ms_key fl)" "ms_key ` set fl = open_models r"
proof -
  have "(\<Union>slot\<in>{s \<in> set (slots r). \<not> requires_private_key r s}. \<Union>ss\<in>{ss. reg_candidates r slot = Inr ss}. ms_key ` set ss) = open_models r"
    using slots_known unfolding open_models_def by force
  then show "distinct (map ms_key fl)" "ms_key ` set fl = open_models r"
    using fleet_from_props [OF assms [unfolded fleet_def]] by auto
qed

subsection \<open>A concrete table\<close>

definition ex_config :: ProvidersConfig where
  "ex_config = \<lparr>pc_providers = [(''groq'', \<lparr>pv_enabled = True, pv_base_url = ''u'', pv_api_key_env = ''k''\<rparr>)],
     pc_slots = [(''general'', \<lparr>sl_candidates = [\<lparr>ca_provider = ''groq'', ca_model = ''m'', ca_context_tokens = 10, ca_max_output_tokens = 5,
        ca_capabilities = [''text''], ca_supports_streaming = True, ca_max_file_bytes = None, ca_reserved_fraction = 0\<rparr>],
        sl_internal = False, sl_requires_private_key = False\<rparr>)]\<rparr>"

definition ex_registry :: ProviderRegistry where
  "ex_registry = (case build_registry ex_config (\<lambda>_. Some (Secret ''x'')) of Inr r \<Rightarrow> r | Inl _ \<Rightarrow>
     \<lparr>pr_specs = [], pr_adapters = [], pr_keys = [], pr_internal_slots = [], pr_private_key_only_slots = []\<rparr>)"

definition ex_cand :: "string \<Rightarrow> ModelSpec" where
  "ex_cand m = \<lparr>ms_slot = ''general'', ms_provider = ''groq'', ms_model = m, ms_context_window = 10, ms_max_output_tokens = 5,
     ms_supports_streaming = True, ms_supports_vision = False, ms_supports_pdf = False, ms_supports_system_field = False,
     ms_max_file_bytes = None, ms_priority = 0, ms_reserved_fraction = 0\<rparr>"

definition ex_latency :: LatencySnapshot where
  "ex_latency = \<lparr>ls_mode = COMPLETE, ls_entries = [(''groq'', ''a'') \<mapsto> \<lparr>la_ewma_ms = 20, la_samples = 5\<rparr>,
     (''groq'', ''b'') \<mapsto> \<lparr>la_ewma_ms = 10, la_samples = 5\<rparr>], ls_min_samples = 5\<rparr>"

subsection \<open>Properties\<close>

text \<open>Ranking by latency returns a permutation of the chain in which every candidate without enough
  samples keeps its position, and the measured ones, among their own positions, are in order of their
  averages.\<close>

theorem rank_moves_only_measured:
  "mset (rank chain (Some l)) = mset chain \<and>
   (\<forall>i<length chain. ranking_for l (chain ! i) = None \<longrightarrow> rank chain (Some l) ! i = chain ! i) \<and>
   (\<forall>j<length chain. \<forall>i<j. ranking_for l (chain ! i) \<noteq> None \<and> ranking_for l (chain ! j) \<noteq> None \<longrightarrow>
      (\<exists>a b. ranking_for l (rank chain (Some l) ! i) = Some a \<and> ranking_for l (rank chain (Some l) ! j) = Some b \<and> a \<le> b))"
proof -
  let ?ms = "measured l chain" let ?key = "\<lambda>(_, e, _). e :: rat" let ?ord = "sort_key ?key ?ms"
  let ?pvs = "zip (map fst ?ms) (map (\<lambda>(_, _, s). s) ?ord)" let ?res = "rank chain (Some l)"
  have len: "length ?ord = length ?ms" by simp
  have fixed: "?res ! i = chain ! i" if "i < length chain" "ranking_for l (chain ! i) = None" for i
  proof (cases "length ?ms < 2")
    case False
    have "i \<notin> set (map fst ?ms)" using that measured_iff [of i _ _ l chain] by force
    then have "i \<notin> fst ` set ?pvs" by (force dest: set_zip_leftD)
    then show ?thesis using rank_write(1) [OF False] write_back_other by metis
  qed (simp add: rank_def)
  have idx: "\<exists>k<length ?ms. fst (?ms ! k) = i" if "i < length chain" "ranking_for l (chain ! i) \<noteq> None" for i
    using that measured_iff [of i "the (ranking_for l (chain ! i))" "chain ! i" l chain] by (auto simp: in_set_conv_nth)
  have at: "ranking_for l (?res ! fst (?ms ! k)) = Some (?key (?ord ! k))" if big: "\<not> length ?ms < 2" and k: "k < length ?ms" for k
  proof -
    obtain i e s where iks: "?ord ! k = (i, e, s)" using prod_cases3 by blast
    have "(i, e, s) \<in> set ?ms" using k iks nth_mem [of k ?ord] by simp
    then have e: "ranking_for l s = Some e" using measured_iff by blast
    have "?pvs ! k = (fst (?ms ! k), s)" "k < length ?pvs" using k iks by simp_all
    then have "(fst (?ms ! k), s) \<in> set ?pvs" by (metis nth_mem)
    moreover have "fst (?ms ! k) < length chain" using measured_iff [of "fst (?ms ! k)" "fst (snd (?ms ! k))" "snd (snd (?ms ! k))" l chain] k by simp
    moreover have "distinct (map fst ?pvs)" using measured_distinct by simp
    ultimately have "write_back chain ?pvs ! fst (?ms ! k) = s" using write_back_at by blast
    then show ?thesis using rank_write(1) [OF big] e iks by simp
  qed
  have sorted: "?key (?ord ! a) \<le> ?key (?ord ! b)" if "a \<le> b" "b < length ?ms" for a b
    using sorted_nth_mono [of "map ?key ?ord" a b] sorted_sort_key [of ?key ?ms] that by simp
  have "\<exists>a b. ranking_for l (?res ! i) = Some a \<and> ranking_for l (?res ! j) = Some b \<and> a \<le> b"
    if ij: "j < length chain" "i < j" "ranking_for l (chain ! i) \<noteq> None" "ranking_for l (chain ! j) \<noteq> None" for i j
  proof -
    obtain ki kj where ki: "ki < length ?ms" "fst (?ms ! ki) = i" and kj: "kj < length ?ms" "fst (?ms ! kj) = j"
      using idx [OF _ ij(3)] idx [OF ij(1,4)] ij(1,2) by auto
    have "ki < kj"
    proof (rule ccontr)
      assume "\<not> ki < kj"
      then have "j \<le> i" using sorted_wrt_nth_less [OF measured_sorted [of l chain], of kj ki] ki kj
        by (cases "ki = kj") auto
      with ij(2) show False by simp
    qed
    moreover have "\<not> length ?ms < 2" using \<open>ki < kj\<close> kj(1) by simp
    ultimately show ?thesis using at [of ki] at [of kj] ki kj sorted [of ki kj] by simp
  qed
  with fixed rank_perm show ?thesis by blast
qed

theorem rank_moves_only_measured_witness:
  "rank [ex_cand ''a'', ex_cand ''u'', ex_cand ''b''] (Some ex_latency) ! 1 = ex_cand ''u'' \<and>
   (\<exists>a b. ranking_for ex_latency (rank [ex_cand ''a'', ex_cand ''u'', ex_cand ''b''] (Some ex_latency) ! 0) = Some a \<and>
     ranking_for ex_latency (rank [ex_cand ''a'', ex_cand ''u'', ex_cand ''b''] (Some ex_latency) ! 2) = Some b \<and> a \<le> b)"
proof -
  let ?c = "[ex_cand ''a'', ex_cand ''u'', ex_cand ''b'']"
  have r: "ranking_for ex_latency (?c ! 1) = None" "ranking_for ex_latency (?c ! 0) \<noteq> None" "ranking_for ex_latency (?c ! 2) \<noteq> None" by code_simp+
  note th = rank_moves_only_measured [of ?c ex_latency]
  have "rank ?c (Some ex_latency) ! 1 = ?c ! 1" using th [THEN conjunct2, THEN conjunct1, rule_format, OF _ r(1)] by simp
  moreover note th [THEN conjunct2, THEN conjunct2, rule_format, of 2 0, OF _ _ conjI [OF r(2,3)]]
  ultimately show ?thesis by simp
qed

text \<open>Without a pin, \<open>auto\<close> offers every open model exactly once; a named slot offers its own
  candidates and then every open model it does not have itself, and with no latency evidence in exactly
  that order. The request fails only for a slot the table does not have.\<close>

theorem candidates_cover_fleet:
  "(\<exists>chain. candidates r AUTO None latency = Inr chain \<and> distinct (map ms_key chain) \<and> ms_key ` set chain = open_models r) \<and>
   (requested \<noteq> AUTO \<longrightarrow>
     (case reg_candidates r requested of
        Inl e \<Rightarrow> candidates r requested None latency = Inl e
      | Inr named \<Rightarrow> (\<exists>rest. candidates r requested None None = Inr (named @ rest) \<and> distinct (map ms_key rest) \<and>
          ms_key ` set rest = open_models r - ms_key ` set named \<and>
          (\<exists>chain. candidates r requested None latency = Inr chain \<and> mset chain = mset (named @ rest)))))"
proof -
  obtain fl where fl: "fleet r = Inr fl" using fleet_total by blast
  note p = fleet_props [OF fl]
  have "mset (rank fl latency) = mset fl" by (rule rank_perm)
  then have "distinct (map ms_key (rank fl latency))" "set (rank fl latency) = set fl"
    using p(1) by (metis mset_eq_imp_distinct_iff mset_map, metis set_mset_mset)
  then have auto_case: "\<exists>chain. candidates r AUTO None latency = Inr chain \<and> distinct (map ms_key chain) \<and> ms_key ` set chain = open_models r"
    using fl p(2) by (auto simp: candidates_def)
  let ?rest = "\<lambda>named. filter (\<lambda>s. ms_key s \<notin> ms_key ` set named) fl"
  have "distinct (map ms_key (?rest named))" "ms_key ` set (?rest named) = open_models r - ms_key ` set named" for named
    by (simp add: distinct_map_filter p(1), auto simp: p(2) [symmetric]) (metis image_eqI)
  then show ?thesis using auto_case fl rank_perm
    by (auto simp: candidates_def rank_def [of _ None] split: sum.splits)
qed

theorem candidates_cover_fleet_witness:
  "\<exists>rest. candidates ex_registry ''general'' None None = Inr ([ex_cand ''m''] @ rest)"
proof -
  have n: "reg_candidates ex_registry ''general'' = Inr [ex_cand ''m'']" by code_simp
  have "''general'' \<noteq> AUTO" by (simp add: AUTO_def)
  with candidates_cover_fleet [of ex_registry None "''general''"] n show ?thesis by auto
qed

lemma resolve_pin_in_props:
  assumes "set sl \<subseteq> set (slots r)"
  shows "(case resolve_pin_in r p sl of
      Inr s \<Rightarrow> spec_id s = p \<and> (\<exists>slot\<in>set sl. s \<in> set (the (map_of (pr_specs r) slot)))
    | Inl e \<Rightarrow> e = UnknownSlot \<and> (\<forall>slot\<in>set sl. \<forall>s\<in>set (the (map_of (pr_specs r) slot)). spec_id s \<noteq> p))"
  using assms
proof (induction sl)
  case (Cons slot sl)
  let ?ss = "the (map_of (pr_specs r) slot)"
  have known: "reg_candidates r slot = Inr ?ss" using slots_known Cons.prems by simp
  show ?case
  proof (cases "List.find (\<lambda>s. spec_id s = p) ?ss")
    case None
    then have "\<forall>s\<in>set ?ss. spec_id s \<noteq> p" by (simp add: find_None_iff)
    with Cons None known show ?thesis by (auto split: sum.splits)
  next
    case (Some s)
    then show ?thesis using known find_Some_in [OF Some] by auto
  qed
qed simp

text \<open>A pinned conversation gets exactly the model its pin names, whatever slot was requested and
  whatever was measured, as long as a client-facing slot still has that model; otherwise the request is
  refused and never served by another model.\<close>

theorem pin_is_obeyed_or_refused:
  "case candidates r requested (Some p) latency of
     Inr chain \<Rightarrow> (\<exists>s. chain = [s] \<and> spec_id s = p \<and> (\<exists>slot\<in>set (slots r). s \<in> set (the (map_of (pr_specs r) slot))))
   | Inl e \<Rightarrow> e = UnknownSlot \<and> (\<forall>slot\<in>set (slots r). \<forall>s\<in>set (the (map_of (pr_specs r) slot)). spec_id s \<noteq> p)"
  using resolve_pin_in_props [of "slots r" r p]
  by (auto simp: candidates_def resolve_pin_def ebind_def split: sum.splits)

theorem pin_is_obeyed_or_refused_witness:
  "candidates ex_registry ''other'' (Some ''groq/gone'') None = Inl UnknownSlot \<and>
   list_all (\<lambda>s. spec_id s \<noteq> ''groq/gone'') (the (map_of (pr_specs ex_registry) ''general''))"
proof -
  have "case candidates ex_registry ''other'' (Some ''groq/gone'') None of Inl _ \<Rightarrow> True | Inr _ \<Rightarrow> False" by code_simp
  then obtain e where e: "candidates ex_registry ''other'' (Some ''groq/gone'') None = Inl e" by (auto split: sum.splits)
  have g: "''general'' \<in> set (slots ex_registry)" by code_simp
  from pin_is_obeyed_or_refused [of ex_registry "''groq/gone''" "''other''" None] e g show ?thesis by (auto simp: list_all_iff)
qed

lemma registry_keys_domain:
  assumes "registry_keys settings ps = Inr ks" "distinct (map fst ps)"
  shows "p \<in> set (map fst ks) \<longleftrightarrow> (\<exists>e. map_of ps p = Some e \<and> pv_enabled e)"
  using assms
proof (induction ps arbitrary: ks)
  case (Cons pe ps)
  obtain q e where pe: "pe = (q, e)" by fastforce
  have q: "map_of ps q = None" using Cons.prems pe by (auto simp: map_of_eq_None_iff)
  show ?case
  proof (cases "pv_enabled e")
    case True
    then obtain k ks' where "registry_keys settings ps = Inr ks'" "ks = (q, k) # ks'" using Cons.prems pe by (auto simp: ebind_Inr_iff)
    with Cons.IH [OF this(1)] Cons.prems(2) pe True q show ?thesis by auto
  next
    case False
    then have "registry_keys settings ps = Inr ks" using Cons.prems pe by simp
    with Cons.IH [OF this] Cons.prems(2) pe False q show ?thesis by auto
  qed
qed simp

lemma registry_keys_set:
  "registry_keys settings ps = Inr ks \<Longrightarrow> (p, k) \<in> set ks \<Longrightarrow> \<not> list_all isspace k"
  by (induction ps arbitrary: ks)
    (auto simp: ebind_Inr_iff resolve_system_key_def split: if_splits option.splits setting.splits)

text \<open>A registry that boots is sound: slot names are distinct and every slot has a candidate; priorities
  number the candidates without gaps; two specs of one model reserve the same fraction for perception;
  and every candidate's provider is enabled, has an adapter and a credential that is not blank.\<close>

theorem registry_boots_sound:
  assumes "config_valid c" "build_registry c settings = Inr r"
  shows "registry_ok r \<and> pr_specs r \<noteq> [] \<and>
    (\<forall>(name, ss)\<in>set (pr_specs r). map ms_priority ss = [0..<length ss] \<and>
       (\<forall>s\<in>set ss. provider_enabled c (ms_provider s) \<and> adapter_for r (ms_provider s) = Inr (ms_provider s) \<and>
          (\<exists>k. system_key r (ms_provider s) = Inr k \<and> \<not> list_all isspace k))) \<and>
    (\<forall>s\<in>set (concat (map snd (pr_specs r))). \<forall>s'\<in>set (concat (map snd (pr_specs r))).
       ms_key s = ms_key s' \<longrightarrow> ms_reserved_fraction s = ms_reserved_fraction s')"
proof -
  have t: "slot_specs c (pc_slots c) = Inr (pr_specs r)" "fractions_agree Map.empty (concat (map snd (pr_specs r))) = Inr ()"
    using build_registry_specs [OF assms(2)] by (auto simp: build_model_specs_def ebind_Inr_iff)
  obtain ks where ks: "registry_keys settings (pc_providers c) = Inr ks" "pr_adapters r = map fst ks" "pr_keys r = ks"
    using assms(2) by (auto simp: build_registry_def ebind_Inr_iff split: if_splits)
  have dp: "distinct (map fst (pc_providers c))" using assms(1) by (simp add: config_valid_def)
  note keys = registry_keys_domain [OF ks(1) dp] registry_keys_set [OF ks(1)]
  have prov: "adapter_for r p = Inr p \<and> (\<exists>k. system_key r p = Inr k \<and> \<not> list_all isspace k)" if "provider_enabled c p" for p
  proof -
    have "p \<in> set (map fst ks)" using that keys(1) by (auto simp: provider_enabled_def split: option.splits)
    then obtain k where k: "map_of ks p = Some k" by (metis map_of_eq_None_iff not_None_eq set_map)
    then show ?thesis using keys(2) [OF map_of_SomeD [OF k]] \<open>p \<in> set (map fst ks)\<close> ks by (auto simp: adapter_for_def system_key_def)
  qed
  have entry: "map ms_priority ss = [0..<length ss] \<and> (\<forall>s\<in>set ss. provider_enabled c (ms_provider s))" if e: "(name, ss) \<in> set (pr_specs r)" for name ss
  proof -
    obtain slot :: Slot where sl: "specs_from name 0 (filter (\<lambda>k. provider_enabled c (ca_provider k)) (sl_candidates slot)) = Inr ss"
      using slot_specs_entry [OF t(1) e] by blast
    let ?cs = "filter (\<lambda>k. provider_enabled c (ca_provider k)) (sl_candidates slot)"
    have each: "length ss = length ?cs" "\<forall>i<length ?cs. spec_of name i (?cs ! i) = Inr (ss ! i)" using specs_from_props [OF sl] by simp_all
    have "map ms_priority ss = [0..<length ss]" using each spec_of_slot by (intro nth_equalityI) auto
    moreover have "provider_enabled c (ms_provider s)" if "s \<in> set ss" for s
    proof -
      obtain i where i: "i < length ss" "ss ! i = s" using \<open>s \<in> set ss\<close> by (auto simp: in_set_conv_nth)
      then have "ms_provider s = ca_provider (?cs ! i)" using each spec_of_slot by metis
      moreover have "?cs ! i \<in> set ?cs" using i each(1) nth_mem by metis
      ultimately show ?thesis by auto
    qed
    ultimately show ?thesis by blast
  qed
  have "pr_specs r \<noteq> []" using build_registry_specs [OF assms(2)] by blast
  with build_registry_ok [OF assms] entry prov fractions_agree_sound(2) [OF t(2)] show ?thesis by fast
qed

theorem registry_boots_sound_witness:
  "\<exists>r. build_registry ex_config (\<lambda>_. Some (Secret ''x'')) = Inr r \<and> registry_ok r \<and> pr_specs r \<noteq> []"
proof -
  have v: "config_valid ex_config" by code_simp
  have "case build_registry ex_config (\<lambda>_. Some (Secret ''x'')) of Inr _ \<Rightarrow> True | Inl _ \<Rightarrow> False" by code_simp
  then obtain r where "build_registry ex_config (\<lambda>_. Some (Secret ''x'')) = Inr r" by (auto split: sum.splits)
  with registry_boots_sound [OF v this] show ?thesis by blast
qed

end
