(* ===== verification/Gw_Router.thy ===== *)
theory Gw_Router
  imports Gw_Quota Gw_Breaker Gw_Selection
begin

text \<open>
  The failover loops (\<^verbatim>\<open>app/routing/router.py\<close>): \<^verbatim>\<open>route\<close> and its streaming twin \<^verbatim>\<open>route_stream\<close>. The
  two Python functions share every decision and differ in how one attempt talks to the upstream, so
  they share the loop here, with the mode as an argument.

  What the loop cannot compute is a parameter of the environment \<open>renv\<close>: the readings of the clock, the
  identifiers drawn, the credentials resolved, the rendered payloads (the history and the generation
  parameters do not change within a call), the random jitter, and what the upstream answers to the
  \<open>n\<close>-th request that leaves the process. The breaker, the quota tracker and the latency table are the
  models of the other theories, on the Redis connection held in the state. A generator is the list of
  the events it yields; a consumer that closes it early is not modelled.
\<close>

subsection \<open>Data\<close>

record RenderReport =
  rr_messages_dropped :: nat
  rr_documents_truncated :: nat
  rr_estimated_tokens :: int
  rr_attachments_native :: nat
  rr_attachments_injected :: nat
  rr_degraded :: bool
  rr_extraction_tier :: "extraction_tier option"

record ResolvedKey =
  rk_provider :: string
  rk_key :: string
  rk_pool :: key_pool
  rk_scope :: string
  rk_key_id :: "string option"
  rk_shared_daily_cap :: "int option"
  rk_user_id :: "string option"

datatype AttemptOutcome = At_ok | At_error | At_skipped_breaker | At_skipped_quota

record AttemptRecord =
  ar_n :: nat
  ar_slot :: string
  ar_provider :: string
  ar_model :: string
  ar_outcome :: AttemptOutcome
  ar_error_code :: "string option"
  ar_latency_ms :: int
  ar_wasted_tokens_out :: nat
  ar_breaker :: BreakerState
  ar_retry_after_s :: "pyfloat option"
  ar_blocked_window :: "QuotaWindow option"
  ar_key_pool :: "key_pool option"

record RouterOutcome =
  ro_spec :: ModelSpec
  ro_completion :: Completion
  ro_report :: RenderReport
  ro_trail :: "AttemptRecord list"
  ro_attempts :: nat
  ro_latency_ms :: int
  ro_key_pool :: key_pool

record StreamCompleted =
  so_spec :: ModelSpec
  so_usage :: Usage
  so_finish_reason :: string
  so_report :: RenderReport
  so_trail :: "AttemptRecord list"
  so_attempts :: nat
  so_latency_ms :: int
  so_ttft_ms :: int
  so_wasted_tokens_out :: nat
  so_key_pool :: key_pool

datatype RouteStreamEvent =
    AttemptStarted nat ModelSpec
  | AttemptDelta string
  | AttemptAborted nat ModelSpec ProviderError nat nat
  | StreamDone StreamCompleted

record RoutingFailed =
  rf_error :: ProviderError
  rf_spec :: "ModelSpec option"
  rf_trail :: "AttemptRecord list"
  rf_attempts :: nat
  rf_latency_ms :: int
  rf_wasted_tokens_out :: nat
  rf_key_pool :: "key_pool option"

definition MAX_ATTEMPTS :: nat where "MAX_ATTEMPTS = 3"
definition MAX_SAME_PROVIDER_RETRIES :: nat where "MAX_SAME_PROVIDER_RETRIES = 1"
definition RETRY_BASE_DELAY_S :: pyfloat where "RETRY_BASE_DELAY_S = 1/4"
definition RETRY_MAX_DELAY_S :: pyfloat where "RETRY_MAX_DELAY_S = 2"
definition DISCARDED_CHARS_PER_TOKEN :: nat where "DISCARDED_CHARS_PER_TOKEN = 4"

text \<open>One item of an upstream stream: a chunk, a provider error raised in its place, or a timeout.\<close>

datatype upstream = UChunk StreamChunk | UFault ProviderError | UTimeout

record ('r, 'p) renv =
  en_redis :: "'r redis"
  en_registry :: ProviderRegistry
  en_breaker :: CircuitBreaker
  en_quota :: "QuotaTracker option"
  en_context_id :: "string option"
  en_clock :: "nat \<Rightarrow> instant"
  en_uuid :: "nat \<Rightarrow> string"
  en_resolve :: "string \<Rightarrow> string \<Rightarrow> ResolvedKey exn"
  en_render :: "ModelSpec \<Rightarrow> (ProviderError + 'p \<times> RenderReport) exn"
  en_complete :: "nat \<Rightarrow> 'p \<Rightarrow> string \<Rightarrow> (ProviderError + Completion) \<times> QuotaHint option"
  en_stream :: "nat \<Rightarrow> 'p \<Rightarrow> string \<Rightarrow> upstream list \<times> QuotaHint option"
  en_jitter :: "nat \<Rightarrow> pyfloat \<Rightarrow> pyfloat"
  en_max_attempts :: nat
  en_rank_by_latency :: bool

record 'r rstate =
  rs_world :: "'r world"
  rs_ticks :: nat
  rs_calls :: nat
  rs_uuids :: nat
  rs_metrics :: "LatencyTable option"
  rs_hint :: "QuotaHint option"
  rs_auth_failures :: "ResolvedKey list"
  rs_sleeps :: "pyfloat list"

text \<open>The local variables of a loop.\<close>

record locals =
  lo_trail :: "AttemptRecord list"
  lo_attempts :: nat
  lo_wasted :: nat
  lo_events :: "RouteStreamEvent list"
  lo_last_error :: "ProviderError option"
  lo_last_spec :: "ModelSpec option"
  lo_last_key_pool :: "key_pool option"

subsection \<open>Actions\<close>

type_synonym ('r, 'a) act = "'r rstate \<Rightarrow> 'a exn \<times> 'r rstate"

definition abind :: "('r, 'a) act \<Rightarrow> ('a \<Rightarrow> ('r, 'b) act) \<Rightarrow> ('r, 'b) act" where
  "abind m f s = (case m s of (Inl e, s') \<Rightarrow> (Inl e, s') | (Inr x, s') \<Rightarrow> f x s')"

definition areturn :: "'a \<Rightarrow> ('r, 'a) act" where
  "areturn x s = (Inr x, s)"

definition alift :: "'a exn \<Rightarrow> ('r, 'a) act" where
  "alift x s = (x, s)"

definition on_world :: "('r world \<Rightarrow> 'a exn \<times> 'r world) \<Rightarrow> ('r, 'a) act" where
  "on_world f s = (let (x, w) = f (rs_world s) in (x, s\<lparr>rs_world := w\<rparr>))"

definition clock_now :: "('r, 'p) renv \<Rightarrow> ('r, instant) act" where
  "clock_now env s = (Inr (en_clock env (rs_ticks s)), s\<lparr>rs_ticks := Suc (rs_ticks s)\<rparr>)"

text \<open>A breaker call reads the clock up to three times.\<close>

definition breaker_clock :: "('r, 'p) renv \<Rightarrow> ('r, nat \<Rightarrow> instant) act" where
  "breaker_clock env s = (Inr (\<lambda>i. en_clock env (rs_ticks s + i)), s\<lparr>rs_ticks := rs_ticks s + 3\<rparr>)"

definition elapsed_ms :: "('r, 'p) renv \<Rightarrow> instant \<Rightarrow> ('r, int) act" where
  "elapsed_ms env since = abind (clock_now env) (\<lambda>now. areturn (py_int_of_float ((now - since) * 1000)))"

subsection \<open>Helpers\<close>

definition extra_grants :: "ModelSpec \<Rightarrow> ResolvedKey \<Rightarrow> WindowGrant list exn" where
  "extra_grants spec resolved =
    (if rk_pool resolved \<noteq> Shared then Inr []
     else case rk_shared_daily_cap resolved of None \<Rightarrow> Inr []
       | Some c \<Rightarrow> (case rk_user_id resolved of None \<Rightarrow> Inr []
           | Some u \<Rightarrow> shared_pool_grants spec u (Some c)))"

definition reconcile_hint :: "('r, 'p) renv \<Rightarrow> ModelSpec \<Rightarrow> string \<Rightarrow> ('r, unit) act" where
  "reconcile_hint env spec scope s =
    (let s1 = s\<lparr>rs_hint := None\<rparr>
     in case (en_quota env, rs_hint s) of
          (Some qt, Some hint) \<Rightarrow> abind (clock_now env) (\<lambda>now.
            on_world (apply_hint (en_redis env) qt now spec scope hint)) s1
        | _ \<Rightarrow> (Inr (), s1))"

definition estimate_discarded_tokens :: "nat \<Rightarrow> nat" where
  "estimate_discarded_tokens chars = chars div DISCARDED_CHARS_PER_TOKEN"

definition retry_would_starve_failover :: "nat \<Rightarrow> nat \<Rightarrow> nat \<Rightarrow> bool" where
  "retry_would_starve_failover attempts max_attempts candidates_remaining \<longleftrightarrow>
     int attempts \<ge> int max_attempts - 1 \<and> candidates_remaining > 0"

text \<open>The ceiling of the \<open>k\<close>-th retry's delay; the delay itself is drawn below it.\<close>

definition retry_ceiling :: "nat \<Rightarrow> pyfloat" where
  "retry_ceiling k = min RETRY_MAX_DELAY_S (RETRY_BASE_DELAY_S * 2 ^ (k - 1))"

definition sleep_for_retry :: "('r, 'p) renv \<Rightarrow> nat \<Rightarrow> ('r, unit) act" where
  "sleep_for_retry env k s = (Inr (), s\<lparr>rs_sleeps := rs_sleeps s @ [en_jitter env (length (rs_sleeps s)) (retry_ceiling k)]\<rparr>)"

definition all_skipped :: "ModelSpec list \<Rightarrow> AttemptRecord list \<Rightarrow> ProviderError" where
  "all_skipped chain trail =
    (let quota_skips = filter (\<lambda>r. ar_outcome r = At_skipped_quota) trail
     in case quota_skips of
          first # _ \<Rightarrow> \<lparr>pe_class = RateLimited (min_default (List.map_filter ar_retry_after_s quota_skips)),
             pe_provider = ar_provider first, pe_model = ar_model first, pe_status_code = None\<rparr>
        | [] \<Rightarrow> \<lparr>pe_class = Unavailable,
             pe_provider = (case chain of [] \<Rightarrow> ''none'' | c # _ \<Rightarrow> ms_provider c),
             pe_model = (case chain of [] \<Rightarrow> ''none'' | c # _ \<Rightarrow> ms_model c), pe_status_code = None\<rparr>)"

text \<open>The trail grows at its end; \<open>n\<close> numbers its events.\<close>

definition trail_entry :: "locals \<Rightarrow> ModelSpec \<Rightarrow> AttemptOutcome \<Rightarrow> string option \<Rightarrow> int \<Rightarrow> nat \<Rightarrow> BreakerState
    \<Rightarrow> pyfloat option \<Rightarrow> QuotaWindow option \<Rightarrow> key_pool option \<Rightarrow> locals" where
  "trail_entry lo spec outcome code latency wasted state retry window pool =
     lo\<lparr>lo_trail := lo_trail lo @ [\<lparr>ar_n = length (lo_trail lo) + 1, ar_slot = ms_slot spec,
       ar_provider = ms_provider spec, ar_model = ms_model spec, ar_outcome = outcome, ar_error_code = code,
       ar_latency_ms = latency, ar_wasted_tokens_out = wasted, ar_breaker = state, ar_retry_after_s = retry,
       ar_blocked_window = window, ar_key_pool = pool\<rparr>]\<rparr>"

subsection \<open>What to do after a failed attempt\<close>

datatype next_move = Refit int | RetrySame | FailOver | Abort

definition next_move_after :: "nat \<Rightarrow> nat \<Rightarrow> nat \<Rightarrow> bool \<Rightarrow> nat \<Rightarrow> nat \<Rightarrow> error_class \<Rightarrow> next_move" where
  "next_move_after attempts max_attempts left refit_used retries_used delivered exc =
    (let give_up = (if failover_eligible exc then FailOver else Abort);
         consider_retry = (\<lambda>retryable.
           if retryable \<and> retries_used < MAX_SAME_PROVIDER_RETRIES \<and>
              \<not> retry_would_starve_failover attempts max_attempts left
           then RetrySame else give_up)
     in case exc of
          ContextTooLong limit \<Rightarrow>
            (case limit of
               Some l \<Rightarrow> if delivered = 0 \<and> \<not> refit_used \<and> attempts < max_attempts then Refit l
                          else consider_retry False
             | None \<Rightarrow> consider_retry False)
        | _ \<Rightarrow> consider_retry (retryable_same_provider exc \<and> \<not> delivered > 0))"

subsection \<open>One attempt\<close>

text \<open>What an attempt delivered: a completion, or a finished stream.\<close>

datatype delivered = Completed Completion | Streamed "Usage option" string "int option" nat

text \<open>How the \<^verbatim>\<open>try\<close> block of one attempt ends: refused by quota; a provider error, with the reservation
  held, the characters delivered before it and whether the request had left; or an answer.\<close>

datatype try_end =
    QuotaSkip QuotaDecision
  | Fault ProviderError "Reservation option" nat
  | Answer RenderReport "Reservation option" delivered

text \<open>The state of the chunk loop.\<close>

record chunk_state =
  ck_delivered :: nat
  ck_ttft_ms :: "int option"
  ck_usage :: "Usage option"
  ck_finish :: string
  ck_deltas :: "string list"

definition take_chunk :: "StreamChunk \<Rightarrow> int option \<Rightarrow> chunk_state \<Rightarrow> chunk_state" where
  "take_chunk c ttft ck = ck\<lparr>ck_ttft_ms := ttft,
     ck_usage := (case sc_usage c of None \<Rightarrow> ck_usage ck | Some u \<Rightarrow> Some u),
     ck_finish := (case sc_finish_reason c of Some (x # xs) \<Rightarrow> x # xs | _ \<Rightarrow> ck_finish ck),
     ck_delivered := ck_delivered ck + length (sc_delta c),
     ck_deltas := (if sc_delta c \<noteq> [] then ck_deltas ck @ [sc_delta c] else ck_deltas ck)\<rparr>"

fun consume :: "('r, 'p) renv \<Rightarrow> ModelSpec \<Rightarrow> instant \<Rightarrow> upstream list \<Rightarrow> chunk_state \<Rightarrow> ('r, ProviderError option \<times> chunk_state) act" where
  "consume env spec t0 [] ck = areturn (None, ck)"
| "consume env spec t0 (UTimeout # us) ck = areturn (Some \<lparr>pe_class = Unavailable, pe_provider = ms_provider spec,
     pe_model = ms_model spec, pe_status_code = None\<rparr>, ck)"
| "consume env spec t0 (UFault exc # us) ck = areturn (Some exc, ck)"
| "consume env spec t0 (UChunk c # us) ck =
    abind (case ck_ttft_ms ck of None \<Rightarrow> abind (elapsed_ms env t0) (\<lambda>ms. areturn (Some ms)) | Some ms \<Rightarrow> areturn (Some ms))
      (\<lambda>ttft. consume env spec t0 us (take_chunk c ttft ck))"

text \<open>The upstream answers the \<open>n\<close>-th request; the adapter publishes the hint of its response, if any.\<close>

definition call_complete :: "('r, 'p) renv \<Rightarrow> 'p \<Rightarrow> string \<Rightarrow> ('r, ProviderError + Completion) act" where
  "call_complete env payload key s =
    (let (r, hint) = en_complete env (rs_calls s) payload key
     in (Inr r, s\<lparr>rs_calls := Suc (rs_calls s), rs_hint := (case hint of None \<Rightarrow> rs_hint s | Some h \<Rightarrow> Some h)\<rparr>))"

definition call_stream :: "('r, 'p) renv \<Rightarrow> 'p \<Rightarrow> string \<Rightarrow> ('r, upstream list) act" where
  "call_stream env payload key s =
    (let (us, hint) = en_stream env (rs_calls s) payload key
     in (Inr us, s\<lparr>rs_calls := Suc (rs_calls s), rs_hint := (case hint of None \<Rightarrow> rs_hint s | Some h \<Rightarrow> Some h)\<rparr>))"

text \<open>The reservation: none without a tracker, otherwise granted or refused.\<close>

definition reserve_for :: "('r, 'p) renv \<Rightarrow> ModelSpec \<Rightarrow> ResolvedKey \<Rightarrow> RenderReport \<Rightarrow> ('r, QuotaDecision + Reservation option) act" where
  "reserve_for env spec resolved report =
    (case en_quota env of None \<Rightarrow> areturn (Inr None)
     | Some qt \<Rightarrow> abind (alift (extra_grants spec resolved)) (\<lambda>extra.
         abind (clock_now env) (\<lambda>now.
         abind (\<lambda>s. (Inr (en_uuid env (rs_uuids s)), s\<lparr>rs_uuids := Suc (rs_uuids s)\<rparr>)) (\<lambda>uuid.
         abind (on_world (reserve (en_redis env) qt now spec (rk_scope resolved) (rr_estimated_tokens report) uuid extra)) (\<lambda>d.
           areturn (if \<not> qd_allowed d then Inl d else Inr (qd_reservation d)))))))"

definition settle :: "('r, 'p) renv \<Rightarrow> Reservation option \<Rightarrow> int \<Rightarrow> int \<Rightarrow> ('r, unit) act" where
  "settle env reservation tokens_in tokens_out =
    (case (en_quota env, reservation) of
       (Some qt, Some r) \<Rightarrow> abind (clock_now env) (\<lambda>now. on_world (commit (en_redis env) qt now r tokens_in tokens_out))
     | _ \<Rightarrow> areturn ())"

text \<open>Render, reserve, count the attempt, send it.\<close>

definition send_attempt :: "('r, 'p) renv \<Rightarrow> RoutingMode \<Rightarrow> ModelSpec \<Rightarrow> ResolvedKey \<Rightarrow> instant \<Rightarrow> 'p \<Rightarrow> RenderReport
    \<Rightarrow> Reservation option \<Rightarrow> locals \<Rightarrow> ('r, try_end \<times> locals) act" where
  "send_attempt env mode spec resolved t0 payload report reservation lo =
    (let lo1 = lo\<lparr>lo_attempts := Suc (lo_attempts lo)\<rparr>
     in case mode of
          COMPLETE \<Rightarrow> abind (call_complete env payload (rk_key resolved)) (\<lambda>r. areturn
            ((case r of Inl exc \<Rightarrow> Fault exc reservation 0 | Inr c \<Rightarrow> Answer report reservation (Completed c)), lo1))
        | STREAM \<Rightarrow> abind (call_stream env payload (rk_key resolved)) (\<lambda>us.
            abind (consume env spec t0 us \<lparr>ck_delivered = 0, ck_ttft_ms = None, ck_usage = None, ck_finish = ''stop'', ck_deltas = []\<rparr>)
             (\<lambda>(fault, ck).
               let lo2 = lo1\<lparr>lo_events := lo_events lo1 @ AttemptStarted (lo_attempts lo1) spec # map AttemptDelta (ck_deltas ck)\<rparr>
               in areturn (case fault of
                    Some exc \<Rightarrow> Fault exc reservation (ck_delivered ck)
                  | None \<Rightarrow> if ck_delivered ck = 0
                      then Fault \<lparr>pe_class = EmptyResponse, pe_provider = ms_provider spec, pe_model = ms_model spec,
                                  pe_status_code = None\<rparr> reservation 0
                      else Answer report reservation (Streamed (ck_usage ck) (ck_finish ck) (ck_ttft_ms ck) (ck_delivered ck)), lo2))))"

definition try_block :: "('r, 'p) renv \<Rightarrow> RoutingMode \<Rightarrow> ModelSpec \<Rightarrow> ResolvedKey \<Rightarrow> instant \<Rightarrow> locals \<Rightarrow> ('r, try_end \<times> locals) act" where
  "try_block env mode spec resolved t0 lo =
    abind (alift (en_render env spec)) (\<lambda>r. case r of
      Inl exc \<Rightarrow> areturn (Fault exc None 0, lo)
    | Inr (payload, report) \<Rightarrow> abind (reserve_for env spec resolved report) (\<lambda>res. case res of
          Inl d \<Rightarrow> areturn (QuotaSkip d, lo)
        | Inr reservation \<Rightarrow> send_attempt env mode spec resolved t0 payload report reservation lo))"

text \<open>The bookkeeping of a failed attempt, up to the point where the loop decides what to do.\<close>

definition after_fault :: "('r, 'p) renv \<Rightarrow> RoutingMode \<Rightarrow> BreakerDecision \<Rightarrow> ModelSpec \<Rightarrow> ResolvedKey \<Rightarrow> instant \<Rightarrow> ProviderError
    \<Rightarrow> Reservation option \<Rightarrow> nat \<Rightarrow> locals \<Rightarrow> ('r, locals) act" where
  "after_fault env mode decision spec resolved t0 exc reservation delivered lo =
    (let wasted = estimate_discarded_tokens delivered
     in abind (elapsed_ms env t0) (\<lambda>latency.
        abind (settle env reservation 0 (int wasted)) (\<lambda>_.
        abind (reconcile_hint env spec (rk_scope resolved)) (\<lambda>_.
        abind (\<lambda>s. (Inr (), if pe_class exc = AuthFailed \<and> rk_pool resolved = Private
                             then s\<lparr>rs_auth_failures := rs_auth_failures s @ [resolved]\<rparr> else s)) (\<lambda>_.
          let lo1 = trail_entry (lo\<lparr>lo_wasted := lo_wasted lo + wasted, lo_last_error := Some exc, lo_last_spec := Some spec,
                      lo_last_key_pool := Some (rk_pool resolved)\<rparr>)
                      spec At_error (Some (error_code (pe_class exc))) latency wasted (bd_state decision) None None (Some (rk_pool resolved))
          in areturn (if mode = STREAM
               then lo1\<lparr>lo_events := lo_events lo1 @ [AttemptAborted (lo_attempts lo1) spec exc delivered wasted]\<rparr> else lo1))))))"

datatype served = ServedComplete RouterOutcome | ServedStream StreamCompleted

definition usage_of :: "RenderReport \<Rightarrow> delivered \<Rightarrow> Usage" where
  "usage_of report d = (case d of Completed c \<Rightarrow> cp_usage c
     | Streamed (Some u) _ _ _ \<Rightarrow> u
     | Streamed None _ _ chars \<Rightarrow> \<lparr>us_tokens_in = rr_estimated_tokens report,
         us_tokens_out = int (estimate_discarded_tokens chars), us_estimated = True\<rparr>)"

definition first_token_ms :: "delivered \<Rightarrow> int \<Rightarrow> int" where
  "first_token_ms d latency = (case d of Streamed _ _ (Some ms) _ \<Rightarrow> ms | _ \<Rightarrow> latency)"

definition after_answer :: "('r, 'p) renv \<Rightarrow> RoutingMode \<Rightarrow> BreakerDecision \<Rightarrow> ModelSpec \<Rightarrow> ResolvedKey \<Rightarrow> instant \<Rightarrow> instant \<Rightarrow> RenderReport
    \<Rightarrow> Reservation option \<Rightarrow> delivered \<Rightarrow> locals \<Rightarrow> ('r, served \<times> locals) act" where
  "after_answer env mode decision spec resolved started t0 report reservation d lo =
    (let u = usage_of report d
     in abind (elapsed_ms env t0) (\<lambda>latency.
        abind (settle env reservation (us_tokens_in u) (us_tokens_out u)) (\<lambda>_.
        abind (reconcile_hint env spec (rk_scope resolved)) (\<lambda>_.
        abind (on_world (record_success (en_redis env) (en_breaker env) decision)) (\<lambda>_.
        abind (\<lambda>s. (Inr (), s\<lparr>rs_metrics := map_option (\<lambda>t. lt_record t (ms_provider spec) (ms_model spec) mode
                     (of_int (if mode = STREAM then first_token_ms d latency else latency))) (rs_metrics s)\<rparr>)) (\<lambda>_.
        abind (elapsed_ms env started) (\<lambda>total.
          let lo1 = trail_entry lo spec At_ok None latency 0 (bd_state decision) None None (Some (rk_pool resolved))
          in areturn (case d of
               Completed c \<Rightarrow> (ServedComplete \<lparr>ro_spec = spec, ro_completion = c, ro_report = report, ro_trail = lo_trail lo1,
                   ro_attempts = lo_attempts lo1, ro_latency_ms = total, ro_key_pool = rk_pool resolved\<rparr>, lo1)
             | Streamed _ finish _ _ \<Rightarrow>
                 (let done = \<lparr>so_spec = spec, so_usage = u, so_finish_reason = finish, so_report = report, so_trail = lo_trail lo1,
                     so_attempts = lo_attempts lo1, so_latency_ms = total, so_ttft_ms = first_token_ms d latency,
                     so_wasted_tokens_out = lo_wasted lo1, so_key_pool = rk_pool resolved\<rparr>
                  in (ServedStream done, lo1\<lparr>lo_events := lo_events lo1 @ [StreamDone done]\<rparr>))))))))))"

subsection \<open>The loops\<close>

definition routing_failed :: "('r, 'p) renv \<Rightarrow> instant \<Rightarrow> ProviderError \<Rightarrow> ModelSpec option \<Rightarrow> key_pool option \<Rightarrow> locals \<Rightarrow> ('r, RoutingFailed) act" where
  "routing_failed env started exc spec pool lo = abind (elapsed_ms env started) (\<lambda>total. areturn
     \<lparr>rf_error = exc, rf_spec = spec, rf_trail = lo_trail lo, rf_attempts = lo_attempts lo, rf_latency_ms = total,
      rf_wasted_tokens_out = lo_wasted lo, rf_key_pool = pool\<rparr>)"

text \<open>How one pass of the inner \<^verbatim>\<open>while\<close> ends: another pass on the same candidate, the next candidate, or
  the end of the call.\<close>

datatype pass_end = AgainRefit ModelSpec locals | AgainRetry locals | NextCandidate locals
  | Failed RoutingFailed locals | Served served locals

definition make_move :: "('r, 'p) renv \<Rightarrow> instant \<Rightarrow> BreakerDecision \<Rightarrow> nat \<Rightarrow> ModelSpec \<Rightarrow> bool \<Rightarrow> nat \<Rightarrow> key_pool \<Rightarrow> ProviderError \<Rightarrow> nat
    \<Rightarrow> locals \<Rightarrow> ('r, pass_end) act" where
  "make_move env started decision left spec refit_used retries_used pool exc chars lo =
    (let recorded = abind (breaker_clock env) (\<lambda>clk.
           on_world (record_failure (en_redis env) (en_breaker env) clk decision (pe_class exc)))
     in case next_move_after (lo_attempts lo) (en_max_attempts env) left refit_used retries_used chars (pe_class exc) of
          Refit limit \<Rightarrow> areturn (AgainRefit (spec\<lparr>ms_context_window := limit\<rparr>) lo)
        | RetrySame \<Rightarrow> abind (sleep_for_retry env (Suc retries_used)) (\<lambda>_. areturn (AgainRetry lo))
        | FailOver \<Rightarrow> abind recorded (\<lambda>_. areturn (NextCandidate lo))
        | Abort \<Rightarrow> abind recorded (\<lambda>_. abind (routing_failed env started exc (Some spec) (Some pool) lo) (\<lambda>f. areturn (Failed f lo))))"

definition end_pass :: "('r, 'p) renv \<Rightarrow> RoutingMode \<Rightarrow> instant \<Rightarrow> BreakerDecision \<Rightarrow> nat \<Rightarrow> ModelSpec \<Rightarrow> bool \<Rightarrow> nat \<Rightarrow> ResolvedKey \<Rightarrow> instant
    \<Rightarrow> try_end \<Rightarrow> locals \<Rightarrow> ('r, pass_end) act" where
  "end_pass env mode started decision left spec refit_used retries_used resolved t0 end lo = (case end of
      QuotaSkip d \<Rightarrow> areturn (NextCandidate (trail_entry lo spec At_skipped_quota None 0 0 (bd_state decision)
        (qd_retry_after_s d) (qd_blocked_window d) (Some (rk_pool resolved))))
    | Answer report reservation d \<Rightarrow>
        abind (after_answer env mode decision spec resolved started t0 report reservation d lo) (\<lambda>(sv, lo1). areturn (Served sv lo1))
    | Fault exc reservation chars \<Rightarrow>
        abind (after_fault env mode decision spec resolved t0 exc reservation chars lo) (\<lambda>lo1.
          make_move env started decision left spec refit_used retries_used (rk_pool resolved) exc chars lo1))"

definition one_pass :: "('r, 'p) renv \<Rightarrow> RoutingMode \<Rightarrow> instant \<Rightarrow> BreakerDecision \<Rightarrow> nat \<Rightarrow> ModelSpec \<Rightarrow> bool \<Rightarrow> nat \<Rightarrow> locals \<Rightarrow> ('r, pass_end) act" where
  "one_pass env mode started decision left spec refit_used retries_used lo =
    abind (clock_now env) (\<lambda>t0.
    abind (alift (adapter_for (en_registry env) (ms_provider spec))) (\<lambda>_.
    abind (alift (en_resolve env (ms_provider spec) (ms_model spec))) (\<lambda>resolved.
    abind (try_block env mode spec resolved t0 lo) (\<lambda>(end, lo1).
      end_pass env mode started decision left spec refit_used retries_used resolved t0 end lo1))))"

lemma abind_Inr: "abind m f s = (Inr y, s') \<longleftrightarrow> (\<exists>x s1. m s = (Inr x, s1) \<and> f x s1 = (Inr y, s'))"
  by (auto simp: abind_def split: prod.splits sum.splits)

lemma next_move_refit: "next_move_after a mx left refit k chars exc = Refit l \<Longrightarrow> \<not> refit \<and> a < mx \<and> chars = 0"
  by (auto simp: next_move_after_def Let_def split: error_class.splits option.splits if_splits)

lemma next_move_retry: "next_move_after a mx left refit k chars exc = RetrySame \<Longrightarrow>
    k = 0 \<and> (int a < int mx - 1 \<or> left = 0) \<and> chars = 0 \<and> retryable_same_provider exc"
  by (auto simp: next_move_after_def Let_def MAX_SAME_PROVIDER_RETRIES_def retry_would_starve_failover_def
      split: error_class.splits option.splits if_splits)

text \<open>The ways one pass can end.\<close>

definition fault_end :: "('r, 'p) renv \<Rightarrow> nat \<Rightarrow> ModelSpec \<Rightarrow> bool \<Rightarrow> nat \<Rightarrow> key_pool \<Rightarrow> ProviderError \<Rightarrow> nat \<Rightarrow> locals \<Rightarrow> pass_end \<Rightarrow> bool" where
  "fault_end env left spec refit k pool exc chars lo r \<longleftrightarrow>
    (case next_move_after (lo_attempts lo) (en_max_attempts env) left refit k chars (pe_class exc) of
       Refit l \<Rightarrow> r = AgainRefit (spec\<lparr>ms_context_window := l\<rparr>) lo
     | RetrySame \<Rightarrow> r = AgainRetry lo
     | FailOver \<Rightarrow> r = NextCandidate lo
     | Abort \<Rightarrow> (\<exists>f. r = Failed f lo \<and> rf_error f = exc \<and> rf_trail f = lo_trail lo \<and> rf_attempts f = lo_attempts lo \<and>
         rf_wasted_tokens_out f = lo_wasted lo \<and> rf_spec f = Some spec \<and> rf_key_pool f = Some pool))"

lemma one_passE:
  assumes "one_pass env mode started decision left spec refit k lo s = (Inr r, s')"
  obtains (quota) resolved t0 d lo1 s3 where "rs_calls s3 = rs_calls s" "try_block env mode spec resolved t0 lo s3 = (Inr (QuotaSkip d, lo1), s')"
      "r = NextCandidate (trail_entry lo1 spec At_skipped_quota None 0 0 (bd_state decision) (qd_retry_after_s d) (qd_blocked_window d) (Some (rk_pool resolved)))"
  | (answer) resolved t0 report rsv d lo1 s3 s4 sv lo2 where "rs_calls s3 = rs_calls s"
      "try_block env mode spec resolved t0 lo s3 = (Inr (Answer report rsv d, lo1), s4)"
      "after_answer env mode decision spec resolved started t0 report rsv d lo1 s4 = (Inr (sv, lo2), s')" "r = Served sv lo2"
  | (fault) resolved t0 exc rsv chars lo1 s3 s4 lo2 s5 where "rs_calls s3 = rs_calls s"
      "try_block env mode spec resolved t0 lo s3 = (Inr (Fault exc rsv chars, lo1), s4)"
      "after_fault env mode decision spec resolved t0 exc rsv chars lo1 s4 = (Inr lo2, s5)"
      "fault_end env left spec refit k (rk_pool resolved) exc chars lo2 r" "rs_calls s' = rs_calls s5"
proof -
  obtain t0 resolved e lo1 s1 s2 s3 s4 ad where pre: "clock_now env s = (Inr t0, s1)"
      "alift (adapter_for (en_registry env) (ms_provider spec)) s1 = (Inr ad, s2)"
      "alift (en_resolve env (ms_provider spec) (ms_model spec)) s2 = (Inr resolved, s3)"
    and tb: "try_block env mode spec resolved t0 lo s3 = (Inr (e, lo1), s4)"
    and rest: "end_pass env mode started decision left spec refit k resolved t0 e lo1 s4 = (Inr r, s')"
    using assms by (auto simp: one_pass_def abind_Inr)
  have calls: "rs_calls s3 = rs_calls s" using pre by (auto simp: clock_now_def alift_def)
  show ?thesis
  proof (cases e)
    case (QuotaSkip d)
    then show ?thesis using calls tb rest quota by (auto simp: areturn_def end_pass_def)
  next
    case (Answer report rsv d)
    then obtain sv lo2 where "after_answer env mode decision spec resolved started t0 report rsv d lo1 s4 = (Inr (sv, lo2), s')" "r = Served sv lo2"
      using rest by (auto simp: abind_Inr areturn_def end_pass_def)
    then show ?thesis using calls tb answer Answer by blast
  next
    case (Fault exc rsv chars)
    then obtain lo2 s5 where af: "after_fault env mode decision spec resolved t0 exc rsv chars lo1 s4 = (Inr lo2, s5)"
      and mv: "make_move env started decision left spec refit k (rk_pool resolved) exc chars lo2 s5 = (Inr r, s')"
      using rest by (auto simp: abind_Inr end_pass_def)
    have "fault_end env left spec refit k (rk_pool resolved) exc chars lo2 r \<and> rs_calls s' = rs_calls s5"
      using mv unfolding fault_end_def make_move_def Let_def
      by (cases "next_move_after (lo_attempts lo2) (en_max_attempts env) left refit k chars (pe_class exc)")
        (auto simp: abind_Inr areturn_def sleep_for_retry_def breaker_clock_def on_world_def routing_failed_def elapsed_ms_def clock_now_def
          Let_def split: prod.splits)
    then show ?thesis using calls tb af Fault fault by blast
  qed
qed

lemma one_pass_again:
  assumes "one_pass env mode started decision left spec refit k lo s = (Inr r, s')"
  shows "r = AgainRefit spec' lo' \<Longrightarrow> \<not> refit" "r = AgainRetry lo' \<Longrightarrow> k = 0"
  using assms
  by (elim one_passE; auto simp: fault_end_def split: next_move.splits dest!: next_move_refit next_move_retry)+

function serve_candidate :: "('r, 'p) renv \<Rightarrow> RoutingMode \<Rightarrow> instant \<Rightarrow> BreakerDecision \<Rightarrow> nat \<Rightarrow> ModelSpec \<Rightarrow> bool \<Rightarrow> nat \<Rightarrow> locals \<Rightarrow> ('r, pass_end) act" where
  "serve_candidate env mode started decision left spec refit_used retries_used lo s =
    (case one_pass env mode started decision left spec refit_used retries_used lo s of
       (Inl e, s1) \<Rightarrow> (Inl e, s1)
     | (Inr r, s1) \<Rightarrow>
        (case r of
           AgainRefit spec1 lo1 \<Rightarrow> serve_candidate env mode started decision left spec1 True retries_used lo1 s1
         | AgainRetry lo1 \<Rightarrow> serve_candidate env mode started decision left spec refit_used (Suc retries_used) lo1 s1
         | _ \<Rightarrow> (Inr r, s1)))"
  by pat_completeness auto
termination
  by (relation "measure (\<lambda>(env, mode, started, decision, left, spec, refit, k, lo, s). (if refit then 0 else 1) + (1 - k))")
    (auto dest: one_pass_again(1) [OF sym refl] one_pass_again(2) [OF sym refl])

declare serve_candidate.simps [simp del]

fun walk :: "('r, 'p) renv \<Rightarrow> RoutingMode \<Rightarrow> instant \<Rightarrow> ModelSpec list \<Rightarrow> ModelSpec list \<Rightarrow> locals \<Rightarrow> ('r, (RoutingFailed + served) \<times> locals) act" where
  "walk env mode started chain [] lo =
    abind (routing_failed env started (case lo_last_error lo of Some e \<Rightarrow> e | None \<Rightarrow> all_skipped chain (lo_trail lo))
      (lo_last_spec lo) (lo_last_key_pool lo) lo) (\<lambda>f. areturn (Inl f, lo))"
| "walk env mode started chain (candidate # rest) lo =
    (if lo_attempts lo \<ge> en_max_attempts env then walk env mode started chain [] lo
     else abind (breaker_clock env) (\<lambda>clk.
       abind (on_world (brk_allows (en_redis env) (en_breaker env) clk (ms_provider candidate) (ms_model candidate) None (en_context_id env)))
        (\<lambda>decision.
          if \<not> bd_allowed decision
          then walk env mode started chain rest (trail_entry lo candidate At_skipped_breaker None 0 0 (bd_state decision)
                 (bd_retry_after_s decision) None None)
          else abind (serve_candidate env mode started decision (length rest) candidate False 0 lo) (\<lambda>r. case r of
                 NextCandidate lo1 \<Rightarrow> walk env mode started chain rest lo1
               | Failed f lo1 \<Rightarrow> areturn (Inl f, lo1)
               | Served sv lo1 \<Rightarrow> areturn (Inr sv, lo1)
               | AgainRefit _ lo1 \<Rightarrow> walk env mode started chain rest lo1
               | AgainRetry lo1 \<Rightarrow> walk env mode started chain rest lo1))))"

definition no_locals :: locals where
  "no_locals = \<lparr>lo_trail = [], lo_attempts = 0, lo_wasted = 0, lo_events = [], lo_last_error = None, lo_last_spec = None,
     lo_last_key_pool = None\<rparr>"

text \<open>The candidates of the call, ranked by the latencies measured for its mode.\<close>

definition route_chain :: "('r, 'p) renv \<Rightarrow> RoutingMode \<Rightarrow> string \<Rightarrow> string option \<Rightarrow> 'r rstate \<Rightarrow> ModelSpec list exn" where
  "route_chain env mode requested pinned s =
    (let snapshot = (case rs_metrics s of Some t \<Rightarrow> if en_rank_by_latency env then Some (lt_snapshot t mode) else None | None \<Rightarrow> None)
     in candidates (en_registry env) requested pinned snapshot)"

definition run_route :: "('r, 'p) renv \<Rightarrow> RoutingMode \<Rightarrow> string \<Rightarrow> string option \<Rightarrow> ('r, (RoutingFailed + served) \<times> locals) act" where
  "run_route env mode requested pinned s =
    (case route_chain env mode requested pinned s of
       Inl e \<Rightarrow> (Inl e, s)
     | Inr chain \<Rightarrow> abind (clock_now env) (\<lambda>started. walk env mode started chain chain no_locals) s)"

definition route :: "('r, 'p) renv \<Rightarrow> string \<Rightarrow> string option \<Rightarrow> ('r, RoutingFailed + RouterOutcome) act" where
  "route env requested pinned = abind (run_route env COMPLETE requested pinned) (\<lambda>(r, lo).
     areturn (case r of Inl f \<Rightarrow> Inl f | Inr (ServedComplete ok) \<Rightarrow> Inr ok
       | Inr (ServedStream _) \<Rightarrow> Inl \<lparr>rf_error = all_skipped [] [], rf_spec = None, rf_trail = [], rf_attempts = 0,
           rf_latency_ms = 0, rf_wasted_tokens_out = 0, rf_key_pool = None\<rparr>))"

text \<open>The events a stream yields, and the failure it raises after them, if any.\<close>

definition route_stream :: "('r, 'p) renv \<Rightarrow> string \<Rightarrow> string option \<Rightarrow> ('r, RouteStreamEvent list \<times> RoutingFailed option) act" where
  "route_stream env requested pinned = abind (run_route env STREAM requested pinned) (\<lambda>(r, lo).
     areturn (lo_events lo, case r of Inl f \<Rightarrow> Some f | Inr _ \<Rightarrow> None))"

end
