(* ===== verification/Gw_Router_Props.thy ===== *)
theory Gw_Router_Props
  imports Gw_Router
begin

text \<open>
  What a call to the router guarantees, whatever the upstreams, the breaker, the quota tracker and the clock
  answer. The locale \<open>route_loop\<close> is the loop's invariant rule: it turns four facts about single events into a fact
  about every finished call. It is interpreted twice on the loop, for the books a call keeps and for the events a
  stream yields; the attempt budget and the order of the candidates are proved on the loop directly.
\<close>

subsection \<open>A concrete call\<close>

definition no_redis :: "unit redis" where
  "no_redis = \<lparr>rd_get = (\<lambda>_ _. None), rd_exists = (\<lambda>_ _. False), rd_ttl = (\<lambda>_ _. 0), rd_incrby = (\<lambda>_ n s. (n, s)), rd_expire = (\<lambda>_ _ s. s),
     rd_set_ex = (\<lambda>_ _ _ s. s), rd_set_keepttl = (\<lambda>_ _ s. s), rd_set_nx_ex = (\<lambda>_ _ _ s. (False, s)), rd_del = (\<lambda>_ s. s),
     rd_hgetall = (\<lambda>_ _. Map.empty), rd_hset = (\<lambda>_ _ s. s), rd_hsetnx = (\<lambda>_ _ _ s. (False, s)), rd_hincrby = (\<lambda>_ _ n s. (n, s)),
     rd_hdel = (\<lambda>_ _ s. s)\<rparr>"

definition ex_slot :: "string \<Rightarrow> nat \<Rightarrow> ModelSpec" where
  "ex_slot m n = \<lparr>ms_slot = ''general'', ms_provider = ''p'', ms_model = m, ms_context_window = 10, ms_max_output_tokens = 5,
     ms_supports_streaming = True, ms_supports_vision = False, ms_supports_pdf = False, ms_supports_system_field = False,
     ms_max_file_bytes = None, ms_priority = n, ms_reserved_fraction = 0\<rparr>"

definition ex_report :: RenderReport where
  "ex_report = \<lparr>rr_messages_dropped = 0, rr_documents_truncated = 0, rr_estimated_tokens = 7, rr_attachments_native = 0,
     rr_attachments_injected = 0, rr_degraded = False, rr_extraction_tier = None\<rparr>"

text \<open>Two candidates, Redis unreachable (so the breaker lets everything through), no quota enforcement;
  \<open>up n\<close> is the upstream's answer to request \<open>n\<close>.\<close>

definition ex_env :: "(nat \<Rightarrow> ProviderError + Completion) \<Rightarrow> (nat \<Rightarrow> upstream list) \<Rightarrow> (unit, unit) renv" where
  "ex_env up str = \<lparr>en_redis = no_redis, en_registry = \<lparr>pr_specs = [(''general'', [ex_slot ''a'' 0, ex_slot ''b'' 1])], pr_adapters = [''p''],
       pr_keys = [(''p'', ''k'')], pr_internal_slots = [], pr_private_key_only_slots = []\<rparr>,
     en_breaker = default_breaker, en_quota = None, en_context_id = None, en_clock = of_nat, en_uuid = (\<lambda>_. ''u''),
     en_resolve = (\<lambda>p m. Inr \<lparr>rk_provider = p, rk_key = ''k'', rk_pool = Shared, rk_scope = ''system'', rk_key_id = None,
        rk_shared_daily_cap = None, rk_user_id = None\<rparr>),
     en_render = (\<lambda>_. Inr (Inr ((), ex_report))), en_complete = (\<lambda>n _ _. (up n, None)), en_stream = (\<lambda>n _ _. (str n, None)),
     en_jitter = (\<lambda>_ c. c), en_max_attempts = MAX_ATTEMPTS, en_rank_by_latency = False\<rparr>"

definition ex_start :: "unit rstate" where
  "ex_start = \<lparr>rs_world = \<lparr>wd_srv = (), wd_sent = 0, wd_link = (\<lambda>_. NotSent), wd_between = (\<lambda>_ s. s)\<rparr>, rs_ticks = 0, rs_calls = 0,
     rs_uuids = 0, rs_metrics = None, rs_hint = None, rs_auth_failures = [], rs_sleeps = []\<rparr>"

definition ex_down :: ProviderError where
  "ex_down = \<lparr>pe_class = Unavailable, pe_provider = ''p'', pe_model = ''a'', pe_status_code = None\<rparr>"

subsection \<open>What one pass changes\<close>

lemma consume_calls: "consume env spec t0 us ck s = (Inr r, s') \<Longrightarrow> rs_calls s' = rs_calls s"
  by (induction env spec t0 us ck arbitrary: s rule: consume.induct)
    (auto simp: areturn_def abind_Inr elapsed_ms_def clock_now_def split: option.splits)

lemma on_world_Inr: "on_world f s = (Inr x, s') \<longleftrightarrow> (\<exists>w. f (rs_world s) = (Inr x, w) \<and> s' = s\<lparr>rs_world := w\<rparr>)"
  by (auto simp: on_world_def Let_def split: prod.splits)

lemma small_calls:
  "settle env rsv i j s = (Inr u, s') \<Longrightarrow> rs_calls s' = rs_calls s"
  "reconcile_hint env spec scope s = (Inr u, s') \<Longrightarrow> rs_calls s' = rs_calls s"
  "elapsed_ms env t s = (Inr n, s') \<Longrightarrow> rs_calls s' = rs_calls s"
  "reserve_for env spec resolved report s = (Inr q, s') \<Longrightarrow> rs_calls s' = rs_calls s"
  by (auto simp: settle_def reconcile_hint_def elapsed_ms_def reserve_for_def abind_Inr areturn_def alift_def clock_now_def on_world_Inr Let_def
      split: option.splits)

text \<open>Sending counts exactly one attempt and one request, and leaves the trail alone.\<close>

lemma send_attempt_effect:
  assumes "send_attempt env mode spec resolved t0 payload report rsv lo s = (Inr (e, lo1), s')"
  shows "lo_trail lo1 = lo_trail lo \<and> lo_last_error lo1 = lo_last_error lo \<and> lo_last_spec lo1 = lo_last_spec lo \<and>
    lo_wasted lo1 = lo_wasted lo \<and> lo_attempts lo1 = Suc (lo_attempts lo) \<and> rs_calls s' = Suc (rs_calls s)"
    "e \<noteq> QuotaSkip d"
proof -
  have "lo_trail lo1 = lo_trail lo \<and> lo_last_error lo1 = lo_last_error lo \<and> lo_last_spec lo1 = lo_last_spec lo \<and>
    lo_wasted lo1 = lo_wasted lo \<and> lo_attempts lo1 = Suc (lo_attempts lo) \<and> rs_calls s' = Suc (rs_calls s) \<and> e \<noteq> QuotaSkip d"
  proof (cases mode)
    case COMPLETE
    then show ?thesis using assms
      by (auto simp: send_attempt_def Let_def abind_Inr areturn_def call_complete_def split: prod.splits sum.splits)
  next
    case STREAM
    obtain us s1 where us: "call_stream env payload (rk_key resolved) s = (Inr us, s1)"
      by (cases "en_stream env (rs_calls s) payload (rk_key resolved)") (auto simp: call_stream_def Let_def)
    then have c1: "rs_calls s1 = Suc (rs_calls s)" by (auto simp: call_stream_def Let_def split: prod.splits)
    let ?ck0 = "\<lparr>ck_delivered = 0, ck_ttft_ms = None, ck_usage = None, ck_finish = ''stop'', ck_deltas = []\<rparr>"
    obtain fault ck where ck: "consume env spec t0 us ?ck0 s1 = (Inr (fault, ck), s')"
      and e: "e = (case fault of Some exc \<Rightarrow> Fault exc rsv (ck_delivered ck)
                  | None \<Rightarrow> if ck_delivered ck = 0
                      then Fault \<lparr>pe_class = EmptyResponse, pe_provider = ms_provider spec, pe_model = ms_model spec,
                                  pe_status_code = None\<rparr> rsv 0
                      else Answer report rsv (Streamed (ck_usage ck) (ck_finish ck) (ck_ttft_ms ck) (ck_delivered ck)))"
      and lo1: "lo1 = lo\<lparr>lo_attempts := Suc (lo_attempts lo),
          lo_events := lo_events lo @ AttemptStarted (Suc (lo_attempts lo)) spec # map AttemptDelta (ck_deltas ck)\<rparr>"
      using assms STREAM us by (auto simp: send_attempt_def Let_def abind_Inr areturn_def)
    have "e \<noteq> QuotaSkip d" unfolding e by (simp split: option.splits)
    with consume_calls [OF ck] c1 lo1 show ?thesis by simp
  qed
  then show "lo_trail lo1 = lo_trail lo \<and> lo_last_error lo1 = lo_last_error lo \<and> lo_last_spec lo1 = lo_last_spec lo \<and>
    lo_wasted lo1 = lo_wasted lo \<and> lo_attempts lo1 = Suc (lo_attempts lo) \<and> rs_calls s' = Suc (rs_calls s)" "e \<noteq> QuotaSkip d" by blast+
qed

lemma try_block_cases:
  assumes "try_block env mode spec resolved t0 lo s = (Inr (e, lo1), s')"
  obtains (render) exc where "en_render env spec = Inr (Inl exc)" "e = Fault exc None 0" "lo1 = lo" "s' = s"
  | (skip) payload report d where "reserve_for env spec resolved report s = (Inr (Inl d), s')" "e = QuotaSkip d" "lo1 = lo"
  | (sent) payload report rsv s1 where "reserve_for env spec resolved report s = (Inr (Inr rsv), s1)"
      "send_attempt env mode spec resolved t0 payload report rsv lo s1 = (Inr (e, lo1), s')"
proof -
  obtain r where r: "en_render env spec = Inr r" using assms by (auto simp: try_block_def abind_Inr alift_def)
  show ?thesis
  proof (cases r)
    case (Inl exc)
    then show ?thesis using assms r render by (auto simp: try_block_def abind_def alift_def areturn_def)
  next
    case (Inr pr)
    obtain payload report where pr: "pr = (payload, report)" by fastforce
    obtain q s1 where q: "reserve_for env spec resolved report s = (Inr q, s1)"
      and rest: "(case q of Inl d \<Rightarrow> areturn (QuotaSkip d, lo) | Inr reservation \<Rightarrow> send_attempt env mode spec resolved t0 payload report reservation lo) s1 = (Inr (e, lo1), s')"
      using assms r Inr pr by (auto simp: try_block_def abind_Inr alift_def)
    show ?thesis
    proof (cases q)
      case (Inl d)
      then show ?thesis using q rest skip by (auto simp: areturn_def)
    next
      case (Inr rsv)
      then show ?thesis using q rest sent by auto
    qed
  qed
qed

text \<open>The number of requests sent and the number of attempts counted move together.\<close>

lemma try_block_effect:
  assumes "try_block env mode spec resolved t0 lo s = (Inr (e, lo1), s')"
  shows "lo_trail lo1 = lo_trail lo" "lo_last_error lo1 = lo_last_error lo" "lo_wasted lo1 = lo_wasted lo"
    "lo_attempts lo1 + rs_calls s = lo_attempts lo + rs_calls s'"
    "lo_attempts lo1 \<le> Suc (lo_attempts lo)" "lo_attempts lo \<le> lo_attempts lo1"
  using assms by (cases rule: try_block_cases; auto dest!: send_attempt_effect(1) small_calls(4); fail)+

lemma try_block_ends:
  assumes "try_block env mode spec resolved t0 lo s = (Inr (e, lo1), s')"
  shows "(\<forall>d. e = QuotaSkip d \<longrightarrow> lo1 = lo) \<and> (\<forall>rep rsv dl. e = Answer rep rsv dl \<longrightarrow> lo_attempts lo1 = Suc (lo_attempts lo))"
  using assms by (cases rule: try_block_cases) (auto dest: send_attempt_effect)

lemma after_fault_effect:
  assumes "after_fault env mode decision spec resolved t0 exc rsv chars lo s = (Inr lo1, s')"
  shows "\<exists>latency. lo_trail lo1 = lo_trail (trail_entry lo spec At_error (Some (error_code (pe_class exc))) latency (estimate_discarded_tokens chars)
      (bd_state decision) None None (Some (rk_pool resolved)))"
    "lo_attempts lo1 = lo_attempts lo" "lo_last_error lo1 = Some exc" "lo_last_spec lo1 = Some spec" "rs_calls s' = rs_calls s"
    "lo_events lo1 = lo_events lo @ (if mode = STREAM then [AttemptAborted (lo_attempts lo) spec exc chars (estimate_discarded_tokens chars)] else [])"
    "lo_wasted lo1 = lo_wasted lo + estimate_discarded_tokens chars"
  using assms by (auto simp: after_fault_def Let_def abind_Inr areturn_def trail_entry_def dest!: small_calls)

lemma after_answer_effect:
  assumes "after_answer env mode decision spec resolved started t0 report rsv d lo s = (Inr (sv, lo1), s')"
  shows "\<exists>latency. lo_trail lo1 = lo_trail (trail_entry lo spec At_ok None latency 0 (bd_state decision) None None (Some (rk_pool resolved)))"
    "lo_attempts lo1 = lo_attempts lo" "rs_calls s' = rs_calls s"
    "case sv of ServedComplete ok \<Rightarrow> ro_trail ok = lo_trail lo1 \<and> ro_attempts ok = lo_attempts lo1 \<and> ro_spec ok = spec \<and> lo_events lo1 = lo_events lo \<and>
         (\<exists>c. d = Completed c \<and> ro_completion ok = c)
     | ServedStream ok \<Rightarrow> so_trail ok = lo_trail lo1 \<and> so_attempts ok = lo_attempts lo1 \<and> so_spec ok = spec \<and>
         lo_events lo1 = lo_events lo @ [StreamDone ok] \<and> so_wasted_tokens_out ok = lo_wasted lo1 \<and> (\<exists>u f t n. d = Streamed u f t n)"
    "lo_wasted lo1 = lo_wasted lo" "lo_last_error lo1 = lo_last_error lo"
  using assms by (cases d; auto simp: after_answer_def Let_def abind_Inr areturn_def trail_entry_def on_world_Inr dest!: small_calls; fail)+


subsection \<open>The attempt budget\<close>

definition within_budget :: "nat \<Rightarrow> nat \<Rightarrow> locals \<Rightarrow> bool" where
  "within_budget mx k lo \<longleftrightarrow> lo_attempts lo < mx \<or> k = 1 \<and> lo_attempts lo \<le> mx"

definition pass_locals :: "pass_end \<Rightarrow> locals" where
  "pass_locals r = (case r of AgainRefit _ lo \<Rightarrow> lo | AgainRetry lo \<Rightarrow> lo | NextCandidate lo \<Rightarrow> lo | Failed _ lo \<Rightarrow> lo | Served _ lo \<Rightarrow> lo)"

lemma trail_entry_simps [simp]:
  "lo_attempts (trail_entry lo spec out code lat w st ret win pool) = lo_attempts lo"
  "lo_wasted (trail_entry lo spec out code lat w st ret win pool) = lo_wasted lo"
  "lo_events (trail_entry lo spec out code lat w st ret win pool) = lo_events lo"
  "lo_last_error (trail_entry lo spec out code lat w st ret win pool) = lo_last_error lo"
  by (simp_all add: trail_entry_def)

lemma fault_end_locals: "fault_end env left spec refit k pool exc chars lo r \<Longrightarrow> pass_locals r = lo"
  by (auto simp: fault_end_def pass_locals_def split: next_move.splits)

lemma one_pass_attempts:
  assumes "one_pass env mode started decision left spec refit k lo s = (Inr r, s')"
  shows "lo_attempts (pass_locals r) + rs_calls s = lo_attempts lo + rs_calls s' \<and> lo_attempts (pass_locals r) \<le> Suc (lo_attempts lo)"
  using assms
proof (cases rule: one_passE)
  case quota
  from try_block_effect [OF quota(2)] quota(1,3) show ?thesis by (simp add: pass_locals_def)
next
  case answer
  from try_block_effect [OF answer(2)] after_answer_effect(2,3) [OF answer(3)] answer(1,4) show ?thesis by (simp add: pass_locals_def)
next
  case fault
  from try_block_effect [OF fault(2)] after_fault_effect(2,5) [OF fault(3)] fault(1,5) fault_end_locals [OF fault(4)]
  show ?thesis by simp
qed

lemma one_pass_budget:
  assumes run: "one_pass env mode started decision left spec refit k lo s = (Inr r, s')" and b: "within_budget (en_max_attempts env) k lo"
  shows "r = AgainRefit spec' lo' \<Longrightarrow> within_budget (en_max_attempts env) k' lo'"
    "r = AgainRetry lo' \<Longrightarrow> within_budget (en_max_attempts env) (Suc k) lo'"
proof -
  show "r = AgainRefit spec' lo' \<Longrightarrow> within_budget (en_max_attempts env) k' lo'"
    using run by (elim one_passE) (auto simp: within_budget_def fault_end_def split: next_move.splits dest: next_move_refit)
  assume r: "r = AgainRetry lo'"
  then have "k = 0" using one_pass_again(2) [OF run] by simp
  with b have "lo_attempts lo < en_max_attempts env" by (simp add: within_budget_def)
  then show "within_budget (en_max_attempts env) (Suc k) lo'"
    using one_pass_attempts [OF run] r \<open>k = 0\<close> by (simp add: within_budget_def pass_locals_def)
qed

lemma serve_attempts:
  assumes "serve_candidate env mode started decision left spec refit k lo s = (Inr r, s')" "within_budget (en_max_attempts env) k lo"
  shows "lo_attempts (pass_locals r) + rs_calls s = lo_attempts lo + rs_calls s' \<and> lo_attempts (pass_locals r) \<le> Suc (en_max_attempts env)"
  using assms
proof (induction env mode started decision left spec refit k lo s rule: serve_candidate.induct)
  case (1 env mode started decision left spec refit k lo s)
  note serve_candidate.simps [simp]
  from "1.prems" obtain r1 s1 where p: "one_pass env mode started decision left spec refit k lo s = (Inr r1, s1)"
    by (auto split: prod.splits sum.splits)
  note q = one_pass_attempts [OF p]
  have le: "lo_attempts (pass_locals r1) \<le> Suc (en_max_attempts env)" using q "1.prems"(2) by (auto simp: within_budget_def)
  show ?case
  proof (cases r1)
    case (AgainRefit spec1 lo1)
    then have "serve_candidate env mode started decision left spec1 True k lo1 s1 = (Inr r, s')" using "1.prems" p by simp
    from "1.IH"(1) [OF p [symmetric] refl AgainRefit this one_pass_budget(1) [OF p "1.prems"(2) AgainRefit]] q AgainRefit
    show ?thesis by (simp add: pass_locals_def)
  next
    case (AgainRetry lo1)
    then have "serve_candidate env mode started decision left spec refit (Suc k) lo1 s1 = (Inr r, s')" using "1.prems" p by simp
    from "1.IH"(2) [OF p [symmetric] refl AgainRetry this one_pass_budget(2) [OF p "1.prems"(2) AgainRetry]] q AgainRetry
    show ?thesis by (simp add: pass_locals_def)
  qed (use "1.prems" p q le in auto)
qed

lemma routing_failed_effect:
  assumes "routing_failed env started exc spec pool lo s = (Inr f, s')"
  shows "rf_error f = exc" "rf_spec f = spec" "rf_trail f = lo_trail lo" "rf_attempts f = lo_attempts lo"
    "rf_wasted_tokens_out f = lo_wasted lo" "rf_key_pool f = pool" "rs_calls s' = rs_calls s"
  using assms by (auto simp: routing_failed_def elapsed_ms_def clock_now_def abind_Inr areturn_def)

lemma serve_stops:
  assumes "serve_candidate env mode started decision left spec refit k lo s = (Inr r, s')"
  shows "r \<noteq> AgainRefit spec' lo' \<and> r \<noteq> AgainRetry lo'"
  using assms
proof (induction env mode started decision left spec refit k lo s rule: serve_candidate.induct)
  case (1 env mode started decision left spec refit k lo s)
  note serve_candidate.simps [simp]
  from "1.prems" obtain r1 s1 where p: "one_pass env mode started decision left spec refit k lo s = (Inr r1, s1)"
    by (auto split: prod.splits sum.splits)
  show ?case by (cases r1) (use "1.prems" p "1.IH" [OF p [symmetric] refl] in auto)
qed

lemma walk_Cons:
  assumes "walk env mode started chain (c # rest) lo s = (Inr (r, lo'), s')" "lo_attempts lo < en_max_attempts env"
  obtains (skipped) decision :: BreakerDecision and s1 where "rs_calls s1 = rs_calls s" "\<not> bd_allowed decision"
      "walk env mode started chain rest (trail_entry lo c At_skipped_breaker None 0 0 (bd_state decision)
         (bd_retry_after_s decision) None None) s1 = (Inr (r, lo'), s')"
  | (moved) decision s1 s2 lo1 where "rs_calls s1 = rs_calls s"
      "serve_candidate env mode started decision (length rest) c False 0 lo s1 = (Inr (NextCandidate lo1), s2)"
      "walk env mode started chain rest lo1 s2 = (Inr (r, lo'), s')"
  | (failed) decision s1 f where "rs_calls s1 = rs_calls s"
      "serve_candidate env mode started decision (length rest) c False 0 lo s1 = (Inr (Failed f lo'), s')" "r = Inl f"
  | (served) decision s1 sv where "rs_calls s1 = rs_calls s"
      "serve_candidate env mode started decision (length rest) c False 0 lo s1 = (Inr (Served sv lo'), s')" "r = Inr sv"
proof -
  obtain clk decision s0 s1 where pre: "breaker_clock env s = (Inr clk, s0)"
      "on_world (brk_allows (en_redis env) (en_breaker env) clk (ms_provider c) (ms_model c) None (en_context_id env)) s0 = (Inr decision, s1)"
    and rest: "(if \<not> bd_allowed decision
          then walk env mode started chain rest (trail_entry lo c At_skipped_breaker None 0 0 (bd_state decision)
                 (bd_retry_after_s decision) None None)
          else abind (serve_candidate env mode started decision (length rest) c False 0 lo) (\<lambda>r. case r of
                 NextCandidate lo1 \<Rightarrow> walk env mode started chain rest lo1
               | Failed f lo1 \<Rightarrow> areturn (Inl f, lo1)
               | Served sv lo1 \<Rightarrow> areturn (Inr sv, lo1)
               | AgainRefit _ lo1 \<Rightarrow> walk env mode started chain rest lo1
               | AgainRetry lo1 \<Rightarrow> walk env mode started chain rest lo1)) s1 = (Inr (r, lo'), s')"
    using assms by (auto simp: abind_Inr)
  have calls: "rs_calls s1 = rs_calls s" using pre by (auto simp: breaker_clock_def on_world_Inr)
  show ?thesis
  proof (cases "bd_allowed decision")
    case False
    then show ?thesis using skipped calls rest by simp
  next
    case True
    then obtain e s2 where sc: "serve_candidate env mode started decision (length rest) c False 0 lo s1 = (Inr e, s2)"
      and cont: "(case e of
                 NextCandidate lo1 \<Rightarrow> walk env mode started chain rest lo1
               | Failed f lo1 \<Rightarrow> areturn (Inl f, lo1)
               | Served sv lo1 \<Rightarrow> areturn (Inr sv, lo1)
               | AgainRefit _ lo1 \<Rightarrow> walk env mode started chain rest lo1
               | AgainRetry lo1 \<Rightarrow> walk env mode started chain rest lo1) s2 = (Inr (r, lo'), s')"
      using rest by (auto simp: abind_Inr)
    show ?thesis
      by (cases e) (use sc cont calls moved failed served serve_stops [OF sc] in \<open>auto simp: areturn_def\<close>)
  qed
qed

lemma walk_stop:
  assumes "walk env mode started chain cs lo s = (Inr (r, lo'), s')" "cs = [] \<or> lo_attempts lo \<ge> en_max_attempts env"
  obtains f where "r = Inl f" "lo' = lo" "rs_calls s' = rs_calls s" "rf_trail f = lo_trail lo" "rf_attempts f = lo_attempts lo"
    "rf_wasted_tokens_out f = lo_wasted lo" "rf_error f = (case lo_last_error lo of Some e \<Rightarrow> e | None \<Rightarrow> all_skipped chain (lo_trail lo))"
proof -
  have "walk env mode started chain cs lo = walk env mode started chain [] lo" using assms(2) by (cases cs) auto
  then obtain f where f: "routing_failed env started (case lo_last_error lo of Some e \<Rightarrow> e | None \<Rightarrow> all_skipped chain (lo_trail lo))
      (lo_last_spec lo) (lo_last_key_pool lo) lo s = (Inr f, s')" "r = Inl f" "lo' = lo"
    using assms(1) by (auto simp: abind_Inr areturn_def)
  show ?thesis using f(2,3) routing_failed_effect [OF f(1)] by (intro that) auto
qed

lemma walk_attempts:
  assumes "walk env mode started chain cs lo s = (Inr (r, lo'), s')" "lo_attempts lo \<le> Suc (en_max_attempts env)"
  shows "lo_attempts lo' + rs_calls s = lo_attempts lo + rs_calls s' \<and> lo_attempts lo' \<le> Suc (en_max_attempts env)"
  using assms
proof (induction cs arbitrary: lo s)
  case Nil
  then show ?case by (elim walk_stop) auto
next
  case (Cons c rest)
  show ?case
  proof (cases "lo_attempts lo < en_max_attempts env")
    case False
    with Cons.prems show ?thesis by (elim walk_stop) auto
  next
    case True
    then have b: "within_budget (en_max_attempts env) 0 lo" by (simp add: within_budget_def)
    from Cons.prems(1) True show ?thesis
    proof (cases rule: walk_Cons)
      case skipped
      then show ?thesis using Cons.IH [OF skipped(3)] Cons.prems(2) by simp
    next
      case moved
      from serve_attempts [OF moved(2) b] Cons.IH [OF moved(3)] moved(1) show ?thesis by (simp add: pass_locals_def)
    next
      case failed
      from serve_attempts [OF failed(2) b] failed(1) show ?thesis by (simp add: pass_locals_def)
    next
      case served
      from serve_attempts [OF served(2) b] served(1) show ?thesis by (simp add: pass_locals_def)
    qed
  qed
qed


subsection \<open>A loop invariant for the failover loop\<close>

text \<open>What a loop invariant has to show, event by event, to hold at the end of a call: a skip, a failed
  attempt, an answered attempt, and the failure raised. The second argument counts the requests sent.\<close>

locale route_loop =
  fixes env :: "('r, 'p) renv" and mode :: RoutingMode
    and inv :: "locals \<Rightarrow> nat \<Rightarrow> bool" and post :: "RoutingFailed + served \<Rightarrow> locals \<Rightarrow> nat \<Rightarrow> bool"
  assumes skipped: "inv lo c \<Longrightarrow> out = At_skipped_breaker \<or> out = At_skipped_quota \<Longrightarrow> inv (trail_entry lo spec out None 0 0 st ret win pool) c"
    and faulted: "inv lo (rs_calls s) \<Longrightarrow> try_block env mode spec resolved t0 lo s = (Inr (Fault exc rsv chars, lo1), s1) \<Longrightarrow>
      after_fault env mode decision spec resolved t0 exc rsv chars lo1 s1 = (Inr lo2, s2) \<Longrightarrow> inv lo2 (rs_calls s2)"
    and answered: "inv lo (rs_calls s) \<Longrightarrow> try_block env mode spec resolved t0 lo s = (Inr (Answer report rsv d, lo1), s1) \<Longrightarrow>
      after_answer env mode decision spec resolved started t0 report rsv d lo1 s1 = (Inr (sv, lo2), s2) \<Longrightarrow> post (Inr sv) lo2 (rs_calls s2)"
    and raised: "inv lo c \<Longrightarrow> rf_trail f = lo_trail lo \<Longrightarrow> rf_attempts f = lo_attempts lo \<Longrightarrow> rf_wasted_tokens_out f = lo_wasted lo \<Longrightarrow>
      rf_error f = (case lo_last_error lo of Some e \<Rightarrow> e | None \<Rightarrow> all_skipped chain (lo_trail lo)) \<Longrightarrow> post (Inl f) lo c"
begin

definition pass_post :: "pass_end \<Rightarrow> nat \<Rightarrow> bool" where
  "pass_post r c = (case r of AgainRefit _ lo \<Rightarrow> inv lo c | AgainRetry lo \<Rightarrow> inv lo c | NextCandidate lo \<Rightarrow> inv lo c
     | Failed f lo \<Rightarrow> post (Inl f) lo c | Served sv lo \<Rightarrow> post (Inr sv) lo c)"

lemma one_pass_post:
  assumes "one_pass env mode started decision left spec refit k lo s = (Inr r, s')" "inv lo (rs_calls s)"
  shows "pass_post r (rs_calls s')"
  using assms(1)
proof (cases rule: one_passE)
  case (quota resolved t0 d lo1 s3)
  have "lo1 = lo" using try_block_ends [OF quota(2)] by simp
  moreover have "rs_calls s' = rs_calls s" using try_block_effect(4) [OF quota(2)] \<open>lo1 = lo\<close> quota(1) by simp
  ultimately show ?thesis using skipped assms(2) quota(3) by (simp add: pass_post_def)
next
  case (answer resolved t0 report rsv d lo1 s3 s4 sv lo2)
  then show ?thesis using answered [OF _ answer(2,3)] assms(2) by (simp add: pass_post_def)
next
  case (fault resolved t0 exc rsv chars lo1 s3 s4 lo2 s5)
  then have "inv lo2 (rs_calls s')" using faulted [OF _ fault(2,3)] assms(2) by simp
  with fault(4) show ?thesis using after_fault_effect(3) [OF fault(3)]
    by (auto simp: fault_end_def pass_post_def raised split: next_move.splits)
qed

lemma serve_post:
  assumes "serve_candidate env' mode' started decision left spec refit k lo s = (Inr r, s')" "env' = env" "mode' = mode" "inv lo (rs_calls s)"
  shows "pass_post r (rs_calls s')"
  using assms
proof (induction env' mode' started decision left spec refit k lo s rule: serve_candidate.induct)
  case (1 env' mode' started decision left spec refit k lo s)
  note serve_candidate.simps [simp]
  from "1.prems"(1) obtain r1 s1 where p: "one_pass env' mode' started decision left spec refit k lo s = (Inr r1, s1)"
    by (auto split: prod.splits sum.splits)
  then have q: "pass_post r1 (rs_calls s1)" using one_pass_post "1.prems"(2-4) by simp
  show ?case by (cases r1) (use "1.prems" p q "1.IH" [OF p [symmetric] refl] in \<open>auto simp: pass_post_def\<close>)
qed

lemma walk_post:
  assumes "walk env mode started chain cs lo s = (Inr (r, lo'), s')" "inv lo (rs_calls s)"
  shows "post r lo' (rs_calls s')"
  using assms
proof (induction cs arbitrary: lo s)
  case Nil
  then show ?case by (elim walk_stop) (auto intro: raised)
next
  case (Cons c rest)
  show ?case
  proof (cases "lo_attempts lo < en_max_attempts env")
    case False
    with Cons.prems show ?thesis by (elim walk_stop) (auto intro: raised)
  next
    case True
    from Cons.prems(1) True show ?thesis
    proof (cases rule: walk_Cons)
      case skipped': (skipped decision s1)
      then show ?thesis using Cons.IH [OF skipped'(3)] Cons.prems(2) skipped by simp
    next
      case moved
      from serve_post [OF moved(2)] Cons.IH [OF moved(3)] Cons.prems(2) moved(1) show ?thesis by (simp add: pass_post_def)
    next
      case failed
      from serve_post [OF failed(2)] Cons.prems(2) failed(1,3) show ?thesis by (simp add: pass_post_def)
    next
      case served
      from serve_post [OF served(2)] Cons.prems(2) served(1,3) show ?thesis by (simp add: pass_post_def)
    qed
  qed
qed

lemma run_route_post:
  assumes "run_route env mode requested pinned s = (Inr (r, lo), s')" "inv no_locals (rs_calls s)"
  shows "post r lo (rs_calls s')"
  using assms walk_post by (auto simp: run_route_def Let_def abind_Inr clock_now_def split: sum.splits)

end

subsection \<open>The ledger: trail, attempts, requests and waste agree\<close>

definition numbered :: "AttemptRecord list \<Rightarrow> bool" where
  "numbered trail \<longleftrightarrow> map ar_n trail = [1..<Suc (length trail)]"

definition outcomes :: "AttemptOutcome \<Rightarrow> AttemptRecord list \<Rightarrow> nat" where
  "outcomes out trail = length (filter (\<lambda>r. ar_outcome r = out) trail)"

definition wasted_in :: "AttemptRecord list \<Rightarrow> nat" where
  "wasted_in trail = sum_list (map ar_wasted_tokens_out trail)"

definition codes :: "AttemptRecord list \<Rightarrow> string list" where
  "codes trail = List.map_filter ar_error_code trail"

definition ledger :: "nat \<Rightarrow> locals \<Rightarrow> nat \<Rightarrow> bool" where
  "ledger c0 lo c \<longleftrightarrow> numbered (lo_trail lo) \<and> c = c0 + lo_attempts lo \<and> lo_attempts lo \<le> outcomes At_error (lo_trail lo) \<and>
     outcomes At_ok (lo_trail lo) = 0 \<and> lo_wasted lo = wasted_in (lo_trail lo) \<and>
     (case lo_last_error lo of None \<Rightarrow> outcomes At_error (lo_trail lo) = 0
      | Some e \<Rightarrow> 0 < outcomes At_error (lo_trail lo) \<and> last (codes (lo_trail lo)) = error_code (pe_class e))"

definition outcome_trail :: "RoutingFailed + served \<Rightarrow> AttemptRecord list" where
  "outcome_trail r = (case r of Inl f \<Rightarrow> rf_trail f | Inr (ServedComplete ok) \<Rightarrow> ro_trail ok | Inr (ServedStream ok) \<Rightarrow> so_trail ok)"

definition outcome_attempts :: "RoutingFailed + served \<Rightarrow> nat" where
  "outcome_attempts r = (case r of Inl f \<Rightarrow> rf_attempts f | Inr (ServedComplete ok) \<Rightarrow> ro_attempts ok | Inr (ServedStream ok) \<Rightarrow> so_attempts ok)"

definition served_spec :: "served \<Rightarrow> ModelSpec" where
  "served_spec sv = (case sv of ServedComplete ok \<Rightarrow> ro_spec ok | ServedStream ok \<Rightarrow> so_spec ok)"

definition ledger_end :: "nat \<Rightarrow> RoutingFailed + served \<Rightarrow> locals \<Rightarrow> nat \<Rightarrow> bool" where
  "ledger_end c0 r lo c \<longleftrightarrow> outcome_attempts r = lo_attempts lo \<and> outcome_trail r = lo_trail lo \<and>
     numbered (outcome_trail r) \<and> c = c0 + outcome_attempts r \<and>
     (case r of
        Inl f \<Rightarrow> rf_attempts f \<le> outcomes At_error (rf_trail f) \<and> outcomes At_ok (rf_trail f) = 0 \<and> rf_wasted_tokens_out f = wasted_in (rf_trail f) \<and>
          (if outcomes At_error (rf_trail f) = 0 then \<exists>chain. rf_error f = all_skipped chain (rf_trail f)
           else last (codes (rf_trail f)) = error_code (pe_class (rf_error f)))
      | Inr sv \<Rightarrow> 0 < outcome_attempts r \<and> outcome_attempts r \<le> Suc (outcomes At_error (outcome_trail r)) \<and>
          outcomes At_ok (outcome_trail r) = 1 \<and> outcome_trail r \<noteq> [] \<and>
          (let a = last (outcome_trail r) in ar_outcome a = At_ok \<and> ar_slot a = ms_slot (served_spec sv) \<and>
             ar_provider a = ms_provider (served_spec sv) \<and> ar_model a = ms_model (served_spec sv)) \<and>
          (case sv of ServedComplete ok \<Rightarrow> True | ServedStream ok \<Rightarrow> so_wasted_tokens_out ok = wasted_in (so_trail ok)))"

lemma ledger_lists [simp]:
  "numbered (t @ [a]) \<longleftrightarrow> numbered t \<and> ar_n a = Suc (length t)"
  "outcomes out (t @ [a]) = outcomes out t + (if ar_outcome a = out then 1 else 0)"
  "wasted_in (t @ [a]) = wasted_in t + ar_wasted_tokens_out a"
  "codes (t @ [a]) = codes t @ (case ar_error_code a of None \<Rightarrow> [] | Some x \<Rightarrow> [x])"
  "numbered []" "outcomes out [] = 0" "wasted_in [] = 0" "codes [] = []"
  by (auto simp: numbered_def outcomes_def wasted_in_def codes_def map_filter_def split: option.splits)

lemma trail_entry_trail:
  "lo_trail (trail_entry lo spec out code lat w st ret win pool) = lo_trail lo @ [\<lparr>ar_n = Suc (length (lo_trail lo)), ar_slot = ms_slot spec,
     ar_provider = ms_provider spec, ar_model = ms_model spec, ar_outcome = out, ar_error_code = code, ar_latency_ms = lat,
     ar_wasted_tokens_out = w, ar_breaker = st, ar_retry_after_s = ret, ar_blocked_window = win, ar_key_pool = pool\<rparr>]"
  by (simp add: trail_entry_def)

interpretation book: route_loop env mode "ledger c0" "ledger_end c0" for env mode c0
proof
  fix lo :: locals and c out and spec :: ModelSpec and st ret win pool
  assume "ledger c0 lo c" "out = At_skipped_breaker \<or> out = At_skipped_quota"
  then show "ledger c0 (trail_entry lo spec out None 0 0 st ret win pool) c"
    by (auto simp: ledger_def trail_entry_trail split: option.splits)
next
  fix lo s spec resolved t0 exc rsv chars lo1 s1 decision lo2 s2
  assume inv: "ledger c0 lo (rs_calls s)" and t: "try_block env mode spec resolved t0 lo s = (Inr (Fault exc rsv chars, lo1), s1)"
    and a: "after_fault env mode decision spec resolved t0 exc rsv chars lo1 s1 = (Inr lo2, s2)"
  show "ledger c0 lo2 (rs_calls s2)"
    using inv try_block_effect [OF t] after_fault_effect [OF a] by (auto simp: ledger_def trail_entry_trail split: option.splits)
next
  fix lo s spec resolved t0 report rsv d lo1 s1 decision started sv lo2 s2
  assume inv: "ledger c0 lo (rs_calls s)" and t: "try_block env mode spec resolved t0 lo s = (Inr (Answer report rsv d, lo1), s1)"
    and a: "after_answer env mode decision spec resolved started t0 report rsv d lo1 s1 = (Inr (sv, lo2), s2)"
  show "ledger_end c0 (Inr sv) lo2 (rs_calls s2)"
    using inv try_block_effect [OF t] try_block_ends [OF t] after_answer_effect [OF a]
    by (cases sv) (auto simp: ledger_def ledger_end_def outcome_attempts_def outcome_trail_def served_spec_def trail_entry_trail)
next
  fix lo c and f :: RoutingFailed and chain
  assume "ledger c0 lo c" "rf_trail f = lo_trail lo" "rf_attempts f = lo_attempts lo" "rf_wasted_tokens_out f = lo_wasted lo"
    "rf_error f = (case lo_last_error lo of Some e \<Rightarrow> e | None \<Rightarrow> all_skipped chain (lo_trail lo))"
  then show "ledger_end c0 (Inl f) lo c"
    by (auto simp: ledger_def ledger_end_def outcome_attempts_def outcome_trail_def split: option.splits)
qed


subsection \<open>The grammar of a stream's events\<close>

text \<open>Between attempts: the attempts begun and the tokens wasted so far. During one: its number, its candidate,
  the characters delivered, the tokens wasted before it.\<close>

datatype phase = Between nat nat | During nat ModelSpec nat nat | Finished StreamCompleted

fun event_step :: "phase \<Rightarrow> RouteStreamEvent \<Rightarrow> phase option" where
  "event_step (Between n w) (AttemptStarted m spec) = (if m = Suc n then Some (During m spec 0 w) else None)"
| "event_step (Between n w) (AttemptAborted m spec e chars wasted) = (if m = n \<and> chars = 0 \<and> wasted = 0 then Some (Between n w) else None)"
| "event_step (During n spec k w) (AttemptDelta text) = (if text \<noteq> [] then Some (During n spec (k + length text) w) else None)"
| "event_step (During n spec k w) (AttemptAborted m spec' e chars wasted) =
    (if m = n \<and> spec' = spec \<and> chars = k \<and> wasted = estimate_discarded_tokens k then Some (Between n (w + wasted)) else None)"
| "event_step (During n spec k w) (StreamDone ok) =
    (if 0 < k \<and> so_spec ok = spec \<and> so_attempts ok = n \<and> so_wasted_tokens_out ok = w then Some (Finished ok) else None)"
| "event_step _ _ = None"

fun event_run :: "phase \<Rightarrow> RouteStreamEvent list \<Rightarrow> phase option" where
  "event_run p [] = Some p"
| "event_run p (e # es) = (case event_step p e of None \<Rightarrow> None | Some p' \<Rightarrow> event_run p' es)"

lemma event_run_append: "event_run p (xs @ ys) = (case event_run p xs of None \<Rightarrow> None | Some p' \<Rightarrow> event_run p' ys)"
  by (induction p xs rule: event_run.induct) (auto split: option.splits)

lemma event_run_deltas:
  "\<forall>t\<in>set ts. t \<noteq> [] \<Longrightarrow> event_run (During n spec k w) (map AttemptDelta ts) = Some (During n spec (k + length (concat ts)) w)"
  by (induction ts arbitrary: k) auto

lemma consume_deltas:
  assumes "consume env spec t0 us ck s = (Inr (fault, ck'), s')" "ck_delivered ck = length (concat (ck_deltas ck))" "\<forall>t\<in>set (ck_deltas ck). t \<noteq> []"
  shows "ck_delivered ck' = length (concat (ck_deltas ck')) \<and> (\<forall>t\<in>set (ck_deltas ck'). t \<noteq> [])"
  using assms
proof (induction env spec t0 us ck arbitrary: s rule: consume.induct)
  case (4 env spec t0 c us ck)
  from "4.prems"(1) obtain ttft s1 where "consume env spec t0 us (take_chunk c ttft ck) s1 = (Inr (fault, ck'), s')"
    unfolding consume.simps abind_Inr by blast
  from "4.IH" [OF this] "4.prems"(2,3) show ?case by (cases "sc_delta c = []") (simp_all add: take_chunk_def)
qed (auto simp: areturn_def)

definition events_ok :: "locals \<Rightarrow> nat \<Rightarrow> bool" where
  "events_ok lo c \<longleftrightarrow> event_run (Between 0 0) (lo_events lo) = Some (Between (lo_attempts lo) (lo_wasted lo))"

definition events_end :: "RoutingFailed + served \<Rightarrow> locals \<Rightarrow> nat \<Rightarrow> bool" where
  "events_end r lo c \<longleftrightarrow> (case r of
      Inl f \<Rightarrow> event_run (Between 0 0) (lo_events lo) = Some (Between (rf_attempts f) (rf_wasted_tokens_out f))
    | Inr (ServedStream ok) \<Rightarrow> event_run (Between 0 0) (lo_events lo) = Some (Finished ok)
    | Inr (ServedComplete _) \<Rightarrow> False)"

lemma try_block_stream:
  assumes "try_block env STREAM spec resolved t0 lo s = (Inr (e, lo1), s')" "events_ok lo c"
  shows "case e of QuotaSkip _ \<Rightarrow> True
    | Fault exc _ chars \<Rightarrow> event_run (Between 0 0) (lo_events lo1) \<in> {Some (During (lo_attempts lo1) spec chars (lo_wasted lo1))} \<union>
        (if chars = 0 then {Some (Between (lo_attempts lo1) (lo_wasted lo1))} else {})
    | Answer _ _ d \<Rightarrow> \<exists>u f t n. d = Streamed u f t n \<and> 0 < n \<and>
        event_run (Between 0 0) (lo_events lo1) = Some (During (lo_attempts lo1) spec n (lo_wasted lo1))"
  using assms(1)
proof (cases rule: try_block_cases)
  case render
  then show ?thesis using assms(2) by (simp add: events_ok_def)
next
  case (sent payload report rsv s1)
  let ?ck0 = "\<lparr>ck_delivered = 0, ck_ttft_ms = None, ck_usage = None, ck_finish = ''stop'', ck_deltas = []\<rparr>"
  obtain us s2 fault ck where ck: "consume env spec t0 us ?ck0 s2 = (Inr (fault, ck), s')"
    and e: "e = (case fault of Some exc \<Rightarrow> Fault exc rsv (ck_delivered ck)
                  | None \<Rightarrow> if ck_delivered ck = 0
                      then Fault \<lparr>pe_class = EmptyResponse, pe_provider = ms_provider spec, pe_model = ms_model spec,
                                  pe_status_code = None\<rparr> rsv 0
                      else Answer report rsv (Streamed (ck_usage ck) (ck_finish ck) (ck_ttft_ms ck) (ck_delivered ck)))"
    and lo1: "lo1 = lo\<lparr>lo_attempts := Suc (lo_attempts lo),
          lo_events := lo_events lo @ AttemptStarted (Suc (lo_attempts lo)) spec # map AttemptDelta (ck_deltas ck)\<rparr>"
    using sent(2) by (auto simp: send_attempt_def Let_def abind_Inr areturn_def)
  have "event_run (Between 0 0) (lo_events lo1) = Some (During (lo_attempts lo1) spec (ck_delivered ck) (lo_wasted lo1))"
    using consume_deltas [OF ck] assms(2) lo1 by (simp add: events_ok_def event_run_append event_run_deltas)
  then show ?thesis using e by (auto split: option.splits)
qed simp

interpretation stream_events: route_loop env STREAM events_ok events_end for env
proof
  fix lo :: locals and c out and spec :: ModelSpec and st ret win pool
  assume "events_ok lo c" "out = At_skipped_breaker \<or> out = At_skipped_quota"
  then show "events_ok (trail_entry lo spec out None 0 0 st ret win pool) c" by (simp add: events_ok_def)
next
  fix lo s spec resolved t0 exc rsv chars lo1 s1 decision lo2 s2
  assume inv: "events_ok lo (rs_calls s)" and t: "try_block env STREAM spec resolved t0 lo s = (Inr (Fault exc rsv chars, lo1), s1)"
    and a: "after_fault env STREAM decision spec resolved t0 exc rsv chars lo1 s1 = (Inr lo2, s2)"
  show "events_ok lo2 (rs_calls s2)"
    using try_block_stream [OF t inv] after_fault_effect(2,6,7) [OF a]
    by (auto simp: events_ok_def event_run_append estimate_discarded_tokens_def split: if_splits)
next
  fix lo s spec resolved t0 report rsv d lo1 s1 decision started sv lo2 s2
  assume inv: "events_ok lo (rs_calls s)" and t: "try_block env STREAM spec resolved t0 lo s = (Inr (Answer report rsv d, lo1), s1)"
    and a: "after_answer env STREAM decision spec resolved started t0 report rsv d lo1 s1 = (Inr (sv, lo2), s2)"
  show "events_end (Inr sv) lo2 (rs_calls s2)"
    using try_block_stream [OF t inv] after_answer_effect(2,4,5) [OF a]
    by (cases sv) (auto simp: events_end_def event_run_append)
next
  fix lo c and f :: RoutingFailed and chain
  assume "events_ok lo c" "rf_trail f = lo_trail lo" "rf_attempts f = lo_attempts lo" "rf_wasted_tokens_out f = lo_wasted lo"
    "rf_error f = (case lo_last_error lo of Some e \<Rightarrow> e | None \<Rightarrow> all_skipped chain (lo_trail lo))"
  then show "events_end (Inl f) lo c" by (simp add: events_ok_def events_end_def)
qed


subsection \<open>The candidates are visited in order\<close>

definition passes_left :: "bool \<Rightarrow> nat \<Rightarrow> nat" where
  "passes_left refit k = (if refit then 0 else 1) + (1 - k)"

definition of_candidate :: "ModelSpec \<Rightarrow> AttemptRecord \<Rightarrow> bool" where
  "of_candidate spec e \<longleftrightarrow> ar_slot e = ms_slot spec \<and> ar_provider e = ms_provider spec \<and> ar_model e = ms_model spec"

text \<open>A visit: at most \<open>n\<close> entries of one candidate, of which all but the last are errors that delivered nothing.\<close>

definition visits :: "nat \<Rightarrow> ModelSpec \<Rightarrow> AttemptRecord list \<Rightarrow> bool" where
  "visits n spec b \<longleftrightarrow> b \<noteq> [] \<and> length b \<le> n \<and> (\<forall>e\<in>set b. of_candidate spec e) \<and>
     (\<forall>e\<in>set (butlast b). ar_outcome e = At_error \<and> ar_wasted_tokens_out e = 0)"

lemma visits_Cons:
  assumes "visits n spec b" "of_candidate spec e" "ar_outcome e = At_error" "ar_wasted_tokens_out e = 0"
  shows "visits (Suc n) spec (e # b)"
  using assms by (auto simp: visits_def)

lemma next_move_abort: "next_move_after a mx left refit k chars exc = Abort \<Longrightarrow> \<not> failover_eligible exc"
  by (auto simp: next_move_after_def Let_def split: error_class.splits option.splits if_splits)

lemma one_pass_entry:
  assumes "one_pass env mode started decision left spec refit k lo s = (Inr r, s')"
  obtains e where "lo_trail (pass_locals r) = lo_trail lo @ [e]" "of_candidate spec e"
    "r = AgainRefit spec' lo' \<or> r = AgainRetry lo' \<Longrightarrow> ar_outcome e = At_error \<and> ar_wasted_tokens_out e = 0"
    "r = AgainRefit spec' lo' \<Longrightarrow> of_candidate spec' = of_candidate spec"
    "r = Failed f lo' \<Longrightarrow> \<not> failover_eligible (pe_class (rf_error f))"
  using assms
proof (cases rule: one_passE)
  case (quota resolved t0 d lo1 s3)
  from try_block_effect(1) [OF quota(2)] quota(3) show ?thesis
    by (intro that) (auto simp: pass_locals_def trail_entry_trail of_candidate_def)
next
  case (answer resolved t0 report rsv d lo1 s3 s4 sv lo2)
  from try_block_effect(1) [OF answer(2)] after_answer_effect(1) [OF answer(3)] answer(4) show ?thesis
    by (elim exE, intro that) (auto simp: pass_locals_def trail_entry_trail of_candidate_def)
next
  case (fault resolved t0 exc rsv chars lo1 s3 s4 lo2 s5)
  from after_fault_effect(1) [OF fault(3)] try_block_effect(1) [OF fault(2)] obtain e where
    e: "lo_trail lo2 = lo_trail lo @ [e]" "of_candidate spec e" "ar_outcome e = At_error" "ar_wasted_tokens_out e = estimate_discarded_tokens chars"
    by (auto simp: trail_entry_trail of_candidate_def)
  show ?thesis
    using e fault(4) fault_end_locals [OF fault(4)]
    by (intro that [of e]) (auto simp: fault_end_def of_candidate_def fun_eq_iff estimate_discarded_tokens_def split: next_move.splits
        dest: next_move_refit next_move_retry next_move_abort)
qed

lemma serve_block:
  assumes "serve_candidate env mode started decision left spec refit k lo s = (Inr r, s')"
  shows "(\<exists>b. lo_trail (pass_locals r) = lo_trail lo @ b \<and> visits (Suc (passes_left refit k)) spec b) \<and>
    (r = Failed f lo' \<longrightarrow> \<not> failover_eligible (pe_class (rf_error f)))"
  using assms
proof (induction env mode started decision left spec refit k lo s rule: serve_candidate.induct)
  case (1 env mode started decision left spec refit k lo s)
  note serve_candidate.simps [simp]
  from "1.prems" obtain r1 s1 where p: "one_pass env mode started decision left spec refit k lo s = (Inr r1, s1)"
    by (auto split: prod.splits sum.splits)
  obtain e where e: "lo_trail (pass_locals r1) = lo_trail lo @ [e]" "of_candidate spec e" "r1 = Failed f lo' \<Longrightarrow> \<not> failover_eligible (pe_class (rf_error f))"
    using one_pass_entry [OF p, where f = f and lo' = lo'] by metis
  have stop: ?case if "r = r1"
    using e that by (auto intro!: exI [of _ "[e]"] simp: visits_def)
  show ?case
  proof (cases r1)
    case (AgainRefit spec1 lo1)
    obtain e where e: "lo_trail lo1 = lo_trail lo @ [e]" "of_candidate spec e" "ar_outcome e = At_error" "ar_wasted_tokens_out e = 0"
      "of_candidate spec1 = of_candidate spec"
      using one_pass_entry [OF p, where spec' = spec1 and lo' = lo1] AgainRefit by (auto simp: pass_locals_def)
    have "serve_candidate env mode started decision left spec1 True k lo1 s1 = (Inr r, s')" using "1.prems" p AgainRefit by simp
    from "1.IH"(1) [OF p [symmetric] refl AgainRefit this] obtain b where b: "lo_trail (pass_locals r) = lo_trail lo1 @ b"
      "visits (Suc (passes_left True k)) spec1 b" "r = Failed f lo' \<longrightarrow> \<not> failover_eligible (pe_class (rf_error f))" by blast
    then have "visits (Suc (passes_left refit k)) spec (e # b)"
      using visits_Cons [of "Suc (passes_left True k)" spec b e] e one_pass_again(1) [OF p AgainRefit] by (simp add: visits_def passes_left_def)
    then show ?thesis using b e by auto
  next
    case (AgainRetry lo1)
    obtain e where e: "lo_trail lo1 = lo_trail lo @ [e]" "of_candidate spec e" "ar_outcome e = At_error" "ar_wasted_tokens_out e = 0"
      using one_pass_entry [OF p, where lo' = lo1] AgainRetry by (auto simp: pass_locals_def)
    have "serve_candidate env mode started decision left spec refit (Suc k) lo1 s1 = (Inr r, s')" using "1.prems" p AgainRetry by simp
    from "1.IH"(2) [OF p [symmetric] refl AgainRetry this] obtain b where b: "lo_trail (pass_locals r) = lo_trail lo1 @ b"
      "visits (Suc (passes_left refit (Suc k))) spec b" "r = Failed f lo' \<longrightarrow> \<not> failover_eligible (pe_class (rf_error f))" by blast
    then have "visits (Suc (passes_left refit k)) spec (e # b)"
      using visits_Cons [OF b(2) e(2-4)] one_pass_again(2) [OF p AgainRetry] by (simp add: passes_left_def)
    then show ?thesis using b e by auto
  qed (use "1.prems" p stop in auto)
qed

definition in_order :: "ModelSpec list \<Rightarrow> AttemptRecord list list \<Rightarrow> bool" where
  "in_order cs bs \<longleftrightarrow> length bs \<le> length cs \<and> (\<forall>i<length bs. visits 3 (cs ! i) (bs ! i))"

lemma in_order_Cons [simp]: "in_order (c # cs) (b # bs) \<longleftrightarrow> visits 3 c b \<and> in_order cs bs"
  by (auto simp: in_order_def less_Suc_eq_0_disj)

lemma in_order_Nil [simp]: "in_order cs []"
  by (simp add: in_order_def)

lemma walk_blocks:
  assumes "walk env mode started chain cs lo s = (Inr (r, lo'), s')"
  shows "\<exists>bs. lo_trail lo' = lo_trail lo @ concat bs \<and> in_order cs bs \<and>
    (\<forall>f. r = Inl f \<longrightarrow> length bs = length cs \<or> lo_attempts lo' \<ge> en_max_attempts env \<or> \<not> failover_eligible (pe_class (rf_error f)))"
  using assms
proof (induction cs arbitrary: lo s)
  case Nil
  then show ?case by (elim walk_stop) (auto intro!: exI [of _ "[]"])
next
  case (Cons c rest)
  show ?case
  proof (cases "lo_attempts lo < en_max_attempts env")
    case False
    with Cons.prems show ?thesis by (elim walk_stop) (auto intro!: exI [of _ "[]"])
  next
    case True
    have three: "Suc (passes_left False 0) = 3" by (simp add: passes_left_def)
    from Cons.prems(1) True show ?thesis
    proof (cases rule: walk_Cons)
      case (skipped decision s1)
      let ?lo = "trail_entry lo c At_skipped_breaker None 0 0 (bd_state decision) (bd_retry_after_s decision) None None"
      obtain b where "lo_trail ?lo = lo_trail lo @ b" "visits 3 c b" by (simp add: trail_entry_trail visits_def of_candidate_def)
      moreover obtain bs where "lo_trail lo' = lo_trail ?lo @ concat bs" "in_order rest bs"
        "\<forall>f. r = Inl f \<longrightarrow> length bs = length rest \<or> lo_attempts lo' \<ge> en_max_attempts env \<or> \<not> failover_eligible (pe_class (rf_error f))"
        using Cons.IH [OF skipped(3)] by blast
      ultimately show ?thesis by (intro exI [of _ "b # bs"]) auto
    next
      case (moved decision s1 s2 lo1)
      obtain b where "lo_trail lo1 = lo_trail lo @ b" "visits 3 c b" using serve_block [OF moved(2)] three by (auto simp: pass_locals_def)
      moreover obtain bs where "lo_trail lo' = lo_trail lo1 @ concat bs" "in_order rest bs"
        "\<forall>f. r = Inl f \<longrightarrow> length bs = length rest \<or> lo_attempts lo' \<ge> en_max_attempts env \<or> \<not> failover_eligible (pe_class (rf_error f))"
        using Cons.IH [OF moved(3)] by blast
      ultimately show ?thesis by (intro exI [of _ "b # bs"]) auto
    next
      case (failed decision s1 f)
      obtain b where "lo_trail lo' = lo_trail lo @ b" "visits 3 c b" "\<not> failover_eligible (pe_class (rf_error f))"
        using serve_block [OF failed(2), where f = f and lo' = lo'] three by (auto simp: pass_locals_def)
      then show ?thesis using failed(3) by (intro exI [of _ "[b]"]) auto
    next
      case (served decision s1 sv)
      obtain b where "lo_trail lo' = lo_trail lo @ b" "visits 3 c b" using serve_block [OF served(2)] three by (auto simp: pass_locals_def)
      then show ?thesis using served(3) by (intro exI [of _ "[b]"]) auto
    qed
  qed
qed


text \<open>The runs the witnesses use: every request fails; a stream that dies after a delta, then one that answers.\<close>

definition ex_down_run :: "((RoutingFailed + served) \<times> locals) exn \<times> unit rstate" where
  "ex_down_run = run_route (ex_env (\<lambda>_. Inl ex_down) (\<lambda>_. [])) COMPLETE ''general'' None ex_start"

lemma ex_down_run_ends: obtains r lo s' where "run_route (ex_env (\<lambda>_. Inl ex_down) (\<lambda>_. [])) COMPLETE ''general'' None ex_start = (Inr (r, lo), s')"
proof -
  have "case ex_down_run of (Inr (r, lo), s') \<Rightarrow> True | _ \<Rightarrow> False" by code_simp
  then show ?thesis using that by (auto simp: ex_down_run_def split: prod.splits sum.splits)
qed

text \<open>Quota is enforced but its Redis cannot be reached, so every reservation is refused.\<close>

definition ex_rpm :: ModelLimits where
  "ex_rpm = \<lparr>ml_rpm = Some 2, ml_rpd = None, ml_tpm = None, ml_tpd = None,
     rp_rpm = Some Rolling60s, rp_rpd = None, rp_tpm = None, rp_tpd = None\<rparr>"

definition ex_closed_env :: "(unit, unit) renv" where
  "ex_closed_env = (ex_env (\<lambda>_. Inl ex_down) (\<lambda>_. []))\<lparr>en_quota := Some \<lparr>qt_limits = \<lparr>lc_limits = [''p'' \<mapsto> [''a'' \<mapsto> ex_rpm, ''b'' \<mapsto> ex_rpm]],
     lc_gateway = Map.empty\<rparr>, qt_headroom = 0, qt_pt = utc\<rparr>\<rparr>"

text \<open>A stream that dies after one delta, then one that answers.\<close>

definition ex_text :: "string \<Rightarrow> upstream" where
  "ex_text t = UChunk \<lparr>sc_delta = t, sc_finish_reason = None, sc_usage = None\<rparr>"

definition ex_streams :: "nat \<Rightarrow> upstream list" where
  "ex_streams n = (if n = 0 then [ex_text ''half an ans'', UFault ex_down] else [ex_text ''an '', ex_text ''answer''])"

lemma all_skipped_class:
  "pe_class (all_skipped chain trail) = (let quota_skips = filter (\<lambda>e. ar_outcome e = At_skipped_quota) trail
      in if quota_skips = [] then Unavailable else RateLimited (min_default (List.map_filter ar_retry_after_s quota_skips)))"
  by (cases "filter (\<lambda>e. ar_outcome e = At_skipped_quota) trail") (simp_all add: all_skipped_def Let_def)

lemma run_route_books:
  assumes "run_route env mode requested pinned s = (Inr (r, lo), s')"
  shows "ledger_end (rs_calls s) r lo (rs_calls s')"
  by (rule book.run_route_post [OF assms]) (simp add: ledger_def no_locals_def)

section \<open>Properties\<close>

text \<open>C14: A call to the router sends exactly as many requests to upstreams as it reports attempts, and never more
  than one over the configured maximum, whatever the upstreams, the breaker and the quota answer.\<close>

theorem attempts_bounded:
  assumes "run_route env mode requested pinned s = (Inr (r, lo), s')"
  shows "rs_calls s' = rs_calls s + outcome_attempts r \<and> outcome_attempts r \<le> Suc (en_max_attempts env)"
proof -
  have "ledger_end (rs_calls s) r lo (rs_calls s')"
    by (rule run_route_books [OF assms])
  moreover obtain started chain s1 where "walk env mode started chain chain no_locals s1 = (Inr (r, lo), s')"
    using assms by (auto simp: run_route_def abind_Inr split: sum.splits)
  note walk_attempts [OF this]
  ultimately show ?thesis by (simp add: ledger_end_def no_locals_def)
qed

theorem attempts_bounded_witness:
  "case run_route (ex_env (\<lambda>_. Inl ex_down) (\<lambda>_. [])) COMPLETE ''general'' None ex_start of
     (Inr (r, lo), s') \<Rightarrow> rs_calls s' = outcome_attempts r \<and> outcome_attempts r \<le> 4
   | _ \<Rightarrow> False"
proof -
  obtain r lo s' where run: "run_route (ex_env (\<lambda>_. Inl ex_down) (\<lambda>_. [])) COMPLETE ''general'' None ex_start = (Inr (r, lo), s')"
    by (rule ex_down_run_ends)
  show ?thesis using attempts_bounded [OF run] run by (simp add: ex_start_def ex_env_def MAX_ATTEMPTS_def)
qed

text \<open>The budget of three attempts can be overspent: with two candidates whose upstream is unavailable, the
  retry of the last candidate is not checked against the budget, and a call configured with \<^verbatim>\<open>MAX_ATTEMPTS\<close> sends
  four requests.\<close>

theorem last_retry_overspends_budget:
  "case route (ex_env (\<lambda>_. Inl ex_down) (\<lambda>_. [])) ''general'' None ex_start of
     (Inr (Inl f), s') \<Rightarrow> rf_attempts f = Suc MAX_ATTEMPTS \<and> rs_calls s' = Suc MAX_ATTEMPTS
   | _ \<Rightarrow> False"
  by code_simp

text \<open>C13: The books of a call agree, in both modes: the trail is numbered from one without gaps; the attempts
  reported are the requests sent and are at most the errors recorded plus one for the answer; a served call's only
  \<open>ok\<close> entry is its last and names the model reported; a failed call has none, reports the waste its trail adds
  up to, and raises the error its trail recorded last, or, if every candidate was skipped, the error made from the
  skips.\<close>

theorem call_books_agree:
  assumes "run_route env mode requested pinned s = (Inr (r, lo), s')"
  shows "ledger_end (rs_calls s) r lo (rs_calls s')"
  by (rule run_route_books [OF assms])

theorem call_books_agree_witness:
  "case run_route (ex_env (\<lambda>_. Inl ex_down) (\<lambda>_. [])) COMPLETE ''general'' None ex_start of
     (Inr (r, lo), s') \<Rightarrow> ledger_end 0 r lo (rs_calls s')
   | _ \<Rightarrow> False"
proof -
  obtain r lo s' where run: "run_route (ex_env (\<lambda>_. Inl ex_down) (\<lambda>_. [])) COMPLETE ''general'' None ex_start = (Inr (r, lo), s')"
    by (rule ex_down_run_ends)
  show ?thesis using call_books_agree [OF run] run by (simp add: ex_start_def)
qed


text \<open>When no candidate could even be tried, no request is sent, no attempt is reported, and the error says why:
  a rate limit carrying the soonest wait among the quota refusals if quota refused any, otherwise unavailable.\<close>

theorem all_skipped_reports_why:
  assumes "run_route env mode requested pinned s = (Inr (Inl f, lo), s')" "outcomes At_error (rf_trail f) = 0"
  shows "rf_attempts f = 0 \<and> rs_calls s' = rs_calls s \<and>
    pe_class (rf_error f) = (let quota_skips = filter (\<lambda>e. ar_outcome e = At_skipped_quota) (rf_trail f)
      in if quota_skips = [] then Unavailable else RateLimited (min_default (List.map_filter ar_retry_after_s quota_skips)))"
proof -
  have "ledger_end (rs_calls s) (Inl f) lo (rs_calls s')"
    by (rule run_route_books [OF assms(1)])
  then show ?thesis using assms(2)
    by (auto simp: ledger_end_def outcome_attempts_def all_skipped_class)
qed

theorem all_skipped_reports_why_witness:
  "case run_route ex_closed_env COMPLETE ''general'' None ex_start of
     (Inr (Inl f, lo), s') \<Rightarrow> rf_attempts f = 0 \<and> rs_calls s' = 0 \<and> (\<exists>retry. pe_class (rf_error f) = RateLimited retry)
   | _ \<Rightarrow> False"
proof -
  have "case run_route ex_closed_env COMPLETE ''general'' None ex_start of (Inr (Inl f, lo), s') \<Rightarrow>
      outcomes At_error (rf_trail f) = 0 \<and> filter (\<lambda>e. ar_outcome e = At_skipped_quota) (rf_trail f) \<noteq> [] | _ \<Rightarrow> False"
    by code_simp
  then obtain f lo s' where run: "run_route ex_closed_env COMPLETE ''general'' None ex_start = (Inr (Inl f, lo), s')"
    and skips: "outcomes At_error (rf_trail f) = 0" "filter (\<lambda>e. ar_outcome e = At_skipped_quota) (rf_trail f) \<noteq> []"
    by (cases "run_route ex_closed_env COMPLETE ''general'' None ex_start" rule: prod.exhaust) (auto split: sum.split_asm prod.split_asm)
  show ?thesis using all_skipped_reports_why [OF run skips(1)] run skips(2) by (simp add: ex_start_def)
qed



text \<open>C8: The events of a streamed call are well formed: attempts are announced one by one with consecutive numbers,
  text arrives only inside an announced attempt and is never empty, an aborted attempt reports exactly the characters it
  delivered and their token estimate, and a completed stream ends in one completion, for the attempt that delivered
  some text, whose waste is the sum of the aborted ones. A stream that ends in a failure has no attempt left open.\<close>

theorem stream_events_well_formed:
  assumes "route_stream env requested pinned s = (Inr (events, failure), s')"
  shows "case failure of
      None \<Rightarrow> \<exists>ok. event_run (Between 0 0) events = Some (Finished ok)
    | Some f \<Rightarrow> event_run (Between 0 0) events = Some (Between (rf_attempts f) (rf_wasted_tokens_out f))"
proof -
  from assms obtain r lo where run: "run_route env STREAM requested pinned s = (Inr (r, lo), s')"
    and res: "events = lo_events lo" "failure = (case r of Inl f \<Rightarrow> Some f | Inr _ \<Rightarrow> None)"
    by (auto simp: route_stream_def abind_Inr areturn_def)
  have e: "events_end r lo (rs_calls s')"
    by (rule stream_events.run_route_post [OF run]) (simp add: events_ok_def no_locals_def)
  show ?thesis
  proof (cases r)
    case (Inl f)
    then show ?thesis using e res by (simp add: events_end_def)
  next
    case (Inr sv)
    then show ?thesis using e res by (cases sv) (auto simp: events_end_def)
  qed
qed


theorem stream_events_well_formed_witness:
  "case route_stream (ex_env (\<lambda>_. Inl ex_down) ex_streams) ''general'' None ex_start of
     (Inr (events, None), s') \<Rightarrow> length events = 7 \<and> (\<exists>ok. event_run (Between 0 0) events = Some (Finished ok))
   | _ \<Rightarrow> False"
proof -
  have "case route_stream (ex_env (\<lambda>_. Inl ex_down) ex_streams) ''general'' None ex_start of
     (Inr (events, None), s') \<Rightarrow> length events = 7 | _ \<Rightarrow> False"
    by code_simp
  then obtain events s' where run: "route_stream (ex_env (\<lambda>_. Inl ex_down) ex_streams) ''general'' None ex_start = (Inr (events, None), s')"
    and n: "length events = 7"
    by (auto split: prod.splits sum.splits option.splits)
  show ?thesis using stream_events_well_formed [OF run] run n by simp
qed

end
