(* ===== verification/Gw_Canonical.thy ===== *)
theory Gw_Canonical
  imports Gw_Types Gw_Json
begin

text \<open>
  The canonical conversation schema (\<^verbatim>\<open>app/memory/canonical.py\<close>): content blocks, message provenance,
  the parsers at the database boundary and the invariants of a history. Stored values are JSON; a
  Python dict read from JSON is a \<open>JObj\<close> with distinct keys.
\<close>

subsection \<open>Content blocks\<close>

datatype Role = System | User | Assistant

text \<open>\<open>OtherBlock\<close> is a block whose type the union does not name: one of the reserved types, which only code that
  builds a message by hand can produce.\<close>

datatype ContentBlock =
    TextBlock string
  | FileRefBlock (fr_hash: string) (fr_filename: string) (fr_mime: string) (fr_bytes: int)
  | OmissionMarkerBlock int
  | OtherBlock string

definition RESERVED_BLOCK_TYPES :: "string list" where
  "RESERVED_BLOCK_TYPES = [''tool_call'', ''tool_result'', ''summary'']"

definition KNOWN_BLOCK_TYPES :: "string list" where
  "KNOWN_BLOCK_TYPES = [''text'', ''file_ref'', ''omission_marker'']"

definition TOOL_BLOCK_TYPES :: "string list" where
  "TOOL_BLOCK_TYPES = [''tool_call'', ''tool_result'']"

datatype py_type = Ty_str | Ty_int

definition BLOCK_FIELDS :: "string \<Rightarrow> (string \<times> py_type) list" where
  "BLOCK_FIELDS t =
    (if t = ''text'' then [(''text'', Ty_str)]
     else if t = ''file_ref'' then [(''file_hash'', Ty_str), (''filename'', Ty_str), (''mime'', Ty_str), (''bytes'', Ty_int)]
     else if t = ''omission_marker'' then [(''omitted_count'', Ty_int), (''reason'', Ty_str)] else [])"

definition text_block :: "string \<Rightarrow> ContentBlock" where
  "text_block = TextBlock"

definition file_ref_block :: "string \<Rightarrow> string \<Rightarrow> string \<Rightarrow> int \<Rightarrow> ContentBlock" where
  "file_ref_block = FileRefBlock"

definition omission_marker :: "int \<Rightarrow> ContentBlock" where
  "omission_marker = OmissionMarkerBlock"

fun block_type :: "ContentBlock \<Rightarrow> string" where
  "block_type (TextBlock _) = ''text''"
| "block_type (FileRefBlock _ _ _ _) = ''file_ref''"
| "block_type (OmissionMarkerBlock _) = ''omission_marker''"
| "block_type (OtherBlock t) = t"

text \<open>The dict a block is.\<close>

fun block_items :: "ContentBlock \<Rightarrow> (string \<times> json) list" where
  "block_items (TextBlock s) = [(''type'', JStr ''text''), (''text'', JStr s)]"
| "block_items (FileRefBlock h f m n) = [(''type'', JStr ''file_ref''), (''file_hash'', JStr h), (''filename'', JStr f), (''mime'', JStr m), (''bytes'', JInt n)]"
| "block_items (OmissionMarkerBlock n) = [(''type'', JStr ''omission_marker''), (''omitted_count'', JInt n), (''reason'', JStr ''context_truncation'')]"
| "block_items (OtherBlock t) = [(''type'', JStr t)]"

definition is_text :: "ContentBlock \<Rightarrow> bool" where
  "is_text b \<longleftrightarrow> block_type b = ''text''"

definition is_file_ref :: "ContentBlock \<Rightarrow> bool" where
  "is_file_ref b \<longleftrightarrow> block_type b = ''file_ref''"

subsection \<open>Provenance\<close>

record MessageMeta =
  mm_provider_used :: "string option"
  mm_model_used :: "string option"
  mm_slot_used :: "string option"
  mm_requested_slot :: "string option"
  mm_substituted :: bool
  mm_attempts :: int
  mm_tokens_in :: "int option"
  mm_tokens_out :: "int option"
  mm_wasted_tokens_out :: int
  mm_degraded :: bool
  mm_extraction_tier :: "extraction_tier option"
  mm_messages_dropped :: int
  mm_key_pool :: "key_pool option"

definition default_meta :: MessageMeta where
  "default_meta = \<lparr>mm_provider_used = None, mm_model_used = None, mm_slot_used = None, mm_requested_slot = None, mm_substituted = False,
     mm_attempts = 1, mm_tokens_in = None, mm_tokens_out = None, mm_wasted_tokens_out = 0, mm_degraded = False, mm_extraction_tier = None,
     mm_messages_dropped = 0, mm_key_pool = None\<rparr>"

definition opt_json :: "('a \<Rightarrow> json) \<Rightarrow> 'a option \<Rightarrow> json" where
  "opt_json f x = (case x of None \<Rightarrow> JNull | Some y \<Rightarrow> f y)"

fun tier_name :: "extraction_tier \<Rightarrow> string" where
  "tier_name TierCache = ''cache''"
| "tier_name TierNative = ''native''"
| "tier_name TierLlm = ''llm''"
| "tier_name TierLocal = ''local''"

fun pool_name :: "key_pool \<Rightarrow> string" where
  "pool_name Shared = ''shared''"
| "pool_name Private = ''private''"

definition to_jsonb :: "MessageMeta \<Rightarrow> json" where
  "to_jsonb m = JObj
    [(''provider_used'', opt_json JStr (mm_provider_used m)), (''model_used'', opt_json JStr (mm_model_used m)),
     (''slot_used'', opt_json JStr (mm_slot_used m)), (''requested_slot'', opt_json JStr (mm_requested_slot m)),
     (''substituted'', JBool (mm_substituted m)), (''attempts'', JInt (mm_attempts m)),
     (''tokens_in'', opt_json JInt (mm_tokens_in m)), (''tokens_out'', opt_json JInt (mm_tokens_out m)),
     (''wasted_tokens_out'', JInt (mm_wasted_tokens_out m)), (''degraded'', JBool (mm_degraded m)),
     (''extraction_tier'', opt_json (\<lambda>t. JStr (tier_name t)) (mm_extraction_tier m)),
     (''messages_dropped'', JInt (mm_messages_dropped m)),
     (''key_pool'', opt_json (\<lambda>p. JStr (pool_name p)) (mm_key_pool m))]"

definition violation :: "nat option \<Rightarrow> 'a exn" where
  "violation n = Inl (InvariantViolation n)"

definition opt_str :: "json \<Rightarrow> string option exn" where
  "opt_str v = (case v of JNull \<Rightarrow> Inr None | JStr s \<Rightarrow> Inr (Some s) | _ \<Rightarrow> violation None)"

definition opt_int :: "json \<Rightarrow> int option exn" where
  "opt_int v = (case v of JNull \<Rightarrow> Inr None | JInt n \<Rightarrow> Inr (Some n) | _ \<Rightarrow> violation None)"

definition req_int :: "json \<Rightarrow> int exn" where
  "req_int v = (case v of JInt n \<Rightarrow> Inr n | _ \<Rightarrow> violation None)"

definition req_bool :: "json \<Rightarrow> bool exn" where
  "req_bool v = (case v of JBool b \<Rightarrow> Inr b | _ \<Rightarrow> violation None)"

definition opt_named :: "('a \<times> string) list \<Rightarrow> json \<Rightarrow> 'a option exn" where
  "opt_named table v = (case v of JNull \<Rightarrow> Inr None
     | JStr s \<Rightarrow> (case List.find (\<lambda>(x, n). n = s) table of Some (x, _) \<Rightarrow> Inr (Some x) | None \<Rightarrow> violation None)
     | _ \<Rightarrow> violation None)"

definition tiers :: "(extraction_tier \<times> string) list" where
  "tiers = map (\<lambda>t. (t, tier_name t)) [TierCache, TierNative, TierLlm, TierLocal]"

definition pools :: "(key_pool \<times> string) list" where
  "pools = map (\<lambda>p. (p, pool_name p)) [Shared, Private]"

definition from_jsonb :: "json \<Rightarrow> MessageMeta exn" where
  "from_jsonb raw = (case raw of
      JNull \<Rightarrow> Inr default_meta
    | JObj kvs \<Rightarrow>
        ebind (opt_named tiers (jget kvs ''extraction_tier'')) (\<lambda>tier.
        ebind (opt_named pools (jget kvs ''key_pool'')) (\<lambda>pool.
        ebind (opt_str (jget kvs ''provider_used'')) (\<lambda>provider_used.
        ebind (opt_str (jget kvs ''model_used'')) (\<lambda>model_used.
        ebind (opt_str (jget kvs ''slot_used'')) (\<lambda>slot_used.
        ebind (opt_str (jget kvs ''requested_slot'')) (\<lambda>requested_slot.
        ebind (req_bool (jget_or kvs ''substituted'' (JBool False))) (\<lambda>substituted.
        ebind (req_int (jget_or kvs ''attempts'' (JInt 1))) (\<lambda>attempts.
        ebind (opt_int (jget kvs ''tokens_in'')) (\<lambda>tokens_in.
        ebind (opt_int (jget kvs ''tokens_out'')) (\<lambda>tokens_out.
        ebind (req_int (jget_or kvs ''wasted_tokens_out'' (JInt 0))) (\<lambda>wasted.
        ebind (req_bool (jget_or kvs ''degraded'' (JBool False))) (\<lambda>degraded.
        ebind (req_int (jget_or kvs ''messages_dropped'' (JInt 0))) (\<lambda>dropped.
          Inr \<lparr>mm_provider_used = provider_used, mm_model_used = model_used, mm_slot_used = slot_used, mm_requested_slot = requested_slot,
            mm_substituted = substituted, mm_attempts = attempts, mm_tokens_in = tokens_in, mm_tokens_out = tokens_out,
            mm_wasted_tokens_out = wasted, mm_degraded = degraded, mm_extraction_tier = tier, mm_messages_dropped = dropped,
            mm_key_pool = pool\<rparr>)))))))))))))
    | _ \<Rightarrow> violation None)"

subsection \<open>Messages\<close>

definition SCHEMA_VERSION :: int where "SCHEMA_VERSION = 1"

record CanonicalMessage =
  cm_id :: string
  cm_conversation_id :: string
  cm_role :: Role
  cm_content :: "ContentBlock list"
  cm_meta :: MessageMeta
  cm_created_at :: instant
  cm_seq :: int
  cm_schema_version :: int

fun block_text :: "ContentBlock \<Rightarrow> string" where
  "block_text (TextBlock s) = s"
| "block_text _ = []"

definition cm_text :: "CanonicalMessage \<Rightarrow> string" where
  "cm_text m = concat (map block_text (filter is_text (cm_content m)))"

definition file_refs :: "CanonicalMessage \<Rightarrow> ContentBlock list" where
  "file_refs m = filter is_file_ref (cm_content m)"

definition with_content :: "CanonicalMessage \<Rightarrow> ContentBlock list \<Rightarrow> CanonicalMessage" where
  "with_content m content = m\<lparr>cm_content := content\<rparr>"

text \<open>\<^verbatim>\<open>f"{x}"\<close> of an optional string.\<close>

definition show_opt :: "string option \<Rightarrow> string" where
  "show_opt x = (case x of None \<Rightarrow> ''None'' | Some s \<Rightarrow> s)"

fun pin_target :: "CanonicalMessage list \<Rightarrow> string option" where
  "pin_target [] = None"
| "pin_target (m # ms) =
    (if list_ex (\<lambda>b. block_type b \<in> set TOOL_BLOCK_TYPES) (cm_content m)
     then Some (show_opt (mm_provider_used (cm_meta m)) @ ''/'' @ show_opt (mm_model_used (cm_meta m)))
     else pin_target ms)"

subsection \<open>Parsing\<close>

definition has_type :: "py_type \<Rightarrow> json \<Rightarrow> bool" where
  "has_type t v = (case t of Ty_int \<Rightarrow> is_int v | Ty_str \<Rightarrow> is_str v)"

fun json_str :: "json \<Rightarrow> string" where
  "json_str (JStr s) = s"
| "json_str _ = []"

fun json_int :: "json \<Rightarrow> int" where
  "json_int (JInt n) = n"
| "json_int _ = 0"

text \<open>The typed view of a dict that passed the checks.\<close>

definition block_of :: "string \<Rightarrow> (string \<times> json) list \<Rightarrow> ContentBlock" where
  "block_of t kvs =
    (if t = ''text'' then TextBlock (json_str (jget kvs ''text''))
     else if t = ''file_ref'' then FileRefBlock (json_str (jget kvs ''file_hash'')) (json_str (jget kvs ''filename''))
        (json_str (jget kvs ''mime'')) (json_int (jget kvs ''bytes''))
     else if t = ''omission_marker'' then OmissionMarkerBlock (json_int (jget kvs ''omitted_count''))
     else OtherBlock t)"

definition parse_block :: "json \<Rightarrow> ContentBlock exn" where
  "parse_block raw = (case raw of
      JObj kvs \<Rightarrow> (case jget kvs ''type'' of
        JStr t \<Rightarrow>
          (if t \<in> set RESERVED_BLOCK_TYPES then violation None
           else if t \<notin> set KNOWN_BLOCK_TYPES then violation None
           else let fields = BLOCK_FIELDS t;
                    expected = map fst fields @ [''type''];
                    actual = map fst kvs;
                    inv = (if t = ''file_ref'' then Some 6 else None)
                in if list_ex (\<lambda>k. k \<notin> set actual) expected then violation inv
                   else if list_ex (\<lambda>k. k \<notin> set expected) actual then violation inv
                   else if list_ex (\<lambda>(name, ty). \<not> has_type ty (jget kvs name)) fields then violation None
                   else if t = ''omission_marker'' \<and> jget kvs ''reason'' \<noteq> JStr ''context_truncation'' then violation None
                   else if t = ''omission_marker'' \<and> json_int (jget kvs ''omitted_count'') < 1 then violation None
                   else if t = ''file_ref'' \<and> json_int (jget kvs ''bytes'') < 0 then violation None
                   else Inr (block_of t kvs))
      | _ \<Rightarrow> violation None)
    | _ \<Rightarrow> violation None)"

fun parse_blocks :: "json list \<Rightarrow> ContentBlock list exn" where
  "parse_blocks [] = Inr []"
| "parse_blocks (r # rs) = ebind (parse_block r) (\<lambda>b. ebind (parse_blocks rs) (\<lambda>bs. Inr (b # bs)))"

definition parse_content :: "json \<Rightarrow> ContentBlock list exn" where
  "parse_content raw = (case raw of JArr [] \<Rightarrow> violation (Some 4) | JArr rs \<Rightarrow> parse_blocks rs | _ \<Rightarrow> violation (Some 4))"

definition parse_meta :: "json \<Rightarrow> MessageMeta exn" where
  "parse_meta = from_jsonb"

definition parse_role :: "json \<Rightarrow> Role exn" where
  "parse_role raw = (if raw = JStr ''system'' then Inr System else if raw = JStr ''user'' then Inr User
     else if raw = JStr ''assistant'' then Inr Assistant else violation None)"

subsection \<open>The invariants of a history\<close>

definition validate_message :: "Role \<Rightarrow> ContentBlock list \<Rightarrow> MessageMeta \<Rightarrow> int \<Rightarrow> unit exn" where
  "validate_message role content meta seq =
    (if content = [] then violation (Some 4)
     else if role = System \<and> seq \<noteq> 0 then violation (Some 1)
     else if role = Assistant \<and> mm_provider_used meta = None then violation (Some 5)
     else if role = User \<and> mm_provider_used meta \<noteq> None then violation (Some 5)
     else Inr ())"

definition validate_append :: "CanonicalMessage option \<Rightarrow> Role \<Rightarrow> int \<Rightarrow> unit exn" where
  "validate_append previous role seq = (case previous of
      None \<Rightarrow> if seq \<noteq> 0 then violation (Some 2) else Inr ()
    | Some p \<Rightarrow>
        if seq \<noteq> cm_seq p + 1 then violation (Some 2)
        else if role = System then violation (Some 1)
        else if role = Assistant \<and> cm_role p = Assistant then violation (Some 3)
        else Inr ())"

fun validate_from :: "nat \<Rightarrow> int list \<Rightarrow> CanonicalMessage option \<Rightarrow> CanonicalMessage list \<Rightarrow> unit exn" where
  "validate_from index seen previous [] = Inr ()"
| "validate_from index seen previous (m # ms) =
    (if cm_seq m \<in> set seen then violation (Some 2)
     else if (case previous of None \<Rightarrow> False | Some p \<Rightarrow> cm_seq m \<le> cm_seq p) then violation (Some 2)
     else if index = 0 \<and> cm_seq m \<noteq> 0 then violation (Some 2)
     else ebind (validate_message (cm_role m) (cm_content m) (cm_meta m) (cm_seq m)) (\<lambda>_.
          ebind (validate_append previous (cm_role m) (cm_seq m)) (\<lambda>_.
          validate_from (Suc index) (cm_seq m # seen) (Some m) ms)))"

definition validate :: "CanonicalMessage list \<Rightarrow> unit exn" where
  "validate messages = validate_from 0 [] None messages"


subsection \<open>The schema, stated declaratively\<close>

definition message_ok :: "nat \<Rightarrow> CanonicalMessage \<Rightarrow> bool" where
  "message_ok i m \<longleftrightarrow> cm_seq m = int i \<and> cm_content m \<noteq> [] \<and> (cm_role m = System \<longrightarrow> i = 0) \<and>
     (cm_role m = Assistant \<longrightarrow> mm_provider_used (cm_meta m) \<noteq> None) \<and> (cm_role m = User \<longrightarrow> mm_provider_used (cm_meta m) = None)"

definition history_ok :: "CanonicalMessage list \<Rightarrow> bool" where
  "history_ok ms \<longleftrightarrow> (\<forall>i<length ms. message_ok i (ms ! i)) \<and>
     (\<forall>i. Suc i < length ms \<longrightarrow> \<not> (cm_role (ms ! i) = Assistant \<and> cm_role (ms ! Suc i) = Assistant))"

text \<open>The message an append sees, and the blocks that may be stored.\<close>

definition tail :: "CanonicalMessage list \<Rightarrow> CanonicalMessage option" where
  "tail ms = (if ms = [] then None else Some (last ms))"

fun block_ok :: "ContentBlock \<Rightarrow> bool" where
  "block_ok (TextBlock _) = True"
| "block_ok (FileRefBlock _ _ _ n) = (0 \<le> n)"
| "block_ok (OmissionMarkerBlock n) = (1 \<le> n)"
| "block_ok (OtherBlock _) = False"

fun history_ok_from :: "nat \<Rightarrow> Role option \<Rightarrow> CanonicalMessage list \<Rightarrow> bool" where
  "history_ok_from n pr [] = True"
| "history_ok_from n pr (m # ms) =
    (message_ok n m \<and> \<not> (pr = Some Assistant \<and> cm_role m = Assistant) \<and> history_ok_from (Suc n) (Some (cm_role m)) ms)"

lemma history_ok_from_append:
  "history_ok_from n pr (xs @ ys) \<longleftrightarrow> history_ok_from n pr xs \<and>
     history_ok_from (n + length xs) (if xs = [] then pr else Some (cm_role (last xs))) ys"
  by (induction xs arbitrary: n pr) auto

lemma history_ok_from_nth:
  "history_ok_from n pr ms \<longleftrightarrow> (\<forall>i<length ms. message_ok (n + i) (ms ! i)) \<and>
     (\<forall>i. Suc i < length ms \<longrightarrow> \<not> (cm_role (ms ! i) = Assistant \<and> cm_role (ms ! Suc i) = Assistant)) \<and>
     (ms \<noteq> [] \<longrightarrow> \<not> (pr = Some Assistant \<and> cm_role (hd ms) = Assistant))"
proof (induction ms arbitrary: n pr)
  case (Cons m ms)
  have split: "(\<forall>i<Suc k. P i) \<longleftrightarrow> P 0 \<and> (\<forall>i<k. P (Suc i))" for P k
    by (auto simp: less_Suc_eq_0_disj)
  have "history_ok_from n pr (m # ms) \<longleftrightarrow> message_ok n m \<and> \<not> (pr = Some Assistant \<and> cm_role m = Assistant) \<and>
      (\<forall>i<length ms. message_ok (Suc n + i) (ms ! i)) \<and>
      (\<forall>i. Suc i < length ms \<longrightarrow> \<not> (cm_role (ms ! i) = Assistant \<and> cm_role (ms ! Suc i) = Assistant)) \<and>
      (ms \<noteq> [] \<longrightarrow> \<not> (Some (cm_role m) = Some Assistant \<and> cm_role (hd ms) = Assistant))"
    by (simp add: Cons.IH)
  then show ?case
    by (cases ms) (auto simp: split simp del: history_ok_from.simps)
qed simp

lemma history_ok_iff_from: "history_ok ms \<longleftrightarrow> history_ok_from 0 None ms"
  by (simp add: history_ok_def history_ok_from_nth)

definition tail_of :: "nat \<Rightarrow> int list \<Rightarrow> CanonicalMessage option \<Rightarrow> bool" where
  "tail_of n seen previous \<longleftrightarrow> (\<forall>x\<in>set seen. x < int n) \<and>
     (case previous of None \<Rightarrow> n = 0 | Some p \<Rightarrow> 0 < n \<and> cm_seq p = int n - 1)"

lemma validate_from_iff:
  "tail_of n seen previous \<Longrightarrow> validate_from n seen previous ms = Inr () \<longleftrightarrow> history_ok_from n (map_option cm_role previous) ms"
proof (induction ms arbitrary: n seen previous)
  case (Cons m ms)
  have step: "tail_of (Suc n) (cm_seq m # seen) (Some m)" if "cm_seq m = int n"
    using Cons.prems that by (auto simp: tail_of_def)
  show ?case
    using Cons.prems Cons.IH [OF step]
    by (auto simp: tail_of_def message_ok_def validate_message_def validate_append_def violation_def split: option.splits if_splits)
qed simp

lemma validate_iff_from: "validate ms = Inr () \<longleftrightarrow> history_ok_from 0 None ms"
  by (simp add: validate_def validate_from_iff tail_of_def)

section \<open>Properties\<close>


lemma validate_append_iff:
  assumes "validate ms = Inr ()"
  shows "validate_append (tail ms) role seq = Inr () \<longleftrightarrow> seq = int (length ms) \<and> (role = System \<longrightarrow> ms = []) \<and>
    \<not> (ms \<noteq> [] \<and> cm_role (last ms) = Assistant \<and> role = Assistant)"
proof (cases "ms = []")
  case True
  then show ?thesis by (simp add: validate_append_def tail_def violation_def)
next
  case False
  then have "cm_seq (last ms) = int (length ms) - 1"
    using assms by (auto simp: validate_iff_from history_ok_from_nth message_ok_def last_conv_nth of_nat_diff Suc_leI)
  with False show ?thesis by (auto simp: validate_append_def tail_def violation_def)
qed

text \<open>The append path may check only the new message against the current tail: a valid history extended by a
  message that passes both checks is valid, and no message that fails one could have been appended.\<close>

theorem append_check_suffices:
  "validate (ms @ [m]) = Inr () \<longleftrightarrow> validate ms = Inr () \<and>
     validate_message (cm_role m) (cm_content m) (cm_meta m) (cm_seq m) = Inr () \<and> validate_append (tail ms) (cm_role m) (cm_seq m) = Inr ()"
proof (cases "validate ms = Inr ()")
  case True
  show ?thesis
    unfolding validate_append_iff [OF True] using True
    by (auto simp: validate_iff_from history_ok_from_append message_ok_def validate_message_def violation_def split: if_splits)
next
  case False
  then show ?thesis by (simp add: validate_iff_from history_ok_from_append)
qed

lemma opt_json_back:
  "opt_str (opt_json JStr x) = Inr x" "opt_int (opt_json JInt y) = Inr y"
  "opt_named tiers (opt_json (\<lambda>t. JStr (tier_name t)) t) = Inr t" "opt_named pools (opt_json (\<lambda>p. JStr (pool_name p)) p) = Inr p"
proof -
  show "opt_str (opt_json JStr x) = Inr x" "opt_int (opt_json JInt y) = Inr y"
    by (simp_all add: opt_str_def opt_int_def opt_json_def split: option.splits)
  show "opt_named tiers (opt_json (\<lambda>t. JStr (tier_name t)) t) = Inr t"
    by (cases t; simp add: opt_json_def opt_named_def tiers_def) (case_tac a; simp)
  show "opt_named pools (opt_json (\<lambda>p. JStr (pool_name p)) p) = Inr p"
    by (cases p; simp add: opt_json_def opt_named_def pools_def) (case_tac a; simp)
qed

text \<open>Provenance survives storage: what \<^verbatim>\<open>to_jsonb\<close> writes, \<^verbatim>\<open>from_jsonb\<close> reads back unchanged.\<close>

theorem meta_roundtrip: "from_jsonb (to_jsonb m) = Inr m"
  by (simp add: from_jsonb_def to_jsonb_def jget_def jget_or_def opt_json_back req_bool_def req_int_def)

lemma if_Inl_Inr: "(if A then Inl e else x) = Inr y \<longleftrightarrow> \<not> A \<and> x = Inr y"
  by simp

lemma list_ex_fst: "list_ex P (map fst kvs) \<longleftrightarrow> (\<exists>k\<in>fst ` set kvs. P k)"
  by (auto simp: list_ex_iff)

lemmas parse_defs = parse_block_def Let_def RESERVED_BLOCK_TYPES_def KNOWN_BLOCK_TYPES_def BLOCK_FIELDS_def has_type_def block_of_def violation_def

lemma parse_block_back:
  assumes ok: "block_ok b" and kvs: "map_of kvs = map_of (block_items b)"
  shows "parse_block (JObj kvs) = Inr b"
proof -
  have keys: "fst ` set kvs = fst ` set (block_items b)"
    using arg_cong [OF kvs, of dom] by (simp add: dom_map_of_conv_image_fst)
  have get: "jget kvs k = jget (block_items b) k" for k by (simp add: jget_def kvs)
  show ?thesis
    using ok by (cases b) (simp_all add: parse_defs get list_ex_fst keys)
qed

text \<open>A dict with exactly the fields of a block's type is determined by their values.\<close>

lemma map_of_exact:
  assumes "fst ` set kvs = set ks" "set (map fst items) = set ks" "\<And>k. k \<in> set ks \<Longrightarrow> map_of items k = Some (jget kvs k)"
  shows "map_of kvs = map_of items"
proof
  fix k
  show "map_of kvs k = map_of items k"
  proof (cases "k \<in> set ks")
    case True
    then have "map_of kvs k \<noteq> None" using assms(1) by (simp add: map_of_eq_None_iff)
    with assms(3) [OF True] show ?thesis by (auto simp: jget_def)
  next
    case False
    then have "map_of kvs k = None" "map_of items k = None" using assms(1,2) by (simp_all add: map_of_eq_None_iff)
    then show ?thesis by simp
  qed
qed

lemma parse_block_sound:
  assumes "parse_block raw = Inr b"
  shows "block_ok b \<and> (\<exists>kvs. raw = JObj kvs \<and> map_of kvs = map_of (block_items b))"
proof -
  obtain kvs t where raw: "raw = JObj kvs" and t: "jget kvs ''type'' = JStr t"
    using assms by (auto simp: parse_block_def violation_def split: json.splits)
  have known: "t \<in> set KNOWN_BLOCK_TYPES" and sub: "\<forall>k\<in>set (map fst (BLOCK_FIELDS t) @ [''type'']). k \<in> fst ` set kvs"
    "\<forall>k\<in>fst ` set kvs. k \<in> set (map fst (BLOCK_FIELDS t) @ [''type''])"
    and types: "\<forall>(name, ty)\<in>set (BLOCK_FIELDS t). has_type ty (jget kvs name)"
    and reason: "t = ''omission_marker'' \<longrightarrow> jget kvs ''reason'' = JStr ''context_truncation''"
    and counts: "t = ''omission_marker'' \<longrightarrow> 1 \<le> json_int (jget kvs ''omitted_count'')" "t = ''file_ref'' \<longrightarrow> 0 \<le> json_int (jget kvs ''bytes'')"
    and b: "b = block_of t kvs"
    using assms unfolding raw parse_block_def json.case t Let_def violation_def if_Inl_Inr list_ex_fst
    by (simp_all add: list_ex_iff not_less case_prod_unfold)
  have keys: "fst ` set kvs = set (map fst (BLOCK_FIELDS t) @ [''type''])" using sub by blast
  consider (txt_case) "t = ''text''" | (fref) "t = ''file_ref''" | (omission) "t = ''omission_marker''"
    using known by (auto simp: KNOWN_BLOCK_TYPES_def)
  then have "map_of kvs = map_of (block_items b)"
  proof cases
    case txt_case
    then obtain x where x: "jget kvs ''text'' = JStr x" using types by (auto simp: BLOCK_FIELDS_def has_type_def)
    with txt_case b have "b = TextBlock x" by (simp add: block_of_def)
    then show ?thesis by (intro map_of_exact [OF keys]) (auto simp: txt_case BLOCK_FIELDS_def x t)
  next
    case fref
    then obtain h f mi n where x: "jget kvs ''file_hash'' = JStr h" "jget kvs ''filename'' = JStr f" "jget kvs ''mime'' = JStr mi" "jget kvs ''bytes'' = JInt n"
      using types by (auto simp: BLOCK_FIELDS_def has_type_def)
    with fref b have "b = FileRefBlock h f mi n" by (simp add: block_of_def)
    then show ?thesis by (intro map_of_exact [OF keys]) (auto simp: fref BLOCK_FIELDS_def x t)
  next
    case omission
    then obtain n where x: "jget kvs ''omitted_count'' = JInt n" using types by (auto simp: BLOCK_FIELDS_def has_type_def)
    with omission b have "b = OmissionMarkerBlock n" by (simp add: block_of_def)
    then show ?thesis by (intro map_of_exact [OF keys]) (auto simp: omission BLOCK_FIELDS_def x t reason)
  qed
  moreover have "block_ok b" using known counts b by (auto simp: KNOWN_BLOCK_TYPES_def block_of_def)
  ultimately show ?thesis using raw by blast
qed

text \<open>C19: the parser of stored blocks accepts exactly the dicts of the schema's blocks, every field present, of its type
  and none besides: no reserved type, no file reference that carries extracted text, no marker for nothing.\<close>

theorem parse_block_exact:
  "parse_block raw = Inr b \<longleftrightarrow> block_ok b \<and> (\<exists>kvs. raw = JObj kvs \<and> map_of kvs = map_of (block_items b))"
  using parse_block_back parse_block_sound by blast

end
