(* ===== verification/Gw_Cache.thy ===== *)
theory Gw_Cache
  imports Gw_Redis Gw_Keys Gw_Canonical
begin

text \<open>
  The exact-match response cache (\<^verbatim>\<open>app/cache/exact.py\<close>) and the idempotency store
  (\<^verbatim>\<open>app/cache/idempotency.py\<close>), on the Redis interface. \<^verbatim>\<open>sha256\<close> over the encoded payload is a parameter; what is
  modelled is the payload it is taken of.
\<close>

subsection \<open>The exact cache\<close>

definition CACHE_FORMAT_VERSION :: int where "CACHE_FORMAT_VERSION = 2"
definition CACHE_REPLAY_CHUNK_CHARS :: nat where "CACHE_REPLAY_CHUNK_CHARS = 24"

record CachedResponse =
  cr_text :: string
  cr_provider :: string
  cr_model :: string
  cr_slot :: string
  cr_finish_reason :: string
  cr_tokens_in :: int
  cr_tokens_out :: int
  cr_usage_estimated :: bool
  cr_created_at :: string

definition is_cacheable :: "pyfloat \<Rightarrow> CanonicalMessage list \<Rightarrow> bool \<Rightarrow> bool \<Rightarrow> bool" where
  "is_cacheable temperature history degraded truncated =
    (if temperature > 0 then False else \<not> degraded \<and> \<not> truncated)"

fun identity_of :: "ContentBlock \<Rightarrow> json" where
  "identity_of (FileRefBlock h _ _ _) = JObj [(''type'', JStr ''file_ref''), (''file_hash'', JStr h)]"
| "identity_of b = JObj (block_items b)"

fun role_name :: "Role \<Rightarrow> string" where
  "role_name System = ''system''"
| "role_name User = ''user''"
| "role_name Assistant = ''assistant''"

definition request_payload :: "string \<Rightarrow> CanonicalMessage list \<Rightarrow> pyfloat \<Rightarrow> int option \<Rightarrow> pyfloat option \<Rightarrow> string list \<Rightarrow> json" where
  "request_payload requested_slot history temperature max_tokens top_p stop = JObj
    [(''v'', JInt CACHE_FORMAT_VERSION), (''slot'', JStr requested_slot),
     (''history'', JArr (map (\<lambda>m. JObj [(''role'', JStr (role_name (cm_role m))), (''seq'', JInt (cm_seq m)),
        (''content'', JArr (map identity_of (cm_content m)))]) history)),
     (''temperature'', JFloat temperature), (''max_tokens'', opt_json JInt max_tokens), (''top_p'', opt_json JFloat top_p),
     (''stop'', JArr (map JStr stop))]"

definition request_hash :: "(json \<Rightarrow> string) \<Rightarrow> string \<Rightarrow> CanonicalMessage list \<Rightarrow> pyfloat \<Rightarrow> int option \<Rightarrow> pyfloat option \<Rightarrow> string list \<Rightarrow> string" where
  "request_hash sha256 requested_slot history temperature max_tokens top_p stop =
     sha256 (request_payload requested_slot history temperature max_tokens top_p stop)"

text \<open>Where the next piece ends: at the last space of the first \<open>target\<close> characters if there is one after the first.\<close>

definition last_space :: "string \<Rightarrow> nat option" where
  "last_space s = List.find (\<lambda>i. s ! i = CHR '' '') (rev [0..<length s])"

definition chunk_end :: "nat \<Rightarrow> string \<Rightarrow> nat" where
  "chunk_end target rest =
    (let e = min target (length rest)
     in if e < length rest then (case last_space (take e rest) of Some b \<Rightarrow> if b > 0 then b + 1 else e | None \<Rightarrow> e) else e)"

text \<open>With a target of zero the loop makes no progress and never returns.\<close>

partial_function (option) chunk_for_replay :: "nat \<Rightarrow> string \<Rightarrow> string list option" where
  "chunk_for_replay target rest =
    (if rest = [] then Some []
     else Option.bind (chunk_for_replay target (drop (chunk_end target rest) rest)) (\<lambda>cs. Some (take (chunk_end target rest) rest # cs)))"

definition asdict :: "CachedResponse \<Rightarrow> (string \<times> json) list" where
  "asdict v = [(''text'', JStr (cr_text v)), (''provider'', JStr (cr_provider v)), (''model'', JStr (cr_model v)), (''slot'', JStr (cr_slot v)),
     (''finish_reason'', JStr (cr_finish_reason v)), (''tokens_in'', JInt (cr_tokens_in v)), (''tokens_out'', JInt (cr_tokens_out v)),
     (''usage_estimated'', JBool (cr_usage_estimated v)), (''created_at'', JStr (cr_created_at v))]"

definition CACHED_FIELDS :: "string list" where
  "CACHED_FIELDS = [''text'', ''provider'', ''model'', ''slot'', ''finish_reason'', ''tokens_in'', ''tokens_out'', ''usage_estimated'', ''created_at'']"

text \<open>\<^verbatim>\<open>CachedResponse(**data)\<close> checks the names of the fields, not their types: the result is the object's fields.\<close>

definition cached_of :: "json \<Rightarrow> (string \<times> json) list option" where
  "cached_of data = (case data of
      JObj kvs \<Rightarrow> if list_all (\<lambda>k. k \<in> set (map fst kvs)) CACHED_FIELDS \<and> list_all (\<lambda>k. k \<in> set CACHED_FIELDS) (map fst kvs) then Some kvs else None
    | _ \<Rightarrow> None)"

definition cache_get :: "'r redis \<Rightarrow> string \<Rightarrow> 'r world \<Rightarrow> (string \<times> json) list option \<times> 'r world" where
  "cache_get R hash w = (case exact_cache hash of
      Inl e \<Rightarrow> (None, w)
    | Inr key \<Rightarrow> (case client_call (reading (rd_get R key)) w of
        (None, w1) \<Rightarrow> (None, w1)
      | (Some None, w1) \<Rightarrow> (None, w1)
      | (Some (Some raw), w1) \<Rightarrow> (Option.bind (json_loads raw) cached_of, w1)))"

definition cache_put :: "'r redis \<Rightarrow> string \<Rightarrow> CachedResponse \<Rightarrow> 'r world \<Rightarrow> 'r world" where
  "cache_put R hash v w = (case exact_cache hash of
      Inl e \<Rightarrow> w
    | Inr key \<Rightarrow> snd (client_call (writing (rd_set_ex R key (FJson (JObj (asdict v))) EXACT_CACHE_TTL_S)) w))"

subsection \<open>The idempotency store\<close>

definition FINGERPRINT_VERSION :: int where "FINGERPRINT_VERSION = 1"

record IdempotentMessage =
  im_role :: string
  im_content :: string
  im_file_refs :: "string list"

record IdempotentRequest =
  iq_model :: string
  iq_messages :: "IdempotentMessage list"
  iq_conversation_id :: "string option"
  iq_temperature :: pyfloat
  iq_max_tokens :: "int option"
  iq_top_p :: "pyfloat option"
  iq_stop :: "string list"
  iq_stream :: bool

definition fingerprint_payload :: "IdempotentRequest \<Rightarrow> string \<Rightarrow> json" where
  "fingerprint_payload body user_id = JObj
    [(''v'', JInt FINGERPRINT_VERSION), (''user_id'', JStr user_id), (''slot'', JStr (iq_model body)),
     (''conversation_id'', opt_json JStr (iq_conversation_id body)),
     (''messages'', JArr (map (\<lambda>m. JObj [(''role'', JStr (im_role m)), (''content'', JStr (im_content m)),
        (''file_refs'', JArr (map JStr (im_file_refs m)))]) (iq_messages body))),
     (''temperature'', JFloat (iq_temperature body)), (''max_tokens'', opt_json JInt (iq_max_tokens body)),
     (''top_p'', opt_json JFloat (iq_top_p body)), (''stop'', JArr (map JStr (iq_stop body))), (''stream'', JBool (iq_stream body))]"

definition fingerprint :: "(json \<Rightarrow> string) \<Rightarrow> IdempotentRequest \<Rightarrow> string \<Rightarrow> string" where
  "fingerprint sha256 body user_id = sha256 (fingerprint_payload body user_id)"

datatype EnvelopeState = IN_FLIGHT | DONE

record IdempotencyEnvelope =
  ie_state :: EnvelopeState
  ie_fingerprint :: string
  ie_request_id :: string
  ie_stream :: bool
  ie_response :: "(string \<times> json) list option"
  ie_cache_status :: "string option"

fun state_name :: "EnvelopeState \<Rightarrow> string" where
  "state_name IN_FLIGHT = ''in_flight''"
| "state_name DONE = ''done''"

definition envelope_to_json :: "IdempotencyEnvelope \<Rightarrow> fval" where
  "envelope_to_json e = FJson (JObj
    [(''state'', JStr (state_name (ie_state e))), (''fingerprint'', JStr (ie_fingerprint e)), (''request_id'', JStr (ie_request_id e)),
     (''stream'', JBool (ie_stream e)), (''response'', opt_json JObj (ie_response e)), (''cache_status'', opt_json JStr (ie_cache_status e))])"

text \<open>\<open>None\<close> is the \<^verbatim>\<open>ValueError\<close>.\<close>

definition envelope_from_json :: "fval \<Rightarrow> IdempotencyEnvelope option" where
  "envelope_from_json raw = (case json_loads raw of
      Some (JObj kvs) \<Rightarrow>
        Option.bind (if jget kvs ''state'' = JStr ''in_flight'' then Some IN_FLIGHT else if jget kvs ''state'' = JStr ''done'' then Some DONE else None) (\<lambda>state.
        Option.bind (case jget kvs ''fingerprint'' of JStr s \<Rightarrow> Some s | _ \<Rightarrow> None) (\<lambda>fp.
        Option.bind (case jget kvs ''request_id'' of JStr s \<Rightarrow> Some s | _ \<Rightarrow> None) (\<lambda>rid.
        Option.bind (case jget_or kvs ''stream'' (JBool False) of JBool b \<Rightarrow> Some b | _ \<Rightarrow> None) (\<lambda>stream.
        Option.bind (case jget kvs ''response'' of JNull \<Rightarrow> Some None | JObj r \<Rightarrow> Some (Some r) | _ \<Rightarrow> None) (\<lambda>response.
        Option.bind (case jget kvs ''cache_status'' of JNull \<Rightarrow> Some None | JStr s \<Rightarrow> Some (Some s) | _ \<Rightarrow> None) (\<lambda>cache_status.
          Some \<lparr>ie_state = state, ie_fingerprint = fp, ie_request_id = rid, ie_stream = stream, ie_response = response,
            ie_cache_status = cache_status\<rparr>))))))
    | _ \<Rightarrow> None)"

datatype ClaimResult = Claimed | Replay IdempotencyEnvelope | InFlight IdempotencyEnvelope | FingerprintMismatch IdempotencyEnvelope

definition claim :: "'r redis \<Rightarrow> string \<Rightarrow> string \<Rightarrow> string \<Rightarrow> string \<Rightarrow> bool \<Rightarrow> 'r world \<Rightarrow> ClaimResult exn \<times> 'r world" where
  "claim R key user_id fp request_id stream w =
    (let envelope = \<lparr>ie_state = IN_FLIGHT, ie_fingerprint = fp, ie_request_id = request_id, ie_stream = stream, ie_response = None,
                     ie_cache_status = None\<rparr>
     in case idempotency user_id key of
          Inl e \<Rightarrow> (Inl e, w)
        | Inr redis_key \<Rightarrow>
           (case cbind (client_call (rd_set_nx_ex R redis_key (envelope_to_json envelope) IDEMPOTENCY_TTL_S)) (\<lambda>claimed.
                   if claimed then creturn None else cbind (client_call (reading (rd_get R redis_key))) (\<lambda>raw. creturn (Some raw))) w of
              (None, w1) \<Rightarrow> (Inr Claimed, w1)
            | (Some None, w1) \<Rightarrow> (Inr Claimed, w1)
            | (Some (Some None), w1) \<Rightarrow> (Inr Claimed, w1)
            | (Some (Some (Some raw)), w1) \<Rightarrow>
                (Inr (case envelope_from_json raw of
                   None \<Rightarrow> Claimed
                 | Some stored \<Rightarrow> if ie_fingerprint stored \<noteq> fp then FingerprintMismatch stored
                                   else if ie_state stored = DONE then Replay stored else InFlight stored), w1)))"

definition idem_complete :: "'r redis \<Rightarrow> string \<Rightarrow> string \<Rightarrow> string \<Rightarrow> string \<Rightarrow> bool \<Rightarrow> (string \<times> json) list \<Rightarrow> string option \<Rightarrow> 'r world \<Rightarrow> 'r world" where
  "idem_complete R key user_id fp request_id stream response cache_status w = (case idempotency user_id key of
      Inl e \<Rightarrow> w
    | Inr redis_key \<Rightarrow> snd (client_call (writing (rd_set_ex R redis_key (envelope_to_json
        \<lparr>ie_state = DONE, ie_fingerprint = fp, ie_request_id = request_id, ie_stream = stream, ie_response = Some response,
         ie_cache_status = cache_status\<rparr>) IDEMPOTENCY_TTL_S)) w))"

definition release_claim :: "'r redis \<Rightarrow> string \<Rightarrow> string \<Rightarrow> 'r world \<Rightarrow> 'r world" where
  "release_claim R key user_id w = (case idempotency user_id key of
      Inl e \<Rightarrow> w
    | Inr redis_key \<Rightarrow> snd (client_call (writing (rd_del R redis_key)) w))"

record ClaimTicket =
  ct_key :: string
  ct_user_id :: string
  ct_fingerprint :: string
  ct_request_id :: string
  ct_stream :: bool

definition ticket_complete :: "'r redis \<Rightarrow> ClaimTicket \<Rightarrow> (string \<times> json) list \<Rightarrow> string option \<Rightarrow> 'r world \<Rightarrow> 'r world" where
  "ticket_complete R t response cache_status =
     idem_complete R (ct_key t) (ct_user_id t) (ct_fingerprint t) (ct_request_id t) (ct_stream t) response cache_status"

definition ticket_release :: "'r redis \<Rightarrow> ClaimTicket \<Rightarrow> 'r world \<Rightarrow> 'r world" where
  "ticket_release R t = release_claim R (ct_key t) (ct_user_id t)"


subsection \<open>Chunks\<close>

lemma last_space_Some: "last_space s = Some b \<Longrightarrow> b < length s \<and> s ! b = CHR '' '' \<and> (\<forall>j. b < j \<and> j < length s \<longrightarrow> s ! j \<noteq> CHR '' '')"
proof -
  assume "last_space s = Some b"
  then obtain i where i: "i < length s" "s ! (rev [0..<length s] ! i) = CHR '' ''" "b = rev [0..<length s] ! i"
    "\<forall>j<i. s ! (rev [0..<length s] ! j) \<noteq> CHR '' ''"
    by (auto simp: last_space_def find_Some_iff)
  have b: "b = length s - Suc i" using i by (simp add: rev_nth)
  have "s ! j \<noteq> CHR '' ''" if "b < j" "j < length s" for j
    using i(4) [rule_format, of "length s - Suc j"] that b i(1) by (simp add: rev_nth)
  with i b show ?thesis by (auto simp: rev_nth)
qed

lemma last_space_None: "last_space s = None \<Longrightarrow> i < length s \<Longrightarrow> s ! i \<noteq> CHR '' ''"
  by (auto simp: last_space_def find_None_iff)

definition good_cut :: "nat \<Rightarrow> string \<Rightarrow> bool" where
  "good_cut target c \<longleftrightarrow> last c = CHR '' '' \<or> length c = target \<and> (\<forall>i. 0 < i \<and> i < length c \<longrightarrow> c ! i \<noteq> CHR '' '')"

lemma chunk_end_bounds:
  assumes "0 < target" "rest \<noteq> []"
  shows "0 < chunk_end target rest \<and> chunk_end target rest \<le> target \<and> chunk_end target rest \<le> length rest \<and>
    (chunk_end target rest < length rest \<longrightarrow> good_cut target (take (chunk_end target rest) rest))"
proof (cases "target < length rest")
  case False
  then show ?thesis using assms by (simp add: chunk_end_def)
next
  case True
  show ?thesis
  proof (cases "last_space (take target rest)")
    case None
    then have "chunk_end target rest = target" using True by (simp add: chunk_end_def)
    moreover have "\<forall>i<target. rest ! i \<noteq> CHR '' ''" using last_space_None [OF None] True by simp
    ultimately show ?thesis using True assms by (auto simp: good_cut_def)
  next
    case (Some b)
    have b: "b < target" "rest ! b = CHR '' ''" "\<forall>j. b < j \<and> j < target \<longrightarrow> rest ! j \<noteq> CHR '' ''"
      using last_space_Some [OF Some] True by auto
    show ?thesis
    proof (cases "b > 0")
      case True
      then have e: "chunk_end target rest = Suc b" using Some \<open>target < length rest\<close> by (simp add: chunk_end_def)
      have "last (take (Suc b) rest) = rest ! b" using b(1) \<open>target < length rest\<close> by (simp add: take_Suc_conv_app_nth)
      then show ?thesis using e b \<open>target < length rest\<close> by (auto simp: good_cut_def)
    next
      case False
      then have "chunk_end target rest = target" using Some True by (simp add: chunk_end_def)
      then show ?thesis using True b False assms by (auto simp: good_cut_def)
    qed
  qed
qed

lemma chunk_for_replay_returns:
  assumes "0 < target"
  shows "\<exists>cs. chunk_for_replay target rest = Some cs \<and> concat cs = rest \<and> (\<forall>c\<in>set cs. c \<noteq> [] \<and> length c \<le> target) \<and>
    (\<forall>c\<in>set (butlast cs). good_cut target c)"
proof (induction "length rest" arbitrary: rest rule: less_induct)
  case less
  show ?case
  proof (cases "rest = []")
    case True
    then show ?thesis by (simp add: chunk_for_replay.simps)
  next
    case False
    let ?e = "chunk_end target rest"
    have e: "0 < ?e" "?e \<le> target" "?e \<le> length rest" "?e < length rest \<longrightarrow> good_cut target (take ?e rest)"
      using chunk_end_bounds [OF assms False] by auto
    have "length (drop ?e rest) < length rest" using e(1) False by simp
    from less [OF this] obtain cs where cs: "chunk_for_replay target (drop ?e rest) = Some cs" "concat cs = drop ?e rest"
      "\<forall>c\<in>set cs. c \<noteq> [] \<and> length c \<le> target" "\<forall>c\<in>set (butlast cs). good_cut target c" by blast
    have more: "?e < length rest" if "cs \<noteq> []"
    proof -
      have "concat cs \<noteq> []" using that cs(3) by (cases cs) auto
      then show ?thesis using cs(2) by simp
    qed
    have "chunk_for_replay target rest = Some (take ?e rest # cs)" using False cs(1) by (simp add: chunk_for_replay.simps [of target rest])
    then show ?thesis using cs(2-4) e more False by (intro exI [of _ "take ?e rest # cs"]) auto
  qed
qed

subsection \<open>Envelopes\<close>

lemma envelope_roundtrip: "envelope_from_json (envelope_to_json e) = Some e"
  by (cases "ie_state e"; cases "ie_response e"; cases "ie_cache_status e")
    (simp_all add: envelope_from_json_def envelope_to_json_def opt_json_def jget_or_def)

lemma ttl_pos: "0 < IDEMPOTENCY_TTL_S" "0 < EXACT_CACHE_TTL_S"
  by (simp_all add: IDEMPOTENCY_TTL_S_def EXACT_CACHE_TTL_S_def)

definition answer_of :: "IdempotencyEnvelope \<Rightarrow> string \<Rightarrow> ClaimResult" where
  "answer_of stored fp = (if ie_fingerprint stored \<noteq> fp then FingerprintMismatch stored
     else if ie_state stored = DONE then Replay stored else InFlight stored)"

context redis_server
begin

lemma claim_absent:
  assumes "quiet w" "idempotency user key = Inr k" "view (wd_srv w) k = None"
  obtains w1 where "claim R key user fp rid st w = (Inr Claimed, w1)" "quiet w1"
    "view (wd_srv w1) k = Some (RStr (envelope_to_json \<lparr>ie_state = IN_FLIGHT, ie_fingerprint = fp, ie_request_id = rid, ie_stream = st,
       ie_response = None, ie_cache_status = None\<rparr>), Some IDEMPOTENCY_TTL_S)"
  using assms by (auto simp: claim_def Let_def cbind_def creturn_def client_call_quiet set_nx_reply set_nx_view ttl_pos)

lemma claim_held:
  assumes "quiet w" "idempotency user key = Inr k" "view (wd_srv w) k = Some (RStr (envelope_to_json e), t)"
  obtains w1 where "claim R key user fp rid st w = (Inr (answer_of e fp), w1)" "quiet w1" "view (wd_srv w1) = view (wd_srv w)"
proof -
  let ?s = "snd (rd_set_nx_ex R k (envelope_to_json \<lparr>ie_state = IN_FLIGHT, ie_fingerprint = fp, ie_request_id = rid, ie_stream = st,
       ie_response = None, ie_cache_status = None\<rparr>) IDEMPOTENCY_TTL_S (wd_srv w))"
  have v: "view ?s = view (wd_srv w)" using assms(3) by (simp add: set_nx_view ttl_pos)
  have "rd_get R k ?s = Some (envelope_to_json e)" using assms(3) v by (simp add: get_spec string_at_def ks_get_def)
  then show ?thesis using assms v
    by (intro that [of "w\<lparr>wd_sent := Suc (Suc (wd_sent w)), wd_srv := ?s\<rparr>"])
      (auto simp: claim_def Let_def cbind_def creturn_def client_call_quiet set_nx_reply reading_def envelope_roundtrip answer_of_def)
qed

lemma complete_view:
  assumes "quiet w" "idempotency user key = Inr k"
  shows "quiet (idem_complete R key user fp rid st response cs w)"
    "view (wd_srv (idem_complete R key user fp rid st response cs w)) k = Some (RStr (envelope_to_json \<lparr>ie_state = DONE, ie_fingerprint = fp,
       ie_request_id = rid, ie_stream = st, ie_response = Some response, ie_cache_status = cs\<rparr>), Some IDEMPOTENCY_TTL_S)"
  using assms by (simp_all add: idem_complete_def client_call_quiet writing_def set_ex_view ttl_pos)

lemma release_view:
  assumes "quiet w" "idempotency user key = Inr k"
  shows "quiet (release_claim R key user w)" "view (wd_srv (release_claim R key user w)) k = None"
  using assms by (simp_all add: release_claim_def client_call_quiet writing_def del_view)

end


text \<open>What was put is what is got; the entry names every field.\<close>

lemma cached_of_asdict: "cached_of (JObj (asdict v)) = Some (asdict v)"
  by (simp add: cached_of_def asdict_def CACHED_FIELDS_def)

definition ex_cached :: CachedResponse where
  "ex_cached = \<lparr>cr_text = ''hi'', cr_provider = ''p'', cr_model = ''m'', cr_slot = ''general'', cr_finish_reason = ''stop'', cr_tokens_in = 1,
     cr_tokens_out = 1, cr_usage_estimated = False, cr_created_at = ''2025-01-01T00:00:00+00:00''\<rparr>"

section \<open>Properties\<close>

definition in_flight :: "string \<Rightarrow> string \<Rightarrow> bool \<Rightarrow> IdempotencyEnvelope" where
  "in_flight fp rid st = \<lparr>ie_state = IN_FLIGHT, ie_fingerprint = fp, ie_request_id = rid, ie_stream = st, ie_response = None, ie_cache_status = None\<rparr>"

definition finished :: "string \<Rightarrow> string \<Rightarrow> bool \<Rightarrow> (string \<times> json) list \<Rightarrow> string option \<Rightarrow> IdempotencyEnvelope" where
  "finished fp rid st response cs = \<lparr>ie_state = DONE, ie_fingerprint = fp, ie_request_id = rid, ie_stream = st, ie_response = Some response, ie_cache_status = cs\<rparr>"

text \<open>C10: the life of an idempotency key: the first claim of a free key succeeds; until it is finished every other claim is
  turned away, as in flight for the same request and as a mismatch for a different one; once completed, every claim of the
  same request is answered with exactly the stored response and a different request still mismatches; once released, the
  key can be claimed again.\<close>

theorem idempotency_lifecycle:
  assumes "redis_server R view" "quiet w" "idempotency user key = Inr k" "view (wd_srv w) k = None"
  shows "\<exists>w1. claim R key user fp rid st w = (Inr Claimed, w1) \<and>
    (\<forall>fp' rid' st'. fst (claim R key user fp' rid' st' w1) =
       Inr (if fp' = fp then InFlight (in_flight fp rid st) else FingerprintMismatch (in_flight fp rid st))) \<and>
    (\<forall>response cs fp' rid' st'. fst (claim R key user fp' rid' st' (idem_complete R key user fp rid st response cs w1)) =
       Inr (if fp' = fp then Replay (finished fp rid st response cs) else FingerprintMismatch (finished fp rid st response cs))) \<and>
    (\<forall>fp' rid' st'. fst (claim R key user fp' rid' st' (release_claim R key user w1)) = Inr Claimed)"
proof -
  obtain w1 where c: "claim R key user fp rid st w = (Inr Claimed, w1)" "quiet w1"
    "view (wd_srv w1) k = Some (RStr (envelope_to_json (in_flight fp rid st)), Some IDEMPOTENCY_TTL_S)"
    using redis_server.claim_absent [OF assms] unfolding in_flight_def by metis
  have "fst (claim R key user fp' rid' st' w1) = Inr (if fp' = fp then InFlight (in_flight fp rid st) else FingerprintMismatch (in_flight fp rid st))"
    for fp' rid' st'
    by (rule redis_server.claim_held [OF assms(1) c(2) assms(3) c(3), of fp' rid' st']) (auto simp: answer_of_def in_flight_def)
  moreover have "fst (claim R key user fp' rid' st' (idem_complete R key user fp rid st response cs w1)) =
      Inr (if fp' = fp then Replay (finished fp rid st response cs) else FingerprintMismatch (finished fp rid st response cs))"
    for response cs fp' rid' st'
  proof -
    note stored = redis_server.complete_view [OF assms(1) c(2) assms(3), where fp = fp and rid = rid and st = st and response = response and cs = cs]
    show ?thesis
      by (rule redis_server.claim_held [OF assms(1) stored(1) assms(3) stored(2), where fp = fp' and rid = rid' and st = st'])
        (auto simp: answer_of_def finished_def)
  qed
  moreover have "fst (claim R key user fp' rid' st' (release_claim R key user w1)) = Inr Claimed" for fp' rid' st'
  proof -
    note free = redis_server.release_view [OF assms(1) c(2) assms(3)]
    show ?thesis
      by (rule redis_server.claim_absent [OF assms(1) free(1) assms(3) free(2), where fp = fp' and rid = rid' and st = st']) simp
  qed
  ultimately show ?thesis using c(1) by blast
qed

lemma ex_idem_key: "idempotency ''u'' ''k'' = Inr ''idem:u:k''"
  by code_simp

theorem idempotency_lifecycle_witness:
  "\<exists>w1. claim mem_redis ''k'' ''u'' ''f'' ''r1'' False (calm Map.empty) = (Inr Claimed, w1) \<and>
     fst (claim mem_redis ''k'' ''u'' ''f'' ''r2'' False w1) = Inr (InFlight (in_flight ''f'' ''r1'' False)) \<and>
     fst (claim mem_redis ''k'' ''u'' ''f'' ''r3'' False (idem_complete mem_redis ''k'' ''u'' ''f'' ''r1'' False [(''id'', JInt 7)] None w1)) =
       Inr (Replay (finished ''f'' ''r1'' False [(''id'', JInt 7)] None))"
proof -
  have empty: "(\<lambda>v. v) (wd_srv (calm (Map.empty :: keyspace))) ''idem:u:k'' = None" by simp
  from idempotency_lifecycle [where view = "\<lambda>v. v" and w = "calm Map.empty" and fp = "''f''" and rid = "''r1''" and st = False,
      OF mem_redis_server quiet_calm ex_idem_key empty] show ?thesis by fastforce
qed

definition flaky :: "keyspace world" where
  "flaky = \<lparr>wd_srv = Map.empty, wd_sent = 0, wd_link = (\<lambda>n. if n = 0 then NotSent else Delivered), wd_between = (\<lambda>_ s. s)\<rparr>"

text \<open>A claim that failed open does not own the key, but its release frees it all the same. Request \<open>a\<close> cannot reach
  Redis and proceeds; request \<open>b\<close> claims the key and is being served; \<open>a\<close> fails and releases; a third copy of the request
  is then let through although \<open>b\<close> is still in flight.\<close>

theorem failed_open_release_frees_other:
  "\<exists>wa wb wc. claim mem_redis ''k'' ''u'' ''f'' ''a'' False flaky = (Inr Claimed, wa) \<and>
     claim mem_redis ''k'' ''u'' ''f'' ''b'' False wa = (Inr Claimed, wb) \<and>
     ks_get (wd_srv wb) ''idem:u:k'' = Some (envelope_to_json (in_flight ''f'' ''b'' False)) \<and>
     claim mem_redis ''k'' ''u'' ''f'' ''c'' False (release_claim mem_redis ''k'' ''u'' wb) = (Inr Claimed, wc)"
  by (simp add: claim_def release_claim_def ex_idem_key Let_def cbind_def creturn_def client_call_def flaky_def mem_redis_def writing_def in_flight_def ks_get_def)

text \<open>Replaying a cached answer in pieces always ends and loses nothing: the pieces, each of one to \<open>target\<close> characters,
  concatenate to the text, and a piece before the last ends at a space unless it has none to end at.\<close>

theorem chunks_replay_text:
  assumes "0 < target"
  shows "\<exists>cs. chunk_for_replay target content = Some cs \<and> concat cs = content \<and> (\<forall>c\<in>set cs. c \<noteq> [] \<and> length c \<le> target) \<and>
    (\<forall>c\<in>set (butlast cs). good_cut target c)"
  by (rule chunk_for_replay_returns [OF assms])

theorem chunks_replay_text_witness:
  "\<exists>cs. chunk_for_replay CACHE_REPLAY_CHUNK_CHARS ''an answer that takes more than one piece'' = Some cs \<and>
     concat cs = ''an answer that takes more than one piece'' \<and> list_all (\<lambda>c. length c \<le> 24) cs"
  using chunks_replay_text [of CACHE_REPLAY_CHUNK_CHARS "''an answer that takes more than one piece''"]
  by (auto simp: CACHE_REPLAY_CHUNK_CHARS_def list_all_iff)

fun same_block :: "ContentBlock \<Rightarrow> ContentBlock \<Rightarrow> bool" where
  "same_block (FileRefBlock h _ _ _) (FileRefBlock h' _ _ _) = (h = h')"
| "same_block b b' = (b = b')"


lemma identity_same: "identity_of b = identity_of b' \<longleftrightarrow> same_block b b'"
  by (cases b; cases b') auto

lemma map_eq_list_all2: "map f xs = map f ys \<longleftrightarrow> list_all2 (\<lambda>x y. f x = f y) xs ys"
  by (auto simp: list_all2_conv_all_nth list_eq_iff_nth_eq)

lemma role_name_inj: "role_name r = role_name r' \<longleftrightarrow> r = r'"
  by (cases r; cases r') auto

lemma opt_json_inj: "opt_json JInt x = opt_json JInt y \<longleftrightarrow> x = y" "opt_json JFloat u = opt_json JFloat v \<longleftrightarrow> u = v"
  by (auto simp: opt_json_def split: option.splits)

lemma map_JStr: "map JStr xs = map JStr ys \<longleftrightarrow> xs = ys"
  by (rule inj_map_eq_map) (simp add: inj_def)

text \<open>Two requests share a cache entry exactly when they ask the same question: same slot and knobs, and message by message
  the same role, position and blocks, where a file counts by its hash alone. Its name, type and size do not matter, its
  presence does.\<close>

theorem cache_key_is_the_question:
  "request_payload slot history temperature max_tokens top_p stop = request_payload slot' history' temperature' max_tokens' top_p' stop' \<longleftrightarrow>
     slot = slot' \<and> temperature = temperature' \<and> max_tokens = max_tokens' \<and> top_p = top_p' \<and> stop = stop' \<and>
     list_all2 (\<lambda>m m'. cm_role m = cm_role m' \<and> cm_seq m = cm_seq m' \<and> list_all2 same_block (cm_content m) (cm_content m')) history history'"
  by (simp add: request_payload_def map_JStr opt_json_inj map_eq_list_all2 role_name_inj identity_same list.rel_eq) blast


text \<open>A cached answer is returned as it was stored, and an unreachable Redis reads as a miss.\<close>

theorem cache_returns_what_was_put:
  assumes "redis_server R view" "exact_cache hash = Inr k"
  shows "(quiet w \<longrightarrow> fst (cache_get R hash (cache_put R hash v w)) = Some (asdict v)) \<and> (link_down w \<longrightarrow> fst (cache_get R hash w) = None)"
proof (intro conjI impI)
  assume q: "quiet w"
  have view: "view (rd_set_ex R k (FJson (JObj (asdict v))) EXACT_CACHE_TTL_S (wd_srv w)) k = Some (RStr (FJson (JObj (asdict v))), Some EXACT_CACHE_TTL_S)"
    using ttl_pos(2) by (simp add: redis_server.set_ex_view [OF assms(1)])
  then have "rd_get R k (rd_set_ex R k (FJson (JObj (asdict v))) EXACT_CACHE_TTL_S (wd_srv w)) = Some (FJson (JObj (asdict v)))"
    by (simp add: redis_server.get_spec [OF assms(1)] string_at_def ks_get_def)
  then show "fst (cache_get R hash (cache_put R hash v w)) = Some (asdict v)"
    using q assms(2) by (simp add: cache_get_def cache_put_def client_call_quiet writing_def reading_def cached_of_asdict)
next
  assume "link_down w"
  then have "fst (client_call (reading (rd_get R k)) w) = None" by (rule client_call_down)
  then show "fst (cache_get R hash w) = None"
    using assms(2) by (cases "client_call (reading (rd_get R k)) w") (simp add: cache_get_def)
qed

theorem cache_returns_what_was_put_witness:
  "fst (cache_get mem_redis ''abc'' (cache_put mem_redis ''abc'' ex_cached (calm Map.empty))) = Some (asdict ex_cached)"
proof -
  have k: "exact_cache ''abc'' = Inr ''cache:exact:abc''" by code_simp
  show ?thesis
    using cache_returns_what_was_put [where view = "\<lambda>v. v" and w = "calm Map.empty" and v = ex_cached, OF mem_redis_server k] by simp
qed

end
