(* ===== verification/Gw_Stream.thy ===== *)
theory Gw_Stream
  imports Gw_Cache Gw_Router_Props
begin

text \<open>
  The streaming path (\<^verbatim>\<open>app/streaming/sse.py\<close>, \<^verbatim>\<open>app/streaming/orchestrator.py\<close>): the events on the wire and their
  framing, the turn's state machine, the loop that drives it and the replay of a cached answer. The JSON body of
  an event is written by pydantic and is a parameter of the framing (\<open>dump\<close>).

  The loop waits for the router's next event and wakes up at least every heartbeat interval. A run is given by a
  list of wake-ups, each saying whether the client has left and whether the event is ready; the events and the
  failure after them are the router's, and the attempt counter is bumped on a connection of its own. What the router would do after a client left is not modelled. An assertion
  that fails raises \<open>OtherError\<close>.
\<close>

subsection \<open>Events on the wire\<close>

datatype StreamStatus = St_ok | St_failed

record MetaEvent =
  me_attempt :: nat
  me_slot :: string
  me_provider :: string
  me_model :: string
  me_requested_slot :: string
  me_conversation_id :: string
  me_message_id :: string

record RestartEvent =
  re_reason :: string
  re_failed :: "string \<times> string"
  re_next :: "string \<times> string \<times> string"
  re_attempt :: nat
  re_discarded_chars :: nat

record StreamUsage =
  su_prompt_tokens :: int
  su_completion_tokens :: int
  su_total_tokens :: int
  su_estimated :: bool
  su_wasted_tokens_out :: nat

record DoneEvent =
  de_served_by :: "string \<times> string \<times> string"
  de_requested_slot :: string
  de_substituted :: bool
  de_attempts :: nat
  de_usage :: StreamUsage
  de_degraded :: bool
  de_extraction_tier :: "extraction_tier option"
  de_messages_dropped :: nat
  de_warning :: "string option"
  de_key_pool :: "key_pool option"
  de_status :: StreamStatus
  de_partial_content :: "string option"

datatype StreamEventPayload = Meta MetaEvent | Delta string | Restart RestartEvent | Done DoneEvent

fun event_name :: "StreamEventPayload \<Rightarrow> string" where
  "event_name (Meta _) = ''meta''"
| "event_name (Delta _) = ''delta''"
| "event_name (Restart _) = ''restart''"
| "event_name (Done _) = ''done''"

definition NL :: string where "NL = [CHR 0x0A]"

definition format_event :: "(StreamEventPayload \<Rightarrow> string) \<Rightarrow> StreamEventPayload \<Rightarrow> string" where
  "format_event dump data = ''event: '' @ event_name data @ NL @ ''data: '' @ dump data @ NL @ NL"

definition format_heartbeat :: string where
  "format_heartbeat = '': heartbeat'' @ NL @ NL"

text \<open>What the generator yields: an event's frame, or a keepalive.\<close>

datatype frame = Event StreamEventPayload | Heartbeat

fun frame_bytes :: "(StreamEventPayload \<Rightarrow> string) \<Rightarrow> frame \<Rightarrow> string" where
  "frame_bytes dump (Event e) = format_event dump e"
| "frame_bytes dump Heartbeat = format_heartbeat"

subsection \<open>The turn\<close>

definition MIN_PARTIAL_CONTENT_CHARS :: nat where "MIN_PARTIAL_CONTENT_CHARS = 40"

record Turn =
  tu_conversation_id :: string
  tu_message_id :: string
  tu_requested :: string
  tu_pinned :: "string option"
  tu_buffer :: "string list"
  tu_longest_partial :: string
  tu_committed :: bool
  tu_done :: bool
  tu_attempt :: nat
  tu_attempts :: nat
  tu_spec :: "ModelSpec option"
  tu_pending_restart :: "(ModelSpec \<times> string \<times> nat) option"
  tu_status :: StreamStatus
  tu_error_code :: "string option"
  tu_usage :: Usage
  tu_finish_reason :: string
  tu_trail :: "AttemptRecord list"
  tu_latency_ms :: int
  tu_ttft_ms :: "int option"
  tu_wasted_tokens_out :: nat
  tu_degraded :: bool
  tu_extraction_tier :: "extraction_tier option"
  tu_messages_dropped :: nat
  tu_key_pool :: "key_pool option"

record StreamResult =
  sr_conversation_id :: string
  sr_message_id :: string
  sr_requested_slot :: string
  sr_spec :: "ModelSpec option"
  sr_text :: string
  sr_usage :: Usage
  sr_finish_reason :: string
  sr_status :: StreamStatus
  sr_error_code :: "string option"
  sr_substituted :: bool
  sr_attempts :: nat
  sr_trail :: "AttemptRecord list"
  sr_latency_ms :: int
  sr_ttft_ms :: "int option"
  sr_wasted_tokens_out :: nat
  sr_degraded :: bool
  sr_extraction_tier :: "extraction_tier option"
  sr_messages_dropped :: nat
  sr_key_pool :: "key_pool option"

definition new_turn :: "string \<Rightarrow> string \<Rightarrow> string \<Rightarrow> string option \<Rightarrow> Turn" where
  "new_turn conversation_id message_id requested pinned = \<lparr>tu_conversation_id = conversation_id, tu_message_id = message_id,
     tu_requested = requested, tu_pinned = pinned, tu_buffer = [], tu_longest_partial = [], tu_committed = False, tu_done = False,
     tu_attempt = 0, tu_attempts = 0, tu_spec = None, tu_pending_restart = None, tu_status = St_ok, tu_error_code = None,
     tu_usage = \<lparr>us_tokens_in = 0, us_tokens_out = 0, us_estimated = True\<rparr>, tu_finish_reason = ''error'', tu_trail = [], tu_latency_ms = 0,
     tu_ttft_ms = None, tu_wasted_tokens_out = 0, tu_degraded = False, tu_extraction_tier = None, tu_messages_dropped = 0, tu_key_pool = None\<rparr>"

definition turn_begin :: "nat \<Rightarrow> ModelSpec \<Rightarrow> Turn \<Rightarrow> Turn" where
  "turn_begin attempt spec t = t\<lparr>tu_attempt := attempt, tu_attempts := attempt, tu_spec := Some spec\<rparr>"

definition longer_of :: "string \<Rightarrow> Turn \<Rightarrow> Turn" where
  "longer_of s t = (if length s > length (tu_longest_partial t) then t\<lparr>tu_longest_partial := s\<rparr> else t)"

definition turn_abort :: "ModelSpec \<Rightarrow> ProviderError \<Rightarrow> nat \<Rightarrow> Turn \<Rightarrow> Turn" where
  "turn_abort spec error discarded_chars t =
    (let s = concat (tu_buffer t); t1 = longer_of s t;
         t2 = (if s \<noteq> [] then t1\<lparr>tu_pending_restart := Some (spec, error_code (pe_class error), discarded_chars)\<rparr> else t1)
     in t2\<lparr>tu_buffer := []\<rparr>)"

definition turn_complete :: "StreamCompleted \<Rightarrow> Turn \<Rightarrow> Turn" where
  "turn_complete e t = t\<lparr>tu_spec := Some (so_spec e), tu_status := St_ok, tu_usage := so_usage e, tu_finish_reason := so_finish_reason e,
     tu_trail := so_trail e, tu_attempts := so_attempts e, tu_latency_ms := so_latency_ms e, tu_ttft_ms := Some (so_ttft_ms e),
     tu_wasted_tokens_out := so_wasted_tokens_out e, tu_degraded := rr_degraded (so_report e),
     tu_extraction_tier := rr_extraction_tier (so_report e), tu_messages_dropped := rr_messages_dropped (so_report e),
     tu_key_pool := Some (so_key_pool e), tu_done := True\<rparr>"

definition turn_record_failure :: "RoutingFailed \<Rightarrow> Turn \<Rightarrow> Turn" where
  "turn_record_failure f t =
    (longer_of (concat (tu_buffer t)) (t\<lparr>tu_status := St_failed, tu_error_code := Some (error_code (pe_class (rf_error f))),
       tu_spec := (case rf_spec f of Some s \<Rightarrow> Some s | None \<Rightarrow> tu_spec t), tu_trail := rf_trail f, tu_attempts := rf_attempts f,
       tu_latency_ms := rf_latency_ms f, tu_wasted_tokens_out := rf_wasted_tokens_out f, tu_key_pool := rf_key_pool f\<rparr>))\<lparr>tu_done := True\<rparr>"

definition served_model :: "Turn \<Rightarrow> ModelSpec exn" where
  "served_model t = (case tu_spec t of None \<Rightarrow> Inl OtherError | Some s \<Rightarrow> Inr s)"

definition spec_names :: "ModelSpec \<Rightarrow> string \<times> string \<times> string" where
  "spec_names spec = (ms_slot spec, ms_provider spec, ms_model spec)"

definition meta_event :: "Turn \<Rightarrow> StreamEventPayload exn" where
  "meta_event t = ebind (served_model t) (\<lambda>spec. Inr (Meta \<lparr>me_attempt = tu_attempt t, me_slot = ms_slot spec, me_provider = ms_provider spec,
     me_model = ms_model spec, me_requested_slot = tu_requested t, me_conversation_id = tu_conversation_id t,
     me_message_id = tu_message_id t\<rparr>))"

definition restart_event :: "Turn \<Rightarrow> StreamEventPayload exn" where
  "restart_event t = (case tu_pending_restart t of None \<Rightarrow> Inl OtherError
     | Some (failed, reason, discarded) \<Rightarrow> ebind (served_model t) (\<lambda>spec. Inr (Restart \<lparr>re_reason = reason,
         re_failed = (ms_provider failed, ms_model failed), re_next = spec_names spec, re_attempt = tu_attempt t,
         re_discarded_chars = discarded\<rparr>)))"

definition partial_content :: "Turn \<Rightarrow> string option" where
  "partial_content t = (if tu_status t \<noteq> St_failed then None
     else if length (tu_longest_partial t) < MIN_PARTIAL_CONTENT_CHARS then None else Some (tu_longest_partial t))"

definition done_event :: "Turn \<Rightarrow> StreamEventPayload exn" where
  "done_event t = ebind (served_model t) (\<lambda>spec. Inr (Done \<lparr>de_served_by = spec_names spec, de_requested_slot = tu_requested t,
     de_substituted = is_substitution (tu_requested t) (ms_slot spec), de_attempts = tu_attempts t,
     de_usage = \<lparr>su_prompt_tokens = us_tokens_in (tu_usage t), su_completion_tokens = us_tokens_out (tu_usage t),
       su_total_tokens = us_tokens_in (tu_usage t) + us_tokens_out (tu_usage t), su_estimated = us_estimated (tu_usage t),
       su_wasted_tokens_out = tu_wasted_tokens_out t\<rparr>,
     de_degraded = tu_degraded t, de_extraction_tier = tu_extraction_tier t, de_messages_dropped = tu_messages_dropped t,
     de_warning = pin_warning (tu_pinned t) (tu_requested t) (ms_slot spec), de_key_pool = tu_key_pool t, de_status = tu_status t,
     de_partial_content = partial_content t\<rparr>))"

definition turn_result :: "Turn \<Rightarrow> StreamResult" where
  "turn_result t = \<lparr>sr_conversation_id = tu_conversation_id t, sr_message_id = tu_message_id t, sr_requested_slot = tu_requested t,
     sr_spec = tu_spec t, sr_text = (if tu_status t = St_ok then concat (tu_buffer t) else tu_longest_partial t), sr_usage = tu_usage t,
     sr_finish_reason = tu_finish_reason t, sr_status = tu_status t, sr_error_code = tu_error_code t,
     sr_substituted = (case tu_spec t of None \<Rightarrow> False | Some s \<Rightarrow> is_substitution (tu_requested t) (ms_slot s)),
     sr_attempts = tu_attempts t, sr_trail = tu_trail t, sr_latency_ms = tu_latency_ms t, sr_ttft_ms = tu_ttft_ms t,
     sr_wasted_tokens_out = tu_wasted_tokens_out t, sr_degraded = tu_degraded t, sr_extraction_tier = tu_extraction_tier t,
     sr_messages_dropped = tu_messages_dropped t, sr_key_pool = tu_key_pool t\<rparr>"

fun apply_event :: "RouteStreamEvent \<Rightarrow> Turn \<Rightarrow> (Turn \<times> StreamEventPayload list) exn" where
  "apply_event (AttemptStarted attempt spec) t = Inr (turn_begin attempt spec t, [])"
| "apply_event (AttemptAborted attempt spec error chars wasted) t = Inr (turn_abort spec error chars t, [])"
| "apply_event (StreamDone e) t = (let t1 = turn_complete e t in ebind (done_event t1) (\<lambda>d. Inr (t1, [d])))"
| "apply_event (AttemptDelta piece) t =
    ebind (if \<not> tu_committed t then ebind (meta_event t) (\<lambda>m. Inr (t\<lparr>tu_committed := True, tu_pending_restart := None\<rparr>, [m]))
           else if tu_pending_restart t \<noteq> None then ebind (restart_event t) (\<lambda>r. Inr (t\<lparr>tu_pending_restart := None\<rparr>, [r]))
           else Inr (t, [])) (\<lambda>(t1, frames).
      Inr (t1\<lparr>tu_buffer := tu_buffer t1 @ [piece]\<rparr>, frames @ [Delta piece]))"

subsection \<open>The loop\<close>

text \<open>\<^verbatim>\<open>INCR\<close>, then \<^verbatim>\<open>EXPIRE\<close>; an error is swallowed.\<close>

definition record_attempt :: "'r redis option \<Rightarrow> string \<Rightarrow> 'r world \<Rightarrow> unit exn \<times> 'r world" where
  "record_attempt redis message_id w = (case redis of None \<Rightarrow> (Inr (), w)
     | Some R \<Rightarrow> (case stream_attempts message_id of
         Inl e \<Rightarrow> (Inl e, w)
       | Inr key \<Rightarrow> (Inr (), snd (cbind (client_call (rd_incrby R key 1)) (\<lambda>_. client_call (writing (rd_expire R key STREAM_ATTEMPTS_TTL_S))) w))))"

record wakeup =
  wu_gone :: bool
  wu_ready :: bool

text \<open>How a run stands: still waiting; the client left; the failure raised before anything was sent; an exception; or
  over, with the turn that is handed to the collector.\<close>

datatype stream_end = Waiting Turn | ClientGone Turn | Raised RoutingFailed | Crashed py_error | Over Turn

fun is_started :: "RouteStreamEvent \<Rightarrow> bool" where
  "is_started (AttemptStarted _ _) = True"
| "is_started _ = False"

fun drive :: "'r redis option \<Rightarrow> wakeup list \<Rightarrow> RouteStreamEvent list \<Rightarrow> RoutingFailed option \<Rightarrow> Turn \<Rightarrow> 'r world \<Rightarrow> frame list \<times> stream_end \<times> 'r world" where
  "drive redis [] events failure t w = ([], Waiting t, w)"
| "drive redis (u # us) events failure t w =
    (if wu_gone u then ([], ClientGone t, w)
     else if \<not> wu_ready u
     then (let (fs, e, w1) = drive redis us events failure t w in ((if tu_committed t then Heartbeat # fs else fs), e, w1))
     else case events of
       [] \<Rightarrow> (case failure of
           None \<Rightarrow> ([], Over t, w)
         | Some f \<Rightarrow> if \<not> tu_committed t then ([], Raised f, w)
                      else (let t1 = turn_record_failure f t in case done_event t1 of
                              Inl x \<Rightarrow> ([], Crashed x, w) | Inr d \<Rightarrow> ([Event d], Over t1, w)))
     | ev # evs \<Rightarrow> (case apply_event ev t of
           Inl x \<Rightarrow> ([], Crashed x, w)
         | Inr (t1, payloads) \<Rightarrow>
             (case (if is_started ev then record_attempt redis (tu_message_id t) w else (Inr (), w)) of
                (Inl x, w1) \<Rightarrow> (map Event payloads, Crashed x, w1)
              | (Inr _, w1) \<Rightarrow> if tu_done t1 then (map Event payloads, Over t1, w1)
                  else (let (fs, e, w2) = drive redis us evs failure t1 w1 in (map Event payloads @ fs, e, w2)))))"

definition stream_completion :: "('r, 'p) renv \<Rightarrow> 'r redis option \<Rightarrow> wakeup list \<Rightarrow> string \<Rightarrow> string \<Rightarrow> string \<Rightarrow> string option
    \<Rightarrow> 'r world \<Rightarrow> 'r rstate \<Rightarrow> (frame list \<times> stream_end) exn" where
  "stream_completion env redis wakes requested conversation_id message_id pinned w s =
    (case route_stream env requested pinned s of
       (Inl e, _) \<Rightarrow> Inl e
     | (Inr (events, failure), _) \<Rightarrow>
         (let (fs, e, _) = drive redis wakes events failure (new_turn conversation_id message_id requested pinned) w in Inr (fs, e)))"

text \<open>What is handed to the collector, if anything.\<close>

definition persisted :: "stream_end \<Rightarrow> StreamResult option" where
  "persisted e = (case e of Over t \<Rightarrow> if tu_done t then Some (turn_result t) else None | _ \<Rightarrow> None)"

subsection \<open>Replaying a cached answer\<close>

definition cached_frames :: "CachedResponse \<Rightarrow> string \<Rightarrow> string \<Rightarrow> string \<Rightarrow> StreamEventPayload list option" where
  "cached_frames cached requested_slot conversation_id message_id =
    Option.bind (chunk_for_replay CACHE_REPLAY_CHUNK_CHARS (cr_text cached)) (\<lambda>pieces. Some (
      [Meta \<lparr>me_attempt = 0, me_slot = cr_slot cached, me_provider = cr_provider cached, me_model = cr_model cached,
         me_requested_slot = requested_slot, me_conversation_id = conversation_id, me_message_id = message_id\<rparr>] @
      map Delta pieces @
      [Done \<lparr>de_served_by = (cr_slot cached, cr_provider cached, cr_model cached), de_requested_slot = requested_slot,
         de_substituted = is_substitution requested_slot (cr_slot cached), de_attempts = 0,
         de_usage = \<lparr>su_prompt_tokens = cr_tokens_in cached, su_completion_tokens = cr_tokens_out cached,
           su_total_tokens = cr_tokens_in cached + cr_tokens_out cached, su_estimated = cr_usage_estimated cached, su_wasted_tokens_out = 0\<rparr>,
         de_degraded = False, de_extraction_tier = None, de_messages_dropped = 0, de_warning = None, de_key_pool = None,
         de_status = St_ok, de_partial_content = None\<rparr>]))"


subsection \<open>What the client makes of the frames\<close>

datatype wire = Silent | Open | Closed

fun wire_step :: "wire \<Rightarrow> frame \<Rightarrow> wire option" where
  "wire_step Silent (Event (Meta _)) = Some Open"
| "wire_step Open (Event (Delta s)) = (if s \<noteq> [] then Some Open else None)"
| "wire_step Open (Event (Restart _)) = Some Open"
| "wire_step Open Heartbeat = Some Open"
| "wire_step Open (Event (Done _)) = Some Closed"
| "wire_step _ _ = None"

fun wire_run :: "wire \<Rightarrow> frame list \<Rightarrow> wire option" where
  "wire_run ws [] = Some ws"
| "wire_run ws (f # fs) = (case wire_step ws f of None \<Rightarrow> None | Some ws' \<Rightarrow> wire_run ws' fs)"

text \<open>The client's bubble: deltas are appended, a restart clears it.\<close>

fun show_frame :: "frame \<Rightarrow> string \<Rightarrow> string" where
  "show_frame (Event (Delta s)) scr = scr @ s"
| "show_frame (Event (Restart _)) scr = []"
| "show_frame _ scr = scr"

definition screen :: "string \<Rightarrow> frame list \<Rightarrow> string" where
  "screen scr fs = fold show_frame fs scr"

text \<open>The text of the attempt that answered.\<close>

fun answer_step :: "RouteStreamEvent \<Rightarrow> string \<Rightarrow> string" where
  "answer_step (AttemptDelta s) acc = acc @ s"
| "answer_step (AttemptAborted _ _ _ _ _) acc = []"
| "answer_step _ acc = acc"

lemma wire_run_append: "wire_run ws (xs @ ys) = (case wire_run ws xs of None \<Rightarrow> None | Some ws' \<Rightarrow> wire_run ws' ys)"
  by (induction ws xs rule: wire_run.induct) (auto split: option.splits)

lemma screen_simps [simp]: "screen scr [] = scr" "screen scr (f # fs) = screen (show_frame f scr) fs" "screen scr (xs @ ys) = screen (screen scr xs) ys"
  by (simp_all add: screen_def)

subsection \<open>The invariant of the loop\<close>

definition wire_of :: "Turn \<Rightarrow> wire" where
  "wire_of t = (if tu_committed t then Open else Silent)"

definition turn_ok :: "phase \<Rightarrow> string \<Rightarrow> Turn \<Rightarrow> bool" where
  "turn_ok ph scr t \<longleftrightarrow> \<not> tu_done t \<and> tu_status t = St_ok \<and>
     (\<not> tu_committed t \<longrightarrow> tu_buffer t = [] \<and> tu_pending_restart t = None \<and> scr = []) \<and>
     (tu_committed t \<longrightarrow> tu_spec t \<noteq> None) \<and>
     (tu_committed t \<and> tu_pending_restart t = None \<longrightarrow> scr = concat (tu_buffer t)) \<and>
     (tu_pending_restart t \<noteq> None \<longrightarrow> tu_buffer t = []) \<and>
     (case ph of Between n w \<Rightarrow> tu_buffer t = []
      | During n spec k w \<Rightarrow> tu_spec t = Some spec \<and> length (concat (tu_buffer t)) = k
      | Finished _ \<Rightarrow> False)"

lemma new_turn_ok: "turn_ok (Between 0 0) [] (new_turn c m r p)"
  by (simp add: turn_ok_def new_turn_def)

text \<open>One event of a well-formed stream, other than the last.\<close>

lemma apply_event_ok:
  assumes "turn_ok ph scr t" "event_step ph ev = Some ph'" "\<And>ok. ph' \<noteq> Finished ok"
  obtains t1 ps where "apply_event ev t = Inr (t1, ps)" "turn_ok ph' (screen scr (map Event ps)) t1" "wire_run (wire_of t) (map Event ps) = Some (wire_of t1)"
    "concat (tu_buffer t1) = answer_step ev (concat (tu_buffer t))" "tu_message_id t1 = tu_message_id t"
proof (cases ev)
  case (AttemptStarted m spec)
  then show ?thesis using assms that
    by (cases ph) (auto simp: turn_ok_def turn_begin_def wire_of_def split: if_splits)
next
  case (AttemptDelta piece)
  then obtain n spec k w where ph: "ph = During n spec k w" "piece \<noteq> []" "ph' = During n spec (k + length piece) w"
    using assms(2) by (cases ph) (auto split: if_splits)
  consider "\<not> tu_committed t" | "tu_committed t" "tu_pending_restart t = None" | fsp rs d where "tu_committed t" "tu_pending_restart t = Some (fsp, rs, d)"
    by (cases "tu_pending_restart t") auto
  then show ?thesis
    using assms(1) ph AttemptDelta
    by cases (auto intro!: that simp: turn_ok_def wire_of_def meta_event_def restart_event_def served_model_def split: option.splits)
next
  case (AttemptAborted m spec e chars wasted)
  then obtain n w where ph': "ph' = Between n w" using assms(2) by (cases ph) (auto split: if_splits)
  have "turn_ok ph' scr (turn_abort spec e chars t)"
    using assms(1) unfolding ph' by (cases "concat (tu_buffer t) = []") (auto simp: turn_ok_def turn_abort_def longer_of_def Let_def)
  then show ?thesis using AttemptAborted
    by (intro that [of "turn_abort spec e chars t" "[]"]) (simp_all add: turn_abort_def longer_of_def wire_of_def Let_def)
next
  case (StreamDone ok)
  then show ?thesis using assms(2,3) by (cases ph) (auto split: if_splits)
qed

lemma apply_done_ok:
  assumes "turn_ok ph scr t" "event_step ph ev = Some (Finished ok)"
  obtains d where "apply_event ev t = Inr (turn_complete ok t, [Done d])" "ev = StreamDone ok" "tu_committed t" "scr = concat (tu_buffer t)" "scr \<noteq> []"
    "de_status d = St_ok" "de_attempts d = so_attempts ok"
proof -
  obtain n spec k w where ph: "ph = During n spec k w" "0 < k" "ev = StreamDone ok"
    using assms(2) by (cases ph; cases ev) (auto split: if_splits)
  then have b: "concat (tu_buffer t) \<noteq> []" using assms(1) by (auto simp: turn_ok_def)
  then have "tu_committed t" "tu_pending_restart t = None" using assms(1) by (auto simp: turn_ok_def)
  then show ?thesis using ph b assms(1)
    by (intro that) (auto simp: done_event_def served_model_def turn_complete_def turn_ok_def Let_def)
qed


definition ends_as :: "RoutingFailed option \<Rightarrow> phase \<Rightarrow> bool" where
  "ends_as failure ph \<longleftrightarrow> (case failure of None \<Rightarrow> \<exists>ok. ph = Finished ok | Some f \<Rightarrow> ph = Between (rf_attempts f) (rf_wasted_tokens_out f))"

definition key_ok :: "'r redis option \<Rightarrow> string \<Rightarrow> bool" where
  "key_ok redis message_id \<longleftrightarrow> redis = None \<or> (\<exists>k. stream_attempts message_id = Inr k)"

definition drive_post :: "RouteStreamEvent list \<Rightarrow> RoutingFailed option \<Rightarrow> string \<Rightarrow> Turn \<Rightarrow> frame list \<Rightarrow> stream_end \<Rightarrow> bool" where
  "drive_post events failure scr t fs e \<longleftrightarrow> (case e of
      Waiting t' \<Rightarrow> wire_run (wire_of t) fs = Some (wire_of t')
    | ClientGone t' \<Rightarrow> wire_run (wire_of t) fs = Some (wire_of t')
    | Raised f \<Rightarrow> failure = Some f \<and> wire_of t = Silent \<and> fs = []
    | Crashed x \<Rightarrow> False
    | Over t' \<Rightarrow> wire_run (wire_of t) fs = Some Closed \<and> tu_done t' \<and> (case failure of
        None \<Rightarrow> tu_status t' = St_ok \<and> screen scr fs = concat (tu_buffer t') \<and> concat (tu_buffer t') \<noteq> [] \<and>
          concat (tu_buffer t') = fold answer_step events (concat (tu_buffer t))
      | Some f \<Rightarrow> tu_status t' = St_failed \<and> tu_attempts t' = rf_attempts f \<and> tu_wasted_tokens_out t' = rf_wasted_tokens_out f))"

lemma wire_step_progress: "wire_step ws f \<noteq> Some Silent"
  by (cases "(ws, f)" rule: wire_step.cases) (auto split: if_splits)

lemma wire_run_Silent: "wire_run ws fs = Some Silent \<Longrightarrow> fs = [] \<and> ws = Silent"
proof (induction ws fs rule: wire_run.induct)
  case (2 ws f fs)
  then obtain ws' where ws': "wire_step ws f = Some ws'" "wire_run ws' fs = Some Silent" by (auto split: option.splits)
  with "2.IH" [OF ws'] wire_step_progress [of ws f] show ?case by simp
qed simp

lemma record_attempt_ok: "key_ok redis m \<Longrightarrow> \<exists>w1. record_attempt redis m w = (Inr (), w1)"
  by (auto simp: key_ok_def record_attempt_def split: option.splits)

lemma drive_post_prefix:
  assumes "drive_post evs failure (screen scr (map Event ps)) t1 fs e" "wire_run (wire_of t) (map Event ps) = Some (wire_of t1)"
    "concat (tu_buffer t1) = answer_step ev (concat (tu_buffer t))"
  shows "drive_post (ev # evs) failure scr t (map Event ps @ fs) e"
proof (cases e)
  case (Raised f)
  then show ?thesis using assms wire_run_Silent by (fastforce simp: drive_post_def)
next
  case (Over t')
  then show ?thesis using assms by (simp add: drive_post_def wire_run_append split: option.splits)
qed (use assms in \<open>auto simp: drive_post_def wire_run_append\<close>)

lemma done_event_ok: "tu_spec t = Some spec \<Longrightarrow> \<exists>d. done_event t = Inr (Done d)"
  by (simp add: done_event_def served_model_def)

lemma drive_failure_ok:
  assumes "turn_ok ph scr t" "tu_committed t"
  obtains d where "done_event (turn_record_failure f t) = Inr (Done d)"
proof -
  obtain spec where "tu_spec (turn_record_failure f t) = Some spec"
    using assms by (cases "rf_spec f") (auto simp: turn_ok_def turn_record_failure_def longer_of_def)
  then show ?thesis using done_event_ok that by blast
qed

lemma drive_ok:
  assumes "turn_ok ph scr t" "event_run ph events = Some ph1" "ends_as failure ph1" "key_ok redis (tu_message_id t)"
    "drive redis us events failure t w = (fs, e, w')"
  shows "drive_post events failure scr t fs e"
  using assms
proof (induction us arbitrary: ph scr t events w fs e w')
  case Nil
  then show ?case by (auto simp: drive_post_def)
next
  case (Cons u us)
  show ?case
  proof (cases "wu_gone u \<or> \<not> wu_ready u")
    case True
    show ?thesis
    proof (cases "wu_gone u")
      case True
      then show ?thesis using Cons.prems(5) by (auto simp: drive_post_def)
    next
      case False
      obtain fs1 where d: "drive redis us events failure t w = (fs1, e, w')" and fs: "fs = (if tu_committed t then Heartbeat # fs1 else fs1)"
        using Cons.prems(5) False True by (auto simp: split_beta prod_eq_iff)
      from Cons.IH [OF Cons.prems(1-4) d] show ?thesis unfolding fs drive_post_def
        by (cases e) (auto simp: wire_of_def split: option.splits)
    qed
  next
    case False
    show ?thesis
    proof (cases events)
      case Nil
      then have ph1: "ph1 = ph" using Cons.prems(2) by simp
      then obtain f where f: "failure = Some f" using Cons.prems(1,3) by (cases failure) (auto simp: ends_as_def turn_ok_def)
      show ?thesis
      proof (cases "tu_committed t")
        case True
        obtain d where "done_event (turn_record_failure f t) = Inr (Done d)" by (rule drive_failure_ok [OF Cons.prems(1) True])
        then show ?thesis using Cons.prems(5) Nil f False True
          by (auto simp: drive_post_def wire_of_def turn_record_failure_def longer_of_def Let_def)
      next
        case uncommitted: False
        then show ?thesis using Cons.prems(5) Nil f False by (auto simp: drive_post_def wire_of_def)
      qed
    next
      case (Cons ev evs)
      then obtain ph2 where step: "event_step ph ev = Some ph2" and run: "event_run ph2 evs = Some ph1"
        using Cons.prems(2) by (auto split: option.splits)
      show ?thesis
      proof (cases "\<exists>ok. ph2 = Finished ok")
        case True
        then obtain ok where ok: "ph2 = Finished ok" by blast
        obtain d where d: "apply_event ev t = Inr (turn_complete ok t, [Done d])" "ev = StreamDone ok" "tu_committed t" "scr = concat (tu_buffer t)" "scr \<noteq> []"
          by (rule apply_done_ok [OF Cons.prems(1) step [unfolded ok]])
        have evs: "evs = []" using run ok by (cases evs) auto
        then have "failure = None" using Cons.prems(3) run ok by (auto simp: ends_as_def split: option.splits)
        then show ?thesis using Cons.prems(5) False Cons d evs
          by (auto simp: drive_post_def wire_of_def turn_complete_def)
      next
        case open_phase: False
        then obtain t1 ps where a: "apply_event ev t = Inr (t1, ps)" "turn_ok ph2 (screen scr (map Event ps)) t1"
            "wire_run (wire_of t) (map Event ps) = Some (wire_of t1)" "concat (tu_buffer t1) = answer_step ev (concat (tu_buffer t))"
            "tu_message_id t1 = tu_message_id t"
          using apply_event_ok [OF Cons.prems(1) step] by blast
        obtain w1 where w1: "(if is_started ev then record_attempt redis (tu_message_id t) w else (Inr (), w)) = (Inr (), w1)"
          using record_attempt_ok [OF Cons.prems(4), of w] by (cases "is_started ev") auto
        have "\<not> tu_done t1" using a(2) by (simp add: turn_ok_def)
        then obtain fs1 where d: "drive redis us evs failure t1 w1 = (fs1, e, w')" and fs: "fs = map Event ps @ fs1"
          using Cons.prems(5) False Cons a(1) w1 by (auto simp: split_beta prod_eq_iff)
        have "drive_post evs failure (screen scr (map Event ps)) t1 fs1 e"
          by (rule Cons.IH [OF a(2) run Cons.prems(3) _ d]) (simp add: a(5) Cons.prems(4))
        then show ?thesis unfolding fs Cons by (rule drive_post_prefix [OF _ a(3,4)])
      qed
    qed
  qed
qed


lemma drive_ends:
  assumes "drive redis us events failure t w = (fs, e, w')" "\<forall>u\<in>set us. \<not> wu_gone u" "length events < length (filter wu_ready us)"
  shows "e \<noteq> Waiting t' \<and> e \<noteq> ClientGone t'"
  using assms
proof (induction us arbitrary: events t w fs e w')
  case (Cons u us)
  show ?case
  proof (cases "wu_ready u")
    case False
    then obtain fs1 where "drive redis us events failure t w = (fs1, e, w')" using Cons.prems by (auto simp: split_beta prod_eq_iff)
    then show ?thesis using Cons.IH Cons.prems(2,3) False by simp
  next
    case ready: True
    show ?thesis
    proof (cases events)
      case Nil
      then show ?thesis using Cons.prems ready by (auto simp: Let_def split: option.splits if_splits sum.splits)
    next
      case evs: (Cons ev evs)
      have IH: "drive redis us evs failure t1 w1 = (fs1, e1, w2) \<Longrightarrow> e1 \<noteq> Waiting t' \<and> e1 \<noteq> ClientGone t'" for t1 w1 fs1 e1 w2
        by (rule Cons.IH) (use Cons.prems(2,3) ready evs in auto)
      show ?thesis
        using Cons.prems(1,2) ready evs
        by (auto simp: Let_def split: sum.split_asm prod.split_asm if_split_asm dest: IH)
    qed
  qed
qed simp

text \<open>How the router's part of a streamed call ends.\<close>

lemma route_stream_events:
  assumes "route_stream env requested pinned s = (Inr (events, failure), s')"
  obtains ph where "event_run (Between 0 0) events = Some ph" "ends_as failure ph"
proof -
  from assms obtain r lo where run: "run_route env STREAM requested pinned s = (Inr (r, lo), s')"
    and res: "events = lo_events lo" "failure = (case r of Inl f \<Rightarrow> Some f | Inr _ \<Rightarrow> None)"
    by (auto simp: route_stream_def abind_Inr areturn_def)
  have e: "events_end r lo (rs_calls s')"
    by (rule stream_events.run_route_post [OF run]) (simp add: events_ok_def no_locals_def)
  show ?thesis
  proof (cases r)
    case (Inl f)
    then show ?thesis using e res by (intro that) (auto simp: events_end_def ends_as_def)
  next
    case (Inr sv)
    then show ?thesis using e res by (cases sv) (auto simp: events_end_def ends_as_def intro: that)
  qed
qed

lemma stream_completion_drive:
  assumes "stream_completion env redis wakes requested conversation_id message_id pinned w s = Inr (fs, e)" "key_ok redis message_id"
  obtains events failure s' w' where "route_stream env requested pinned s = (Inr (events, failure), s')"
    "drive redis wakes events failure (new_turn conversation_id message_id requested pinned) w = (fs, e, w')"
    "drive_post events failure [] (new_turn conversation_id message_id requested pinned) fs e"
proof -
  obtain events failure s' w' where r: "route_stream env requested pinned s = (Inr (events, failure), s')"
    and d: "drive redis wakes events failure (new_turn conversation_id message_id requested pinned) w = (fs, e, w')"
    using assms(1) by (auto simp: stream_completion_def Let_def split: prod.splits sum.splits)
  obtain ph where "event_run (Between 0 0) events = Some ph" "ends_as failure ph" by (rule route_stream_events [OF r])
  from drive_ok [OF new_turn_ok this _ d] assms(2) r d show ?thesis by (intro that) (auto simp: new_turn_def)
qed

subsection \<open>Parsing the frames\<close>

text \<open>The client's side of the event-stream format: lines, fields, comments, a blank line dispatches.\<close>

fun split_lines :: "string \<Rightarrow> string \<Rightarrow> string list" where
  "split_lines acc [] = [acc]"
| "split_lines acc (c # cs) = (if c = CHR 0x0A then acc # split_lines [] cs else split_lines (acc @ [c]) cs)"

fun dispatch :: "string \<Rightarrow> string option \<Rightarrow> string list \<Rightarrow> (string \<times> string) list" where
  "dispatch name data [] = []"
| "dispatch name data (l # ls) =
    (if l = [] then (case data of None \<Rightarrow> dispatch [] None ls | Some d \<Rightarrow> (name, d) # dispatch [] None ls)
     else if startswith l '':'' then dispatch name data ls
     else if startswith l ''event: '' then dispatch (drop 7 l) data ls
     else if startswith l ''data: '' then dispatch name (Some (drop 6 l)) ls
     else dispatch name data ls)"

definition sse_parse :: "string \<Rightarrow> (string \<times> string) list" where
  "sse_parse bytes = dispatch [] None (split_lines [] bytes)"

fun event_of :: "frame \<Rightarrow> StreamEventPayload option" where
  "event_of (Event e) = Some e"
| "event_of Heartbeat = None"

lemma split_lines_line: "CHR 0x0A \<notin> set l \<Longrightarrow> split_lines acc (l @ NL @ rest) = (acc @ l) # split_lines [] rest"
  by (induction l arbitrary: acc) (auto simp: NL_def)

lemma event_name_line: "CHR 0x0A \<notin> set (event_name e)"
  by (cases e) auto

lemma split_frame:
  assumes "CHR 0x0A \<notin> set (dump e)"
  shows "split_lines [] (format_event dump e @ rest) = (''event: '' @ event_name e) # (''data: '' @ dump e) # [] # split_lines [] rest"
proof -
  have "split_lines [] ((''event: '' @ event_name e) @ NL @ (''data: '' @ dump e) @ NL @ [] @ NL @ rest) =
      (''event: '' @ event_name e) # (''data: '' @ dump e) # [] # split_lines [] rest"
    using assms event_name_line [of e] split_lines_line [of "''event: '' @ event_name e"] split_lines_line [of "''data: '' @ dump e"] split_lines_line [of "[]"]
    by (simp del: append_assoc append_Cons add: append_Nil)
  then show ?thesis by (simp add: format_event_def)
qed


lemma split_heartbeat: "split_lines [] (format_heartbeat @ rest) = '': heartbeat'' # [] # split_lines [] rest"
proof -
  have "split_lines [] ('': heartbeat'' @ NL @ [] @ NL @ rest) = '': heartbeat'' # [] # split_lines [] rest"
    using split_lines_line [of "'': heartbeat''"] split_lines_line [of "[]"] by (simp del: append_assoc append_Cons add: append_Nil)
  then show ?thesis by (simp add: format_heartbeat_def)
qed

lemma dispatch_event: "dispatch [] None ((''event: '' @ event_name e) # (''data: '' @ body) # [] # ls) = (event_name e, body) # dispatch [] None ls"
  by (simp add: startswith_def)

lemma dispatch_heartbeat: "dispatch [] None ('': heartbeat'' # [] # ls) = dispatch [] None ls"
  by (simp add: startswith_def)

subsection \<open>A run\<close>

definition ex_wakes :: "wakeup list" where
  "ex_wakes = replicate 8 \<lparr>wu_gone = False, wu_ready = True\<rparr>"

definition ex_stream_env :: "(unit, unit) renv" where
  "ex_stream_env = ex_env (\<lambda>_. Inl ex_down) ex_streams"

definition ex_stream_run :: "(frame list \<times> stream_end) exn" where
  "ex_stream_run = stream_completion ex_stream_env None ex_wakes ''general'' ''c'' ''m'' None (rs_world ex_start) ex_start"

lemma ex_stream_run_ends:
  obtains fs t where "stream_completion ex_stream_env None ex_wakes ''general'' ''c'' ''m'' None (rs_world ex_start) ex_start = Inr (fs, Over t)"
    "tu_status t = St_ok" "sr_text (turn_result t) = ''an answer''"
proof -
  have "case ex_stream_run of Inr (fs, Over t) \<Rightarrow> tu_status t = St_ok \<and> sr_text (turn_result t) = ''an answer'' | _ \<Rightarrow> False" by code_simp
  then show ?thesis using that by (auto simp: ex_stream_run_def split: sum.split_asm prod.split_asm stream_end.split_asm)
qed

section \<open>Properties\<close>

text \<open>C3: what the client shows is what is stored: when a streamed turn ends well, a client that appends deltas and clears on
  a restart shows exactly the text handed to the collector, which is the text of the attempt that answered and is not
  empty, no matter how many attempts failed before it and when the heartbeats fell.\<close>

theorem client_shows_the_answer:
  assumes "stream_completion env redis wakes requested conversation_id message_id pinned w s = Inr (fs, Over t)" "tu_status t = St_ok"
    "key_ok redis message_id"
  shows "\<exists>events s'. route_stream env requested pinned s = (Inr (events, None), s') \<and> persisted (Over t) = Some (turn_result t) \<and>
    screen [] fs = sr_text (turn_result t) \<and> sr_text (turn_result t) = fold answer_step events [] \<and> sr_text (turn_result t) \<noteq> []"
proof -
  obtain events failure s' where r: "route_stream env requested pinned s = (Inr (events, failure), s')"
    and post: "drive_post events failure [] (new_turn conversation_id message_id requested pinned) fs (Over t)"
    using stream_completion_drive [OF assms(1,3)] by metis
  then show ?thesis using assms(2)
    by (cases failure) (auto simp: drive_post_def persisted_def turn_result_def new_turn_def)
qed

theorem client_shows_the_answer_witness:
  "case stream_completion ex_stream_env None ex_wakes ''general'' ''c'' ''m'' None (rs_world ex_start) ex_start of
     Inr (fs, Over t) \<Rightarrow> screen [] fs = ''an answer'' | _ \<Rightarrow> False"
proof -
  obtain fs t where r: "stream_completion ex_stream_env None ex_wakes ''general'' ''c'' ''m'' None (rs_world ex_start) ex_start = Inr (fs, Over t)"
    "tu_status t = St_ok" "sr_text (turn_result t) = ''an answer''" by (rule ex_stream_run_ends)
  have k: "key_ok (None :: unit redis option) ''m''" by (simp add: key_ok_def)
  from client_shows_the_answer [OF r(1,2) k] r show ?thesis by auto
qed

text \<open>C6: the wire protocol holds at every moment of every run: nothing is sent before the first text, then the announcement,
  then text, restarts and keepalives only, and one final event after which nothing follows. A failure leaves as an
  exception exactly when nothing was sent; no assertion of the turn ever fails.\<close>

theorem stream_wire_protocol:
  assumes "stream_completion env redis wakes requested conversation_id message_id pinned w s = Inr (fs, e)" "key_ok redis message_id"
  shows "case e of
      Waiting t \<Rightarrow> wire_run Silent fs = Some (wire_of t)
    | ClientGone t \<Rightarrow> wire_run Silent fs = Some (wire_of t) \<and> persisted e = None
    | Raised f \<Rightarrow> fs = [] \<and> persisted e = None
    | Crashed x \<Rightarrow> False
    | Over t \<Rightarrow> wire_run Silent fs = Some Closed \<and> persisted e = Some (turn_result t)"
proof -
  obtain events failure s' w' where "drive_post events failure [] (new_turn conversation_id message_id requested pinned) fs e"
    by (rule stream_completion_drive [OF assms]) blast
  moreover have "wire_of (new_turn conversation_id message_id requested pinned) = Silent" by (simp add: wire_of_def new_turn_def)
  ultimately show ?thesis by (auto simp: drive_post_def persisted_def split: stream_end.splits)
qed

theorem stream_wire_protocol_witness:
  "case stream_completion ex_stream_env None ex_wakes ''general'' ''c'' ''m'' None (rs_world ex_start) ex_start of
     Inr (fs, Over t) \<Rightarrow> wire_run Silent fs = Some Closed | _ \<Rightarrow> False"
proof -
  obtain fs t where r: "stream_completion ex_stream_env None ex_wakes ''general'' ''c'' ''m'' None (rs_world ex_start) ex_start = Inr (fs, Over t)"
    by (rule ex_stream_run_ends)
  have k: "key_ok (None :: unit redis option) ''m''" by (simp add: key_ok_def)
  from stream_wire_protocol [OF r k] r show ?thesis by auto
qed

text \<open>C16: a stream whose client stays does end: there is a number of events such that any run with more wake-ups than that at
  which the next event is ready, and none at which the client has left, ends with the final event or with the failure
  raised.\<close>

theorem stream_ends:
  assumes "route_stream env requested pinned s = (Inr (events, failure), s')" "key_ok redis message_id"
    "\<forall>u\<in>set wakes. \<not> wu_gone u" "length events < length (filter wu_ready wakes)"
  shows "\<exists>fs e. stream_completion env redis wakes requested conversation_id message_id pinned w s = Inr (fs, e) \<and>
    ((\<exists>t. e = Over t \<and> wire_run Silent fs = Some Closed) \<or> (\<exists>f. e = Raised f \<and> failure = Some f))"
proof -
  obtain fs e w' where d: "drive redis wakes events failure (new_turn conversation_id message_id requested pinned) w = (fs, e, w')"
    by (metis prod_cases3)
  then have c: "stream_completion env redis wakes requested conversation_id message_id pinned w s = Inr (fs, e)"
    using assms(1) by (simp add: stream_completion_def)
  obtain ph where "event_run (Between 0 0) events = Some ph" "ends_as failure ph" by (rule route_stream_events [OF assms(1)])
  then have "drive_post events failure [] (new_turn conversation_id message_id requested pinned) fs e"
    by (rule drive_ok [OF new_turn_ok _ _ _ d]) (use assms(2) in \<open>simp add: new_turn_def\<close>)
  moreover have "wire_of (new_turn conversation_id message_id requested pinned) = Silent" by (simp add: wire_of_def new_turn_def)
  ultimately show ?thesis using c drive_ends [OF d assms(3,4)] by (cases e) (auto simp: drive_post_def)
qed

theorem stream_ends_witness:
  "\<exists>fs e. stream_completion ex_stream_env None ex_wakes ''general'' ''c'' ''m'' None (rs_world ex_start) ex_start = Inr (fs, e) \<and>
     (\<exists>t. e = Over t)"
proof -
  have "case route_stream ex_stream_env ''general'' None ex_start of (Inr (events, None), s') \<Rightarrow> length events = 7 | _ \<Rightarrow> False"
    by code_simp
  then obtain events s' where r: "route_stream ex_stream_env ''general'' None ex_start = (Inr (events, None), s')" and n: "length events = 7"
    by (auto split: prod.split_asm sum.split_asm option.split_asm)
  have "\<forall>u\<in>set ex_wakes. \<not> wu_gone u" "length events < length (filter wu_ready ex_wakes)" by (simp_all add: ex_wakes_def n)
  from stream_ends [where w = "rs_world ex_start" and redis = None and message_id = "''m''" and conversation_id = "''c''", OF r _ this]
  show ?thesis by (auto simp: key_ok_def)
qed

text \<open>Framing loses nothing: a client that parses the bytes of any sequence of frames gets back each event's name and body,
  in order, and ignores the keepalives. It relies on the JSON bodies being single lines.\<close>

theorem frames_parse_back:
  assumes "\<And>e. CHR 0x0A \<notin> set (dump e)"
  shows "sse_parse (concat (map (frame_bytes dump) fs)) = map (\<lambda>e. (event_name e, dump e)) (List.map_filter event_of fs)"
proof (induction fs)
  case Nil
  then show ?case by (simp add: sse_parse_def map_filter_def)
next
  case (Cons f fs)
  show ?case
  proof (cases f)
    case (Event e)
    then show ?thesis using Cons.IH
      by (simp add: sse_parse_def split_frame [OF assms] dispatch_event [unfolded append.simps] map_filter_simps del: dispatch.simps)
  next
    case Heartbeat
    then show ?thesis using Cons.IH by (simp add: sse_parse_def split_heartbeat dispatch_heartbeat map_filter_simps del: dispatch.simps)
  qed
qed

theorem frames_parse_back_witness:
  "sse_parse (concat (map (frame_bytes (\<lambda>e. case e of Delta s \<Rightarrow> ''text'' | _ \<Rightarrow> ''{}'')) [Heartbeat, Event (Delta ''a''), Event (Delta ''b'')])) =
     [(''delta'', ''text''), (''delta'', ''text'')]"
proof -
  have nl: "CHR 0x0A \<notin> set (case e of Delta s \<Rightarrow> ''text'' | _ \<Rightarrow> ''{}'')" for e by (cases e) auto
  show ?thesis
    unfolding frames_parse_back [where dump = "\<lambda>e. case e of Delta s \<Rightarrow> ''text'' | _ \<Rightarrow> ''{}''", OF nl]
    by (simp add: map_filter_simps)
qed

end
