(* ===== verification/Gw_Fitting.thy ===== *)
theory Gw_Fitting
  imports Gw_Canonical "HOL-Library.While_Combinator"
begin

text \<open>
  Making a history fit a context window (\<^verbatim>\<open>app/memory/fitting.py\<close>). How a message looks to the model
  (\<open>project\<close>) and how text is measured (\<open>estimator\<close>) are arguments, as in the source. The ellipsis of the
  truncation notice, one code point, is written as the character \<^verbatim>\<open>0x85\<close>.
\<close>

subsection \<open>Constants and measures\<close>

type_synonym by_hash = "string \<Rightarrow> ResolvedAttachment option"
type_synonym projector = "CanonicalMessage \<Rightarrow> by_hash \<Rightarrow> string"
type_synonym estimator = "string \<Rightarrow> int"

definition SAFETY_MARGIN :: pyfloat where "SAFETY_MARGIN = 1/20"
definition CHARS_PER_TOKEN :: nat where "CHARS_PER_TOKEN = 4"
definition PER_MESSAGE_TOKEN_OVERHEAD :: int where "PER_MESSAGE_TOKEN_OVERHEAD = 4"
definition MIN_DOCUMENT_CHARS :: nat where "MIN_DOCUMENT_CHARS = 200"

definition TRUNCATION_NOTICE :: string where
  "TRUNCATION_NOTICE = [CHR 0x0A, CHR ''['', CHR 0x85] @ '' document truncated to fit the context window]''"

datatype FitStrategy = Truncate | Summarize

record FitResult =
  fr_messages :: "CanonicalMessage list"
  fr_attachments :: "ResolvedAttachment list"
  fr_messages_dropped :: nat
  fr_documents_truncated :: nat
  fr_input_tokens :: int

definition estimate_text_tokens :: estimator where
  "estimate_text_tokens text = int (length text div CHARS_PER_TOKEN)"

definition input_budget :: "ModelSpec \<Rightarrow> GenParams \<Rightarrow> int" where
  "input_budget spec params =
    (let reserved_out = (case gp_max_tokens params of Some n \<Rightarrow> min n (ms_max_output_tokens spec) | None \<Rightarrow> ms_max_output_tokens spec)
     in ms_context_window spec - reserved_out - py_int_of_float (of_int (ms_context_window spec) * SAFETY_MARGIN))"

text \<open>A dict comprehension keeps the last item of a key.\<close>

definition index_by_hash :: "ResolvedAttachment list \<Rightarrow> by_hash" where
  "index_by_hash attachments = map_of (rev (map (\<lambda>a. (ra_file_hash a, a)) attachments))"

definition native_tokens :: "ResolvedAttachment list \<Rightarrow> int" where
  "native_tokens attachments = sum_list (map ra_token_cost (filter (\<lambda>a. ra_mode a = Native) attachments))"

fun ref_hash :: "ContentBlock \<Rightarrow> string option" where
  "ref_hash (FileRefBlock h _ _ _) = Some h"
| "ref_hash _ = None"

definition cost :: "CanonicalMessage \<Rightarrow> by_hash \<Rightarrow> projector \<Rightarrow> estimator \<Rightarrow> int" where
  "cost message bh project estimator =
     estimator (project message bh) + PER_MESSAGE_TOKEN_OVERHEAD +
     native_tokens (List.map_filter (\<lambda>b. Option.bind (ref_hash b) bh) (cm_content message))"

subsection \<open>Dropping turns\<close>

fun bump_first :: "int \<Rightarrow> ContentBlock list \<Rightarrow> ContentBlock list" where
  "bump_first d [] = []"
| "bump_first d (OmissionMarkerBlock n # bs) = omission_marker (n + d) # bs"
| "bump_first d (b # bs) = b # bump_first d bs"

fun is_marker :: "ContentBlock \<Rightarrow> bool" where
  "is_marker (OmissionMarkerBlock _) = True"
| "is_marker _ = False"

definition with_omission_marker :: "CanonicalMessage \<Rightarrow> int \<Rightarrow> CanonicalMessage" where
  "with_omission_marker message dropped =
    (if list_ex is_marker (cm_content message) then with_content message (bump_first dropped (cm_content message))
     else with_content message (omission_marker dropped # cm_content message))"

fun omitted :: "ContentBlock \<Rightarrow> int" where
  "omitted (OmissionMarkerBlock n) = n"
| "omitted _ = 0"

definition omitted_in :: "CanonicalMessage \<Rightarrow> int" where
  "omitted_in m = sum_list (map omitted (filter is_marker (cm_content m)))"

definition keep_alive :: "bool list \<Rightarrow> 'a list \<Rightarrow> 'a list" where
  "keep_alive alive xs = map snd (filter fst (zip alive xs))"

definition apply_marker :: "CanonicalMessage list \<Rightarrow> bool list \<Rightarrow> int list \<Rightarrow> by_hash \<Rightarrow> projector \<Rightarrow> estimator \<Rightarrow> nat
    \<Rightarrow> CanonicalMessage list \<times> int list" where
  "apply_marker messages alive costs bh project estimator dropped =
    (let survivors = keep_alive alive messages; survivor_costs = keep_alive alive costs
     in if dropped = 0 \<or> survivors = [] then (survivors, survivor_costs)
        else let carried = sum_list (map omitted_in (keep_alive (map Not alive) messages));
                 target = (if cm_role (survivors ! 0) = System \<and> length survivors > 1 then 1 else 0);
                 marked = with_omission_marker (survivors ! target) (int dropped + carried)
             in (survivors[target := marked], survivor_costs[target := cost marked bh project estimator]))"

definition last_user :: "CanonicalMessage list \<Rightarrow> nat option" where
  "last_user messages = List.find (\<lambda>i. cm_role (messages ! i) = User) (rev [0..<length messages])"

definition pinned_indices :: "CanonicalMessage list \<Rightarrow> nat list" where
  "pinned_indices messages =
    (if messages \<noteq> [] \<and> cm_role (messages ! 0) = System then [0] else []) @
    (case last_user messages of Some i \<Rightarrow> [i] | None \<Rightarrow> if messages \<noteq> [] then [length messages - 1] else [])"

fun group_turns :: "CanonicalMessage list \<Rightarrow> nat list \<Rightarrow> nat list list" where
  "group_turns messages [] = []"
| "group_turns messages [i] = [[i]]"
| "group_turns messages (i # j # rest) =
    (if cm_role (messages ! i) = User \<and> j = i + 1 \<and> cm_role (messages ! (i + 1)) = Assistant
     then [i, j] # group_turns messages rest else [i] # group_turns messages (j # rest))"

definition droppable_groups :: "CanonicalMessage list \<Rightarrow> nat list \<Rightarrow> nat list list" where
  "droppable_groups messages pinned = group_turns messages (filter (\<lambda>i. i \<notin> set pinned) [0..<length messages])"

definition bury :: "nat list \<Rightarrow> bool list \<Rightarrow> bool list" where
  "bury grp alive = fold (\<lambda>i a. a[i := False]) grp alive"

fun drop_groups :: "CanonicalMessage list \<Rightarrow> int list \<Rightarrow> by_hash \<Rightarrow> projector \<Rightarrow> estimator \<Rightarrow> int \<Rightarrow> nat list list \<Rightarrow> bool list \<Rightarrow> nat
    \<Rightarrow> CanonicalMessage list \<times> int list \<times> nat" where
  "drop_groups messages costs bh project estimator budget [] alive dropped =
    (let (survivors, survivor_costs) = apply_marker messages alive costs bh project estimator dropped
     in (survivors, survivor_costs, dropped))"
| "drop_groups messages costs bh project estimator budget (grp # groups) alive dropped =
    (let alive1 = bury grp alive; dropped1 = dropped + length grp;
         (survivors, survivor_costs) = apply_marker messages alive1 costs bh project estimator dropped1
     in if sum_list survivor_costs \<le> budget then (survivors, survivor_costs, dropped1)
        else drop_groups messages costs bh project estimator budget groups alive1 dropped1)"

definition drop_oldest_turns :: "CanonicalMessage list \<Rightarrow> int list \<Rightarrow> by_hash \<Rightarrow> projector \<Rightarrow> estimator \<Rightarrow> int
    \<Rightarrow> CanonicalMessage list \<times> int list \<times> nat" where
  "drop_oldest_turns messages costs bh project estimator budget =
     drop_groups messages costs bh project estimator budget (droppable_groups messages (pinned_indices messages))
       (replicate (length messages) True) 0"

subsection \<open>Truncating documents\<close>

text \<open>The scan keeps the first longest injected text above the floor.\<close>

fun largest_from :: "nat \<Rightarrow> nat option \<Rightarrow> nat \<Rightarrow> nat list \<Rightarrow> ResolvedAttachment list \<Rightarrow> nat option" where
  "largest_from index best best_length exhausted [] = best"
| "largest_from index best best_length exhausted (a # rest) =
    (if index \<in> set exhausted \<or> ra_mode a \<noteq> Injected \<or> ra_text a = None then largest_from (Suc index) best best_length exhausted rest
     else if length (the (ra_text a)) > best_length then largest_from (Suc index) (Some index) (length (the (ra_text a))) exhausted rest
     else largest_from (Suc index) best best_length exhausted rest)"

definition largest_truncatable :: "ResolvedAttachment list \<Rightarrow> nat list \<Rightarrow> nat option" where
  "largest_truncatable attachments exhausted = largest_from 0 None MIN_DOCUMENT_CHARS exhausted attachments"

text \<open>The state of the loop: the attachments as cut so far, the indices given up, the cuts made, the total.\<close>

record cutting =
  cu_current :: "ResolvedAttachment list"
  cu_exhausted :: "nat list"
  cu_truncated :: nat
  cu_total :: int

definition attachment_text :: "ResolvedAttachment \<Rightarrow> string" where
  "attachment_text a = (case ra_text a of None \<Rightarrow> [] | Some t \<Rightarrow> t)"

definition total_cost :: "CanonicalMessage list \<Rightarrow> ResolvedAttachment list \<Rightarrow> projector \<Rightarrow> estimator \<Rightarrow> int" where
  "total_cost messages attachments project estimator =
     sum_list (map (\<lambda>m. cost m (index_by_hash attachments) project estimator) messages)"

text \<open>Whether the loop goes round, and what it does then.\<close>

definition cut_more :: "int \<Rightarrow> cutting \<Rightarrow> bool" where
  "cut_more budget c \<longleftrightarrow> cu_total c > budget \<and> largest_truncatable (cu_current c) (cu_exhausted c) \<noteq> None"

definition cut_one :: "CanonicalMessage list \<Rightarrow> projector \<Rightarrow> estimator \<Rightarrow> int \<Rightarrow> cutting \<Rightarrow> cutting" where
  "cut_one messages project estimator budget c =
    (let index = the (largest_truncatable (cu_current c) (cu_exhausted c));
         attachment = cu_current c ! index;
         txt = attachment_text attachment;
         excess_chars = (cu_total c - budget) * int CHARS_PER_TOKEN + int (length TRUNCATION_NOTICE);
         keep = nat (max (int MIN_DOCUMENT_CHARS) (int (length txt) - excess_chars));
         shortened = take keep txt @ TRUNCATION_NOTICE
     in if length shortened \<ge> length txt then c\<lparr>cu_exhausted := index # cu_exhausted c\<rparr>
        else let current = (cu_current c)[index := attachment\<lparr>ra_text := Some shortened\<rparr>]
             in \<lparr>cu_current = current,
                 cu_exhausted = (if keep = MIN_DOCUMENT_CHARS then index # cu_exhausted c else cu_exhausted c),
                 cu_truncated = Suc (cu_truncated c),
                 cu_total = total_cost messages current project estimator\<rparr>)"


definition truncate_documents :: "CanonicalMessage list \<Rightarrow> ResolvedAttachment list \<Rightarrow> projector \<Rightarrow> estimator \<Rightarrow> int \<Rightarrow> int \<Rightarrow> cutting" where
  "truncate_documents messages attachments project estimator budget tot =
     while (cut_more budget) (cut_one messages project estimator budget)
       \<lparr>cu_current = attachments, cu_exhausted = [], cu_truncated = 0, cu_total = tot\<rparr>"

subsection \<open>Fitting\<close>

definition fit :: "CanonicalMessage list \<Rightarrow> ResolvedAttachment list \<Rightarrow> int \<Rightarrow> ModelSpec \<Rightarrow> projector \<Rightarrow> FitStrategy \<Rightarrow> estimator
    \<Rightarrow> (ProviderError + FitResult) exn" where
  "fit messages attachments budget spec project strategy estimator =
    (if strategy = Summarize then Inl NotImplementedError
     else let bh = index_by_hash attachments;
              costs = map (\<lambda>m. cost m bh project estimator) messages;
              tot = sum_list costs
          in if tot \<le> budget
             then Inr (Inr \<lparr>fr_messages = messages, fr_attachments = attachments, fr_messages_dropped = 0, fr_documents_truncated = 0,
                            fr_input_tokens = tot\<rparr>)
             else let (survivors, costs1, dropped) = drop_oldest_turns messages costs bh project estimator budget;
                      tot1 = sum_list costs1
                  in if tot1 \<le> budget
                     then Inr (Inr \<lparr>fr_messages = survivors, fr_attachments = attachments, fr_messages_dropped = dropped,
                                    fr_documents_truncated = 0, fr_input_tokens = tot1\<rparr>)
                     else let c = truncate_documents survivors attachments project estimator budget tot1
                          in if cu_total c > budget
                             then Inr (Inl \<lparr>pe_class = ContextTooLong (Some budget), pe_provider = ms_provider spec, pe_model = ms_model spec,
                                            pe_status_code = None\<rparr>)
                             else Inr (Inr \<lparr>fr_messages = survivors, fr_attachments = cu_current c, fr_messages_dropped = dropped,
                                            fr_documents_truncated = cu_truncated c, fr_input_tokens = cu_total c\<rparr>))"

subsection \<open>The loop that cuts documents ends\<close>

lemma largest_from_Some:
  assumes "largest_from i best bl ex as = Some j"
  shows "best = Some j \<or> (i \<le> j \<and> j < i + length as \<and> j \<notin> set ex \<and> ra_mode (as ! (j - i)) = Injected \<and>
    (\<exists>t. ra_text (as ! (j - i)) = Some t \<and> bl < length t))"
  using assms
proof (induction as arbitrary: i best bl)
  case (Cons a as)
  have shift: "Suc i \<le> j \<Longrightarrow> (a # as) ! (j - i) = as ! (j - Suc i)" by (simp add: nth_Cons' )
  show ?case
  proof (cases "i \<in> set ex \<or> ra_mode a \<noteq> Injected \<or> ra_text a = None \<or> length (the (ra_text a)) \<le> bl")
    case True
    then have "largest_from (Suc i) best bl ex as = Some j" using Cons.prems by (auto split: if_splits)
    from Cons.IH [OF this] shift show ?thesis by auto
  next
    case False
    then have "largest_from (Suc i) (Some i) (length (the (ra_text a))) ex as = Some j" using Cons.prems by auto
    from Cons.IH [OF this] False shift show ?thesis by fastforce
  qed
qed simp

lemma largest_truncatable_Some:
  assumes "largest_truncatable as ex = Some j"
  obtains t where "j < length as" "j \<notin> set ex" "ra_mode (as ! j) = Injected" "ra_text (as ! j) = Some t" "MIN_DOCUMENT_CHARS < length t"
  using largest_from_Some [of 0 None MIN_DOCUMENT_CHARS ex as j] assms by (auto simp: largest_truncatable_def)

definition left_to_cut :: "cutting \<Rightarrow> nat" where
  "left_to_cut c = sum_list (map (length \<circ> attachment_text) (cu_current c)) + card ({..<length (cu_current c)} - set (cu_exhausted c))"

lemma sum_list_update_less:
  fixes f :: "'a \<Rightarrow> nat"
  assumes "i < length xs" "f y < f (xs ! i)"
  shows "sum_list (map f (xs[i := y])) < sum_list (map f xs)"
  using assms by (induction xs arbitrary: i) (auto simp: nth_Cons split: nat.splits)

lemma cut_one_decreases:
  assumes "cut_more budget c"
  shows "left_to_cut (cut_one messages project estimator budget c) < left_to_cut c"
proof -
  obtain i where i: "largest_truncatable (cu_current c) (cu_exhausted c) = Some i" using assms by (auto simp: cut_more_def)
  obtain t where t: "i < length (cu_current c)" "i \<notin> set (cu_exhausted c)" "ra_text (cu_current c ! i) = Some t"
    using largest_truncatable_Some [OF i] by metis
  have less: "card ({..<length (cu_current c)} - insert i (set (cu_exhausted c))) < card ({..<length (cu_current c)} - set (cu_exhausted c))"
    using t by (intro psubset_card_mono) auto
  have sub: "card ({..<length (cu_current c)} - insert i (set (cu_exhausted c))) \<le> card ({..<length (cu_current c)} - set (cu_exhausted c))"
    using less by simp
  have shorter: "sum_list (map (length \<circ> attachment_text) ((cu_current c)[i := (cu_current c ! i)\<lparr>ra_text := Some u\<rparr>]))
      < sum_list (map (length \<circ> attachment_text) (cu_current c))" if "length u < length t" for u
    using that t by (intro sum_list_update_less) (simp_all add: attachment_text_def)
  have txt_eq: "attachment_text (cu_current c ! i) = t" by (simp add: attachment_text_def t)
  show ?thesis
    unfolding cut_one_def i option.sel txt_eq Let_def left_to_cut_def
    using less sub shorter by (auto intro!: add_less_le_mono)
qed

lemma cutting_ends:
  "\<exists>c. while_option (cut_more budget) (cut_one messages project estimator budget) c0 = Some c"
  using measure_while_option_Some [of "\<lambda>_. True" "cut_more budget" "cut_one messages project estimator budget" left_to_cut c0]
  by (auto intro: cut_one_decreases)

lemma truncate_documents_rule:
  assumes "P \<lparr>cu_current = attachments, cu_exhausted = [], cu_truncated = 0, cu_total = tot\<rparr>"
    and "\<And>c. P c \<Longrightarrow> cut_more budget c \<Longrightarrow> P (cut_one messages project estimator budget c)"
  shows "P (truncate_documents messages attachments project estimator budget tot)"
    "\<not> cut_more budget (truncate_documents messages attachments project estimator budget tot)"
proof -
  let ?c0 = "\<lparr>cu_current = attachments, cu_exhausted = [], cu_truncated = 0, cu_total = tot\<rparr>"
  obtain c where c: "while_option (cut_more budget) (cut_one messages project estimator budget) ?c0 = Some c" using cutting_ends by blast
  then have eq: "truncate_documents messages attachments project estimator budget tot = c" by (simp add: truncate_documents_def while_def)
  show "P (truncate_documents messages attachments project estimator budget tot)"
    unfolding eq by (rule while_option_rule [where P = P, OF _ c assms(1)]) (auto intro: assms(2))
  show "\<not> cut_more budget (truncate_documents messages attachments project estimator budget tot)"
    unfolding eq by (rule while_option_stop [OF c])
qed


subsection \<open>What the stages of the fitting do\<close>

lemma keep_alive_map: "keep_alive alive (map f xs) = map f (keep_alive alive xs)"
  by (induction alive arbitrary: xs) (auto simp: keep_alive_def zip_Cons1 split: list.splits)

lemma map_update_self: "map f (xs[i := y]) = (map f xs)[i := f y]"
  by (simp add: map_update)

lemma apply_marker_costs:
  "snd (apply_marker messages alive (map (\<lambda>m. cost m bh project estimator) messages) bh project estimator dropped) =
   map (\<lambda>m. cost m bh project estimator) (fst (apply_marker messages alive (map (\<lambda>m. cost m bh project estimator) messages) bh project estimator dropped))"
  by (simp add: apply_marker_def Let_def keep_alive_map map_update)

lemma drop_groups_costs:
  assumes "drop_groups messages (map (\<lambda>m. cost m bh project estimator) messages) bh project estimator budget groups alive dropped = (survivors, costs, n)"
  shows "costs = map (\<lambda>m. cost m bh project estimator) survivors"
  using assms
proof (induction groups arbitrary: alive dropped)
  case Nil
  then show ?case
    using apply_marker_costs [where messages = messages and alive = alive and dropped = dropped and bh = bh and project = project and estimator = estimator]
    by (auto simp: split_beta)
next
  case (Cons grp groups)
  then show ?case
    using apply_marker_costs [where messages = messages and alive = "bury grp alive" and dropped = "dropped + length grp"
        and bh = bh and project = project and estimator = estimator]
    by (auto simp: split_beta Let_def split: if_splits)
qed

text \<open>A message without its markers.\<close>

definition strip :: "CanonicalMessage \<Rightarrow> CanonicalMessage" where
  "strip m = m\<lparr>cm_content := filter (\<lambda>b. \<not> is_marker b) (cm_content m)\<rparr>"

lemma bump_first_strip: "filter (\<lambda>b. \<not> is_marker b) (bump_first d bs) = filter (\<lambda>b. \<not> is_marker b) bs"
  by (induction d bs rule: bump_first.induct) (auto simp: omission_marker_def)

lemma strip_marked: "strip (with_omission_marker m d) = strip m"
  by (simp add: strip_def with_omission_marker_def with_content_def bump_first_strip) (simp add: omission_marker_def)

lemma bump_first_omitted:
  "list_ex is_marker bs \<Longrightarrow> sum_list (map omitted (filter is_marker (bump_first d bs))) = sum_list (map omitted (filter is_marker bs)) + d"
  by (induction d bs rule: bump_first.induct) (auto simp: omission_marker_def)

lemma omitted_marked: "omitted_in (with_omission_marker m d) = omitted_in m + d"
  by (simp add: omitted_in_def with_omission_marker_def with_content_def bump_first_omitted) (simp add: omission_marker_def)

definition alive_without :: "nat \<Rightarrow> nat list \<Rightarrow> bool list" where
  "alive_without n dead = map (\<lambda>i. i \<notin> set dead) [0..<n]"

lemma keep_alive_without:
  "keep_alive (alive_without (length xs) dead) xs = map (\<lambda>i. xs ! i) (filter (\<lambda>i. i \<notin> set dead) [0..<length xs])"
proof -
  have "zip (alive_without (length xs) dead) xs = map (\<lambda>i. (i \<notin> set dead, xs ! i)) [0..<length xs]"
    by (rule nth_equalityI) (auto simp: alive_without_def)
  then show ?thesis by (simp add: keep_alive_def filter_map comp_def)
qed

lemma bury_without: "bury g (alive_without n dead) = alive_without n (dead @ g)"
proof (induction g arbitrary: dead)
  case (Cons i g)
  have "(alive_without n dead)[i := False] = alive_without n (dead @ [i])"
  proof (rule nth_equalityI)
    fix j assume "j < length ((alive_without n dead)[i := False])"
    then show "(alive_without n dead)[i := False] ! j = alive_without n (dead @ [i]) ! j"
      by (cases "j = i") (simp_all add: alive_without_def)
  qed (simp add: alive_without_def)
  then show ?case using Cons [of "dead @ [i]"] by (simp add: bury_def)
qed (simp add: bury_def)

lemma sum_list_update_int:
  fixes f :: "'a \<Rightarrow> int"
  shows "i < length xs \<Longrightarrow> sum_list (map f (xs[i := y])) = sum_list (map f xs) - f (xs ! i) + f y"
  by (induction xs arbitrary: i) (auto simp: nth_Cons split: nat.splits)

lemma apply_marker_strip: "map strip (fst (apply_marker messages alive costs bh project estimator dropped)) = map strip (keep_alive alive messages)"
proof -
  have same: "(map strip xs)[i := strip (xs ! i)] = map strip xs" for xs i
    by (cases "i < length xs") (simp_all add: list_update_same_conv list_update_beyond)
  show ?thesis by (simp add: apply_marker_def Let_def map_update strip_marked same)
qed

lemma apply_marker_omitted:
  assumes "keep_alive alive messages \<noteq> []" "dropped \<noteq> 0"
  shows "sum_list (map omitted_in (fst (apply_marker messages alive costs bh project estimator dropped))) =
    sum_list (map omitted_in (keep_alive alive messages)) + int dropped + sum_list (map omitted_in (keep_alive (map Not alive) messages))"
proof -
  have "sum_list (map omitted_in (xs[i := with_omission_marker (xs ! i) d])) = sum_list (map omitted_in xs) + d" if "i < length xs" for xs i d
    using that by (simp only: sum_list_update_int omitted_marked)
  then show ?thesis using assms by (simp add: apply_marker_def Let_def)
qed

lemma apply_marker_none: "fst (apply_marker messages alive costs bh project estimator 0) = keep_alive alive messages"
  by (simp add: apply_marker_def Let_def)

lemma group_turns_concat: "concat (group_turns messages is) = is"
  by (induction messages "is" rule: group_turns.induct) auto

text \<open>Dropping stops after some of the groups, the oldest ones.\<close>

lemma drop_groups_prefix:
  assumes "drop_groups messages costs bh project estimator budget groups (alive_without (length messages) dead) (length dead) = (survivors, costs1, n)"
  obtains k where "n = length (dead @ concat (take k groups))"
    "fst (apply_marker messages (alive_without (length messages) (dead @ concat (take k groups))) costs bh project estimator n) = survivors"
    "sum_list costs1 > budget \<Longrightarrow> length groups \<le> k"
  using assms
proof (induction groups arbitrary: dead thesis)
  case Nil
  show ?case by (rule Nil.prems(1) [of 0]) (use Nil.prems(2) in \<open>auto simp: split_beta\<close>)
next
  case (Cons g groups)
  let ?am = "apply_marker messages (alive_without (length messages) (dead @ g)) costs bh project estimator (length (dead @ g))"
  show ?case
  proof (cases "sum_list (snd ?am) \<le> budget")
    case True
    show ?thesis
      by (rule Cons.prems(1) [of 1]) (use Cons.prems(2) True in \<open>auto simp: split_beta Let_def bury_without\<close>)
  next
    case False
    then have "drop_groups messages costs bh project estimator budget groups (alive_without (length messages) (dead @ g)) (length (dead @ g)) = (survivors, costs1, n)"
      using Cons.prems(2) by (simp add: split_beta Let_def bury_without)
    then obtain k where "n = length ((dead @ g) @ concat (take k groups))"
      "fst (apply_marker messages (alive_without (length messages) ((dead @ g) @ concat (take k groups))) costs bh project estimator n) = survivors"
      "sum_list costs1 > budget \<Longrightarrow> length groups \<le> k"
      by (rule Cons.IH [rotated]) blast+
    then show ?thesis by (intro Cons.prems(1) [of "Suc k"]) simp_all
  qed
qed


subsection \<open>What a fitted history is\<close>

definition droppable :: "CanonicalMessage list \<Rightarrow> nat list" where
  "droppable messages = filter (\<lambda>i. i \<notin> set (pinned_indices messages)) [0..<length messages]"

text \<open>The indices dropped after the first \<open>k\<close> groups.\<close>

definition dead_after :: "CanonicalMessage list \<Rightarrow> nat \<Rightarrow> nat list" where
  "dead_after messages k = concat (take k (droppable_groups messages (pinned_indices messages)))"

lemma alive_all: "replicate n True = alive_without n []"
  by (rule nth_equalityI) (simp_all add: alive_without_def)

lemma concat_take_prefix: "\<exists>ys. concat xss = concat (take k xss) @ ys"
  by (metis append_take_drop_id concat_append)

lemma dead_after_prefix: "\<exists>rest. droppable messages = dead_after messages k @ rest"
  using concat_take_prefix [of "droppable_groups messages (pinned_indices messages)" k]
  by (simp add: dead_after_def droppable_groups_def group_turns_concat droppable_def)

lemma dead_after_facts:
  "distinct (dead_after messages k)" "set (dead_after messages k) \<subseteq> {..<length messages}" "set (dead_after messages k) \<inter> set (pinned_indices messages) = {}"
proof -
  obtain rest where rest: "droppable messages = dead_after messages k @ rest" using dead_after_prefix by blast
  have "distinct (droppable messages)" by (simp add: droppable_def)
  then show "distinct (dead_after messages k)" by (simp add: rest)
  have "set (dead_after messages k) \<subseteq> set (droppable messages)" by (simp add: rest)
  then show "set (dead_after messages k) \<subseteq> {..<length messages}" "set (dead_after messages k) \<inter> set (pinned_indices messages) = {}"
    by (auto simp: droppable_def)
qed

lemma last_user_eq:
  assumes "i < length messages" "cm_role (messages ! i) = User" "\<And>j. i < j \<Longrightarrow> j < length messages \<Longrightarrow> cm_role (messages ! j) \<noteq> User"
  shows "last_user messages = Some i"
proof -
  have "[0..<length messages] = [0..<i] @ i # [Suc i..<length messages]"
    using assms(1) upt_add_eq_append [of 0 i "length messages - i"] by (simp add: upt_conv_Cons)
  then have "rev [0..<length messages] = rev [Suc i..<length messages] @ i # rev [0..<i]" by simp
  moreover have "List.find (\<lambda>i. cm_role (messages ! i) = User) (rev [Suc i..<length messages]) = None"
    using assms(3) by (auto simp: find_None_iff)
  moreover have "List.find P (xs @ ys) = (case List.find P xs of None \<Rightarrow> List.find P ys | r \<Rightarrow> r)" for P :: "nat \<Rightarrow> bool" and xs ys
    by (induction xs) auto
  ultimately show ?thesis using assms(2) by (simp add: last_user_def)
qed

text \<open>An answer goes with its question.\<close>

lemma group_turns_pairs:
  assumes "sorted_wrt (<) js" "i \<in> set js" "Suc i \<in> set js" "cm_role (messages ! i) = User" "cm_role (messages ! Suc i) = Assistant"
    "g \<in> set (group_turns messages js)" "i \<in> set g"
  shows "Suc i \<in> set g"
  using assms
proof (induction messages js rule: group_turns.induct)
  case (3 messages a b rest)
  have b: "a < b" "\<forall>x\<in>set rest. b < x" "\<forall>x\<in>set rest. a < x" using "3.prems"(1) by auto
  show ?case
  proof (cases "cm_role (messages ! a) = User \<and> b = a + 1 \<and> cm_role (messages ! (a + 1)) = Assistant")
    case True
    show ?thesis
    proof (cases "g = [a, b]")
      case True
      then show ?thesis using \<open>i \<in> set g\<close> \<open>cm_role (messages ! a) = User \<and> _\<close> "3.prems"(4) by auto
    next
      case False
      then have g: "g \<in> set (group_turns messages rest)" using "3.prems"(6) True by auto
      then have "i \<in> set rest" using "3.prems"(7) group_turns_concat [of messages rest] by (metis UN_I set_concat)
      moreover from this have "Suc i \<in> set rest" using "3.prems"(3) b by force
      ultimately show ?thesis using "3.IH"(1) [OF True] "3.prems" g by simp
    qed
  next
    case False
    show ?thesis
    proof (cases "i = a")
      case True
      then have "b = Suc i" using "3.prems"(3) b by force
      then show ?thesis using False True "3.prems"(4,5) by simp
    next
      case neq: False
      then have g: "g \<in> set (group_turns messages (b # rest))" using "3.prems"(6,7) False by auto
      have "i \<in> set (b # rest)" using neq "3.prems"(2) by simp
      moreover have "Suc i \<in> set (b # rest)" using "3.prems"(2,3) b neq by auto
      ultimately show ?thesis using "3.IH"(2) [OF False] "3.prems" g by simp
    qed
  qed
qed auto

lemma dead_after_pairs:
  assumes "i \<in> set (dead_after messages k)" "Suc i < length messages" "cm_role (messages ! i) = User" "cm_role (messages ! Suc i) = Assistant"
  shows "Suc i \<in> set (dead_after messages k)"
proof -
  have i: "i \<in> set (droppable messages)" using assms(1) dead_after_prefix [of messages k] by auto
  have "Suc i \<notin> set (pinned_indices messages)"
  proof
    assume p: "Suc i \<in> set (pinned_indices messages)"
    have u: "last_user messages \<noteq> None" using assms(2,3) by (auto simp: last_user_def find_None_iff intro: exI [of _ i])
    then have "last_user messages = Some (Suc i)" using p by (auto simp: pinned_indices_def split: if_splits option.splits)
    then show False using assms(4) find_Some_in by (fastforce simp: last_user_def)
  qed
  then have s: "Suc i \<in> set (droppable messages)" using assms(2) by (simp add: droppable_def)
  obtain g where g: "g \<in> set (take k (droppable_groups messages (pinned_indices messages)))" "i \<in> set g"
    using assms(1) by (auto simp: dead_after_def)
  have "sorted_wrt (<) (droppable messages)" by (simp add: droppable_def sorted_wrt_filter)
  from group_turns_pairs [OF this i s assms(3,4) _ g(2)] g(1) have "Suc i \<in> set g"
    by (auto simp: droppable_groups_def droppable_def dest: in_set_takeD)
  then show ?thesis using g(1) by (auto simp: dead_after_def)
qed

lemma drop_oldest_prefix:
  assumes "drop_oldest_turns messages costs bh project estimator budget = (survivors, costs1, n)"
  obtains k where "n = length (dead_after messages k)"
    "fst (apply_marker messages (alive_without (length messages) (dead_after messages k)) costs bh project estimator n) = survivors"
    "sum_list costs1 > budget \<Longrightarrow> length (droppable_groups messages (pinned_indices messages)) \<le> k"
proof -
  have "drop_groups messages costs bh project estimator budget (droppable_groups messages (pinned_indices messages))
      (alive_without (length messages) []) (length ([] :: nat list)) = (survivors, costs1, n)"
    using assms by (simp add: drop_oldest_turns_def alive_all)
  then show ?thesis by (rule drop_groups_prefix) (use that in \<open>auto simp: dead_after_def\<close>)
qed

lemma fit_messages:
  assumes "fit messages attachments budget spec project strategy estimator = Inr (Inr r)"
  obtains k costs where "fr_messages_dropped r = length (dead_after messages k)"
    "fr_messages r = fst (apply_marker messages (alive_without (length messages) (dead_after messages k)) costs (index_by_hash attachments)
       project estimator (fr_messages_dropped r))"
proof -
  let ?costs = "map (\<lambda>m. cost m (index_by_hash attachments) project estimator) messages"
  obtain survivors costs1 n where d: "drop_oldest_turns messages ?costs (index_by_hash attachments) project estimator budget = (survivors, costs1, n)"
    by (metis prod_cases3)
  consider "fr_messages r = messages" "fr_messages_dropped r = 0" | "fr_messages r = survivors" "fr_messages_dropped r = n"
    using assms d by (auto simp: fit_def Let_def split: if_splits)
  then show ?thesis
  proof cases
    case 1
    have "keep_alive (alive_without (length messages) []) messages = messages" by (simp add: keep_alive_without map_nth)
    with 1 show ?thesis by (intro that [of 0]) (simp_all add: dead_after_def apply_marker_none)
  next
    case 2
    then show ?thesis by (metis drop_oldest_prefix [OF d] that)
  qed
qed


lemma kept_length:
  assumes "distinct dead" "set dead \<subseteq> {..<n}"
  shows "length (filter (\<lambda>i. i \<notin> set dead) [0..<n]) + length dead = n"
proof -
  have "length (filter (\<lambda>i. i \<in> set dead) [0..<n]) = card (set dead)"
  proof -
    have "set (filter (\<lambda>i. i \<in> set dead) [0..<n]) = set dead" using assms(2) by auto
    then show ?thesis by (metis distinct_card distinct_filter distinct_upt)
  qed
  then show ?thesis using sum_length_filter_compl [of "\<lambda>i. i \<in> set dead" "[0..<n]"] assms(1) by (simp add: distinct_card)
qed

lemma keep_alive_dead:
  fixes f :: "'a \<Rightarrow> int"
  assumes "length alive = length xs"
  shows "sum_list (map f (keep_alive alive xs)) + sum_list (map f (keep_alive (map Not alive) xs)) = sum_list (map f xs)"
  using assms by (induction alive xs rule: list_induct2) (auto simp: keep_alive_def)

subsection \<open>When fitting gives up\<close>

definition cut_floor :: nat where
  "cut_floor = MIN_DOCUMENT_CHARS + length TRUNCATION_NOTICE"

definition given_up :: "cutting \<Rightarrow> bool" where
  "given_up c \<longleftrightarrow> (\<forall>i\<in>set (cu_exhausted c). i < length (cu_current c) \<and> length (attachment_text (cu_current c ! i)) \<le> cut_floor)"

lemma given_up_step:
  assumes "given_up c" "cut_more budget c"
  shows "given_up (cut_one messages project estimator budget c)"
proof -
  obtain i where i: "largest_truncatable (cu_current c) (cu_exhausted c) = Some i" using assms(2) by (auto simp: cut_more_def)
  obtain t where t: "i < length (cu_current c)" "i \<notin> set (cu_exhausted c)" "ra_text (cu_current c ! i) = Some t" "MIN_DOCUMENT_CHARS < length t"
    using largest_truncatable_Some [OF i] by metis
  have txt_eq: "attachment_text (cu_current c ! i) = t" by (simp add: attachment_text_def t)
  let ?excess = "(cu_total c - budget) * int CHARS_PER_TOKEN + int (length TRUNCATION_NOTICE)"
  let ?keep = "nat (max (int MIN_DOCUMENT_CHARS) (int (length t) - ?excess))"
  have excess: "?excess > int (length TRUNCATION_NOTICE)" using assms(2) by (simp add: cut_more_def CHARS_PER_TOKEN_def)
  have stuck: "length t \<le> cut_floor" if "length t \<le> length (take ?keep t @ TRUNCATION_NOTICE)"
  proof (rule ccontr)
    define keep where "keep = ?keep"
    assume long: "\<not> length t \<le> cut_floor"
    have k: "int keep = max (int MIN_DOCUMENT_CHARS) (int (length t) - ?excess)" by (simp add: keep_def MIN_DOCUMENT_CHARS_def)
    have "length t \<le> keep + length TRUNCATION_NOTICE" using that unfolding keep_def [symmetric] by simp
    then show False using long excess k by (simp add: cut_floor_def max_def split: if_splits)
  qed
  show ?thesis
    unfolding cut_one_def i option.sel txt_eq Let_def given_up_def
    using assms(1) t stuck by (auto simp: given_up_def txt_eq nth_list_update attachment_text_def cut_floor_def)
qed

lemma pinned_kept:
  "filter (\<lambda>i. i \<notin> set (droppable messages)) [0..<length messages] = filter (\<lambda>i. i \<in> set (pinned_indices messages)) [0..<length messages]"
  by (rule filter_cong) (auto simp: droppable_def)

lemma largest_from_None: "largest_from i best bl ex as = None \<Longrightarrow> best = None \<and>
    (\<forall>j<length as. i + j \<in> set ex \<or> ra_mode (as ! j) \<noteq> Injected \<or> length (attachment_text (as ! j)) \<le> bl)"
proof (induction as arbitrary: i best bl)
  case (Cons a as)
  show ?case
  proof (cases "i \<in> set ex \<or> ra_mode a \<noteq> Injected \<or> ra_text a = None \<or> length (the (ra_text a)) \<le> bl")
    case True
    then have "largest_from (Suc i) best bl ex as = None" using Cons.prems by (auto split: if_splits)
    from Cons.IH [OF this] True show ?thesis by (auto simp: attachment_text_def less_Suc_eq_0_disj split: option.splits)
  next
    case False
    then have "largest_from (Suc i) (Some i) (length (the (ra_text a))) ex as = None" using Cons.prems by auto
    from Cons.IH [OF this] show ?thesis by simp
  qed
qed simp

lemma fit_measured:
  assumes "fit messages attachments budget spec project strategy estimator = Inr (Inr r)"
  shows "fr_input_tokens r = total_cost (fr_messages r) (fr_attachments r) project estimator \<and> fr_input_tokens r \<le> budget"
proof -
  let ?costs = "map (\<lambda>m. cost m (index_by_hash attachments) project estimator) messages"
  obtain survivors costs1 n where d: "drop_oldest_turns messages ?costs (index_by_hash attachments) project estimator budget = (survivors, costs1, n)"
    by (metis prod_cases3)
  have c1: "sum_list costs1 = total_cost survivors attachments project estimator"
    using drop_groups_costs d by (fastforce simp: drop_oldest_turns_def total_cost_def)
  let ?c = "truncate_documents survivors attachments project estimator budget (sum_list costs1)"
  have "cu_total ?c = total_cost survivors (cu_current ?c) project estimator"
    by (rule truncate_documents_rule(1)) (auto simp: c1 cut_one_def Let_def)
  with assms d c1 show ?thesis by (auto simp: fit_def Let_def total_cost_def split: if_splits)
qed

subsection \<open>A small history\<close>

definition ex_msg :: "Role \<Rightarrow> int \<Rightarrow> ContentBlock list \<Rightarrow> CanonicalMessage" where
  "ex_msg role seq content = \<lparr>cm_id = ''m'', cm_conversation_id = ''c'', cm_role = role, cm_content = content,
     cm_meta = default_meta\<lparr>mm_provider_used := (if role = Assistant then Some ''p'' else None)\<rparr>, cm_created_at = 0, cm_seq = seq,
     cm_schema_version = SCHEMA_VERSION\<rparr>"

definition ex_history :: "CanonicalMessage list" where
  "ex_history = [ex_msg User 0 [TextBlock ''first question''], ex_msg Assistant 1 [TextBlock ''first answer''], ex_msg User 2 [TextBlock ''second question'']]"

definition ex_model :: ModelSpec where
  "ex_model = \<lparr>ms_slot = ''general'', ms_provider = ''p'', ms_model = ''m'', ms_context_window = 100, ms_max_output_tokens = 5,
     ms_supports_streaming = True, ms_supports_vision = False, ms_supports_pdf = False, ms_supports_system_field = False,
     ms_max_file_bytes = None, ms_priority = 0, ms_reserved_fraction = 0\<rparr>"

definition ex_fit :: "(ProviderError + FitResult) exn" where
  "ex_fit = fit ex_history [] 10 ex_model (\<lambda>m _. cm_text m) Truncate estimate_text_tokens"

lemma ex_fit_returns:
  obtains r where "fit ex_history [] 10 ex_model (\<lambda>m _. cm_text m) Truncate estimate_text_tokens = Inr (Inr r)" "fr_messages_dropped r = 2"
proof -
  have "case ex_fit of Inr (Inr r) \<Rightarrow> fr_messages_dropped r = 2 | _ \<Rightarrow> False" by code_simp
  then show ?thesis using that by (auto simp: ex_fit_def split: sum.splits)
qed

subsection \<open>Documents that are no longer there\<close>

text \<open>Two documents, the larger one attached to a turn that is dropped. The cuts go to that one first, and each of them
  counts, although it cannot change the size of what is sent.\<close>

definition ex_doc :: "string \<Rightarrow> nat \<Rightarrow> ResolvedAttachment" where
  "ex_doc h n = \<lparr>ra_file_hash = h, ra_filename = h, ra_mime = ''text/plain'', ra_size_bytes = int n, ra_mode = Injected, ra_data = None,
     ra_text = Some (replicate n (CHR ''x'')), ra_confidence = None, ra_tier = None, ra_token_cost = 0, ra_pages = None\<rparr>"

definition ex_show :: projector where
  "ex_show m bh = concat (map (\<lambda>b. case ref_hash b of None \<Rightarrow> [] | Some h \<Rightarrow> (case bh h of None \<Rightarrow> [] | Some a \<Rightarrow> attachment_text a)) (cm_content m))"

definition ex_stale_fit :: "(ProviderError + FitResult) exn" where
  "ex_stale_fit = fit [ex_msg User 0 [FileRefBlock ''a'' ''a'' ''text/plain'' 300], ex_msg Assistant 1 [TextBlock ''ok''],
       ex_msg User 2 [FileRefBlock ''b'' ''b'' ''text/plain'' 275]]
     [ex_doc ''a'' 300, ex_doc ''b'' 275] 67 ex_model ex_show Truncate estimate_text_tokens"

lemma stale_documents_are_cut:
  "case ex_stale_fit of
     Inr (Inr r) \<Rightarrow> map (List.map_filter ref_hash \<circ> cm_content) (fr_messages r) = [[''b'']] \<and> fr_documents_truncated r = 3 \<and>
       attachment_text (fr_attachments r ! 0) \<noteq> attachment_text (ex_doc ''a'' 300)
   | _ \<Rightarrow> False"
  by code_simp

section \<open>Properties\<close>

text \<open>A history that is fitted fits: the tokens reported are the measured size of exactly the messages and
  attachments returned, and they are within the budget.\<close>

theorem fit_within_budget:
  assumes "fit messages attachments budget spec project strategy estimator = Inr (Inr r)"
  shows "fr_input_tokens r = total_cost (fr_messages r) (fr_attachments r) project estimator \<and> fr_input_tokens r \<le> budget"
  by (rule fit_measured [OF assms])

theorem fit_within_budget_witness:
  "case fit ex_history [] 10 ex_model (\<lambda>m _. cm_text m) Truncate estimate_text_tokens of
     Inr (Inr r) \<Rightarrow> fr_input_tokens r = total_cost (fr_messages r) (fr_attachments r) (\<lambda>m _. cm_text m) estimate_text_tokens \<and> fr_input_tokens r \<le> 10
   | _ \<Rightarrow> False"
proof -
  obtain r where r: "fit ex_history [] 10 ex_model (\<lambda>m _. cm_text m) Truncate estimate_text_tokens = Inr (Inr r)" by (rule ex_fit_returns)
  show ?thesis using fit_within_budget [OF r] r by simp
qed

text \<open>C7: fitting drops whole messages only, in their order, and never the system message nor the last question; an answer
  is never kept without the question right before it; apart from markers no kept message changes; and the number
  reported is the number dropped.\<close>

theorem fit_keeps_question:
  assumes "fit messages attachments budget spec project strategy estimator = Inr (Inr r)"
  shows "\<exists>kept. sorted_wrt (<) kept \<and> set kept \<subseteq> {..<length messages} \<and>
    map strip (fr_messages r) = map (\<lambda>i. strip (messages ! i)) kept \<and> fr_messages_dropped r + length kept = length messages \<and>
    (messages \<noteq> [] \<and> cm_role (messages ! 0) = System \<longrightarrow> 0 \<in> set kept) \<and>
    (\<forall>i<length messages. cm_role (messages ! i) = User \<and> (\<forall>j. i < j \<and> j < length messages \<longrightarrow> cm_role (messages ! j) \<noteq> User) \<longrightarrow> i \<in> set kept) \<and>
    (\<forall>i. Suc i \<in> set kept \<and> cm_role (messages ! i) = User \<and> cm_role (messages ! Suc i) = Assistant \<longrightarrow> i \<in> set kept)"
proof -
  obtain k costs where n: "fr_messages_dropped r = length (dead_after messages k)"
    and ms: "fr_messages r = fst (apply_marker messages (alive_without (length messages) (dead_after messages k)) costs (index_by_hash attachments)
       project estimator (fr_messages_dropped r))"
    by (rule fit_messages [OF assms])
  define kept where "kept = filter (\<lambda>i. i \<notin> set (dead_after messages k)) [0..<length messages]"
  have pinned: "i \<in> set kept" if "i \<in> set (pinned_indices messages)" "i < length messages" for i
    using that dead_after_facts(3) [of messages k] by (auto simp: kept_def)
  have "sorted_wrt (<) kept" "set kept \<subseteq> {..<length messages}" by (auto simp: kept_def sorted_wrt_filter)
  moreover have "map strip (fr_messages r) = map (\<lambda>i. strip (messages ! i)) kept"
    by (simp add: ms apply_marker_strip keep_alive_without kept_def)
  moreover have "fr_messages_dropped r + length kept = length messages"
    using kept_length [OF dead_after_facts(1,2) [of messages k]] by (simp add: n kept_def)
  moreover have "messages \<noteq> [] \<and> cm_role (messages ! 0) = System \<longrightarrow> 0 \<in> set kept"
    using pinned [of 0] by (auto simp: pinned_indices_def)
  moreover have "\<forall>i<length messages. cm_role (messages ! i) = User \<and> (\<forall>j. i < j \<and> j < length messages \<longrightarrow> cm_role (messages ! j) \<noteq> User) \<longrightarrow> i \<in> set kept"
    using pinned last_user_eq by (auto simp: pinned_indices_def)
  moreover have "\<forall>i. Suc i \<in> set kept \<and> cm_role (messages ! i) = User \<and> cm_role (messages ! Suc i) = Assistant \<longrightarrow> i \<in> set kept"
    using dead_after_pairs [of _ messages k] by (auto simp: kept_def)
  ultimately show ?thesis by blast
qed

theorem fit_keeps_question_witness:
  "case fit ex_history [] 10 ex_model (\<lambda>m _. cm_text m) Truncate estimate_text_tokens of
     Inr (Inr r) \<Rightarrow> map strip (fr_messages r) = [strip (ex_history ! 2)]
   | _ \<Rightarrow> False"
proof -
  obtain r where r: "fit ex_history [] 10 ex_model (\<lambda>m _. cm_text m) Truncate estimate_text_tokens = Inr (Inr r)" and n: "fr_messages_dropped r = 2"
    by (rule ex_fit_returns)
  have len: "length ex_history = 3" by (simp add: ex_history_def)
  have two: "cm_role (ex_history ! 2) = User" by (simp add: ex_history_def ex_msg_def)
  from fit_keeps_question [OF r] obtain kept where kept: "map strip (fr_messages r) = map (\<lambda>i. strip (ex_history ! i)) kept" "2 + length kept = 3"
    "\<forall>i<3. cm_role (ex_history ! i) = User \<and> (\<forall>j. i < j \<and> j < 3 \<longrightarrow> cm_role (ex_history ! j) \<noteq> User) \<longrightarrow> i \<in> set kept"
    unfolding n len by blast
  have "2 \<in> set kept" by (rule kept(3) [rule_format]) (use two in auto)
  then have "kept = [2]" using kept(2) by (cases kept) auto
  with kept(1) r show ?thesis by simp
qed

text \<open>No gap goes unreported: the omissions the fitted history declares are those declared before, wherever they
  stood, plus the messages dropped now.\<close>

theorem omissions_accounted:
  assumes "fit messages attachments budget spec project strategy estimator = Inr (Inr r)"
  shows "sum_list (map omitted_in (fr_messages r)) = sum_list (map omitted_in messages) + int (fr_messages_dropped r)"
proof -
  obtain k costs where n: "fr_messages_dropped r = length (dead_after messages k)"
    and ms: "fr_messages r = fst (apply_marker messages (alive_without (length messages) (dead_after messages k)) costs (index_by_hash attachments)
       project estimator (fr_messages_dropped r))"
    by (rule fit_messages [OF assms])
  let ?alive = "alive_without (length messages) (dead_after messages k)"
  show ?thesis
  proof (cases "fr_messages_dropped r = 0")
    case True
    then have "fr_messages r = messages" using n ms by (simp add: apply_marker_none keep_alive_without map_nth)
    with True show ?thesis by simp
  next
    case False
    then have "messages \<noteq> []" using n by (auto simp: dead_after_def droppable_groups_def)
    then obtain i where "i \<in> set (pinned_indices messages)" "i < length messages"
      using find_Some_in by (fastforce simp: pinned_indices_def last_user_def split: option.splits)
    then have "keep_alive ?alive messages \<noteq> []"
      using dead_after_facts(3) [of messages k] by (auto simp: keep_alive_without filter_empty_conv)
    from apply_marker_omitted [OF this False] keep_alive_dead [of ?alive messages omitted_in]
    show ?thesis by (simp add: ms alive_without_def)
  qed
qed

theorem omissions_accounted_witness:
  "case fit ex_history [] 10 ex_model (\<lambda>m _. cm_text m) Truncate estimate_text_tokens of
     Inr (Inr r) \<Rightarrow> sum_list (map omitted_in (fr_messages r)) = 2
   | _ \<Rightarrow> False"
proof -
  obtain r where r: "fit ex_history [] 10 ex_model (\<lambda>m _. cm_text m) Truncate estimate_text_tokens = Inr (Inr r)" and n: "fr_messages_dropped r = 2"
    by (rule ex_fit_returns)
  have "sum_list (map omitted_in ex_history) = 0" by code_simp
  then show ?thesis using omissions_accounted [OF r] r n by simp
qed




text \<open>C18: the loop that cuts documents always ends, whatever the projection and the estimator say about the new size: each
  round gives a document up or makes one shorter, and it stops within the budget or with no document left to cut.\<close>

theorem cutting_terminates:
  "\<exists>c. while_option (cut_more budget) (cut_one messages project estimator budget) c0 = Some c \<and>
     (cu_total c \<le> budget \<or> largest_truncatable (cu_current c) (cu_exhausted c) = None)"
proof -
  obtain c where c: "while_option (cut_more budget) (cut_one messages project estimator budget) c0 = Some c" using cutting_ends by blast
  from while_option_stop [OF c] show ?thesis using c by (auto simp: cut_more_def)
qed

end
