(* ===== verification/Gw_Text.thy ===== *)
theory Gw_Text
  imports Gw_Keys
begin

text \<open>
  The text functions of Python that several components use, on code points below 256: stripping, case, searching,
  decimal numbers in both directions, and the three regular expressions of the provider adapters.
\<close>

subsection \<open>Stripping, case, substrings\<close>

definition py_strip :: "string \<Rightarrow> string" where
  "py_strip s = rev (dropWhile isspace (rev (dropWhile isspace s)))"

definition py_lstrip :: "string \<Rightarrow> string" where
  "py_lstrip s = dropWhile isspace s"

definition char_lower :: "char \<Rightarrow> char" where
  "char_lower c = (let n = (of_char c :: nat) in
     if (65 \<le> n \<and> n \<le> 90) \<or> (192 \<le> n \<and> n \<le> 222 \<and> n \<noteq> 215) then char_of (n + 32) else c)"

definition py_lower :: "string \<Rightarrow> string" where
  "py_lower = map char_lower"

definition py_startswith :: "string \<Rightarrow> string \<Rightarrow> bool" where
  "py_startswith s pre \<longleftrightarrow> take (length pre) s = pre"

definition py_endswith :: "string \<Rightarrow> string \<Rightarrow> bool" where
  "py_endswith s suf \<longleftrightarrow> length suf \<le> length s \<and> drop (length s - length suf) s = suf"

text \<open>\<^verbatim>\<open>s.removeprefix(pre)\<close>, \<^verbatim>\<open>s[-n:]\<close> and \<^verbatim>\<open>sub in s\<close>.\<close>

definition py_removeprefix :: "string \<Rightarrow> string \<Rightarrow> string" where
  "py_removeprefix s pre = (if py_startswith s pre then drop (length pre) s else s)"

definition py_last :: "nat \<Rightarrow> string \<Rightarrow> string" where
  "py_last n s = drop (length s - n) s"

fun py_contains :: "string \<Rightarrow> string \<Rightarrow> bool" where
  "py_contains sub [] \<longleftrightarrow> sub = []"
| "py_contains sub (c # cs) \<longleftrightarrow> py_startswith (c # cs) sub \<or> py_contains sub cs"

text \<open>\<^verbatim>\<open>sep.join(parts)\<close>.\<close>

fun join :: "string \<Rightarrow> string list \<Rightarrow> string" where
  "join sep [] = []"
| "join sep [p] = p"
| "join sep (p # q # ps) = p @ sep @ join sep (q # ps)"

definition blank :: "string \<Rightarrow> bool" where
  "blank s \<longleftrightarrow> py_strip s = []"

lemma py_contains_iff: "py_contains sub s \<longleftrightarrow> (\<exists>a b. s = a @ sub @ b)"
proof (induction s)
  case Nil
  then show ?case by auto
next
  case (Cons c cs)
  have pre: "py_startswith (c # cs) sub \<longleftrightarrow> (\<exists>b. c # cs = sub @ b)"
    unfolding py_startswith_def by (metis append_eq_conv_conj append_take_drop_id)
  show ?case
  proof
    assume "py_contains sub (c # cs)"
    then show "\<exists>a b. c # cs = a @ sub @ b" using Cons.IH pre by (metis append_Cons append_Nil py_contains.simps(2))
  next
    assume "\<exists>a b. c # cs = a @ sub @ b"
    then obtain a b where ab: "c # cs = a @ sub @ b" by blast
    show "py_contains sub (c # cs)"
    proof (cases a)
      case Nil
      then have "py_startswith (c # cs) sub" using ab pre by (metis append_Nil)
      then show ?thesis by simp
    next
      case (Cons x xs)
      then show ?thesis using ab Cons.IH by auto
    qed
  qed
qed

subsection \<open>Decimal numbers\<close>

definition int_text :: "int \<Rightarrow> string" where
  "int_text n = (if n < 0 then CHR ''-'' # dec (nat (- n)) else dec (nat n))"

definition is_digit :: "char \<Rightarrow> bool" where
  "is_digit c = (let n = (of_char c :: nat) in 48 \<le> n \<and> n \<le> 57)"

definition digits_value :: "string \<Rightarrow> nat" where
  "digits_value s = foldl (\<lambda>a c. 10 * a + (of_char c - 48)) 0 s"

text \<open>A run of digits as Python's number literals have it: underscores only between two digits. \<open>None\<close> for anything else.\<close>

fun number_run :: "string \<Rightarrow> string option" where
  "number_run [] = None"
| "number_run [c] = (if is_digit c then Some [c] else None)"
| "number_run (c # d # cs) =
    (if \<not> is_digit c then None
     else if d = CHR ''_'' then map_option (Cons c) (number_run cs)
     else map_option (Cons c) (number_run (d # cs)))"

definition signed :: "string \<Rightarrow> bool \<times> string" where
  "signed s = (case s of c # cs \<Rightarrow> if c = CHR ''-'' then (True, cs) else if c = CHR ''+'' then (False, cs) else (False, s) | [] \<Rightarrow> (False, []))"

text \<open>\<^verbatim>\<open>int(text)\<close>; \<open>None\<close> is its \<^verbatim>\<open>ValueError\<close>.\<close>

definition int_of_text :: "string \<Rightarrow> int option" where
  "int_of_text s = (case signed (py_strip s) of (neg, u) \<Rightarrow>
     map_option (\<lambda>ds. if neg then - int (digits_value ds) else int (digits_value ds)) (number_run u))"

text \<open>
  \<^verbatim>\<open>float(text)\<close> for the texts of finite numbers: digits with an optional point and an optional exponent. The words for
  infinities and for \<^verbatim>\<open>nan\<close>, which Python also reads, have no rational value and count as unreadable.
\<close>

definition run_or_empty :: "string \<Rightarrow> string option" where
  "run_or_empty s = (if s = [] then Some [] else number_run s)"

definition mantissa :: "string \<Rightarrow> pyfloat option" where
  "mantissa s = (let ip = takeWhile (\<lambda>c. c \<noteq> CHR ''.'') s; rest = drop (length ip) s; fp = tl rest
     in if ip = [] \<and> fp = [] then None
        else case (run_or_empty ip, run_or_empty fp) of
            (Some i, Some f) \<Rightarrow> Some (of_nat (digits_value i) + of_nat (digits_value f) / 10 ^ length f)
          | _ \<Rightarrow> None)"

definition float_of_text :: "string \<Rightarrow> pyfloat option" where
  "float_of_text s = (case signed (py_strip s) of (neg, u) \<Rightarrow>
     let m = takeWhile (\<lambda>c. c \<noteq> CHR ''e'' \<and> c \<noteq> CHR ''E'') u; rest = drop (length m) u
     in case mantissa m of
          None \<Rightarrow> None
        | Some x \<Rightarrow>
            (case rest of
               [] \<Rightarrow> Some (if neg then - x else x)
             | _ # ex \<Rightarrow> (case signed ex of (eneg, ds) \<Rightarrow>
                 map_option (\<lambda>d. (if neg then - x else x) * (if eneg then 1 / 10 ^ digits_value d else 10 ^ digits_value d)) (number_run ds))))"

text \<open>A decimal number is read back.\<close>

lemma digits_value_append: "digits_value (s @ t) = digits_value s * 10 ^ length t + digits_value t"
proof (induction t rule: rev_induct)
  case (snoc c t)
  have "digits_value (x @ [c]) = 10 * digits_value x + (of_char c - 48)" for x by (simp add: digits_value_def)
  then have "digits_value (s @ t @ [c]) = 10 * digits_value (s @ t) + (of_char c - 48)" "digits_value (t @ [c]) = 10 * digits_value t + (of_char c - 48)"
    by (metis append.assoc)+
  then show ?case using snoc by (simp add: algebra_simps)
qed (simp add: digits_value_def)

lemma dec_digits: "list_all is_digit (dec n)" and dec_value: "digits_value (dec n) = n"
proof (induction n rule: less_induct)
  case (less n)
  have dig: "is_digit (char_of (48 + k))" "digits_value [char_of (48 + k)] = k" if "k < 10" for k :: nat
    using that by (simp_all add: is_digit_def digits_value_def Let_def)
  {
    case 1
    show ?case using less.IH [of "n div 10"] dig [of n] dig [of "n mod 10"] by (simp add: dec.simps [of n])
  next
    case 2
    show ?case using less.IH [of "n div 10"] dig [of n] dig [of "n mod 10"] by (simp add: dec.simps [of n] digits_value_append)
  }
qed

lemma number_run_digits: "list_all is_digit s \<Longrightarrow> s \<noteq> [] \<Longrightarrow> number_run s = Some s"
proof (induction s rule: number_run.induct)
  case (3 c d cs)
  then have "d \<noteq> CHR ''_''" by (auto simp: is_digit_def)
  then show ?case using 3 by simp
qed auto

subsection \<open>Durations and limits in running text\<close>

datatype duration_unit = Ms | Sec | Minute | Hour

fun unit_scale :: "duration_unit \<Rightarrow> pyfloat" where
  "unit_scale Ms = 1 / 1000"
| "unit_scale Sec = 1"
| "unit_scale Minute = 60"
| "unit_scale Hour = 3600"

text \<open>The alternatives \<^verbatim>\<open>ms|s|m|h\<close>, in this order, and what follows.\<close>

definition read_unit :: "string \<Rightarrow> (duration_unit \<times> string) option" where
  "read_unit s = (if py_startswith s ''ms'' then Some (Ms, drop 2 s)
     else if py_startswith s ''s'' then Some (Sec, drop 1 s)
     else if py_startswith s ''m'' then Some (Minute, drop 1 s)
     else if py_startswith s ''h'' then Some (Hour, drop 1 s) else None)"

text \<open>
  \<^verbatim>\<open>\d+(?:\.\d+)?\<close> at the start of a text: every digit, then a point with every digit after it if there is one. Giving a
  digit back never lets a unit follow, so the greedy reading is the only one that can match.
\<close>

definition read_decimal :: "string \<Rightarrow> (pyfloat \<times> string) option" where
  "read_decimal s = (let ip = takeWhile is_digit s; rest = drop (length ip) s; fp = takeWhile is_digit (tl rest)
     in if ip = [] then None
        else if py_startswith rest ''.'' \<and> fp \<noteq> []
             then Some (of_nat (digits_value ip) + of_nat (digits_value fp) / 10 ^ length fp, drop (length fp) (tl rest))
             else Some (of_nat (digits_value ip), rest))"

definition read_duration :: "string \<Rightarrow> (pyfloat \<times> string) option" where
  "read_duration s = (case read_decimal s of None \<Rightarrow> None
     | Some (x, rest) \<Rightarrow> (case read_unit rest of None \<Rightarrow> None | Some (u, rest') \<Rightarrow> Some (x * unit_scale u, rest')))"

lemma read_duration_shorter: "read_duration s = Some (x, rest) \<Longrightarrow> length rest < length s"
proof -
  assume a: "read_duration s = Some (x, rest)"
  then obtain y r where y: "read_decimal s = Some (y, r)" by (auto simp: read_duration_def split: option.splits)
  have "length (dropWhile is_digit s) < length s" if "takeWhile is_digit s \<noteq> []"
    using that by (metis length_append length_greater_0_conv less_add_same_cancel2 takeWhile_dropWhile_id)
  moreover have "length r \<le> length (drop (length (takeWhile is_digit s)) s)" "takeWhile is_digit s \<noteq> []"
    using y by (auto simp: read_decimal_def Let_def split: if_splits)
  ultimately have "length r < length s" by (simp add: dropWhile_eq_drop [symmetric])
  moreover have "length rest \<le> length r" using a y by (auto simp: read_duration_def read_unit_def split: option.splits if_splits)
  ultimately show ?thesis by simp
qed

text \<open>\<^verbatim>\<open>findall\<close>: matches from left to right, none overlapping.\<close>

function find_durations :: "string \<Rightarrow> pyfloat list" where
  "find_durations s = (case s of [] \<Rightarrow> []
     | c # cs \<Rightarrow> (case read_duration s of None \<Rightarrow> find_durations cs | Some (x, rest) \<Rightarrow> x # find_durations rest))"
  by auto
termination by (relation "measure length") (auto dest: read_duration_shorter)

declare find_durations.simps [simp del]

text \<open>A number of at most \<open>k\<close> characters that are no digits, or at least one space, after a phrase; then digits with
  commas and underscores.\<close>

definition read_count :: "string \<Rightarrow> int option" where
  "read_count s = (case s of
      c # _ \<Rightarrow> if is_digit c then Some (int (digits_value (filter is_digit (takeWhile (\<lambda>c. is_digit c \<or> c = CHR ''_'' \<or> c = CHR '','') s)))) else None
    | [] \<Rightarrow> None)"

definition count_after :: "string \<Rightarrow> string \<Rightarrow> string option \<Rightarrow> int option" where
  "count_after s phrase gap = (if py_lower (take (length phrase) s) = phrase \<and> gap \<noteq> None then read_count (the gap) else None)"

definition spaces_gap :: "string \<Rightarrow> string \<Rightarrow> string option" where
  "spaces_gap s phrase = (let rest = drop (length phrase) s in if rest \<noteq> [] \<and> isspace (hd rest) then Some (dropWhile isspace rest) else None)"

definition nondigit_gap :: "nat \<Rightarrow> string \<Rightarrow> string \<Rightarrow> string option" where
  "nondigit_gap k s phrase = (let rest = drop (length phrase) s; gap = takeWhile (\<lambda>c. \<not> is_digit c) rest
     in if length gap \<le> k then Some (drop (length gap) rest) else None)"

fun first_count :: "(string \<Rightarrow> int option) list \<Rightarrow> string \<Rightarrow> int option" where
  "first_count [] s = None"
| "first_count (f # fs) s = (case f s of Some n \<Rightarrow> Some n | None \<Rightarrow> first_count fs s)"

text \<open>\<^verbatim>\<open>search\<close>: the leftmost position where one of the alternatives matches, the first alternative first.\<close>

fun search_count :: "(string \<Rightarrow> int option) list \<Rightarrow> string \<Rightarrow> int option" where
  "search_count alts [] = first_count alts []"
| "search_count alts (c # cs) = (case first_count alts (c # cs) of Some n \<Rightarrow> Some n | None \<Rightarrow> search_count alts cs)"

definition limit_tokens_in :: "string list \<Rightarrow> string \<Rightarrow> int option" where
  "limit_tokens_in phrases s = search_count (map (\<lambda>ph s. count_after s ph (spaces_gap s ph)) phrases) s"

end
