(* ===== verification/Gw_Render.thy ===== *)
theory Gw_Render
  imports Gw_Router Gw_Fitting Gw_Text
begin

text \<open>
  The render pipeline (\<^verbatim>\<open>app/memory/render.py\<close>): resolve attachments, budget, fit, adapt, report. The
  resolver (the perception lane) and the adapter's two functions are parameters. \<open>render\<close> has the type
  of the router's \<open>en_render\<close>: an exception, a provider error, or a payload with its report.
\<close>

subsection \<open>Helpers\<close>

fun tier_rank :: "extraction_tier \<Rightarrow> nat" where
  "tier_rank TierNative = 0"
| "tier_rank TierLlm = 1"
| "tier_rank TierCache = 2"
| "tier_rank TierLocal = 3"

text \<open>\<^verbatim>\<open>max\<close> with a key returns the first maximal element.\<close>

definition worst_tier :: "ResolvedAttachment list \<Rightarrow> extraction_tier option" where
  "worst_tier attachments = (case List.map_filter ra_tier attachments of
      [] \<Rightarrow> None
    | t # ts \<Rightarrow> Some (fold (\<lambda>x best. if tier_rank x > tier_rank best then x else best) ts t))"

definition rr_truncated :: "RenderReport \<Rightarrow> bool" where
  "rr_truncated r \<longleftrightarrow> rr_messages_dropped r > 0 \<or> rr_documents_truncated r > 0"

type_synonym resolver = "ContentBlock list \<Rightarrow> ModelSpec \<Rightarrow> ResolvedAttachment list exn"

definition no_attachments :: resolver where
  "no_attachments refs spec = (if refs \<noteq> [] then Inl NotImplementedError else Inr [])"

fun confidence_name :: "confidence \<Rightarrow> string" where
  "confidence_name High = ''high''"
| "confidence_name Medium = ''medium''"
| "confidence_name Low = ''low''"

definition quoted :: "string \<Rightarrow> string" where
  "quoted s = [CHR 0x22] @ s @ [CHR 0x22]"

definition document_envelope :: "ResolvedAttachment \<Rightarrow> string" where
  "document_envelope a =
    ''<document name='' @ quoted (ra_filename a) @ '' source='' @ quoted ''extracted'' @
    (case ra_confidence a of None \<Rightarrow> [] | Some c \<Rightarrow> '' confidence='' @ quoted (confidence_name c)) @ ''>'' @ [CHR 0x0A] @
    attachment_text a @ [CHR 0x0A] @ ''</document>''"

definition block_part :: "by_hash \<Rightarrow> ContentBlock \<Rightarrow> string option" where
  "block_part bh b = (case b of
      TextBlock s \<Rightarrow> Some s
    | OmissionMarkerBlock n \<Rightarrow> Some (''['' @ int_text n @ '' earlier messages omitted]'')
    | FileRefBlock h _ _ _ \<Rightarrow> (case bh h of None \<Rightarrow> None
        | Some a \<Rightarrow> Some (if ra_mode a = Injected then document_envelope a
                           else ''['' @ ra_mime a @ '' attachment: '' @ ra_filename a @ '']''))
    | OtherBlock _ \<Rightarrow> None)"

definition materialize :: projector where
  "materialize message bh = join [CHR 0x0A, CHR 0x0A] (List.map_filter (block_part bh) (cm_content message))"

subsection \<open>The pipeline\<close>

record 'p adapter =
  ad_build_payload :: "CanonicalMessage list \<Rightarrow> ModelSpec \<Rightarrow> GenParams \<Rightarrow> ResolvedAttachment list \<Rightarrow> 'p exn"
  ad_estimate_tokens :: "'p \<Rightarrow> int"

definition report_of :: "FitResult \<Rightarrow> ResolvedAttachment list \<Rightarrow> int \<Rightarrow> RenderReport" where
  "report_of result attachments payload_tokens =
    (let native = length (filter (\<lambda>a. ra_mode a = Native) attachments)
     in \<lparr>rr_messages_dropped = fr_messages_dropped result, rr_documents_truncated = fr_documents_truncated result,
         rr_estimated_tokens = payload_tokens + native_tokens (fr_attachments result), rr_attachments_native = native,
         rr_attachments_injected = length attachments - native,
         rr_degraded = list_ex (\<lambda>a. ra_confidence a = Some Low) attachments, rr_extraction_tier = worst_tier attachments\<rparr>)"

definition render :: "CanonicalMessage list \<Rightarrow> ModelSpec \<Rightarrow> GenParams \<Rightarrow> 'p adapter \<Rightarrow> resolver \<Rightarrow> FitStrategy
    \<Rightarrow> (ProviderError + 'p \<times> RenderReport) exn" where
  "render history spec params adapter resolve strategy =
    ebind (validate history) (\<lambda>_.
    ebind (resolve (concat (map file_refs history)) spec) (\<lambda>attachments.
      let budget = input_budget spec params
      in if budget \<le> 0
         then Inr (Inl \<lparr>pe_class = ContextTooLong (Some (ms_context_window spec)), pe_provider = ms_provider spec, pe_model = ms_model spec,
                        pe_status_code = None\<rparr>)
         else ebind (fit history attachments budget spec materialize strategy estimate_text_tokens) (\<lambda>f. case f of
                Inl e \<Rightarrow> Inr (Inl e)
              | Inr result \<Rightarrow>
                  ebind (ad_build_payload adapter (fr_messages result) spec params (fr_attachments result)) (\<lambda>payload.
                    Inr (Inr (payload, report_of result attachments (ad_estimate_tokens adapter payload)))))))"

subsection \<open>Properties\<close>

text \<open>The tier reported is the worst one present.\<close>

lemma worst_fold:
  "\<forall>x\<in>set (b # xs). tier_rank x \<le> tier_rank (fold (\<lambda>x best. if tier_rank x > tier_rank best then x else best) xs b)"
proof (induction xs arbitrary: b)
  case (Cons y ys)
  from Cons.IH [of y] Cons.IH [of b] show ?case by (auto intro: order_trans less_imp_le)
qed simp

lemma worst_tier_max:
  assumes "worst_tier attachments = Some t" "a \<in> set attachments" "ra_tier a = Some u"
  shows "tier_rank u \<le> tier_rank t"
proof -
  have "u \<in> set (List.map_filter ra_tier attachments)" using assms(2,3) by (force simp: map_filter_def)
  then show ?thesis using assms(1) worst_fold by (fastforce simp: worst_tier_def split: list.splits)
qed

definition ex_adapter :: "nat adapter" where
  "ex_adapter = \<lparr>ad_build_payload = (\<lambda>ms _ _ _. Inr (length ms)), ad_estimate_tokens = int\<rparr>"

definition ex_params :: GenParams where
  "ex_params = \<lparr>gp_temperature = 0, gp_max_tokens = None, gp_top_p = None, gp_stop = [], gp_stream = False\<rparr>"

lemma render_result:
  assumes "render history spec params adapter resolve strategy = Inr (Inr (payload, report))"
  shows "history_ok history \<and> (\<exists>ms as.
    ad_build_payload adapter ms spec params as = Inr payload \<and>
    total_cost ms as materialize estimate_text_tokens \<le> input_budget spec params \<and> 0 < input_budget spec params \<and>
    rr_messages_dropped report + length ms = length history \<and>
    rr_estimated_tokens report = ad_estimate_tokens adapter payload + native_tokens as)"
proof -
  from assms obtain attachments f where v: "validate history = Inr ()"
    and f0: "fit history attachments (input_budget spec params) spec materialize strategy estimate_text_tokens = Inr f"
    and pos: "0 < input_budget spec params" and rest: "(case f of Inl e \<Rightarrow> Inr (Inl e)
        | Inr result \<Rightarrow> ebind (ad_build_payload adapter (fr_messages result) spec params (fr_attachments result)) (\<lambda>payload.
            Inr (Inr (payload, report_of result attachments (ad_estimate_tokens adapter payload))))) = Inr (Inr (payload, report))"
    by (auto simp: render_def ebind_Inr_iff Let_def split: if_splits)
  obtain result where "f = Inr result" using rest by (cases f) auto
  with f0 rest have f: "fit history attachments (input_budget spec params) spec materialize strategy estimate_text_tokens = Inr (Inr result)"
    and b: "ad_build_payload adapter (fr_messages result) spec params (fr_attachments result) = Inr payload"
    and r: "report = report_of result attachments (ad_estimate_tokens adapter payload)"
    by (auto simp: ebind_Inr_iff)
  obtain k costs where n: "fr_messages_dropped result = length (dead_after history k)"
    and ms: "fr_messages result = fst (apply_marker history (alive_without (length history) (dead_after history k)) costs (index_by_hash attachments)
       materialize estimate_text_tokens (fr_messages_dropped result))"
    by (rule fit_messages [OF f])
  have "length (fr_messages result) = length (filter (\<lambda>i. i \<notin> set (dead_after history k)) [0..<length history])"
    using arg_cong [OF apply_marker_strip, of length] by (simp add: ms keep_alive_without)
  then have "rr_messages_dropped report + length (fr_messages result) = length history"
    using kept_length [OF dead_after_facts(1,2) [of history k]] by (simp add: r report_of_def Let_def n)
  with v b r pos fit_measured [OF f] show ?thesis
    by (intro conjI exI [of _ "fr_messages result"] exI [of _ "fr_attachments result"])
      (simp_all add: validate_iff_from history_ok_iff_from report_of_def Let_def)
qed

text \<open>What is sent to a provider fits: a payload is built only from a history that obeys the schema, from messages that
  measure at most the model's window less the output reserved and the margin; the report counts what was dropped and
  adds the native attachments, which the adapter cannot see, to the adapter's own estimate.\<close>

theorem render_sends_what_fits:
  assumes "render history spec params adapter resolve strategy = Inr (Inr (payload, report))"
  shows "history_ok history \<and> (\<exists>ms as.
    ad_build_payload adapter ms spec params as = Inr payload \<and>
    total_cost ms as materialize estimate_text_tokens \<le> input_budget spec params \<and>
    rr_messages_dropped report + length ms = length history \<and>
    rr_estimated_tokens report = ad_estimate_tokens adapter payload + native_tokens as)"
  using render_result [OF assms] by blast

theorem render_sends_what_fits_witness:
  "case render ex_history ex_model ex_params ex_adapter no_attachments Truncate of
     Inr (Inr (payload, report)) \<Rightarrow> history_ok ex_history \<and> rr_messages_dropped report + payload = 3
   | _ \<Rightarrow> False"
proof -
  have "case render ex_history ex_model ex_params ex_adapter no_attachments Truncate of Inr (Inr (payload, report)) \<Rightarrow> True | _ \<Rightarrow> False"
    by code_simp
  then obtain payload report where r: "render ex_history ex_model ex_params ex_adapter no_attachments Truncate = Inr (Inr (payload, report))"
    by (auto split: sum.splits)
  from render_sends_what_fits [OF r] r show ?thesis by (auto simp: ex_adapter_def ex_history_def)
qed

end
