(* ===== verification/Gw_Errors.thy ===== *)
theory Gw_Errors
  imports Gw_Keys Gw_Json
begin

text \<open>
  The client-facing errors (\<^verbatim>\<open>app/core/errors.py\<close>): the exception hierarchy, how an exception of it is built, and the four
  handlers that render every failure of the gateway in one envelope.
\<close>

subsection \<open>The hierarchy\<close>

datatype AppErrorClass =
    C_AppError | C_InvalidRequest | C_Unauthenticated | C_Forbidden | C_NotFound | C_Conflict | C_PayloadTooLarge
  | C_UnsupportedMediaType | C_FileUnreadable | C_TooManyRequests | C_UpstreamUnavailable | C_ServiceUnavailable
  | C_InvalidProviderKey | C_ProviderKeyCheckUnavailable

definition GENERIC_500_MESSAGE :: string where
  "GENERIC_500_MESSAGE = ''An unexpected error occurred. Quote the request_id if you report this.''"

fun class_status :: "AppErrorClass \<Rightarrow> int" where
  "class_status C_AppError = 500"
| "class_status C_InvalidRequest = 400"
| "class_status C_Unauthenticated = 401"
| "class_status C_Forbidden = 403"
| "class_status C_NotFound = 404"
| "class_status C_Conflict = 409"
| "class_status C_PayloadTooLarge = 413"
| "class_status C_UnsupportedMediaType = 415"
| "class_status C_FileUnreadable = 422"
| "class_status C_TooManyRequests = 429"
| "class_status C_UpstreamUnavailable = 502"
| "class_status C_ServiceUnavailable = 503"
| "class_status C_InvalidProviderKey = 422"
| "class_status C_ProviderKeyCheckUnavailable = 503"

fun class_code :: "AppErrorClass \<Rightarrow> string" where
  "class_code C_AppError = ''internal_error''"
| "class_code C_InvalidRequest = ''invalid_request''"
| "class_code C_Unauthenticated = ''unauthenticated''"
| "class_code C_Forbidden = ''forbidden''"
| "class_code C_NotFound = ''not_found''"
| "class_code C_Conflict = ''conflict''"
| "class_code C_PayloadTooLarge = ''payload_too_large''"
| "class_code C_UnsupportedMediaType = ''unsupported_media_type''"
| "class_code C_FileUnreadable = ''file_unreadable''"
| "class_code C_TooManyRequests = ''rate_limited''"
| "class_code C_UpstreamUnavailable = ''upstream_unavailable''"
| "class_code C_ServiceUnavailable = ''service_unavailable''"
| "class_code C_InvalidProviderKey = ''invalid_provider_key''"
| "class_code C_ProviderKeyCheckUnavailable = ''provider_unavailable''"

fun class_message :: "AppErrorClass \<Rightarrow> string" where
  "class_message C_AppError = GENERIC_500_MESSAGE"
| "class_message C_InvalidRequest = ''The request could not be processed.''"
| "class_message C_Unauthenticated = ''Authentication is required.''"
| "class_message C_Forbidden = ''You do not have access to this resource.''"
| "class_message C_NotFound = ''The requested resource does not exist.''"
| "class_message C_Conflict = ''The request conflicts with the current state of the resource.''"
| "class_message C_PayloadTooLarge = ''The uploaded file is larger than this gateway accepts.''"
| "class_message C_UnsupportedMediaType = ''That file type is not one the gateway can read.''"
| "class_message C_FileUnreadable = ''The gateway could not read that file with any of its extractors.''"
| "class_message C_TooManyRequests = ''You are sending requests faster than your tier allows. Try again shortly.''"
| "class_message C_UpstreamUnavailable = ''The upstream provider could not be reached.''"
| "class_message C_ServiceUnavailable = ''The service is temporarily unavailable.''"
| "class_message C_InvalidProviderKey = ''The provider rejected this key.''"
| "class_message C_ProviderKeyCheckUnavailable =
    ''Could not verify this key right now -- the provider was unreachable. Try again shortly.''"

subsection \<open>Raising one\<close>

record HttpError =
  he_class :: AppErrorClass
  he_code :: string
  he_message :: string
  he_details :: "string \<rightharpoonup> json"
  he_headers :: "string \<rightharpoonup> string"

text \<open>\<^verbatim>\<open>message or type(self).message\<close>: an empty text counts as none.\<close>

definition or_default :: "string option \<Rightarrow> string \<Rightarrow> string" where
  "or_default x d = (case x of Some (c # cs) \<Rightarrow> c # cs | _ \<Rightarrow> d)"

text \<open>\<^verbatim>\<open>dict.setdefault\<close>.\<close>

definition setdefault :: "('k \<rightharpoonup> 'v) \<Rightarrow> 'k \<Rightarrow> 'v \<Rightarrow> ('k \<rightharpoonup> 'v)" where
  "setdefault m k v = (if m k = None then m(k \<mapsto> v) else m)"

text \<open>The headers every instance of a class carries: a 401 is a challenge.\<close>

definition class_headers :: "AppErrorClass \<Rightarrow> (string \<rightharpoonup> string)" where
  "class_headers c = (if c = C_Unauthenticated then [''WWW-Authenticate'' \<mapsto> ''Bearer''] else Map.empty)"

definition app_error :: "AppErrorClass \<Rightarrow> string option \<Rightarrow> string option \<Rightarrow> (string \<rightharpoonup> json) \<Rightarrow> (string \<rightharpoonup> string) \<Rightarrow> HttpError" where
  "app_error c message code details headers =
    \<lparr>he_class = c, he_code = or_default code (class_code c), he_message = or_default message (class_message c),
     he_details = details, he_headers = class_headers c ++ headers\<rparr>"

definition too_many_requests :: "string option \<Rightarrow> int option \<Rightarrow> string option \<Rightarrow> (string \<rightharpoonup> json) \<Rightarrow> (string \<rightharpoonup> string) \<Rightarrow> HttpError" where
  "too_many_requests message retry_after code details headers =
    (case retry_after of
       None \<Rightarrow> app_error C_TooManyRequests message code details headers
     | Some n \<Rightarrow> app_error C_TooManyRequests message code (setdefault details ''retry_after_s'' (JInt n))
         (setdefault headers ''Retry-After'' (if n < 0 then ''-'' @ dec (nat (- n)) else dec (nat n))))"

subsection \<open>Rendering\<close>

record ErrorBody =
  eb_code :: string
  eb_message :: string
  eb_request_id :: "string option"
  eb_details :: "string \<rightharpoonup> json"

record JSONResponse =
  jr_status_code :: int
  jr_content :: ErrorBody
  jr_headers :: "string \<rightharpoonup> string"

definition REQUEST_ID_HEADER :: string where
  "REQUEST_ID_HEADER = ''x-request-id''"

text \<open>The scope's id first, then the context variable; \<open>state\<close> is what the middleware stashed, if it is a text.\<close>

definition request_id_for :: "string option \<Rightarrow> string option \<Rightarrow> string option" where
  "request_id_for stashed contextvar = (case stashed of Some r \<Rightarrow> Some r | None \<Rightarrow> contextvar)"

definition error_response :: "string option \<Rightarrow> int \<Rightarrow> string \<Rightarrow> string \<Rightarrow> (string \<rightharpoonup> json) \<Rightarrow> (string \<rightharpoonup> string) \<Rightarrow> JSONResponse" where
  "error_response request_id status code message details headers =
    \<lparr>jr_status_code = status,
     jr_content = \<lparr>eb_code = code, eb_message = message, eb_request_id = request_id, eb_details = details\<rparr>,
     jr_headers = (case request_id of None \<Rightarrow> headers | Some r \<Rightarrow> setdefault headers REQUEST_ID_HEADER r)\<rparr>"

fun CODE_BY_STATUS :: "int \<Rightarrow> string option" where
  "CODE_BY_STATUS s = map_of [(400, ''invalid_request''), (401, ''unauthenticated''), (403, ''forbidden''), (404, ''not_found''),
     (405, ''method_not_allowed''), (409, ''conflict''), (413, ''payload_too_large''), (415, ''unsupported_media_type''),
     (429, ''rate_limited''), (500, ''internal_error''), (502, ''upstream_unavailable''), (503, ''service_unavailable'')] s"

text \<open>
  What reaches the handlers: an error of the hierarchy, a rejected request body (each error with the path, the message
  and the kind of the first three keys pydantic may give), FastAPI's own exception, or anything else. A part of a path
  is a field name or an index.
\<close>

datatype loc_part = LField string | LIndex nat

fun loc_text :: "loc_part \<Rightarrow> string" where
  "loc_text (LField s) = s"
| "loc_text (LIndex n) = dec n"

record validation_item =
  vi_loc :: "loc_part list option"
  vi_msg :: "string option"
  vi_type :: "string option"

datatype failure =
    AppFailure HttpError
  | ValidationFailure "validation_item list"
  | HttpFailure int "string option" "(string \<rightharpoonup> string) option"
  | OtherFailure string

definition serializable_errors :: "validation_item list \<Rightarrow> json" where
  "serializable_errors errors = JArr (map (\<lambda>e. JObj
     [(''loc'', JArr (map (\<lambda>p. JStr (loc_text p)) (case vi_loc e of Some ps \<Rightarrow> ps | None \<Rightarrow> []))),
      (''msg'', JStr (case vi_msg e of Some m \<Rightarrow> m | None \<Rightarrow> [])),
      (''type'', JStr (case vi_type e of Some t \<Rightarrow> t | None \<Rightarrow> []))]) errors)"

definition app_error_handler :: "string option \<Rightarrow> HttpError \<Rightarrow> JSONResponse" where
  "app_error_handler rid e = error_response rid (class_status (he_class e)) (he_code e) (he_message e) (he_details e) (he_headers e)"

definition validation_error_handler :: "string option \<Rightarrow> validation_item list \<Rightarrow> JSONResponse" where
  "validation_error_handler rid errors = error_response rid 422 ''invalid_request'' ''The request failed validation.''
     [''errors'' \<mapsto> serializable_errors errors] Map.empty"

definition http_exception_handler :: "string option \<Rightarrow> int \<Rightarrow> string option \<Rightarrow> (string \<rightharpoonup> string) option \<Rightarrow> JSONResponse" where
  "http_exception_handler rid status detail headers = error_response rid status
     (case CODE_BY_STATUS status of Some c \<Rightarrow> c | None \<Rightarrow> ''http_error'')
     (case detail of Some d \<Rightarrow> d | None \<Rightarrow> ''Request could not be completed.'') Map.empty
     (case headers of Some h \<Rightarrow> h | None \<Rightarrow> Map.empty)"

definition unhandled_exception_handler :: "string option \<Rightarrow> JSONResponse" where
  "unhandled_exception_handler rid = error_response rid 500 ''internal_error'' GENERIC_500_MESSAGE Map.empty Map.empty"

fun handle_failure :: "string option \<Rightarrow> failure \<Rightarrow> JSONResponse" where
  "handle_failure rid (AppFailure e) = app_error_handler rid e"
| "handle_failure rid (ValidationFailure errors) = validation_error_handler rid errors"
| "handle_failure rid (HttpFailure status detail headers) = http_exception_handler rid status detail headers"
| "handle_failure rid (OtherFailure what) = unhandled_exception_handler rid"

text \<open>The request id is in the body of every failure, and in its header unless the error set that header itself.\<close>

lemma failure_carries_id:
  "eb_request_id (jr_content (handle_failure rid f)) = rid"
  "rid = Some r \<Longrightarrow> jr_headers (handle_failure rid f) REQUEST_ID_HEADER \<noteq> None"
  by (cases f; simp add: app_error_handler_def validation_error_handler_def http_exception_handler_def
      unhandled_exception_handler_def error_response_def setdefault_def)+

text \<open>Nothing of an exception that is no error of the hierarchy reaches the client.\<close>

lemma unhandled_leaks_nothing: "handle_failure rid (OtherFailure a) = handle_failure rid (OtherFailure b)"
  by simp

lemma app_error_code [simp]: "he_class (app_error c m code d h) = c" "he_code (app_error c m code d h) = or_default code (class_code c)"
  by (simp_all add: app_error_def)

lemma or_default_simps [simp]: "or_default None d = d" "or_default (Some (x # xs)) d = x # xs" "or_default (Some []) d = d"
  by (simp_all add: or_default_def)

end
