(* ===== verification/Gw_RateLimit.thy ===== *)
theory Gw_RateLimit
  imports Gw_Quota
begin

text \<open>
  The gateway's own rate limit (\<^verbatim>\<open>RateLimiter\<close> of \<^verbatim>\<open>app/deps.py\<close>): a sliding window over two fixed buckets per
  user, counted in Redis. A request is counted first and refunded when it is refused.
\<close>

subsection \<open>Pipelines\<close>

text \<open>
  A pipeline outside a transaction sends its commands one after the other; other clients may act between them, and
  \<^verbatim>\<open>execute\<close> raises when any of them failed, the others having run all the same.
\<close>

fun pipe_execute :: "('r \<Rightarrow> 'a \<times> 'r) list \<Rightarrow> 'r world \<Rightarrow> 'a list option \<times> 'r world" where
  "pipe_execute [] w = (Some [], w)"
| "pipe_execute (op # ops) w =
    (let (x, w1) = client_call op w; (xs, w2) = pipe_execute ops w1
     in (case (x, xs) of (Some y, Some ys) \<Rightarrow> Some (y # ys) | _ \<Rightarrow> None, w2))"

definition cmd_incr :: "'r redis \<Rightarrow> string \<Rightarrow> int \<Rightarrow> 'r \<Rightarrow> fval option \<times> 'r" where
  "cmd_incr R k d s = (let (n, s') = rd_incrby R k d s in (Some (FInt n), s'))"

definition cmd_expire :: "'r redis \<Rightarrow> string \<Rightarrow> int \<Rightarrow> 'r \<Rightarrow> fval option \<times> 'r" where
  "cmd_expire R k t s = (Some (FInt 1), rd_expire R k t s)"

definition cmd_get :: "'r redis \<Rightarrow> string \<Rightarrow> 'r \<Rightarrow> fval option \<times> 'r" where
  "cmd_get R k s = (rd_get R k s, s)"

subsection \<open>The limiter\<close>

datatype AuthMethod = Am_session | Am_api_key

record Principal =
  pr_user_id :: string
  pr_auth_method :: AuthMethod
  pr_api_key_id :: "string option"
  pr_tier :: string

definition is_session :: "Principal \<Rightarrow> bool" where
  "is_session p \<longleftrightarrow> pr_auth_method p = Am_session"

fun RATE_LIMIT_WINDOW_S :: "GatewayWindow \<Rightarrow> int" where
  "RATE_LIMIT_WINDOW_S GRpm = 60"
| "RATE_LIMIT_WINDOW_S GRpd = 86400"
| "RATE_LIMIT_WINDOW_S GRph = 3600"

record Counted =
  ct_name :: GatewayWindow
  ct_limit :: int
  ct_width_s :: int
  ct_start :: int
  ct_previous :: int
  ct_current :: int
  ct_count :: pyfloat

datatype limit_error = TooManyRequests GatewayWindow int int | Raised py_error

definition bucket_start :: "GatewayWindow \<Rightarrow> instant \<Rightarrow> int" where
  "bucket_start name now = \<lfloor>now / of_int (RATE_LIMIT_WINDOW_S name)\<rfloor> * RATE_LIMIT_WINDOW_S name"

fun count_commands :: "'r redis \<Rightarrow> string \<Rightarrow> (GatewayWindow \<times> int) list \<Rightarrow> instant \<Rightarrow> ('r \<Rightarrow> fval option \<times> 'r) list exn" where
  "count_commands R user_id [] now = Inr []"
| "count_commands R user_id ((name, limit) # checks) now =
    (let width = RATE_LIMIT_WINDOW_S name; start = bucket_start name now
     in ebind (rate_limit user_id name start) (\<lambda>current_key.
        ebind (rate_limit user_id name (max 0 (start - width))) (\<lambda>previous_key.
        ebind (count_commands R user_id checks now) (\<lambda>rest.
          Inr (cmd_incr R current_key 1 # cmd_expire R current_key (width * RATE_LIMIT_TTL_MULTIPLIER) #
               cmd_get R previous_key # rest)))))"

text \<open>\<^verbatim>\<open>int(reply)\<close>, and \<^verbatim>\<open>int(reply or 0)\<close>.\<close>

fun py_int :: "fval option \<Rightarrow> int exn" where
  "py_int (Some (FInt n)) = Inr n"
| "py_int _ = Inl ValueError"

fun py_int_or_0 :: "fval option \<Rightarrow> int exn" where
  "py_int_or_0 None = Inr 0"
| "py_int_or_0 (Some (FText [])) = Inr 0"
| "py_int_or_0 (Some x) = py_int (Some x)"

fun counted_of :: "(GatewayWindow \<times> int) list \<Rightarrow> instant \<Rightarrow> fval option list \<Rightarrow> Counted list exn" where
  "counted_of [] now results = Inr []"
| "counted_of ((name, limit) # checks) now (a # b # c # results) =
    (let width = RATE_LIMIT_WINDOW_S name; start = bucket_start name now
     in ebind (py_int a) (\<lambda>current. ebind (py_int_or_0 c) (\<lambda>previous.
        ebind (sliding_count previous current ((now - of_int start) / of_int width)) (\<lambda>n.
        ebind (counted_of checks now results) (\<lambda>rest.
          Inr (\<lparr>ct_name = name, ct_limit = limit, ct_width_s = width, ct_start = start, ct_previous = previous,
                ct_current = current, ct_count = n\<rparr> # rest))))))"
| "counted_of (_ # _) now _ = Inl OtherError"

definition rl_count :: "'r redis \<Rightarrow> string \<Rightarrow> (GatewayWindow \<times> int) list \<Rightarrow> instant \<Rightarrow> 'r world \<Rightarrow>
    Counted list option \<times> 'r world" where
  "rl_count R user_id checks now w =
    (case count_commands R user_id checks now of
       Inl _ \<Rightarrow> (None, w)
     | Inr cmds \<Rightarrow>
         (case pipe_execute cmds w of
            (None, w') \<Rightarrow> (None, w')
          | (Some results, w') \<Rightarrow>
              (case counted_of checks now results of Inl _ \<Rightarrow> (None, w') | Inr cs \<Rightarrow> (Some cs, w'))))"

definition rl_refund :: "'r redis \<Rightarrow> string \<Rightarrow> Counted list \<Rightarrow> 'r world \<Rightarrow> 'r world" where
  "rl_refund R user_id counted w =
    (case each_exn (\<lambda>c. rate_limit user_id (ct_name c) (ct_start c)) counted of
       Inl _ \<Rightarrow> w
     | Inr ks \<Rightarrow> snd (pipe_execute (map (\<lambda>k. cmd_incr R k (-1)) ks) w))"

definition at_least_one :: "pyfloat \<Rightarrow> int" where
  "at_least_one seconds = max 1 \<lceil>seconds\<rceil>"

text \<open>\<open>OtherError\<close> is the division by zero of a limit below one.\<close>

definition rl_retry_after_s :: "Counted \<Rightarrow> instant \<Rightarrow> int exn" where
  "rl_retry_after_s c now =
    (let next_start = ct_start c + ct_width_s c;
         carried = max 0 (ct_current c - 1);
         allowance = ct_limit c - 1;
         late = (if carried > allowance then
                   (if carried = 0 then Inl OtherError
                    else Inr (at_least_one (of_int next_start + (1 - of_int allowance / of_int carried) * of_int (ct_width_s c) - now)))
                 else Inr (at_least_one (of_int next_start - now)))
     in if ct_previous c > 0 \<and> ct_current c \<le> ct_limit c then
          (let needed = of_int (ct_previous c + ct_current c - ct_limit c) / of_int (ct_previous c)
           in if needed \<le> 1 then Inr (at_least_one (of_int (ct_start c) + needed * of_int (ct_width_s c) - now)) else late)
        else late)"

definition first_over :: "Counted list \<Rightarrow> Counted option" where
  "first_over counted = List.find (\<lambda>c. \<not> ct_count c \<le> of_int (ct_limit c)) counted"

definition raise_if_over :: "'r redis \<Rightarrow> string \<Rightarrow> Counted list \<Rightarrow> instant \<Rightarrow> 'r world \<Rightarrow> (limit_error + unit) \<times> 'r world" where
  "raise_if_over R user_id counted now w =
    (case first_over counted of
       None \<Rightarrow> (Inr (), w)
     | Some c \<Rightarrow>
         (let w' = rl_refund R user_id counted w
          in (case rl_retry_after_s c now of
                Inl e \<Rightarrow> Inl (Raised e)
              | Inr n \<Rightarrow> Inl (TooManyRequests (ct_name c) (ct_limit c) n), w')))"

definition enforce_checks :: "'r redis \<Rightarrow> string \<Rightarrow> (GatewayWindow \<times> int) list \<Rightarrow> instant \<Rightarrow> 'r world \<Rightarrow> (limit_error + unit) \<times> 'r world" where
  "enforce_checks R user_id checks now w =
    (case rl_count R user_id checks now w of
       (None, w') \<Rightarrow> (Inr (), w')
     | (Some counted, w') \<Rightarrow> raise_if_over R user_id counted now w')"

definition enforce :: "'r redis \<Rightarrow> (string \<rightharpoonup> GatewayLimits) \<Rightarrow> Principal \<Rightarrow> instant \<Rightarrow> 'r world \<Rightarrow> (limit_error + unit) \<times> 'r world" where
  "enforce R limits who now w =
    (case limits (pr_tier who) of
       None \<Rightarrow> (Inr (), w)
     | Some tier \<Rightarrow> enforce_checks R (pr_user_id who) [(GRpm, gl_rpm tier), (GRpd, gl_rpd tier)] now w)"

definition enforce_one :: "'r redis \<Rightarrow> string \<Rightarrow> GatewayWindow \<Rightarrow> int \<Rightarrow> instant \<Rightarrow> 'r world \<Rightarrow> (limit_error + unit) \<times> 'r world" where
  "enforce_one R user_id window limit now w = enforce_checks R user_id [(window, limit)] now w"

subsection \<open>Buckets\<close>

lemma width_pos [simp]: "0 < RATE_LIMIT_WINDOW_S name"
  by (cases name) simp_all

lemma bucket_bounds:
  "of_int (bucket_start name now) \<le> now" "now < of_int (bucket_start name now + RATE_LIMIT_WINDOW_S name)"
proof -
  let ?W = "of_int (RATE_LIMIT_WINDOW_S name) :: rat"
  have W: "0 < ?W" by simp
  have "of_int \<lfloor>now / ?W\<rfloor> \<le> now / ?W" "now / ?W < of_int \<lfloor>now / ?W\<rfloor> + 1" by linarith+
  then have "of_int \<lfloor>now / ?W\<rfloor> * ?W \<le> now" "now < (of_int \<lfloor>now / ?W\<rfloor> + 1) * ?W"
    using pos_le_divide_eq [OF W] pos_divide_less_eq [OF W] by blast+
  then show "of_int (bucket_start name now) \<le> now" "now < of_int (bucket_start name now + RATE_LIMIT_WINDOW_S name)"
    by (simp_all add: bucket_start_def algebra_simps)
qed

lemma bucket_start_ge: "of_int (k * RATE_LIMIT_WINDOW_S name) \<le> now \<longleftrightarrow> k * RATE_LIMIT_WINDOW_S name \<le> bucket_start name now"
  by (cases name) (simp_all add: bucket_start_def le_floor_iff field_simps)

lemma bucket_start_unique:
  assumes "of_int (k * RATE_LIMIT_WINDOW_S name) \<le> now" "now < of_int ((k + 1) * RATE_LIMIT_WINDOW_S name)"
  shows "bucket_start name now = k * RATE_LIMIT_WINDOW_S name"
proof -
  let ?W = "of_int (RATE_LIMIT_WINDOW_S name) :: rat"
  have W: "0 < ?W" by simp
  have "\<lfloor>now / ?W\<rfloor> = k"
    using assms W by (intro floor_unique) (simp_all add: field_simps)
  then show ?thesis by (simp add: bucket_start_def)
qed

lemma bucket_start_later:
  fixes name t0 t
  defines "W \<equiv> RATE_LIMIT_WINDOW_S name" and "S \<equiv> bucket_start name t0"
  assumes "t0 \<le> t"
  shows "t < of_int S + of_int W \<Longrightarrow> bucket_start name t = S"
    "of_int S + of_int W \<le> t \<Longrightarrow> t < of_int S + 2 * of_int W \<Longrightarrow> bucket_start name t = S + W"
    "of_int S + 2 * of_int W \<le> t \<Longrightarrow> S + 2 * W \<le> bucket_start name t"
proof -
  obtain k where k: "S = k * W" by (auto simp: S_def W_def bucket_start_def)
  have lo: "of_int S \<le> t" using bucket_bounds(1) [of name t0] assms(3) by (simp add: S_def)
  show "bucket_start name t = S" if "t < of_int S + of_int W"
    using bucket_start_unique [of k name t] that lo by (simp add: k W_def algebra_simps)
  show "bucket_start name t = S + W" if "of_int S + of_int W \<le> t" "t < of_int S + 2 * of_int W"
    using bucket_start_unique [of "k + 1" name t] that by (simp add: k W_def algebra_simps)
  show "S + 2 * W \<le> bucket_start name t" if "of_int S + 2 * of_int W \<le> t"
    using bucket_start_ge [of "k + 2" name t] that by (simp add: k W_def algebra_simps)
qed

lemma bucket_start_nonneg: "0 \<le> now \<Longrightarrow> 0 \<le> bucket_start name now"
  using bucket_start_ge [of 0 name now] by simp

lemma sliding_count_bucket:
  "sliding_count p c ((now - of_int (bucket_start name now)) / of_int (RATE_LIMIT_WINDOW_S name)) =
     Inr (of_int p * (1 - (now - of_int (bucket_start name now)) / of_int (RATE_LIMIT_WINDOW_S name)) + of_int c)"
  using bucket_bounds [where name = name and now = now] by (simp add: sliding_count_def)


subsection \<open>Keys of different buckets\<close>

lemma dec_not_Nil [simp]: "dec n \<noteq> []"
  by (simp add: dec.simps [of n])

lemma char_of_digit_inj: "a < 10 \<Longrightarrow> b < 10 \<Longrightarrow> char_of (48 + a) = char_of (48 + b) \<Longrightarrow> a = (b::nat)"
  using arg_cong [of "char_of (48 + a)" "char_of (48 + b)" of_char] by simp

lemma dec_inj: "dec m = dec n \<Longrightarrow> m = n"
proof (induction m arbitrary: n rule: less_induct)
  case (less m)
  note eq = less.prems [unfolded dec.simps [of m] dec.simps [of n]]
  show ?case
  proof (cases "m < 10"; cases "n < 10")
    assume "m < 10" "n < 10"
    with eq show ?thesis using char_of_digit_inj [of m n] by simp
  next
    assume "\<not> m < 10" "\<not> n < 10"
    with eq have "dec (m div 10) = dec (n div 10)" "char_of (48 + m mod 10) = (char_of (48 + n mod 10) :: char)" by simp_all
    then have "m div 10 = n div 10" "m mod 10 = n mod 10"
      using less.IH [of "m div 10" "n div 10"] char_of_digit_inj [of "m mod 10" "n mod 10"] \<open>\<not> m < 10\<close> by simp_all
    then show ?thesis by (metis mod_div_decomp)
  qed (use eq in \<open>auto simp: append_eq_Cons_conv Cons_eq_append_conv\<close>)
qed

definition rl_key :: "string \<Rightarrow> GatewayWindow \<Rightarrow> int \<Rightarrow> string" where
  "rl_key u name n = ''rl:'' @ u @ '':'' @ gateway_window_name name @ '':'' @ dec (nat n)"

lemma rate_limit_rl_key: "0 \<le> n \<Longrightarrow> seg_ok u \<Longrightarrow> rate_limit u name n = Inr (rl_key u name n)"
  by (simp add: rate_limit_def segment_eq rl_key_def)

lemma rate_limit_bad_user: "\<not> seg_ok u \<Longrightarrow> rate_limit u name n = Inl ValueError"
  by (simp add: rate_limit_def segment_eq)

lemma rl_key_inj: "0 \<le> m \<Longrightarrow> 0 \<le> n \<Longrightarrow> rl_key u name m = rl_key u name n \<longleftrightarrow> m = n"
  using dec_inj [of "nat m" "nat n"] by (auto simp: rl_key_def)

lemma rl_key_windows: "name \<noteq> name' \<Longrightarrow> rl_key u name m \<noteq> rl_key u name' n"
  by (cases name; cases name') (auto simp: rl_key_def)

subsection \<open>Counting in a quiet world\<close>

text \<open>The counters of one user: integers, none negative.\<close>

definition rl_typed :: "keyspace \<Rightarrow> string \<Rightarrow> bool" where
  "rl_typed v u \<longleftrightarrow> (\<forall>name n. counter_at v (rl_key u name n) \<and> 0 \<le> ks_count v (rl_key u name n))"

definition rl_sees :: "keyspace \<Rightarrow> string \<Rightarrow> instant \<Rightarrow> GatewayWindow \<times> int \<Rightarrow> Counted" where
  "rl_sees v u now check = (case check of (name, limit) \<Rightarrow>
     let W = RATE_LIMIT_WINDOW_S name; S = bucket_start name now;
         p = ks_count v (rl_key u name (S - W)); c = ks_count v (rl_key u name S) + 1
     in \<lparr>ct_name = name, ct_limit = limit, ct_width_s = W, ct_start = S, ct_previous = p, ct_current = c,
         ct_count = of_int p * (1 - (now - of_int S) / of_int W) + of_int c\<rparr>)"

text \<open>\<open>v'\<close> has one request more than \<open>v\<close> in the current bucket of each of the windows.\<close>

definition rl_plus :: "int \<Rightarrow> string \<Rightarrow> instant \<Rightarrow> GatewayWindow set \<Rightarrow> keyspace \<Rightarrow> keyspace \<Rightarrow> bool" where
  "rl_plus d u now names v v' \<longleftrightarrow> (\<forall>name n. 0 \<le> n \<longrightarrow> counter_at v' (rl_key u name n) \<and>
     ks_count v' (rl_key u name n) =
       ks_count v (rl_key u name n) + (if name \<in> names \<and> n = bucket_start name now then d else 0))"

lemma rl_sees_fields [simp]: "ct_limit (rl_sees v u now ck) = snd ck" "ct_name (rl_sees v u now ck) = fst ck"
  by (simp_all add: rl_sees_def Let_def split_beta)

lemma rl_sees_cong:
  assumes "rl_plus d u now names v v'" "name \<notin> names" "of_int (RATE_LIMIT_WINDOW_S name) \<le> now"
  shows "rl_sees v' u now (name, limit) = rl_sees v u now (name, limit)"
proof -
  let ?S = "bucket_start name now" and ?W = "RATE_LIMIT_WINDOW_S name"
  have "?W \<le> ?S" using bucket_start_ge [of 1 name now] assms(3) by simp
  then have "0 \<le> ?S" "0 \<le> ?S - ?W" using width_pos [of name] by linarith+
  then have "ks_count v' (rl_key u name ?S) = ks_count v (rl_key u name ?S)"
    "ks_count v' (rl_key u name (?S - ?W)) = ks_count v (rl_key u name (?S - ?W))"
    using assms(1,2) by (auto simp: rl_plus_def)
  then show ?thesis by (simp add: rl_sees_def Let_def)
qed

context redis_server
begin

lemma get_counter:
  assumes "counter_at (view s) k"
  shows "py_int_or_0 (rd_get R k s) = Inr (ks_count (view s) k)"
  using assms get_spec [OF counter_string [OF assms]]
  by (auto simp: counter_at_def ks_get_def ks_count_def split: option.splits rentry.splits fval.splits)

lemma incr_count:
  assumes "counter_at (view s) k"
  shows "rd_incrby R k d s = (ks_count (view s) k + d, snd (rd_incrby R k d s))"
    "ks_count (view (snd (rd_incrby R k d s))) k' = ks_count (view s) k' + (if k' = k then d else 0)"
    "counter_at (view (snd (rd_incrby R k d s))) k' \<longleftrightarrow> k' = k \<or> counter_at (view s) k'"
  using incrby_reply [OF assms, of d] incrby_view [OF assms, of d]
  by (simp_all add: redis_simps prod_eq_iff)

lemma expire_count:
  assumes "0 < t"
  shows "ks_count (view (rd_expire R k t s)) k' = ks_count (view s) k'"
    "counter_at (view (rd_expire R k t s)) k' = counter_at (view s) k'"
  by (simp_all add: expire_view ks_expire_pos [OF assms])

text \<open>One window: increment, lifetime, and the previous bucket, which is another key.\<close>

lemma count_window:
  fixes u :: string and name :: GatewayWindow and s :: 'r and now :: instant
  defines "S \<equiv> bucket_start name now" and "W \<equiv> RATE_LIMIT_WINDOW_S name"
  defines "k \<equiv> rl_key u name S" and "j \<equiv> rl_key u name (S - W)"
  defines "s1 \<equiv> rd_expire R k (W * RATE_LIMIT_TTL_MULTIPLIER) (snd (rd_incrby R k 1 s))"
  assumes t: "of_int W \<le> now" and ty: "\<And>name n. counter_at (view s) (rl_key u name n)"
  shows "cmd_incr R k 1 s = (Some (FInt (ks_count (view s) k + 1)), snd (rd_incrby R k 1 s))"
    "py_int_or_0 (rd_get R j s1) = Inr (ks_count (view s) j)"
    "0 \<le> n \<Longrightarrow> ks_count (view s1) (rl_key u name' n) =
       ks_count (view s) (rl_key u name' n) + (if name' = name \<and> n = S then 1 else 0)"
    "counter_at (view s1) (rl_key u name' n)" "max 0 (S - W) = S - W" "0 \<le> S" "0 \<le> S - W"
proof -
  have W: "0 < W" by (simp add: W_def)
  have S: "W \<le> S" using t bucket_start_ge [of 1 name now] by (simp add: S_def W_def)
  then show "max 0 (S - W) = S - W" "0 \<le> S" "0 \<le> S - W" using W by simp_all
  have key: "rl_key u name' n = k \<longleftrightarrow> name' = name \<and> n = S" if "0 \<le> n" for name' n
    using rl_key_inj [OF that, of S u name] rl_key_windows [of name' name u n S] S W by (auto simp: k_def)
  have kt: "counter_at (view s) k" using ty by (simp add: k_def)
  note eff = incr_count [OF kt] expire_count [of "W * RATE_LIMIT_TTL_MULTIPLIER"]
  have T: "0 < W * RATE_LIMIT_TTL_MULTIPLIER" using W by (simp add: RATE_LIMIT_TTL_MULTIPLIER_def)
  show "cmd_incr R k 1 s = (Some (FInt (ks_count (view s) k + 1)), snd (rd_incrby R k 1 s))"
    using eff(1) [of 1] by (simp add: cmd_incr_def split_beta prod_eq_iff)
  show cnt: "ks_count (view s1) (rl_key u name' n) =
       ks_count (view s) (rl_key u name' n) + (if name' = name \<and> n = S then 1 else 0)" if "0 \<le> n" for name' n
    using key [OF that] by (simp add: s1_def eff(2) expire_count [OF T])
  show c1: "counter_at (view s1) (rl_key u name' n)" for name' n
    using ty by (simp add: s1_def eff(3) expire_count [OF T])
  show "py_int_or_0 (rd_get R j s1) = Inr (ks_count (view s) j)"
    using get_counter [OF c1] cnt [of "S - W" name] S W by (simp add: j_def)
qed

lemma count_quiet:
  assumes u: "seg_ok u"
  shows "quiet w \<Longrightarrow> distinct (map fst checks) \<Longrightarrow> \<forall>(name, limit)\<in>set checks. of_int (RATE_LIMIT_WINDOW_S name) \<le> now \<Longrightarrow>
    (\<And>name n. counter_at (view (wd_srv w)) (rl_key u name n)) \<Longrightarrow>
    \<exists>cmds rs w1. count_commands R u checks now = Inr cmds \<and> pipe_execute cmds w = (Some rs, w1) \<and> quiet w1 \<and>
      counted_of checks now rs = Inr (map (rl_sees (view (wd_srv w)) u now) checks) \<and>
      rl_plus 1 u now (fst ` set checks) (view (wd_srv w)) (view (wd_srv w1))"
proof (induction checks arbitrary: w)
  case Nil
  then show ?case by (auto simp: rl_plus_def)
next
  case (Cons check checks)
  obtain name limit where ck: "check = (name, limit)" by (cases check)
  let ?S = "bucket_start name now" and ?W = "RATE_LIMIT_WINDOW_S name"
  have t: "of_int ?W \<le> now" using Cons.prems(3) ck by simp
  note cw = count_window [OF t Cons.prems(4)]
  let ?s1 = "rd_expire R (rl_key u name ?S) (?W * RATE_LIMIT_TTL_MULTIPLIER) (snd (rd_incrby R (rl_key u name ?S) 1 (wd_srv w)))"
  let ?w1 = "w\<lparr>wd_sent := Suc (Suc (Suc (wd_sent w))), wd_srv := ?s1\<rparr>"
  obtain cmds rs w2 where IH: "count_commands R u checks now = Inr cmds" "pipe_execute cmds ?w1 = (Some rs, w2)" "quiet w2"
    "counted_of checks now rs = Inr (map (rl_sees (view ?s1) u now) checks)"
    "rl_plus 1 u now (fst ` set checks) (view ?s1) (view (wd_srv w2))"
    using Cons.IH [of ?w1] Cons.prems cw(4) by auto
  have plus1: "rl_plus 1 u now {name} (view (wd_srv w)) (view ?s1)"
    using cw(3,4) by (auto simp: rl_plus_def)
  have tail: "map (rl_sees (view ?s1) u now) checks = map (rl_sees (view (wd_srv w)) u now) checks"
    using Cons.prems(2,3) ck rl_sees_cong [OF plus1] by (force intro!: map_cong)
  have plus: "rl_plus 1 u now (fst ` set (check # checks)) (view (wd_srv w)) (view (wd_srv w2))"
    using plus1 IH(5) Cons.prems(2) ck by (auto simp: rl_plus_def)
  show ?case
    using u cw(1,2,5-) IH plus Cons.prems(1) tail
    by (simp add: ck Let_def rate_limit_rl_key client_call_quiet cmd_expire_def cmd_get_def sliding_count_bucket rl_sees_def)
qed

lemma refund_pipe:
  assumes "\<And>name. 0 \<le> bucket_start name now"
  shows "quiet w \<Longrightarrow> distinct names \<Longrightarrow> (\<And>name n. counter_at (view (wd_srv w)) (rl_key u name n)) \<Longrightarrow>
    \<exists>rs w1. pipe_execute (map (\<lambda>name. cmd_incr R (rl_key u name (bucket_start name now)) (-1)) names) w = (Some rs, w1) \<and> quiet w1 \<and>
      rl_plus (-1) u now (set names) (view (wd_srv w)) (view (wd_srv w1))"
proof (induction names arbitrary: w)
  case Nil
  then show ?case by (auto simp: rl_plus_def)
next
  case (Cons name names)
  let ?k = "rl_key u name (bucket_start name now)"
  note eff = incr_count [OF Cons.prems(3) [of name "bucket_start name now"], of "-1"]
  let ?s1 = "snd (rd_incrby R ?k (-1) (wd_srv w))"
  let ?w1 = "w\<lparr>wd_sent := Suc (wd_sent w), wd_srv := ?s1\<rparr>"
  have key: "rl_key u name' n = ?k \<longleftrightarrow> name' = name \<and> n = bucket_start name now" if "0 \<le> n" for name' n
    using rl_key_inj [OF that assms, of u name] rl_key_windows [of name' name u n "bucket_start name now"] by auto
  have c1: "counter_at (view ?s1) (rl_key u name' n)" for name' n
    using Cons.prems(3) by (simp add: eff(3))
  have plus1: "rl_plus (-1) u now {name} (view (wd_srv w)) (view ?s1)"
    using key c1 by (auto simp: rl_plus_def eff(2))
  obtain rs w2 where IH: "pipe_execute (map (\<lambda>name. cmd_incr R (rl_key u name (bucket_start name now)) (-1)) names) ?w1 = (Some rs, w2)"
    "quiet w2" "rl_plus (-1) u now (set names) (view ?s1) (view (wd_srv w2))"
    using Cons.IH [of ?w1] Cons.prems c1 by auto
  have "rl_plus (-1) u now (set (name # names)) (view (wd_srv w)) (view (wd_srv w2))"
    using plus1 IH(3) Cons.prems(2) by (auto simp: rl_plus_def)
  moreover have "client_call (cmd_incr R ?k (-1)) w = (Some (Some (FInt (ks_count (view (wd_srv w)) ?k + -1))), ?w1)"
    using Cons.prems(1) eff(1) [unfolded prod_eq_iff] by (simp add: client_call_quiet cmd_incr_def split_beta)
  ultimately show ?case using IH by simp
qed

lemma refund_quiet:
  assumes "seg_ok u" "0 \<le> now" "quiet w" "distinct (map fst checks)"
    "\<And>name n. counter_at (view (wd_srv w)) (rl_key u name n)"
  shows "quiet (rl_refund R u (map (rl_sees v u now) checks) w)"
    "rl_plus (-1) u now (fst ` set checks) (view (wd_srv w)) (view (wd_srv (rl_refund R u (map (rl_sees v u now) checks) w)))"
proof -
  note S = bucket_start_nonneg [OF assms(2)]
  have "each_exn (\<lambda>c. rate_limit u (ct_name c) (ct_start c)) (map (rl_sees v u now) cs) =
      Inr (map (\<lambda>name. rl_key u name (bucket_start name now)) (map fst cs))" for cs
    by (induction cs) (auto simp: rl_sees_def Let_def rate_limit_rl_key [OF S assms(1)])
  moreover obtain rs w1 where
    "pipe_execute (map (\<lambda>name. cmd_incr R (rl_key u name (bucket_start name now)) (-1)) (map fst checks)) w = (Some rs, w1)"
    "quiet w1" "rl_plus (-1) u now (set (map fst checks)) (view (wd_srv w)) (view (wd_srv w1))"
    using refund_pipe [OF S assms(3,4,5)] by blast
  ultimately show "quiet (rl_refund R u (map (rl_sees v u now) checks) w)"
    "rl_plus (-1) u now (fst ` set checks) (view (wd_srv w)) (view (wd_srv (rl_refund R u (map (rl_sees v u now) checks) w)))"
    by (simp_all add: rl_refund_def comp_def)
qed

text \<open>The verdict in a quiet world, from the counters as they stand; a refusal leaves every counter as it was.\<close>

lemma enforce_quiet:
  assumes u: "seg_ok u" and q: "quiet w" and d: "distinct (map fst checks)"
    and t: "\<forall>(name, limit)\<in>set checks. of_int (RATE_LIMIT_WINDOW_S name) \<le> now" "0 \<le> now"
    and ty: "\<And>name n. counter_at (view (wd_srv w)) (rl_key u name n)"
  defines "cs \<equiv> map (rl_sees (view (wd_srv w)) u now) checks"
  shows "fst (enforce_checks R u checks now w) =
      (case first_over cs of None \<Rightarrow> Inr () | Some c \<Rightarrow>
         Inl (case rl_retry_after_s c now of Inl e \<Rightarrow> Raised e | Inr n \<Rightarrow> TooManyRequests (ct_name c) (ct_limit c) n))"
    "rl_plus (if first_over cs = None then 1 else 0) u now (fst ` set checks) (view (wd_srv w)) (view (wd_srv (snd (enforce_checks R u checks now w))))"
    "quiet (snd (enforce_checks R u checks now w))"
proof -
  obtain cmds rs w1 where c: "count_commands R u checks now = Inr cmds" "pipe_execute cmds w = (Some rs, w1)" "quiet w1"
    "counted_of checks now rs = Inr cs" and plus: "rl_plus 1 u now (fst ` set checks) (view (wd_srv w)) (view (wd_srv w1))"
    using count_quiet [OF u q d t(1) ty] unfolding cs_def by blast
  have ty1: "counter_at (view (wd_srv w1)) (rl_key u name n)" for name n
  proof (cases "0 \<le> n")
    case False
    then have "rl_key u name n = rl_key u name 0" by (simp add: rl_key_def)
    then show ?thesis using plus by (metis rl_plus_def order_refl)
  qed (use plus in \<open>simp add: rl_plus_def\<close>)
  note rf = refund_quiet [OF u t(2) c(3) d ty1, of "view (wd_srv w)", folded cs_def]
  have e: "enforce_checks R u checks now w = raise_if_over R u cs now w1"
    using c by (simp add: enforce_checks_def rl_count_def)
  show "fst (enforce_checks R u checks now w) =
      (case first_over cs of None \<Rightarrow> Inr () | Some c \<Rightarrow>
         Inl (case rl_retry_after_s c now of Inl e \<Rightarrow> Raised e | Inr n \<Rightarrow> TooManyRequests (ct_name c) (ct_limit c) n))"
    by (simp add: e raise_if_over_def Let_def split: option.splits sum.splits)
  show "quiet (snd (enforce_checks R u checks now w))"
    using rf c by (simp add: e raise_if_over_def Let_def split: option.splits)
  have "rl_plus 0 u now (fst ` set checks) (view (wd_srv w)) (view (wd_srv (rl_refund R u cs w1)))"
    using plus rf(2) by (auto simp: rl_plus_def)
  then show "rl_plus (if first_over cs = None then 1 else 0) u now (fst ` set checks) (view (wd_srv w)) (view (wd_srv (snd (enforce_checks R u checks now w))))"
    using plus by (simp add: e raise_if_over_def Let_def split: option.splits)
qed

end

subsection \<open>The retry hint\<close>

text \<open>
  The arithmetic of the hint. A bucket of width \<open>W\<close> began at \<open>S\<close>; the request made \<open>c\<close> requests in it, after \<open>p\<close> in the
  one before, and was refused. The hint waits until the previous bucket has decayed enough, or, when the bucket is over
  the limit on its own, until it has itself become the previous one and decayed.
\<close>

lemma at_least_one_covers: "x \<le> of_int (at_least_one x)"
  using le_of_int_ceiling [of x] unfolding at_least_one_def by linarith

lemma decay_le:
  fixes a W x y :: rat
  assumes "0 < W" "0 < a" "b / a * W \<le> x"
  shows "a * (1 - x / W) \<le> a - b"
proof -
  have "b / a \<le> x / W" using assms(1,3) by (simp add: pos_le_divide_eq)
  then have "a * (b / a) \<le> a * (x / W)" using assms(2) by (intro mult_left_mono) auto
  then show ?thesis using assms(2) by (simp add: right_diff_distrib)
qed

lemma retry_decays:
  fixes p c L :: int and W S t0 t :: rat
  assumes pos: "0 < W" "0 \<le> p" "1 \<le> c" "1 \<le> L" "S \<le> t0" "t0 < S + W"
    and over: "\<not> of_int p * (1 - (t0 - S) / W) + of_int c \<le> of_int L"
    and r: "rl_retry_after_s \<lparr>ct_name = name, ct_limit = L, ct_width_s = w, ct_start = s, ct_previous = p, ct_current = c, ct_count = n\<rparr> t0 = Inr r"
    and ws: "W = of_int w" "S = of_int s" and later: "t0 + of_int r \<le> t"
  shows "t < S + W \<Longrightarrow> of_int p * (1 - (t - S) / W) + of_int c \<le> of_int L"
    and "S + W \<le> t \<Longrightarrow> t < S + 2 * W \<Longrightarrow> of_int (c - 1) * (1 - (t - (S + W)) / W) + 1 \<le> of_int L"
proof -
  show "of_int p * (1 - (t - S) / W) + of_int c \<le> of_int L" if t: "t < S + W"
  proof (cases "0 < p \<and> c \<le> L")
    case True
    then have "of_int (p + c - L) / of_int p \<le> (1 :: rat)" by simp
    then have "r = at_least_one (S + of_int (p + c - L) / of_int p * W - t0)"
      using r True by (simp add: rl_retry_after_s_def Let_def ws)
    with later have "of_int (p + c - L) / of_int p * W \<le> t - S"
      using at_least_one_covers [of "S + of_int (p + c - L) / of_int p * W - t0"] by simp
    with decay_le [OF pos(1) _ this] True show ?thesis by simp
  next
    case False
    then have c: "L < c" using over pos by auto
    have "(of_int (L - 1) :: rat) \<le> of_int (c - 1)" using c by simp
    then have "0 \<le> 1 - (of_int (L - 1) :: rat) / of_int (c - 1)" using c pos(4) by (simp add: pos_divide_le_eq)
    then have "0 \<le> (1 - of_int (L - 1) / of_int (c - 1)) * W" using pos(1) by simp
    moreover have "r = at_least_one (S + W + (1 - of_int (L - 1) / of_int (c - 1)) * W - t0)"
      using r c pos(4) by (simp add: rl_retry_after_s_def Let_def ws)
    ultimately have "S + W \<le> t" using later at_least_one_covers [of "S + W + (1 - of_int (L - 1) / of_int (c - 1)) * W - t0"] by simp
    with t show ?thesis by simp
  qed
  show "of_int (c - 1) * (1 - (t - (S + W)) / W) + 1 \<le> of_int L" if t: "S + W \<le> t" "t < S + 2 * W"
  proof (cases "c \<le> L")
    case True
    have "0 \<le> (t - (S + W)) / W" using t pos(1) by simp
    then have "of_int (c - 1) * (1 - (t - (S + W)) / W) \<le> of_int (c - 1) * 1" using pos(3) by (intro mult_left_mono) auto
    then have "of_int (c - 1) * (1 - (t - (S + W)) / W) + 1 \<le> of_int c" by simp
    then show ?thesis using True by (meson of_int_le_iff order_trans)
  next
    case False
    then have c: "L < c" by simp
    have "(1 - of_int (L - 1) / of_int (c - 1)) * W = (of_int (c - L) / of_int (c - 1)) * W"
      using c pos(4) by (simp add: field_simps)
    moreover have "r = at_least_one (S + W + (1 - of_int (L - 1) / of_int (c - 1)) * W - t0)"
      using r c pos(4) by (simp add: rl_retry_after_s_def Let_def ws)
    ultimately have "of_int (c - L) / of_int (c - 1) * W \<le> t - (S + W)"
      using later at_least_one_covers [of "S + W + (1 - of_int (L - 1) / of_int (c - 1)) * W - t0"] by simp
    from decay_le [OF pos(1) _ this] c pos(4) show ?thesis by simp
  qed
qed

lemma retry_pos: "rl_retry_after_s c now = Inr r \<Longrightarrow> 0 \<le> r"
  unfolding rl_retry_after_s_def Let_def at_least_one_def
  by (simp split: if_split_asm)

text \<open>A window whose counters only fell since the refusal is not over once the hint has passed.\<close>

lemma retry_window_free:
  fixes v v2 :: keyspace and a :: GatewayWindow
  defines "W \<equiv> RATE_LIMIT_WINDOW_S a"
  assumes t0: "of_int W \<le> t0" and L: "0 < L"
    and ty: "\<And>n. 0 \<le> ks_count v (rl_key u a n)" and ty2: "\<And>n. 0 \<le> ks_count v2 (rl_key u a n)"
    and fut: "\<And>n. bucket_start a t0 < n \<Longrightarrow> ks_count v (rl_key u a n) = 0"
    and fell: "\<And>n. 0 \<le> n \<Longrightarrow> ks_count v2 (rl_key u a n) \<le> ks_count v (rl_key u a n)"
    and over: "\<not> ct_count (rl_sees v u t0 (a, L)) \<le> of_int L"
    and r: "rl_retry_after_s (rl_sees v u t0 (a, L)) t0 = Inr r" and later: "t0 + of_int r \<le> t"
  shows "ct_count (rl_sees v2 u t (a, L)) \<le> of_int L"
proof -
  let ?S = "bucket_start a t0" and ?S1 = "bucket_start a t"
  let ?p = "ks_count v (rl_key u a (?S - W))" and ?c = "ks_count v (rl_key u a ?S) + 1"
  let ?p1 = "ks_count v2 (rl_key u a (?S1 - W))" and ?c1 = "ks_count v2 (rl_key u a ?S1) + 1"
  have W: "0 < W" by (simp add: W_def)
  have S: "W \<le> ?S" using t0 bucket_start_ge [of 1 a t0] by (simp add: W_def)
  have b0: "of_int ?S \<le> t0" "t0 < of_int ?S + of_int W" and b1: "of_int ?S1 \<le> t" "t < of_int ?S1 + of_int W"
    using bucket_bounds [where name = a and now = t0] bucket_bounds [where name = a and now = t] by (simp_all add: W_def)
  have "0 \<le> r" using r by (rule retry_pos)
  then have "(0::rat) \<le> of_int r" by simp
  then have tt: "t0 \<le> t" using later by linarith
  note core = retry_decays [of "of_int W" ?p ?c L "of_int ?S" t0, OF _ ty _ _ b0 _ _ refl refl later]
  have over': "\<not> of_int ?p * (1 - (t0 - of_int ?S) / of_int W) + of_int ?c \<le> (of_int L :: rat)"
    using over by (simp add: rl_sees_def Let_def W_def)
  have core: "t < of_int ?S + of_int W \<Longrightarrow> of_int ?p * (1 - (t - of_int ?S) / of_int W) + of_int ?c \<le> (of_int L :: rat)"
    "of_int ?S + of_int W \<le> t \<Longrightarrow> t < of_int ?S + 2 * of_int W \<Longrightarrow>
       of_int (?c - 1) * (1 - (t - (of_int ?S + of_int W)) / of_int W) + 1 \<le> (of_int L :: rat)"
    using retry_decays [OF _ ty _ _ b0 over' r [unfolded rl_sees_def Let_def prod.case, folded W_def] refl refl later] W L ty by simp_all
  have goal: "ct_count (rl_sees v2 u t (a, L)) = of_int ?p1 * (1 - (t - of_int ?S1) / of_int W) + of_int ?c1"
    by (simp add: rl_sees_def Let_def W_def)
  have x: "0 \<le> 1 - (t - of_int ?S1) / of_int W" using b1 W by (simp add: pos_divide_le_eq)
  have le: "ct_count (rl_sees v2 u t (a, L)) \<le> of_int p * (1 - (t - of_int ?S1) / of_int W) + of_int c"
    if "?p1 \<le> p" "?c1 \<le> c" for p c
    unfolding goal using that x by (intro add_mono mult_right_mono) auto
  note nxt = bucket_start_later [OF tt, of a, folded W_def]
  consider "t < of_int ?S + of_int W" | "of_int ?S + of_int W \<le> t" "t < of_int ?S + 2 * of_int W"
    | "of_int ?S + 2 * of_int W \<le> t" by linarith
  then show ?thesis
  proof cases
    case 1
    have "?p1 \<le> ?p" "?c1 \<le> ?c" using fell [of ?S] fell [of "?S - W"] S W nxt(1) [OF 1] by simp_all
    from le [OF this] core(1) [OF 1] nxt(1) [OF 1] show ?thesis by simp
  next
    case 2
    have "?p1 \<le> ?c - 1" "?c1 \<le> 1" using fell [of ?S] fell [of "?S + W"] fut [of "?S + W"] S W nxt(2) [OF 2] by simp_all
    from le [OF this] core(2) [OF 2] nxt(2) [OF 2] show ?thesis by simp
  next
    case 3
    have "?p1 \<le> 0" "?c1 \<le> 1"
      using fell [of ?S1] fell [of "?S1 - W"] fut [of ?S1] fut [of "?S1 - W"] S W nxt(3) [OF 3] by simp_all
    from le [OF this] L show ?thesis by simp
  qed
qed

text \<open>With positive limits the hint is always a number.\<close>

lemma retry_is_number: "0 < ct_limit c \<Longrightarrow> \<exists>n. rl_retry_after_s c now = Inr n"
  by (auto simp: rl_retry_after_s_def Let_def)

lemma enforce_bad_user:
  assumes "\<not> seg_ok u"
  shows "fst (enforce_checks R u checks now w) = Inr ()"
proof (cases checks)
  case (Cons check rest)
  then show ?thesis using assms
    by (cases check) (simp add: enforce_checks_def rl_count_def Let_def rate_limit_bad_user)
qed (simp add: enforce_checks_def rl_count_def raise_if_over_def first_over_def)

lemma first_over_Some:
  assumes "first_over (map (rl_sees v u now) checks) = Some c"
  obtains name limit where "(name, limit) \<in> set checks" "c = rl_sees v u now (name, limit)" "\<not> ct_count c \<le> of_int limit"
proof -
  from assms obtain ck where ck: "ck \<in> set checks" "c = rl_sees v u now ck" "\<not> ct_count c \<le> of_int (ct_limit c)"
    using find_Some_in [OF assms [unfolded first_over_def]] by auto
  then show ?thesis using that [of "fst ck" "snd ck"] by simp
qed

text \<open>C20: the retry hint is honest. When the limiter refuses a request because of one window, then at any time after the
  hint has passed, if the user made no other request, that window no longer refuses. With one window checked
  (\<^verbatim>\<open>enforce_one\<close>) the retry is admitted; with two (\<^verbatim>\<open>enforce\<close>) only the other window can still refuse.\<close>
theorem retry_after_suffices:
  assumes srv: "redis_server R view" and q: "quiet w" "quiet w2" and d: "distinct (map fst checks)"
    and ok: "\<forall>(name, limit)\<in>set checks. 0 < limit \<and> of_int (RATE_LIMIT_WINDOW_S name) \<le> t0"
    and ty: "rl_typed (view (wd_srv w)) u" "rl_typed (view (wd_srv w2)) u"
    and fut: "\<forall>n > bucket_start a t0. ks_count (view (wd_srv w)) (rl_key u a n) = 0"
    and ref: "enforce_checks R u checks t0 w = (Inl (TooManyRequests a l r), w1)"
    and fell: "\<forall>n\<ge>0. ks_count (view (wd_srv w2)) (rl_key u a n) \<le> ks_count (view (wd_srv w1)) (rl_key u a n)"
    and later: "t0 + of_int r \<le> t"
  shows "fst (enforce_checks R u checks t w2) = Inr () \<or>
    (\<exists>b l' r'. b \<noteq> a \<and> b \<in> fst ` set checks \<and> fst (enforce_checks R u checks t w2) = Inl (TooManyRequests b l' r'))"
proof -
  have u: "seg_ok u" using enforce_bad_user [of u R checks t0 w] ref by force
  note ct = ty [unfolded rl_typed_def, rule_format]
  have t0: "\<forall>(name, limit)\<in>set checks. of_int (RATE_LIMIT_WINDOW_S name) \<le> t0" using ok by auto
  let ?sees = "rl_sees (view (wd_srv w)) u t0" and ?sees2 = "rl_sees (view (wd_srv w2)) u t"
  have "checks \<noteq> []" using ref by (auto simp: enforce_checks_def rl_count_def raise_if_over_def first_over_def)
  then obtain name limit where "(name, limit) \<in> set checks" by (cases checks) auto
  then have "of_int (RATE_LIMIT_WINDOW_S name) \<le> t0" using t0 by auto
  moreover have "(0::rat) \<le> of_int (RATE_LIMIT_WINDOW_S name)" using width_pos [of name] by linarith
  ultimately have t00: "0 \<le> t0" by (rule order_trans [rotated])
  note e1 = redis_server.enforce_quiet [OF srv u q(1) d t0 t00 ct(1) [THEN conjunct1]]
  obtain c where c: "first_over (map ?sees checks) = Some c" using e1(1) ref by (auto split: option.split_asm)
  obtain L where aL: "(a, L) \<in> set checks" "c = ?sees (a, L)" "\<not> ct_count c \<le> of_int L" "rl_retry_after_s c t0 = Inr r"
  proof (rule first_over_Some [OF c])
    fix name limit assume *: "(name, limit) \<in> set checks" "c = ?sees (name, limit)" "\<not> ct_count c \<le> of_int limit"
    then have "ct_name c = name" by (simp add: rl_sees_def Let_def)
    moreover have "ct_name c = a" "rl_retry_after_s c t0 = Inr r" using e1(1) ref c by (auto split: sum.split_asm)
    ultimately show ?thesis using * that by blast
  qed
  have same: "ks_count (view (wd_srv w1)) (rl_key u a n) = ks_count (view (wd_srv w)) (rl_key u a n)" if "0 \<le> n" for n
    using e1(2) ref c that by (simp add: rl_plus_def)
  have tt: "t0 \<le> t" using retry_pos [OF aL(4)] later by (smt (verit, best) of_int_nonneg le_add_same_cancel1 order_trans)
  then have t: "\<forall>(name, limit)\<in>set checks. of_int (RATE_LIMIT_WINDOW_S name) \<le> t" "0 \<le> t" using t0 t00 by auto
  have free: "ct_count (?sees2 (a, L)) \<le> of_int L"
  proof (rule retry_window_free)
    show "of_int (RATE_LIMIT_WINDOW_S a) \<le> t0" "0 < L" using ok aL(1) by auto
    show "0 \<le> n \<Longrightarrow> ks_count (view (wd_srv w2)) (rl_key u a n) \<le> ks_count (view (wd_srv w)) (rl_key u a n)" for n
      using fell same by simp
  qed (use aL fut ct later in auto)
  note e2 = redis_server.enforce_quiet [OF srv u q(2) d t ct(2) [THEN conjunct1]]
  show ?thesis
  proof (cases "first_over (map ?sees2 checks)")
    case None
    then show ?thesis using e2(1) by simp
  next
    case (Some c2)
    then obtain b L2 where b: "(b, L2) \<in> set checks" "c2 = ?sees2 (b, L2)" "\<not> ct_count c2 \<le> of_int L2"
      by (rule first_over_Some)
    then have "b \<noteq> a" using free aL(1) d eq_key_imp_eq_value [of checks a L L2] by auto
    moreover have "0 < ct_limit c2" "ct_name c2 = b" using ok b by (auto simp: rl_sees_def Let_def)
    ultimately show ?thesis using e2(1) Some retry_is_number [of c2 t] b(1) by force
  qed
qed

text \<open>One request in the hour from 7200; another one is refused and told to come back two hours later.\<close>

definition ex_rl :: keyspace where
  "ex_rl = [rl_key ''u'' GRph 7200 \<mapsto> (RStr (FInt 1), Some 7200)]"

lemma ex_rl_count: "0 \<le> n \<Longrightarrow> ks_count ex_rl (rl_key ''u'' name n) = (if name = GRph \<and> n = 7200 then 1 else 0)"
  using rl_key_inj [of n 7200 "''u''" GRph] rl_key_windows [of name GRph "''u''" n 7200]
  by (auto simp: ex_rl_def ks_count_def)

lemma ex_rl_typed: "rl_typed ex_rl ''u''"
  by (auto simp: rl_typed_def ex_rl_def ks_count_def counter_at_def)

lemma ex_rl_refused: "enforce_checks mem_redis ''u'' [(GRph, 1)] 7200 (calm ex_rl) =
    (Inl (TooManyRequests GRph 1 7200), snd (enforce_checks mem_redis ''u'' [(GRph, 1)] 7200 (calm ex_rl)))"
    "0 \<le> n \<Longrightarrow> ks_count (wd_srv (snd (enforce_checks mem_redis ''u'' [(GRph, 1)] 7200 (calm ex_rl)))) (rl_key ''u'' GRph n) =
      ks_count ex_rl (rl_key ''u'' GRph n)"
proof -
  have sees: "rl_sees ex_rl ''u'' 7200 (GRph, 1) = \<lparr>ct_name = GRph, ct_limit = 1, ct_width_s = 3600, ct_start = 7200,
      ct_previous = 0, ct_current = 2, ct_count = 2\<rparr>"
    by (simp add: rl_sees_def Let_def bucket_start_def ex_rl_count)
  have retry: "rl_retry_after_s \<lparr>ct_name = GRph, ct_limit = 1, ct_width_s = 3600, ct_start = 7200,
      ct_previous = 0, ct_current = 2, ct_count = 2\<rparr> 7200 = Inr 7200"
    by (simp add: rl_retry_after_s_def Let_def at_least_one_def)
  have u: "seg_ok ''u''" by (simp add: seg_ok_def isspace_def)
  have ty: "counter_at (wd_srv (calm ex_rl)) (rl_key ''u'' name n)" for name n using ex_rl_typed by (simp add: rl_typed_def)
  note e = mem.enforce_quiet [OF u quiet_calm, of "[(GRph, 1)]" 7200 ex_rl, OF _ _ _ ty, simplified, unfolded sees, simplified first_over_def, simplified retry, simplified]
  show "enforce_checks mem_redis ''u'' [(GRph, 1)] 7200 (calm ex_rl) =
    (Inl (TooManyRequests GRph 1 7200), snd (enforce_checks mem_redis ''u'' [(GRph, 1)] 7200 (calm ex_rl)))"
    using e by (simp add: prod_eq_iff retry)
  show "0 \<le> n \<Longrightarrow> ks_count (wd_srv (snd (enforce_checks mem_redis ''u'' [(GRph, 1)] 7200 (calm ex_rl)))) (rl_key ''u'' GRph n) =
      ks_count ex_rl (rl_key ''u'' GRph n)"
    using e by (simp add: rl_plus_def)
qed

theorem retry_after_suffices_witness:
  "fst (enforce_checks mem_redis ''u'' [(GRph, 1)] 7200 (calm ex_rl)) = Inl (TooManyRequests GRph 1 7200) \<and>
   fst (enforce_checks mem_redis ''u'' [(GRph, 1)] 14400 (calm ex_rl)) = Inr ()"
proof
  show "fst (enforce_checks mem_redis ''u'' [(GRph, 1)] 7200 (calm ex_rl)) = Inl (TooManyRequests GRph 1 7200)"
    using ex_rl_refused(1) by (simp add: prod_eq_iff)
  have "bucket_start GRph 7200 = 7200" by (simp add: bucket_start_def)
  then show "fst (enforce_checks mem_redis ''u'' [(GRph, 1)] 14400 (calm ex_rl)) = Inr ()"
    using retry_after_suffices [OF mem_redis_server quiet_calm quiet_calm _ _ _ _ _ ex_rl_refused(1), of ex_rl 14400]
    by (auto simp: ex_rl_typed ex_rl_count ex_rl_refused(2))
qed

text \<open>
  Where the hint falls short: it is computed for the first window that is over. A user over both the minute and the
  daily limit is told to come back in two minutes, does, and is refused again.
\<close>

definition ex_two :: keyspace where
  "ex_two = [rl_key ''u'' GRpm 172800 \<mapsto> (RStr (FInt 1), Some 120), rl_key ''u'' GRpd 172800 \<mapsto> (RStr (FInt 1), Some 172800)]"

definition ex_who :: Principal where
  "ex_who = \<lparr>pr_user_id = ''u'', pr_auth_method = Am_session, pr_api_key_id = None, pr_tier = ''free''\<rparr>"

definition ex_tiers :: "string \<rightharpoonup> GatewayLimits" where
  "ex_tiers = [''free'' \<mapsto> \<lparr>gl_rpm = 1, gl_rpd = 1, gl_shared_pool_daily_cap = None\<rparr>]"

lemma ex_two_count: "0 \<le> n \<Longrightarrow> ks_count ex_two (rl_key ''u'' name n) =
    (if (name = GRpm \<or> name = GRpd) \<and> n = 172800 then 1 else 0)"
  using rl_key_inj [of n 172800 "''u''"] rl_key_windows [of _ _ "''u''" n 172800]
  by (cases name) (auto simp: ex_two_def ks_count_def)

lemma ex_two_typed: "counter_at (wd_srv (calm ex_two)) (rl_key ''u'' name n)"
  by (auto simp: ex_two_def counter_at_def)

theorem hint_ignores_other_window:
  "fst (enforce mem_redis ex_tiers ex_who 172800 (calm ex_two)) = Inl (TooManyRequests GRpm 1 120)"
  "\<exists>n. fst (enforce mem_redis ex_tiers ex_who (172800 + 120) (calm ex_two)) = Inl (TooManyRequests GRpd 1 n)"
proof -
  have u: "seg_ok ''u''" by (simp add: seg_ok_def isspace_def)
  note eq = mem.enforce_quiet(1) [OF u quiet_calm, of "[(GRpm, 1), (GRpd, 1)]" _ ex_two, OF _ _ _ ex_two_typed]
  have e: "enforce mem_redis ex_tiers ex_who now w = enforce_checks mem_redis ''u'' [(GRpm, 1), (GRpd, 1)] now w" for now w
    by (simp add: enforce_def ex_tiers_def ex_who_def)
  show "fst (enforce mem_redis ex_tiers ex_who 172800 (calm ex_two)) = Inl (TooManyRequests GRpm 1 120)"
    by (simp add: e eq first_over_def rl_sees_def Let_def bucket_start_def ex_two_count rl_retry_after_s_def at_least_one_def)
  have "bucket_start GRpm 172920 = 172920" "bucket_start GRpd 172920 = 172800"
    using bucket_start_unique [of 2882 GRpm 172920] bucket_start_unique [of 2 GRpd 172920] by simp_all
  then show "\<exists>n. fst (enforce mem_redis ex_tiers ex_who (172800 + 120) (calm ex_two)) = Inl (TooManyRequests GRpd 1 n)"
    by (simp add: e eq first_over_def rl_sees_def Let_def ex_two_count rl_retry_after_s_def at_least_one_def)
qed

subsection \<open>Any number of workers on one bucket\<close>

text \<open>
  The requests of one user that fall into one bucket of one window, with key \<open>k\<close> and limit \<open>L\<close>. A state is the server,
  the number of requests admitted after being counted in this bucket, and the number of refused ones whose refund has
  not run yet. Each rule is one atomic command, or something elsewhere that leaves this counter's value alone; the key
  does not expire while its bucket is in use.
\<close>

inductive limiter_step :: "'r redis \<Rightarrow> ('r \<Rightarrow> keyspace) \<Rightarrow> string \<Rightarrow> int \<Rightarrow> 'r \<times> nat \<times> nat \<Rightarrow> 'r \<times> nat \<times> nat \<Rightarrow> bool"
  for R view k L where
  admitted: "cmd_incr R k 1 s = (reply, s') \<Longrightarrow> i < length checks \<Longrightarrow> snd (checks ! i) = L \<Longrightarrow>
     rs ! (3 * i) = reply \<Longrightarrow> counted_of checks now rs = Inr counted \<Longrightarrow> 0 \<le> ct_previous (counted ! i) \<Longrightarrow>
     first_over counted = None \<Longrightarrow> limiter_step R view k L (s, a, b) (s', Suc a, b)"
| refused: "cmd_incr R k 1 s = (reply, s') \<Longrightarrow> limiter_step R view k L (s, a, b) (s', a, Suc b)"
| refunded: "cmd_incr R k (-1) s = (reply, s') \<Longrightarrow> limiter_step R view k L (s, a, Suc b) (s', a, b)"
| refund_failed: "limiter_step R view k L (s, a, Suc b) (s, a, b)"
| reply_lost: "cmd_incr R k 1 s = (reply, s') \<Longrightarrow> limiter_step R view k L (s, a, b) (s', a, b)"
| elsewhere: "counter_at (view s') k \<Longrightarrow> ks_count (view s') k = ks_count (view s) k \<Longrightarrow> limiter_step R view k L (s, a, b) (s', a, b)"

lemma counted_of_nth:
  assumes "counted_of checks now rs = Inr counted" "i < length checks"
  shows "length counted = length checks \<and> ct_limit (counted ! i) = snd (checks ! i) \<and>
    (\<exists>f. 0 \<le> f \<and> f \<le> 1 \<and> ct_count (counted ! i) = of_int (ct_previous (counted ! i)) * (1 - f) + of_int (ct_current (counted ! i))) \<and>
    py_int (rs ! (3 * i)) = Inr (ct_current (counted ! i))"
  using assms
proof (induction checks now rs arbitrary: counted i rule: counted_of.induct)
  case (2 name limit checks now a b c results)
  from 2(2) obtain cur prev n rest where r: "py_int a = Inr cur" "py_int_or_0 c = Inr prev"
    "sliding_count prev cur ((now - of_int (bucket_start name now)) / of_int (RATE_LIMIT_WINDOW_S name)) = Inr n"
    "counted_of checks now results = Inr rest"
    "counted = \<lparr>ct_name = name, ct_limit = limit, ct_width_s = RATE_LIMIT_WINDOW_S name, ct_start = bucket_start name now,
       ct_previous = prev, ct_current = cur, ct_count = n\<rparr> # rest"
    by (auto simp: Let_def ebind_Inr_iff)
  show ?case
  proof (cases i)
    case 0
    have "length rest = length checks"
      using 2(1) [OF refl refl r(4), of 0] r(4) by (cases checks) auto
    moreover have "\<exists>f. 0 \<le> f \<and> f \<le> 1 \<and> n = of_int prev * (1 - f) + of_int cur"
      using r(3) by (auto simp: sliding_count_def split: if_splits)
    ultimately show ?thesis using r 0 by simp
  next
    case (Suc j)
    then show ?thesis using 2(1) [OF refl refl r(4), of j] r 2(3) by simp
  qed
qed auto

text \<open>A request that no window refuses saw no more than the limit in its bucket.\<close>

lemma not_over_within:
  assumes "counted_of checks now rs = Inr counted" "i < length checks" "0 \<le> ct_previous (counted ! i)" "first_over counted = None"
  shows "ct_current (counted ! i) \<le> snd (checks ! i)"
proof -
  note n = counted_of_nth [OF assms(1,2)]
  obtain f where f: "0 \<le> f" "f \<le> 1" "ct_count (counted ! i) = of_int (ct_previous (counted ! i)) * (1 - f) + of_int (ct_current (counted ! i))"
    using n by blast
  have "counted ! i \<in> set counted" using assms(2) n by simp
  then have "ct_count (counted ! i) \<le> of_int (ct_limit (counted ! i))"
    using assms(4) by (simp add: first_over_def find_None_iff)
  moreover have "0 \<le> of_int (ct_previous (counted ! i)) * (1 - f)" using assms(3) f by simp
  ultimately have "of_int (ct_current (counted ! i)) \<le> (of_int (snd (checks ! i)) :: rat)" using f(3) n by simp
  then show ?thesis by simp
qed

definition limiter_inv :: "('r \<Rightarrow> keyspace) \<Rightarrow> string \<Rightarrow> int \<Rightarrow> 'r \<times> nat \<times> nat \<Rightarrow> bool" where
  "limiter_inv view k L st \<longleftrightarrow> (case st of (s, a, b) \<Rightarrow> counter_at (view s) k \<and> int a + int b \<le> ks_count (view s) k \<and> int a \<le> max 0 L)"

lemma limiter_step_inv:
  assumes srv: "redis_server R view" and st: "limiter_step R view k L x y" and inv: "limiter_inv view k L x"
  shows "limiter_inv view k L y"
  using st inv
proof cases
  case (admitted s reply s' i checks rs now counted a b)
  have c: "counter_at (view s) k" using inv admitted(1) by (simp add: limiter_inv_def)
  note eff = redis_server.incr_count [OF srv c, of 1]
  have r: "reply = Some (FInt (ks_count (view s) k + 1))" "s' = snd (rd_incrby R k 1 s)"
    using admitted(3) eff(1) [unfolded prod_eq_iff] by (auto simp: cmd_incr_def split_beta)
  have "ct_current (counted ! i) \<le> L" using not_over_within [OF admitted(7,4,8,9)] admitted(5) by simp
  moreover have "ct_current (counted ! i) = ks_count (view s) k + 1"
    using counted_of_nth [OF admitted(7,4)] admitted(6) r by simp
  ultimately show ?thesis using inv admitted(1,2) r eff(2,3) by (simp add: limiter_inv_def)
next
  case (refunded s reply s' a b)
  have c: "counter_at (view s) k" using inv refunded(1) by (simp add: limiter_inv_def)
  have "s' = snd (rd_incrby R k (-1) s)" using refunded(3) by (simp add: cmd_incr_def split_beta)
  then show ?thesis using inv refunded(1,2) redis_server.incr_count(2,3) [OF srv c, of "-1"] by (simp add: limiter_inv_def)
qed (use inv redis_server.incr_count(2,3) [OF srv, of _ k 1] in \<open>auto simp: limiter_inv_def cmd_incr_def split_beta\<close>)



end
