(* ===== verification/Gw_Tables.thy ===== *)
theory Gw_Tables
  imports Gw_Errors Gw_RateLimit Gw_Text
begin

text \<open>
  The rows of \<^verbatim>\<open>app/db/models.py\<close> that authentication and credentials use, and the queries on them
  (\<^verbatim>\<open>app/db/repo/users.py\<close>, \<^verbatim>\<open>api_keys.py\<close>, \<^verbatim>\<open>provider_keys.py\<close>, \<^verbatim>\<open>allocations.py\<close>). A table is the list of its rows; a
  repository function is the effect of its statement on the tables. Repositories never commit: the caller keeps the
  tables it had when it raises before its commit.
\<close>

subsection \<open>Rows\<close>

record User =
  us_id :: string
  us_email :: string
  us_email_verified :: bool
  us_tier :: string

record ApiKey =
  ak_id :: string
  ak_user_id :: string
  ak_key_hash :: string
  ak_key_prefix :: string
  ak_last_4 :: string
  ak_nickname :: "string option"
  ak_is_active :: bool
  ak_last_used_at :: "instant option"
  ak_created_at :: instant

datatype OwnerType = OwnerSystem | OwnerUser
datatype ValidationStatus = Vs_valid | Vs_invalid | Vs_unverified

record ProviderKey =
  pk_id :: string
  pk_owner_type :: OwnerType
  pk_owner_id :: "string option"
  pk_provider :: string
  pk_encrypted_key :: string
  pk_last_4 :: string
  pk_nickname :: "string option"
  pk_validation_status :: ValidationStatus
  pk_last_validated_at :: "instant option"
  pk_last_used_at :: "instant option"
  pk_is_active :: bool
  pk_created_at :: instant

record UserQuotaAllocation =
  qa_user_id :: string
  qa_provider :: string
  qa_model :: string
  qa_daily_cap :: int

record db =
  db_users :: "User list"
  db_api_keys :: "ApiKey list"
  db_provider_keys :: "ProviderKey list"
  db_allocations :: "UserQuotaAllocation list"

text \<open>\<^verbatim>\<open>UPDATE ... WHERE\<close>: the rows that match are changed, and counted.\<close>

definition update_where :: "('a \<Rightarrow> bool) \<Rightarrow> ('a \<Rightarrow> 'a) \<Rightarrow> 'a list \<Rightarrow> nat \<times> 'a list" where
  "update_where P f rows = (length (filter P rows), map (\<lambda>r. if P r then f r else r) rows)"

subsection \<open>\<^verbatim>\<open>users\<close>\<close>

definition normalize_email :: "string \<Rightarrow> string" where
  "normalize_email email = py_lower (py_strip email)"

definition get_by_id :: "db \<Rightarrow> string \<Rightarrow> User option" where
  "get_by_id d user_id = List.find (\<lambda>u. us_id u = user_id) (db_users d)"

text \<open>\<^verbatim>\<open>INSERT ... ON CONFLICT (id) DO UPDATE\<close>; the unique index on the address is the conflict that is reported.\<close>

definition upsert_from_claims :: "string \<Rightarrow> string \<Rightarrow> bool \<Rightarrow> db \<Rightarrow> (HttpError + User \<times> db)" where
  "upsert_from_claims user_id email email_verified d =
    (let normalized = normalize_email email
     in if list_ex (\<lambda>u. us_email u = normalized \<and> us_id u \<noteq> user_id) (db_users d) then
          Inl (app_error C_Conflict (Some ''This email address is already registered to a different account.'')
                 (Some ''email_taken'') Map.empty Map.empty)
        else case get_by_id d user_id of
            None \<Rightarrow> (let u = \<lparr>us_id = user_id, us_email = normalized, us_email_verified = email_verified, us_tier = ''free''\<rparr>
                     in Inr (u, d\<lparr>db_users := db_users d @ [u]\<rparr>))
          | Some old \<Rightarrow> (let u = old\<lparr>us_email := normalized, us_email_verified := email_verified\<rparr>
                     in Inr (u, d\<lparr>db_users := map (\<lambda>r. if us_id r = user_id then u else r) (db_users d)\<rparr>)))"

subsection \<open>\<^verbatim>\<open>api_keys\<close>\<close>

definition LAST_USED_THROTTLE_S :: pyfloat where
  "LAST_USED_THROTTLE_S = 60"

text \<open>The unique index on the digest rejects a second row of the same key.\<close>

definition ak_create :: "string \<Rightarrow> instant \<Rightarrow> string \<Rightarrow> string \<Rightarrow> string \<Rightarrow> string \<Rightarrow> string option \<Rightarrow> db \<Rightarrow> (failure + ApiKey \<times> db)" where
  "ak_create new_id now user_id key_hash key_prefix last_4 nickname d =
    (if list_ex (\<lambda>k. ak_key_hash k = key_hash) (db_api_keys d) then Inl (OtherFailure ''IntegrityError'')
     else (let k = \<lparr>ak_id = new_id, ak_user_id = user_id, ak_key_hash = key_hash, ak_key_prefix = key_prefix, ak_last_4 = last_4,
                    ak_nickname = nickname, ak_is_active = True, ak_last_used_at = None, ak_created_at = now\<rparr>
           in Inr (k, d\<lparr>db_api_keys := db_api_keys d @ [k]\<rparr>)))"

definition ak_list_for_user :: "string \<Rightarrow> db \<Rightarrow> ApiKey list" where
  "ak_list_for_user user_id d =
     rev (sort_key ak_created_at (rev (filter (\<lambda>k. ak_user_id k = user_id) (db_api_keys d))))"

definition get_active_with_user :: "string \<Rightarrow> db \<Rightarrow> (ApiKey \<times> User) option" where
  "get_active_with_user key_hash d =
    (case [(k, u). k \<leftarrow> db_api_keys d, u \<leftarrow> db_users d, us_id u = ak_user_id k, ak_key_hash k = key_hash \<and> ak_is_active k] of
       [] \<Rightarrow> None | x # _ \<Rightarrow> Some x)"

definition revoke :: "string \<Rightarrow> string \<Rightarrow> db \<Rightarrow> bool \<times> db" where
  "revoke key_id user_id d =
    (let (n, rows) = update_where (\<lambda>k. ak_id k = key_id \<and> ak_user_id k = user_id) (\<lambda>k. k\<lparr>ak_is_active := False\<rparr>) (db_api_keys d)
     in (n > 0, d\<lparr>db_api_keys := rows\<rparr>))"

definition stale :: "instant \<Rightarrow> instant option \<Rightarrow> bool" where
  "stale now last_used = (case last_used of None \<Rightarrow> True | Some t \<Rightarrow> t < now - LAST_USED_THROTTLE_S)"

definition ak_touch_last_used :: "string \<Rightarrow> instant \<Rightarrow> db \<Rightarrow> db" where
  "ak_touch_last_used key_id now d = d\<lparr>db_api_keys :=
     snd (update_where (\<lambda>k. ak_id k = key_id \<and> stale now (ak_last_used_at k)) (\<lambda>k. k\<lparr>ak_last_used_at := Some now\<rparr>) (db_api_keys d))\<rparr>"

subsection \<open>\<^verbatim>\<open>provider_keys\<close> and \<^verbatim>\<open>user_quota_allocations\<close>\<close>

definition owned_by :: "string \<Rightarrow> ProviderKey \<Rightarrow> bool" where
  "owned_by user_id k \<longleftrightarrow> pk_owner_type k = OwnerUser \<and> pk_owner_id k = Some user_id"

definition list_active_for_user :: "string \<Rightarrow> db \<Rightarrow> ProviderKey list" where
  "list_active_for_user user_id d = filter (\<lambda>k. owned_by user_id k \<and> pk_is_active k) (db_provider_keys d)"

text \<open>\<^verbatim>\<open>scalar_one_or_none\<close> raises when two rows match.\<close>

definition get_active :: "string \<Rightarrow> string \<Rightarrow> db \<Rightarrow> (failure + ProviderKey option)" where
  "get_active user_id provider d =
    (case filter (\<lambda>k. owned_by user_id k \<and> pk_provider k = provider \<and> pk_is_active k) (db_provider_keys d) of
       [] \<Rightarrow> Inr None | [k] \<Rightarrow> Inr (Some k) | _ \<Rightarrow> Inl (OtherFailure ''MultipleResultsFound''))"

definition pk_deactivate :: "string \<Rightarrow> string \<Rightarrow> db \<Rightarrow> bool \<times> db" where
  "pk_deactivate user_id provider d =
    (let (n, rows) = update_where (\<lambda>k. owned_by user_id k \<and> pk_provider k = provider) (\<lambda>k. k\<lparr>pk_is_active := False\<rparr>) (db_provider_keys d)
     in (n > 0, d\<lparr>db_provider_keys := rows\<rparr>))"

definition pk_upsert :: "string \<Rightarrow> instant \<Rightarrow> string \<Rightarrow> string \<Rightarrow> string \<Rightarrow> string \<Rightarrow> string option \<Rightarrow> ValidationStatus \<Rightarrow> instant option \<Rightarrow>
    db \<Rightarrow> ProviderKey \<times> db" where
  "pk_upsert new_id now user_id provider encrypted_key last_4 nickname validation_status last_validated_at d =
    (let d1 = snd (pk_deactivate user_id provider d);
         k = \<lparr>pk_id = new_id, pk_owner_type = OwnerUser, pk_owner_id = Some user_id, pk_provider = provider,
              pk_encrypted_key = encrypted_key, pk_last_4 = last_4, pk_nickname = nickname, pk_validation_status = validation_status,
              pk_last_validated_at = last_validated_at, pk_last_used_at = None, pk_is_active = True, pk_created_at = now\<rparr>
     in (k, d1\<lparr>db_provider_keys := db_provider_keys d1 @ [k]\<rparr>))"

definition pk_touch_last_used :: "string \<Rightarrow> instant \<Rightarrow> db \<Rightarrow> db" where
  "pk_touch_last_used key_id now d = d\<lparr>db_provider_keys :=
     snd (update_where (\<lambda>k. pk_id k = key_id \<and> stale now (pk_last_used_at k)) (\<lambda>k. k\<lparr>pk_last_used_at := Some now\<rparr>) (db_provider_keys d))\<rparr>"

definition mark_invalid :: "string \<Rightarrow> db \<Rightarrow> db" where
  "mark_invalid key_id d = d\<lparr>db_provider_keys :=
     snd (update_where (\<lambda>k. pk_id k = key_id) (\<lambda>k. k\<lparr>pk_validation_status := Vs_invalid\<rparr>) (db_provider_keys d))\<rparr>"

definition record_validation_result :: "string \<Rightarrow> bool \<Rightarrow> instant \<Rightarrow> db \<Rightarrow> db" where
  "record_validation_result key_id valid validated_at d = d\<lparr>db_provider_keys :=
     snd (update_where (\<lambda>k. pk_id k = key_id)
       (\<lambda>k. k\<lparr>pk_validation_status := (if valid then Vs_valid else Vs_invalid), pk_last_validated_at := Some validated_at\<rparr>)
       (db_provider_keys d))\<rparr>"

definition qa_list_for_user :: "string \<Rightarrow> db \<Rightarrow> UserQuotaAllocation list" where
  "qa_list_for_user user_id d = filter (\<lambda>a. qa_user_id a = user_id) (db_allocations d)"

definition get_cap :: "string \<Rightarrow> string \<Rightarrow> string \<Rightarrow> db \<Rightarrow> (failure + int option)" where
  "get_cap user_id provider model d =
    (case filter (\<lambda>a. qa_user_id a = user_id \<and> qa_provider a = provider \<and> qa_model a = model) (db_allocations d) of
       [] \<Rightarrow> Inr None | [a] \<Rightarrow> Inr (Some (qa_daily_cap a)) | _ \<Rightarrow> Inl (OtherFailure ''MultipleResultsFound''))"

subsection \<open>What the indexes of the schema guarantee\<close>

text \<open>Primary keys, the unique digest and address, and the partial index: one live key per user and provider.\<close>

definition live_slot :: "ProviderKey \<Rightarrow> (string \<times> string) option" where
  "live_slot k = (if pk_owner_type k = OwnerUser \<and> pk_is_active k then
     (case pk_owner_id k of Some u \<Rightarrow> Some (u, pk_provider k) | None \<Rightarrow> None) else None)"

definition db_ok :: "db \<Rightarrow> bool" where
  "db_ok d \<longleftrightarrow> distinct (map us_id (db_users d)) \<and> distinct (map us_email (db_users d)) \<and>
     distinct (map ak_id (db_api_keys d)) \<and> distinct (map ak_key_hash (db_api_keys d)) \<and>
     distinct (map pk_id (db_provider_keys d)) \<and> distinct (List.map_filter live_slot (db_provider_keys d)) \<and>
     distinct (map (\<lambda>a. (qa_user_id a, qa_provider a, qa_model a)) (db_allocations d))"

end
