(* ===== verification/Gw_Auth.thy ===== *)
theory Gw_Auth
  imports Gw_Tables
begin

text \<open>
  Authentication: the signing-key cache and token checks of \<^verbatim>\<open>app/auth/jwt.py\<close>, gateway API keys
  (\<^verbatim>\<open>app/auth/api_keys.py\<close>), the dependency that turns a request into a principal (\<^verbatim>\<open>app/auth/dependency.py\<close>) and the
  endpoints that manage gateway keys (\<^verbatim>\<open>app/api/keys.py\<close>). The JOSE library, SHA-256 and the random source are
  parameters.
\<close>

subsection \<open>Refusals\<close>

definition invalid_token :: HttpError where
  "invalid_token = app_error C_Unauthenticated (Some ''The provided session token is not valid.'') (Some ''invalid_token'') Map.empty Map.empty"

definition unauthenticated :: "string \<Rightarrow> string \<Rightarrow> HttpError" where
  "unauthenticated message code = app_error C_Unauthenticated (Some message) (Some code) Map.empty Map.empty"

subsection \<open>The signing keys\<close>

type_synonym jdict = "(string \<times> json) list"

definition JWKS_TTL_S :: pyfloat where "JWKS_TTL_S = 12 * 60 * 60"
definition JWKS_MIN_REFRESH_INTERVAL_S :: pyfloat where "JWKS_MIN_REFRESH_INTERVAL_S = 60"

definition ALLOWED_ALGORITHMS :: "string list" where
  "ALLOWED_ALGORITHMS = [''ES256'', ''RS256'']"

text \<open>\<^verbatim>\<open>value in frozenset\<close> of texts: a list or an object is not hashable and raises.\<close>

fun allowed_algorithm :: "json \<Rightarrow> failure + bool" where
  "allowed_algorithm (JStr s) = Inr (s \<in> set ALLOWED_ALGORITHMS)"
| "allowed_algorithm (JArr _) = Inl (OtherFailure ''TypeError'')"
| "allowed_algorithm (JObj _) = Inl (OtherFailure ''TypeError'')"
| "allowed_algorithm _ = Inr False"

record JwksCache =
  jc_ttl_s :: pyfloat
  jc_min_refresh_interval_s :: pyfloat
  jc_keys :: "string \<rightharpoonup> jdict"
  jc_fetched_at :: "instant option"
  jc_last_attempt_at :: "instant option"

definition new_jwks_cache :: JwksCache where
  "new_jwks_cache = \<lparr>jc_ttl_s = JWKS_TTL_S, jc_min_refresh_interval_s = JWKS_MIN_REFRESH_INTERVAL_S, jc_keys = Map.empty,
     jc_fetched_at = None, jc_last_attempt_at = None\<rparr>"

text \<open>The document's keys: those with a text \<open>kid\<close> and an algorithm that is accepted; a later one wins.\<close>

fun usable_keys :: "json list \<Rightarrow> failure + (string \<rightharpoonup> jdict)" where
  "usable_keys [] = Inr Map.empty"
| "usable_keys (JObj key # rest) =
    (case jget key ''kid'' of
       JStr kid \<Rightarrow> ebind (allowed_algorithm (jget key ''alg'')) (\<lambda>ok. ebind (usable_keys rest) (\<lambda>keys.
                     Inr (if ok then setdefault keys kid key else keys)))
     | _ \<Rightarrow> usable_keys rest)"
| "usable_keys (_ # rest) = usable_keys rest"

text \<open>The response to the fetch: an HTTP error, a body that is not JSON, or a document. A \<^verbatim>\<open>ValueError\<close> and an HTTP error
  are handled alike.\<close>

datatype jwks_response = FetchError | JwksDocument json

definition fetch :: "jwks_response \<Rightarrow> failure + (string \<rightharpoonup> jdict) option" where
  "fetch response = (case response of
      FetchError \<Rightarrow> Inr None
    | JwksDocument (JObj doc) \<Rightarrow>
        (case jget doc ''keys'' of
           JArr (k # ks) \<Rightarrow> ebind (usable_keys (k # ks)) (\<lambda>keys. Inr (if keys = Map.empty then None else Some keys))
         | _ \<Rightarrow> Inr None)
    | JwksDocument _ \<Rightarrow> Inr None)"

definition jwks_unavailable :: HttpError where
  "jwks_unavailable = app_error C_ServiceUnavailable (Some ''Authentication is temporarily unavailable.'') (Some ''jwks_unavailable'') Map.empty Map.empty"

definition cached_key :: "string \<Rightarrow> instant \<Rightarrow> JwksCache \<Rightarrow> jdict option" where
  "cached_key kid now c = (case jc_fetched_at c of
      None \<Rightarrow> None
    | Some t \<Rightarrow> if now - t \<ge> jc_ttl_s c then None else jc_keys c kid)"

text \<open>
  One call of \<open>_refresh\<close> once it holds the lock: the clock before queueing, inside, and after the fetch, and the
  response, if a request is sent.
\<close>

record refresh_call =
  rc_waiting_since :: instant
  rc_now :: instant
  rc_done :: instant
  rc_response :: jwks_response

definition refresh_attempts :: "refresh_call \<Rightarrow> JwksCache \<Rightarrow> bool" where
  "refresh_attempts r c \<longleftrightarrow>
     \<not> (case jc_fetched_at c of Some t \<Rightarrow> t \<ge> rc_waiting_since r | None \<Rightarrow> False) \<and>
     \<not> (case jc_last_attempt_at c of Some t \<Rightarrow> rc_now r - t < jc_min_refresh_interval_s c | None \<Rightarrow> False)"

definition jwks_refresh :: "refresh_call \<Rightarrow> JwksCache \<Rightarrow> (failure + unit) \<times> JwksCache" where
  "jwks_refresh r c =
    (if \<not> refresh_attempts r c then (Inr (), c)
     else (let c1 = c\<lparr>jc_last_attempt_at := Some (rc_now r)\<rparr>
           in case fetch (rc_response r) of
                Inl e \<Rightarrow> (Inl e, c1)
              | Inr None \<Rightarrow> (if jc_keys c1 = Map.empty then Inl (AppFailure jwks_unavailable) else Inr (), c1)
              | Inr (Some keys) \<Rightarrow> (Inr (), c1\<lparr>jc_keys := keys, jc_fetched_at := Some (rc_done r)\<rparr>)))"

text \<open>\<open>meanwhile\<close> is what other callers did to the cache while this one queued on the lock.\<close>

definition get_key :: "string \<Rightarrow> instant \<Rightarrow> (JwksCache \<Rightarrow> JwksCache) \<Rightarrow> refresh_call \<Rightarrow> JwksCache \<Rightarrow> (failure + jdict) \<times> JwksCache" where
  "get_key kid now meanwhile r c =
    (case cached_key kid now c of
       Some key \<Rightarrow> (Inr key, c)
     | None \<Rightarrow>
         (case jwks_refresh r (meanwhile c) of
            (Inl e, c1) \<Rightarrow> (Inl e, c1)
          | (Inr _, c1) \<Rightarrow> (case jc_keys c1 kid of None \<Rightarrow> Inl (AppFailure invalid_token) | Some key \<Rightarrow> Inr key, c1)))"

subsection \<open>Tokens\<close>

record Claims =
  cl_sub :: string
  cl_email :: string
  cl_email_verified :: bool
  cl_exp :: int
  cl_raw :: jdict

record auth_settings =
  st_audience :: string
  st_issuer :: string
  st_require_verified_email :: bool

datatype decoded = DecodedClaims jdict | ExpiredSignature | JoseError

text \<open>\<open>jo_header\<close> is \<^verbatim>\<open>get_unverified_header\<close> (\<open>None\<close> is a \<^verbatim>\<open>JOSEError\<close>), \<open>jo_decode\<close> is \<^verbatim>\<open>jwt.decode\<close> with a key, an
  audience and an issuer.\<close>

record jose =
  jo_header :: "string \<Rightarrow> jdict option"
  jo_decode :: "string \<Rightarrow> jdict \<Rightarrow> string \<Rightarrow> string \<Rightarrow> decoded"

text \<open>\<^verbatim>\<open>bool(value)\<close>.\<close>

fun truthy :: "json \<Rightarrow> bool" where
  "truthy JNull = False"
| "truthy (JBool b) = b"
| "truthy (JInt n) = (n \<noteq> 0)"
| "truthy (JFloat x) = (x \<noteq> 0)"
| "truthy (JStr s) = (s \<noteq> [])"
| "truthy (JArr xs) = (xs \<noteq> [])"
| "truthy (JObj kvs) = (kvs \<noteq> [])"

fun audience_matches :: "json \<Rightarrow> string \<Rightarrow> bool" where
  "audience_matches (JStr s) expected \<longleftrightarrow> s = expected"
| "audience_matches (JArr xs) expected \<longleftrightarrow> JStr expected \<in> set xs"
| "audience_matches _ expected \<longleftrightarrow> False"

definition email_verified :: "jdict \<Rightarrow> bool option" where
  "email_verified claims =
    (let top = (case map_of claims ''email_verified'' of Some v \<Rightarrow> Some (truthy v) | None \<Rightarrow> None)
     in case jget claims ''user_metadata'' of
          JObj metadata \<Rightarrow> (case map_of metadata ''email_verified'' of Some v \<Rightarrow> Some (truthy v) | None \<Rightarrow> top)
        | _ \<Rightarrow> top)"

fun exp_of :: "json \<Rightarrow> int" where
  "exp_of (JInt n) = n"
| "exp_of (JFloat x) = py_int_of_float x"
| "exp_of (JBool b) = (if b then 1 else 0)"
| "exp_of _ = 0"

text \<open>\<open>uuid_of\<close> is the \<^verbatim>\<open>UUID\<close> constructor followed by \<^verbatim>\<open>str\<close>: the canonical text, or \<open>None\<close> for its \<^verbatim>\<open>ValueError\<close>.\<close>

definition claims_from :: "(string \<Rightarrow> string option) \<Rightarrow> auth_settings \<Rightarrow> jdict \<Rightarrow> HttpError + Claims" where
  "claims_from uuid_of settings claims =
    (if \<not> audience_matches (jget claims ''aud'') (st_audience settings) then Inl invalid_token
     else if jget claims ''is_anonymous'' = JBool True then Inl invalid_token
     else case jget claims ''sub'' of
         JStr raw_sub \<Rightarrow>
           (case uuid_of raw_sub of
              None \<Rightarrow> Inl invalid_token
            | Some sub \<Rightarrow>
                (case jget claims ''email'' of
                   JStr (e # es) \<Rightarrow>
                     (let claims_with = (\<lambda>verified. \<lparr>cl_sub = sub, cl_email = e # es, cl_email_verified = verified,
                            cl_exp = exp_of (jget claims ''exp''), cl_raw = claims\<rparr>)
                      in case email_verified claims of
                           None \<Rightarrow> if st_require_verified_email settings
                             then Inl (unauthenticated ''Confirm your email address to continue.'' ''email_not_verified'')
                             else Inr (claims_with False)
                         | Some v \<Rightarrow> if \<not> v \<and> st_require_verified_email settings
                             then Inl (unauthenticated ''Confirm your email address to continue. Check your inbox for the link.'' ''email_not_verified'')
                             else Inr (claims_with v))
                 | _ \<Rightarrow> Inl invalid_token))
       | _ \<Rightarrow> Inl invalid_token)"

record auth_env =
  ae_jose :: jose
  ae_settings :: auth_settings
  ae_uuid_of :: "string \<Rightarrow> string option"
  ae_sha256 :: "string \<Rightarrow> string"
  ae_now :: instant
  ae_meanwhile :: "JwksCache \<Rightarrow> JwksCache"
  ae_refresh :: refresh_call

definition verify_token :: "auth_env \<Rightarrow> string \<Rightarrow> JwksCache \<Rightarrow> (failure + Claims) \<times> JwksCache" where
  "verify_token env token c =
    (case jo_header (ae_jose env) token of
       None \<Rightarrow> (Inl (AppFailure invalid_token), c)
     | Some header \<Rightarrow>
         (case allowed_algorithm (jget header ''alg'') of
            Inl e \<Rightarrow> (Inl e, c)
          | Inr False \<Rightarrow> (Inl (AppFailure invalid_token), c)
          | Inr True \<Rightarrow>
              (case jget header ''kid'' of
                 JStr (k # ks) \<Rightarrow>
                   (case get_key (k # ks) (ae_now env) (ae_meanwhile env) (ae_refresh env) c of
                      (Inl e, c1) \<Rightarrow> (Inl e, c1)
                    | (Inr key, c1) \<Rightarrow>
                        (case jo_decode (ae_jose env) token key (st_audience (ae_settings env)) (st_issuer (ae_settings env)) of
                           ExpiredSignature \<Rightarrow> Inl (AppFailure (unauthenticated ''Your session has expired. Sign in again.'' ''token_expired''))
                         | JoseError \<Rightarrow> Inl (AppFailure invalid_token)
                         | DecodedClaims claims \<Rightarrow>
                             (case claims_from (ae_uuid_of env) (ae_settings env) claims of
                                Inl e \<Rightarrow> Inl (AppFailure e) | Inr cl \<Rightarrow> Inr cl), c1))
               | _ \<Rightarrow> (Inl (AppFailure invalid_token), c))))"

subsection \<open>Gateway API keys\<close>

definition KEY_PREFIX :: string where "KEY_PREFIX = ''gw_live_''"
definition KEY_SECRET_LENGTH :: nat where "KEY_SECRET_LENGTH = 32"
definition LAST_4_LENGTH :: nat where "LAST_4_LENGTH = 4"

definition BASE62_ALPHABET :: string where
  "BASE62_ALPHABET = ''abcdefghijklmnopqrstuvwxyzABCDEFGHIJKLMNOPQRSTUVWXYZ0123456789''"

text \<open>\<open>choice i\<close> is the random source's \<open>i\<close>-th pick, an index into the alphabet.\<close>

definition generate_secret :: "(nat \<Rightarrow> nat) \<Rightarrow> nat \<Rightarrow> string exn" where
  "generate_secret choice n = (if n = 0 then Inl ValueError
     else Inr (map (\<lambda>i. BASE62_ALPHABET ! (choice i mod length BASE62_ALPHABET)) [0..<n]))"

record GeneratedKey =
  gk_plaintext :: string
  gk_key_hash :: string
  gk_key_prefix :: string
  gk_last_4 :: string

definition hash_api_key :: "(string \<Rightarrow> string) \<Rightarrow> string \<Rightarrow> string" where
  "hash_api_key sha256_hex plaintext = sha256_hex plaintext"

definition generate_api_key :: "(string \<Rightarrow> string) \<Rightarrow> (nat \<Rightarrow> nat) \<Rightarrow> GeneratedKey exn" where
  "generate_api_key sha256_hex choice = ebind (generate_secret choice KEY_SECRET_LENGTH) (\<lambda>secret.
     (let plaintext = KEY_PREFIX @ secret
      in Inr \<lparr>gk_plaintext = plaintext, gk_key_hash = hash_api_key sha256_hex plaintext, gk_key_prefix = KEY_PREFIX,
              gk_last_4 = py_last LAST_4_LENGTH plaintext\<rparr>))"

definition ascii_alnum :: "char \<Rightarrow> bool" where
  "ascii_alnum c = (let n = (of_char c :: nat) in (48 \<le> n \<and> n \<le> 57) \<or> (65 \<le> n \<and> n \<le> 90) \<or> (97 \<le> n \<and> n \<le> 122))"

definition parse_api_key :: "string option \<Rightarrow> string option" where
  "parse_api_key raw = (case raw of
      None \<Rightarrow> None
    | Some r \<Rightarrow>
        (let candidate = py_strip r; secret = drop (length KEY_PREFIX) candidate
         in if length candidate \<noteq> length KEY_PREFIX + KEY_SECRET_LENGTH then None
            else if \<not> py_startswith candidate KEY_PREFIX then None
            else if \<not> list_all ascii_alnum secret then None
            else Some candidate))"

definition verify_api_key :: "(string \<Rightarrow> string) \<Rightarrow> string \<Rightarrow> string \<Rightarrow> bool" where
  "verify_api_key sha256_hex plaintext stored_hash \<longleftrightarrow> hash_api_key sha256_hex plaintext = stored_hash"

subsection \<open>The principal of a request\<close>

text \<open>\<^verbatim>\<open>header.partition(" ")\<close>: the text before the first space, and the text after it.\<close>

definition bearer_token :: "string option \<Rightarrow> HttpError + string option" where
  "bearer_token header = (case header of
      None \<Rightarrow> Inr None
    | Some h \<Rightarrow>
        (let scheme = takeWhile (\<lambda>c. c \<noteq> CHR '' '') h; token = drop (Suc (length scheme)) h
         in if py_lower scheme \<noteq> ''bearer'' \<or> py_strip token = []
            then Inl (unauthenticated ''The Authorization header must be of the form 'Bearer <token>'.'' ''invalid_authorization_header'')
            else Inr (Some (py_strip token))))"

definition principal_from_jwt :: "auth_env \<Rightarrow> string \<Rightarrow> JwksCache \<Rightarrow> db \<Rightarrow> (failure + Principal) \<times> JwksCache \<times> db" where
  "principal_from_jwt env token c d =
    (case verify_token env token c of
       (Inl e, c1) \<Rightarrow> (Inl e, c1, d)
     | (Inr claims, c1) \<Rightarrow>
         (case upsert_from_claims (cl_sub claims) (cl_email claims) (cl_email_verified claims) d of
            Inl e \<Rightarrow> (Inl (AppFailure e), c1, d)
          | Inr (user, d1) \<Rightarrow>
              (Inr \<lparr>pr_user_id = us_id user, pr_auth_method = Am_session, pr_api_key_id = None, pr_tier = us_tier user\<rparr>, c1, d1)))"

definition principal_from_api_key :: "auth_env \<Rightarrow> string \<Rightarrow> db \<Rightarrow> (failure + Principal) \<times> db" where
  "principal_from_api_key env presented d =
    (case get_active_with_user (hash_api_key (ae_sha256 env) presented) d of
       None \<Rightarrow> (Inl (AppFailure (unauthenticated ''The provided API key is not valid.'' ''invalid_api_key'')), d)
     | Some (api_key, user) \<Rightarrow>
         (Inr \<lparr>pr_user_id = us_id user, pr_auth_method = Am_api_key, pr_api_key_id = Some (ak_id api_key), pr_tier = us_tier user\<rparr>,
          ak_touch_last_used (ak_id api_key) (ae_now env) d))"

record http_headers =
  hh_authorization :: "string option"
  hh_x_api_key :: "string option"

definition get_principal :: "auth_env \<Rightarrow> http_headers \<Rightarrow> JwksCache \<Rightarrow> db \<Rightarrow> (failure + Principal) \<times> JwksCache \<times> db" where
  "get_principal env h c d =
    (case bearer_token (hh_authorization h) of
       Inl e \<Rightarrow> (Inl (AppFailure e), c, d)
     | Inr (Some token) \<Rightarrow> principal_from_jwt env token c d
     | Inr None \<Rightarrow>
         (case hh_x_api_key h of
            None \<Rightarrow> (Inl (AppFailure (unauthenticated
                ''Provide a Supabase session token in the Authorization header, or a gateway API key in X-API-Key.'' ''missing_credentials'')), c, d)
          | Some raw_key \<Rightarrow>
              (case parse_api_key (Some raw_key) of
                 None \<Rightarrow> (Inl (AppFailure (unauthenticated ''The provided API key is not valid.'' ''invalid_api_key'')), c, d)
               | Some presented \<Rightarrow> (case principal_from_api_key env presented d of (p, d1) \<Rightarrow> (p, c, d1)))))"

subsection \<open>Managing gateway keys\<close>

definition require_session :: "Principal \<Rightarrow> HttpError + unit" where
  "require_session p = (if is_session p then Inr ()
     else Inl (app_error C_Forbidden (Some ''API keys can only be managed from a signed-in session.'') (Some ''session_required'') Map.empty Map.empty))"

definition create_key :: "(string \<Rightarrow> string) \<Rightarrow> (nat \<Rightarrow> nat) \<Rightarrow> string \<Rightarrow> instant \<Rightarrow> Principal \<Rightarrow> string option \<Rightarrow> db \<Rightarrow>
    (failure + ApiKey \<times> string) \<times> db" where
  "create_key sha256_hex choice new_id now p nickname d =
    (case require_session p of
       Inl e \<Rightarrow> (Inl (AppFailure e), d)
     | Inr _ \<Rightarrow>
         (case generate_api_key sha256_hex choice of
            Inl _ \<Rightarrow> (Inl (OtherFailure ''ValueError''), d)
          | Inr g \<Rightarrow>
              (case ak_create new_id now (pr_user_id p) (gk_key_hash g) (gk_key_prefix g) (gk_last_4 g) nickname d of
                 Inl e \<Rightarrow> (Inl e, d)
               | Inr (k, d1) \<Rightarrow> (Inr (k, gk_plaintext g), d1))))"

definition list_keys :: "Principal \<Rightarrow> db \<Rightarrow> failure + ApiKey list" where
  "list_keys p d = (case require_session p of Inl e \<Rightarrow> Inl (AppFailure e) | Inr _ \<Rightarrow> Inr (ak_list_for_user (pr_user_id p) d))"

definition revoke_key :: "string \<Rightarrow> Principal \<Rightarrow> db \<Rightarrow> (failure + unit) \<times> db" where
  "revoke_key key_id p d =
    (case require_session p of
       Inl e \<Rightarrow> (Inl (AppFailure e), d)
     | Inr _ \<Rightarrow>
         (case revoke key_id (pr_user_id p) d of
            (False, _) \<Rightarrow> (Inl (AppFailure (app_error C_NotFound (Some ''No such API key.'') (Some ''api_key_not_found'') Map.empty Map.empty)), d)
          | (True, d1) \<Rightarrow> (Inr (), d1)))"

subsection \<open>Fetching signing keys\<close>

text \<open>The refreshes of one process run one after the other under the lock; the times at which they send a request.\<close>

fun fetch_times :: "refresh_call list \<Rightarrow> JwksCache \<Rightarrow> instant list" where
  "fetch_times [] c = []"
| "fetch_times (r # rs) c = (if refresh_attempts r c then [rc_now r] else []) @ fetch_times rs (snd (jwks_refresh r c))"

lemma jwks_refresh_state:
  "jc_min_refresh_interval_s (snd (jwks_refresh r c)) = jc_min_refresh_interval_s c"
  "jc_last_attempt_at (snd (jwks_refresh r c)) = (if refresh_attempts r c then Some (rc_now r) else jc_last_attempt_at c)"
  by (auto simp: jwks_refresh_def Let_def split: sum.splits option.splits)

lemma fetch_times_spaced:
  assumes "0 \<le> jc_min_refresh_interval_s c"
  shows "sorted_wrt (\<lambda>a b. a + jc_min_refresh_interval_s c \<le> b) (fetch_times rs c) \<and>
    (\<forall>t\<in>set (fetch_times rs c). \<forall>l. jc_last_attempt_at c = Some l \<longrightarrow> l + jc_min_refresh_interval_s c \<le> t)"
  using assms
proof (induction rs arbitrary: c)
  case (Cons r rs)
  let ?c = "snd (jwks_refresh r c)"
  have IH: "sorted_wrt (\<lambda>a b. a + jc_min_refresh_interval_s c \<le> b) (fetch_times rs ?c) \<and>
    (\<forall>t\<in>set (fetch_times rs ?c). \<forall>l. jc_last_attempt_at ?c = Some l \<longrightarrow> l + jc_min_refresh_interval_s c \<le> t)"
    using Cons.IH [of ?c] Cons.prems by (simp add: jwks_refresh_state)
  show ?case
  proof (cases "refresh_attempts r c")
    case True
    then have "l + jc_min_refresh_interval_s c \<le> rc_now r" if "jc_last_attempt_at c = Some l" for l
      using that by (simp add: refresh_attempts_def)
    then show ?thesis using IH True Cons.prems by (fastforce simp: jwks_refresh_state)
  qed (use IH in \<open>simp add: jwks_refresh_state\<close>)
qed simp

text \<open>Whatever tokens arrive, in whatever order their refreshes get the lock, and however the key server answers, two
  requests for the signing keys are never less than the configured interval apart.\<close>
theorem jwks_fetches_spaced:
  "sorted_wrt (\<lambda>a b. a + JWKS_MIN_REFRESH_INTERVAL_S \<le> b) (fetch_times rs new_jwks_cache)"
  using fetch_times_spaced [of new_jwks_cache rs] by (simp add: new_jwks_cache_def JWKS_MIN_REFRESH_INTERVAL_S_def)

text \<open>
  An outage is reported as one only once: the first request after start-up that cannot fetch the keys fails with 503;
  the next one within the interval skips the fetch, finds no key and is told that its token is invalid.
\<close>

lemma outage_reported_as_bad_token:
  assumes "rc_response r = FetchError" "rc_now r \<le> rc_now r'" "rc_now r' < rc_now r + JWKS_MIN_REFRESH_INTERVAL_S"
    "get_key kid t (\<lambda>c. c) r new_jwks_cache = (x, c)"
  shows "x = Inl (AppFailure jwks_unavailable)" "fst (get_key kid' t' (\<lambda>c. c) r' c) = Inl (AppFailure invalid_token)"
proof -
  have "x = Inl (AppFailure jwks_unavailable) \<and> c = new_jwks_cache\<lparr>jc_last_attempt_at := Some (rc_now r)\<rparr>"
    using assms(1,4)
    by (auto simp: get_key_def cached_key_def new_jwks_cache_def jwks_refresh_def refresh_attempts_def Let_def fetch_def)
  then show "x = Inl (AppFailure jwks_unavailable)" "fst (get_key kid' t' (\<lambda>c. c) r' c) = Inl (AppFailure invalid_token)"
    using assms(2,3) by (auto simp: get_key_def cached_key_def new_jwks_cache_def jwks_refresh_def refresh_attempts_def Let_def)
qed

text \<open>A token whose header names its algorithm by a list is not refused but fails the request.\<close>

lemma unhashable_algorithm_crashes:
  assumes "jo_header (ae_jose env) token = Some header" "jget header ''alg'' = JArr xs"
  shows "fst (verify_token env token c) = Inl (OtherFailure ''TypeError'')"
  using assms by (simp add: verify_token_def)

subsection \<open>Who a request is from\<close>

lemma claims_from_Inr:
  assumes "claims_from uuid_of settings claims = Inr cl"
  shows "audience_matches (jget claims ''aud'') (st_audience settings)" "jget claims ''is_anonymous'' \<noteq> JBool True"
    "\<exists>raw. jget claims ''sub'' = JStr raw \<and> uuid_of raw = Some (cl_sub cl)" "cl_email cl \<noteq> []" "jget claims ''email'' = JStr (cl_email cl)"
    "st_require_verified_email settings \<Longrightarrow> email_verified claims = Some True" "cl_raw cl = claims"
  using assms
  by (auto simp: claims_from_def Let_def split: if_splits json.splits option.splits list.splits)

text \<open>The checks a session token has passed, with a key that the cache held afterwards.\<close>

definition token_proved :: "auth_env \<Rightarrow> string \<Rightarrow> (string \<rightharpoonup> jdict) \<Rightarrow> Claims \<Rightarrow> bool" where
  "token_proved env token keys cl \<longleftrightarrow>
     (\<exists>header a kid key. jo_header (ae_jose env) token = Some header \<and> jget header ''alg'' = JStr a \<and> a \<in> set ALLOWED_ALGORITHMS \<and>
        jget header ''kid'' = JStr kid \<and> keys kid = Some key \<and>
        jo_decode (ae_jose env) token key (st_audience (ae_settings env)) (st_issuer (ae_settings env)) = DecodedClaims (cl_raw cl)) \<and>
     audience_matches (jget (cl_raw cl) ''aud'') (st_audience (ae_settings env)) \<and>
     jget (cl_raw cl) ''is_anonymous'' \<noteq> JBool True \<and>
     (\<exists>raw. jget (cl_raw cl) ''sub'' = JStr raw \<and> ae_uuid_of env raw = Some (cl_sub cl)) \<and>
     (st_require_verified_email (ae_settings env) \<longrightarrow> email_verified (cl_raw cl) = Some True)"

lemma get_key_Inr: "get_key kid now mw r c = (Inr key, c1) \<Longrightarrow> jc_keys c1 kid = Some key"
  by (auto simp: get_key_def cached_key_def split: option.split_asm if_split_asm prod.split_asm sum.split_asm)

lemma allowed_algorithm_True: "allowed_algorithm v = Inr True \<longleftrightarrow> (\<exists>s. v = JStr s \<and> s \<in> set ALLOWED_ALGORITHMS)"
  by (cases v) auto

lemma verify_token_proved:
  assumes "verify_token env token c = (Inr cl, c1)"
  shows "token_proved env token (jc_keys c1) cl"
proof -
  obtain header where h: "jo_header (ae_jose env) token = Some header"
    using assms by (auto simp: verify_token_def split: option.split_asm)
  have alg: "allowed_algorithm (jget header ''alg'') = Inr True"
    using assms h by (auto simp: verify_token_def split: sum.split_asm bool.split_asm)
  obtain k ks where kid: "jget header ''kid'' = JStr (k # ks)"
    using assms h alg by (auto simp: verify_token_def split: json.split_asm list.split_asm)
  obtain key where key: "get_key (k # ks) (ae_now env) (ae_meanwhile env) (ae_refresh env) c = (Inr key, c1)"
    using assms h alg kid by (auto simp: verify_token_def split: sum.split_asm prod.split_asm)
  obtain claims where dec: "jo_decode (ae_jose env) token key (st_audience (ae_settings env)) (st_issuer (ae_settings env)) = DecodedClaims claims"
      "claims_from (ae_uuid_of env) (ae_settings env) claims = Inr cl"
    using assms h alg kid key by (auto simp: verify_token_def split: sum.split_asm decoded.split_asm)
  show ?thesis
    unfolding token_proved_def
    using h alg kid get_key_Inr [OF key] dec claims_from_Inr [OF dec(2)] by (auto simp: allowed_algorithm_True)
qed

lemma upsert_user:
  assumes "upsert_from_claims uid email v d = Inr (u, d1)"
  shows "us_id u = uid" "us_email u = normalize_email email" "u \<in> set (db_users d1)"
    "db_api_keys d1 = db_api_keys d \<and> db_provider_keys d1 = db_provider_keys d \<and> db_allocations d1 = db_allocations d"
    "us_tier u = (case get_by_id d uid of Some old \<Rightarrow> us_tier old | None \<Rightarrow> ''free'')"
proof -
  show "us_id u = uid" "us_email u = normalize_email email"
    "db_api_keys d1 = db_api_keys d \<and> db_provider_keys d1 = db_provider_keys d \<and> db_allocations d1 = db_allocations d"
    "us_tier u = (case get_by_id d uid of Some old \<Rightarrow> us_tier old | None \<Rightarrow> ''free'')"
    using assms find_Some_in [of "\<lambda>u. us_id u = uid" "db_users d"]
    by (auto simp: upsert_from_claims_def Let_def get_by_id_def split: if_splits option.splits)
  show "u \<in> set (db_users d1)"
  proof (cases "get_by_id d uid")
    case (Some old)
    then have "old \<in> set (db_users d)" "us_id old = uid" using find_Some_in by (fastforce simp: get_by_id_def)+
    then show ?thesis using assms Some by (auto simp: upsert_from_claims_def Let_def split: if_splits)
  qed (use assms in \<open>auto simp: upsert_from_claims_def Let_def split: if_splits\<close>)
qed

lemma get_active_with_user_Some:
  assumes "get_active_with_user h d = Some (k, u)"
  shows "k \<in> set (db_api_keys d) \<and> u \<in> set (db_users d) \<and> us_id u = ak_user_id k \<and> ak_key_hash k = h \<and> ak_is_active k"
proof -
  from assms obtain rest where "[(k, u). k \<leftarrow> db_api_keys d, u \<leftarrow> db_users d, us_id u = ak_user_id k, ak_key_hash k = h \<and> ak_is_active k] = (k, u) # rest"
    by (auto simp: get_active_with_user_def split: list.split_asm)
  then have "(k, u) \<in> set [(k, u). k \<leftarrow> db_api_keys d, u \<leftarrow> db_users d, us_id u = ak_user_id k, ak_key_hash k = h \<and> ak_is_active k]"
    by simp
  then show ?thesis by (auto split: if_splits)
qed


subsection \<open>The life of a gateway key\<close>

lemma base62_alnum: "list_all ascii_alnum BASE62_ALPHABET"
  by code_simp

lemma alnum_no_space: "ascii_alnum c \<Longrightarrow> \<not> isspace c"
  by (auto simp: ascii_alnum_def isspace_def Let_def)

lemma py_strip_id: "\<not> isspace (hd s) \<Longrightarrow> \<not> isspace (last s) \<Longrightarrow> py_strip s = s"
proof (cases s)
  case (Cons c cs)
  assume "\<not> isspace (hd s)" "\<not> isspace (last s)"
  then have "dropWhile isspace s = s" "dropWhile isspace (rev s) = rev s"
    using Cons by (auto simp: dropWhile_eq_self_iff hd_rev simp del: rev.simps)
  then show ?thesis by (simp add: py_strip_def)
qed (simp add: py_strip_def)

text \<open>A generated key has the shape that \<^verbatim>\<open>parse_api_key\<close> accepts.\<close>

lemma generated_key_parses:
  assumes "generate_api_key H choice = Inr g"
  shows "parse_api_key (Some (gk_plaintext g)) = Some (gk_plaintext g)" "gk_key_hash g = H (gk_plaintext g)"
proof -
  let ?secret = "map (\<lambda>i. BASE62_ALPHABET ! (choice i mod length BASE62_ALPHABET)) [0..<KEY_SECRET_LENGTH]"
  have g: "gk_plaintext g = KEY_PREFIX @ ?secret" "gk_key_hash g = H (gk_plaintext g)"
    using assms by (auto simp: generate_api_key_def generate_secret_def Let_def hash_api_key_def KEY_SECRET_LENGTH_def)
  then show "gk_key_hash g = H (gk_plaintext g)" by simp
  have "0 < length BASE62_ALPHABET" by (simp add: BASE62_ALPHABET_def)
  then have alnum: "list_all ascii_alnum ?secret" using base62_alnum by (simp add: list_all_length)
  have ne: "?secret \<noteq> []" by (simp add: KEY_SECRET_LENGTH_def)
  then have "ascii_alnum (last ?secret)" using alnum by (metis last_in_set list_all_iff)
  then have "py_strip (KEY_PREFIX @ ?secret) = KEY_PREFIX @ ?secret"
    using ne alnum_no_space by (intro py_strip_id) (simp_all add: KEY_PREFIX_def isspace_def [of "CHR ''g''"])
  then show "parse_api_key (Some (gk_plaintext g)) = Some (gk_plaintext g)"
    using alnum by (simp add: g parse_api_key_def Let_def py_startswith_def)
qed

text \<open>The digest names one row, so the lookup finds exactly that row and its owner.\<close>

lemma get_active_unique:
  assumes "distinct (map ak_key_hash (db_api_keys d))" "distinct (map us_id (db_users d))"
    "k \<in> set (db_api_keys d)" "u \<in> set (db_users d)" "us_id u = ak_user_id k"
  shows "get_active_with_user (ak_key_hash k) d = (if ak_is_active k then Some (k, u) else None)"
proof -
  have k: "k' = k" if "k' \<in> set (db_api_keys d)" "ak_key_hash k' = ak_key_hash k" for k'
    using that assms(1,3) by (auto simp: distinct_map inj_on_def)
  have u: "u' = u" if "u' \<in> set (db_users d)" "us_id u' = us_id u" for u'
    using that assms(2,4) by (auto simp: distinct_map inj_on_def)
  define rows where "rows = [(k', u'). k' \<leftarrow> db_api_keys d, u' \<leftarrow> db_users d, us_id u' = ak_user_id k', ak_key_hash k' = ak_key_hash k \<and> ak_is_active k']"
  have only: "set rows \<subseteq> {(k, u)}"
  proof
    fix x assume "x \<in> set rows"
    then obtain k' u' where x: "x = (k', u')" "k' \<in> set (db_api_keys d)" "u' \<in> set (db_users d)" "us_id u' = ak_user_id k'"
      "ak_key_hash k' = ak_key_hash k" by (auto simp: rows_def split: if_splits)
    then have "k' = k" by (intro k)
    then show "x \<in> {(k, u)}" using x u [of u'] assms(5) by simp
  qed
  show ?thesis
  proof (cases "ak_is_active k")
    case True
    then have "(k, u) \<in> set (map (Pair k) (filter (\<lambda>u'. us_id u' = ak_user_id k) (db_users d)))" using assms by simp
    then have "(k, u) \<in> set rows" using True assms(3) by (force simp: rows_def)
    with only show ?thesis using True by (cases rows) (auto simp: get_active_with_user_def rows_def [symmetric])
  next
    case False
    then have "(k, u) \<notin> set rows" by (auto simp: rows_def split: if_splits)
    with only have "rows = []" by (cases rows) auto
    then show ?thesis using False by (simp add: get_active_with_user_def rows_def [symmetric])
  qed
qed

definition key_refused :: "failure + Principal" where
  "key_refused = Inl (AppFailure (unauthenticated ''The provided API key is not valid.'' ''invalid_api_key''))"

lemma principal_by_key:
  assumes "hh_authorization h = None" "hh_x_api_key h = Some plaintext" "parse_api_key (Some plaintext) = Some plaintext"
    "distinct (map ak_key_hash (db_api_keys d))" "distinct (map us_id (db_users d))"
    "k \<in> set (db_api_keys d)" "u \<in> set (db_users d)" "us_id u = ak_user_id k" "ak_key_hash k = ae_sha256 env plaintext"
  shows "fst (get_principal env h c d) = (if ak_is_active k
     then Inr \<lparr>pr_user_id = us_id u, pr_auth_method = Am_api_key, pr_api_key_id = Some (ak_id k), pr_tier = us_tier u\<rparr> else key_refused)"
  using assms(1-3,9) get_active_unique [OF assms(4-8)]
  by (simp add: get_principal_def bearer_token_def principal_from_api_key_def hash_api_key_def key_refused_def)


text \<open>A user, and a source of randomness that always picks the first letter; digests that are the text itself.\<close>

definition ex_auth_db :: db where
  "ex_auth_db = \<lparr>db_users = [\<lparr>us_id = ''u1'', us_email = ''a@b'', us_email_verified = True, us_tier = ''free''\<rparr>],
     db_api_keys = [], db_provider_keys = [], db_allocations = []\<rparr>"

definition ex_session :: Principal where
  "ex_session = \<lparr>pr_user_id = ''u1'', pr_auth_method = Am_session, pr_api_key_id = None, pr_tier = ''free''\<rparr>"

definition ex_auth_env :: auth_env where
  "ex_auth_env = \<lparr>ae_jose = \<lparr>jo_header = (\<lambda>_. None), jo_decode = (\<lambda>_ _ _ _. JoseError)\<rparr>,
     ae_settings = \<lparr>st_audience = ''authenticated'', st_issuer = ''i'', st_require_verified_email = True\<rparr>,
     ae_uuid_of = Some, ae_sha256 = (\<lambda>s. s), ae_now = 0, ae_meanwhile = (\<lambda>c. c),
     ae_refresh = \<lparr>rc_waiting_since = 0, rc_now = 0, rc_done = 0, rc_response = FetchError\<rparr>\<rparr>"

definition ex_plaintext :: string where
  "ex_plaintext = ''gw_live_'' @ replicate 32 (CHR ''a'')"

definition ex_key_headers :: http_headers where
  "ex_key_headers = \<lparr>hh_authorization = None, hh_x_api_key = Some ex_plaintext\<rparr>"

definition ex_key_row :: ApiKey where
  "ex_key_row = \<lparr>ak_id = ''k1'', ak_user_id = ''u1'', ak_key_hash = ex_plaintext, ak_key_prefix = ''gw_live_'', ak_last_4 = ''aaaa'',
     ak_nickname = None, ak_is_active = True, ak_last_used_at = None, ak_created_at = 0\<rparr>"

lemma ex_created: "create_key (ae_sha256 ex_auth_env) (\<lambda>_. 0) ''k1'' 0 ex_session None ex_auth_db =
    (Inr (ex_key_row, ex_plaintext), ex_auth_db\<lparr>db_api_keys := [ex_key_row]\<rparr>)"
proof -
  have "generate_secret (\<lambda>_. 0) KEY_SECRET_LENGTH = Inr (replicate 32 (CHR ''a''))" by code_simp
  moreover have "py_last LAST_4_LENGTH ex_plaintext = ''aaaa''" by code_simp
  ultimately show ?thesis
    by (simp add: create_key_def require_session_def is_session_def ex_session_def ex_auth_env_def ex_auth_db_def ex_key_row_def
        generate_api_key_def KEY_PREFIX_def ex_plaintext_def ak_create_def hash_api_key_def Let_def)
qed



end
