(* ===== verification/Gw_Byok.thy ===== *)
theory Gw_Byok
  imports Gw_Auth Gw_Router
begin

text \<open>
  Bring-your-own provider keys: the per-request credential resolver (\<^verbatim>\<open>app/keys_resolution/resolver.py\<close>) and the endpoints
  that add, remove, list and re-check a user's key (\<^verbatim>\<open>app/api/keys.py\<close>). Encryption, the provider's own check of a key and
  the reachability of the database are parameters.
\<close>

subsection \<open>The resolver\<close>

record cipher =
  cy_encrypt :: "string \<Rightarrow> string"
  cy_decrypt :: "string \<Rightarrow> string option"

record UserCredentials =
  uc_user_id :: string
  uc_registry :: ProviderRegistry
  uc_limits :: "LimitsConfig option"
  uc_tier :: string
  uc_loaded :: bool
  uc_by_provider :: "string \<rightharpoonup> ProviderKey"
  uc_decrypted :: "string \<rightharpoonup> string"
  uc_caps :: "string \<times> string \<rightharpoonup> int"

definition new_credentials :: "string \<Rightarrow> ProviderRegistry \<Rightarrow> LimitsConfig option \<Rightarrow> string \<Rightarrow> UserCredentials" where
  "new_credentials user_id registry limits tier = \<lparr>uc_user_id = user_id, uc_registry = registry, uc_limits = limits, uc_tier = tier,
     uc_loaded = False, uc_by_provider = Map.empty, uc_decrypted = Map.empty, uc_caps = Map.empty\<rparr>"

definition system_key_of :: "ProviderRegistry \<Rightarrow> string \<Rightarrow> failure + string" where
  "system_key_of r provider = (case system_key r provider of Inl _ \<Rightarrow> Inl (OtherFailure ''UnknownSlot'') | Inr k \<Rightarrow> Inr k)"

definition system_for_provider :: "ProviderRegistry \<Rightarrow> string \<Rightarrow> string \<Rightarrow> failure + ResolvedKey" where
  "system_for_provider registry provider model = ebind (system_key_of registry provider) (\<lambda>k.
     Inr \<lparr>rk_provider = provider, rk_key = k, rk_pool = Shared, rk_scope = SYSTEM_SCOPE, rk_key_id = None, rk_shared_daily_cap = None,
          rk_user_id = None\<rparr>)"

definition cap_for :: "UserCredentials \<Rightarrow> string \<Rightarrow> string \<Rightarrow> int option" where
  "cap_for uc provider model = (case uc_caps uc (provider, model) of
      Some override \<Rightarrow> Some override
    | None \<Rightarrow> (case uc_limits uc of
        None \<Rightarrow> None
      | Some l \<Rightarrow> (case lc_gateway l (uc_tier uc) of None \<Rightarrow> None | Some t \<Rightarrow> gl_shared_pool_daily_cap t)))"

definition shared_key :: "UserCredentials \<Rightarrow> string \<Rightarrow> string \<Rightarrow> failure + ResolvedKey" where
  "shared_key uc provider model = ebind (system_key_of (uc_registry uc) provider) (\<lambda>k.
     Inr \<lparr>rk_provider = provider, rk_key = k, rk_pool = Shared, rk_scope = SYSTEM_SCOPE, rk_key_id = None,
          rk_shared_daily_cap = cap_for uc provider model, rk_user_id = Some (uc_user_id uc)\<rparr>)"

text \<open>\<open>reachable\<close>: whether the database answers. A dict comprehension keeps the last row of a key.\<close>

definition load_once :: "bool \<Rightarrow> instant \<Rightarrow> UserCredentials \<Rightarrow> db \<Rightarrow> (failure + UserCredentials) \<times> db" where
  "load_once reachable now uc d =
    (if uc_loaded uc then (Inr uc, d)
     else if \<not> reachable then (Inl (OtherFailure ''DBAPIError''), d)
     else (let rows = list_active_for_user (uc_user_id uc) d;
               d1 = fold (\<lambda>row. pk_touch_last_used (pk_id row) now) rows d;
               allocations = qa_list_for_user (uc_user_id uc) d1
           in (Inr (uc\<lparr>uc_by_provider := map_of (rev (map (\<lambda>row. (pk_provider row, row)) rows)),
                      uc_caps := map_of (rev (map (\<lambda>a. ((qa_provider a, qa_model a), qa_daily_cap a)) allocations)),
                      uc_loaded := True\<rparr>), d1)))"

definition private_key :: "UserCredentials \<Rightarrow> string \<Rightarrow> ProviderKey \<Rightarrow> string \<Rightarrow> ResolvedKey" where
  "private_key uc provider row plaintext = \<lparr>rk_provider = provider, rk_key = plaintext, rk_pool = Private,
     rk_scope = uc_user_id uc, rk_key_id = Some (pk_id row), rk_shared_daily_cap = None, rk_user_id = Some (uc_user_id uc)\<rparr>"

definition for_provider :: "cipher \<Rightarrow> bool \<Rightarrow> instant \<Rightarrow> string \<Rightarrow> string \<Rightarrow> UserCredentials \<Rightarrow> db \<Rightarrow> (failure + ResolvedKey) \<times> UserCredentials \<times> db" where
  "for_provider cy reachable now provider model uc0 d0 =
    (case load_once reachable now uc0 d0 of
       (Inl e, d) \<Rightarrow> (Inl e, uc0, d)
     | (Inr uc, d) \<Rightarrow>
         (case uc_by_provider uc provider of
            None \<Rightarrow> (shared_key uc provider model, uc, d)
          | Some row \<Rightarrow>
              (case uc_decrypted uc provider of
                 Some plaintext \<Rightarrow> (Inr (private_key uc provider row plaintext), uc, d)
               | None \<Rightarrow>
                   (case cy_decrypt cy (pk_encrypted_key row) of
                      None \<Rightarrow> (shared_key uc provider model, uc, d)
                    | Some plaintext \<Rightarrow>
                        (Inr (private_key uc provider row plaintext), uc\<lparr>uc_decrypted := (uc_decrypted uc)(provider \<mapsto> plaintext)\<rparr>, d)))))"

text \<open>A failed write is logged and forgotten.\<close>

definition record_auth_failure :: "bool \<Rightarrow> ResolvedKey \<Rightarrow> db \<Rightarrow> db" where
  "record_auth_failure reachable resolved d = (case rk_key_id resolved of
      None \<Rightarrow> d
    | Some key_id \<Rightarrow> if reachable then mark_invalid key_id d else d)"

fun private_for_every :: "cipher \<Rightarrow> bool \<Rightarrow> instant \<Rightarrow> string list \<Rightarrow> ModelSpec list \<Rightarrow> UserCredentials \<Rightarrow> db \<Rightarrow> (failure + bool) \<times> UserCredentials \<times> db" where
  "private_for_every cy reachable now seen [] uc d = (Inr True, uc, d)"
| "private_for_every cy reachable now seen (spec # specs) uc d =
    (if ms_provider spec \<in> set seen then private_for_every cy reachable now seen specs uc d
     else case for_provider cy reachable now (ms_provider spec) (ms_model spec) uc d of
         (Inl e, uc1, d1) \<Rightarrow> (Inl e, uc1, d1)
       | (Inr rk, uc1, d1) \<Rightarrow>
           if rk_pool rk \<noteq> Private then (Inr False, uc1, d1)
           else private_for_every cy reachable now (ms_provider spec # seen) specs uc1 d1)"

definition resolves_private_for_every_provider :: "cipher \<Rightarrow> bool \<Rightarrow> instant \<Rightarrow> ModelSpec list \<Rightarrow> UserCredentials \<Rightarrow> db \<Rightarrow> (failure + bool) \<times> UserCredentials \<times> db" where
  "resolves_private_for_every_provider cy reachable now specs uc d = private_for_every cy reachable now [] specs uc d"

definition quota_scope_for :: "key_pool option \<Rightarrow> string \<Rightarrow> string" where
  "quota_scope_for pool user_id = (if pool = Some Private then user_id else SYSTEM_SCOPE)"

subsection \<open>The endpoints\<close>

record KeyValidation =
  kv_valid :: bool
  kv_provider :: string
  kv_detail :: "string option"
  kv_models :: "string list"

definition KEY_VALIDATION_LIMIT_PER_HOUR :: int where
  "KEY_VALIDATION_LIMIT_PER_HOUR = 5"

fun window_upper :: "GatewayWindow \<Rightarrow> string" where
  "window_upper GRpm = ''RPM''"
| "window_upper GRpd = ''RPD''"
| "window_upper GRph = ''RPH''"

fun limit_failure :: "limit_error \<Rightarrow> failure" where
  "limit_failure (TooManyRequests name limit n) = AppFailure (too_many_requests
     (Some (''You have used your '' @ window_upper name @ '' allowance of '' @ int_text limit @ '' requests. Try again in '' @ int_text n @ ''s.''))
     (Some n) None Map.empty Map.empty)"
| "limit_failure (Raised _) = OtherFailure ''ZeroDivisionError''"

text \<open>\<open>ke_limiter\<close>: whether rate limiting is switched on. \<open>ke_validate\<close>: the adapter's check of a key with its provider.\<close>

record 'r key_env =
  ke_redis :: "'r redis"
  ke_limiter :: bool
  ke_registry :: ProviderRegistry
  ke_validate :: "string \<Rightarrow> string \<Rightarrow> ProviderError + KeyValidation"
  ke_cipher :: cipher
  ke_now :: instant
  ke_new_id :: string

definition enforce_key_validation_limit :: "'r key_env \<Rightarrow> Principal \<Rightarrow> 'r world \<Rightarrow> (failure + unit) \<times> 'r world" where
  "enforce_key_validation_limit env p w =
    (if ke_limiter env then
       (case enforce_one (ke_redis env) (pr_user_id p) GRph KEY_VALIDATION_LIMIT_PER_HOUR (ke_now env) w of
          (Inl e, w1) \<Rightarrow> (Inl (limit_failure e), w1) | (Inr _, w1) \<Rightarrow> (Inr (), w1))
     else (Inr (), w))"

text \<open>The bullets of the masked form and the quotes \<^verbatim>\<open>repr\<close> adds to a name in a message are left out.\<close>

record ProviderKeyOut =
  po_provider :: string
  po_masked :: string
  po_nickname :: "string option"
  po_validation_status :: ValidationStatus
  po_last_validated_at :: "instant option"
  po_last_used_at :: "instant option"
  po_is_active :: bool
  po_created_at :: instant

record ProviderKeyStatus =
  ps_provider :: string
  ps_pool :: key_pool
  ps_key :: "ProviderKeyOut option"

definition to_provider_key_out :: "ProviderKey \<Rightarrow> ProviderKeyOut" where
  "to_provider_key_out k = \<lparr>po_provider = pk_provider k, po_masked = pk_last_4 k, po_nickname = pk_nickname k,
     po_validation_status = pk_validation_status k, po_last_validated_at = pk_last_validated_at k,
     po_last_used_at = pk_last_used_at k, po_is_active = pk_is_active k, po_created_at = pk_created_at k\<rparr>"

definition list_provider_keys :: "ProvidersConfig \<Rightarrow> Principal \<Rightarrow> db \<Rightarrow> failure + ProviderKeyStatus list" where
  "list_provider_keys config p d =
    (case require_session p of
       Inl e \<Rightarrow> Inl (AppFailure e)
     | Inr _ \<Rightarrow>
         (let active = map_of (rev (map (\<lambda>row. (pk_provider row, row)) (list_active_for_user (pr_user_id p) d)))
          in Inr (map (\<lambda>(name, entry). case active name of
                     None \<Rightarrow> \<lparr>ps_provider = name, ps_pool = Shared, ps_key = None\<rparr>
                   | Some row \<Rightarrow> \<lparr>ps_provider = name, ps_pool = Private, ps_key = Some (to_provider_key_out row)\<rparr>)
                 (filter (\<lambda>(name, entry). pv_enabled entry) (pc_providers config)))))"

definition unknown_provider :: "string \<Rightarrow> failure" where
  "unknown_provider provider = AppFailure (app_error C_InvalidRequest (Some (provider @ '' is not a known, enabled provider.''))
     (Some ''unknown_provider'') Map.empty Map.empty)"

definition check_unavailable :: "string \<Rightarrow> failure" where
  "check_unavailable provider = AppFailure (app_error C_ProviderKeyCheckUnavailable
     (Some (''Could not verify this '' @ provider @ '' key right now -- the provider was unreachable. Try again shortly.'')) None Map.empty Map.empty)"

definition no_stored_key :: failure where
  "no_stored_key = AppFailure (app_error C_NotFound (Some ''No stored key for that provider.'') (Some ''provider_key_not_found'') Map.empty Map.empty)"

definition add_provider_key :: "'r key_env \<Rightarrow> Principal \<Rightarrow> string \<Rightarrow> string \<Rightarrow> string option \<Rightarrow> 'r world \<Rightarrow> db \<Rightarrow>
    (failure + ProviderKeyStatus) \<times> 'r world \<times> db" where
  "add_provider_key env p provider plaintext nickname w d =
    (case enforce_key_validation_limit env p w of
       (Inl e, w1) \<Rightarrow> (Inl e, w1, d)
     | (Inr _, w1) \<Rightarrow>
         (case require_session p of
            Inl e \<Rightarrow> (Inl (AppFailure e), w1, d)
          | Inr _ \<Rightarrow>
              (case adapter_for (ke_registry env) provider of
                 Inl _ \<Rightarrow> (Inl (unknown_provider provider), w1, d)
               | Inr adapter \<Rightarrow>
                   (case ke_validate env adapter plaintext of
                      Inl _ \<Rightarrow> (Inl (check_unavailable provider), w1, d)
                    | Inr validation \<Rightarrow>
                        if \<not> kv_valid validation then
                          (Inl (AppFailure (app_error C_InvalidProviderKey
                             (Some (or_default (kv_detail validation) (provider @ '' rejected this key.''))) None Map.empty Map.empty)), w1, d)
                        else
                          (case pk_upsert (ke_new_id env) (ke_now env) (pr_user_id p) provider (cy_encrypt (ke_cipher env) plaintext)
                                  (py_last 4 plaintext) nickname Vs_valid (Some (ke_now env)) d of
                             (row, d1) \<Rightarrow> (Inr \<lparr>ps_provider = provider, ps_pool = Private, ps_key = Some (to_provider_key_out row)\<rparr>, w1, d1))))))"

definition remove_provider_key :: "string \<Rightarrow> Principal \<Rightarrow> db \<Rightarrow> (failure + unit) \<times> db" where
  "remove_provider_key provider p d =
    (case require_session p of
       Inl e \<Rightarrow> (Inl (AppFailure e), d)
     | Inr _ \<Rightarrow>
         (case pk_deactivate (pr_user_id p) provider d of
            (False, _) \<Rightarrow> (Inl no_stored_key, d)
          | (True, d1) \<Rightarrow> (Inr (), d1)))"

definition revalidate_provider_key :: "'r key_env \<Rightarrow> Principal \<Rightarrow> string \<Rightarrow> 'r world \<Rightarrow> db \<Rightarrow> (failure + ProviderKeyStatus) \<times> 'r world \<times> db" where
  "revalidate_provider_key env p provider w d =
    (case enforce_key_validation_limit env p w of
       (Inl e, w1) \<Rightarrow> (Inl e, w1, d)
     | (Inr _, w1) \<Rightarrow>
         (case require_session p of
            Inl e \<Rightarrow> (Inl (AppFailure e), w1, d)
          | Inr _ \<Rightarrow>
              (case get_active (pr_user_id p) provider d of
                 Inl e \<Rightarrow> (Inl e, w1, d)
               | Inr None \<Rightarrow> (Inl no_stored_key, w1, d)
               | Inr (Some row) \<Rightarrow>
                   (case adapter_for (ke_registry env) provider of
                      Inl _ \<Rightarrow> (Inl (unknown_provider provider), w1, d)
                    | Inr adapter \<Rightarrow>
                        (case cy_decrypt (ke_cipher env) (pk_encrypted_key row) of
                           None \<Rightarrow> (Inl (OtherFailure ''CredentialUnreadable''), w1, d)
                         | Some plaintext \<Rightarrow>
                             (case ke_validate env adapter plaintext of
                                Inl _ \<Rightarrow> (Inl (check_unavailable provider), w1, d)
                              | Inr validation \<Rightarrow>
                                  (let d1 = record_validation_result (pk_id row) (kv_valid validation) (ke_now env) d;
                                       fresh = row\<lparr>pk_validation_status := (if kv_valid validation then Vs_valid else Vs_invalid),
                                                   pk_last_validated_at := Some (ke_now env)\<rparr>
                                   in (Inr \<lparr>ps_provider = provider, ps_pool = Private, ps_key = Some (to_provider_key_out fresh)\<rparr>, w1, d1))))))))"

subsection \<open>A resolver is a snapshot\<close>

text \<open>What a user's credential for a provider is, from the tables alone.\<close>

definition resolve_spec :: "cipher \<Rightarrow> string \<Rightarrow> ProviderRegistry \<Rightarrow> LimitsConfig option \<Rightarrow> string \<Rightarrow> db \<Rightarrow> string \<Rightarrow> string \<Rightarrow> failure + ResolvedKey" where
  "resolve_spec cy u reg limits tier d provider model =
    (let cap = (case List.find (\<lambda>a. qa_provider a = provider \<and> qa_model a = model) (rev (qa_list_for_user u d)) of
                  Some a \<Rightarrow> Some (qa_daily_cap a)
                | None \<Rightarrow> (case limits of None \<Rightarrow> None | Some l \<Rightarrow> (case lc_gateway l tier of None \<Rightarrow> None | Some t \<Rightarrow> gl_shared_pool_daily_cap t)));
         shared = ebind (system_key_of reg provider) (\<lambda>k. Inr \<lparr>rk_provider = provider, rk_key = k, rk_pool = Shared,
                    rk_scope = SYSTEM_SCOPE, rk_key_id = None, rk_shared_daily_cap = cap, rk_user_id = Some u\<rparr>)
     in case List.find (\<lambda>k. pk_provider k = provider) (rev (list_active_for_user u d)) of
          None \<Rightarrow> shared
        | Some row \<Rightarrow>
            (case cy_decrypt cy (pk_encrypted_key row) of
               None \<Rightarrow> shared
             | Some plaintext \<Rightarrow> Inr \<lparr>rk_provider = provider, rk_key = plaintext, rk_pool = Private, rk_scope = u,
                 rk_key_id = Some (pk_id row), rk_shared_daily_cap = None, rk_user_id = Some u\<rparr>))"

lemma map_of_find: "map_of (map (\<lambda>r. (f r, g r)) xs) k = map_option g (List.find (\<lambda>r. f r = k) xs)"
  by (induction xs) auto

lemma touch_keeps: "qa_list_for_user u (fold (\<lambda>row. pk_touch_last_used (pk_id row) now) rows d) = qa_list_for_user u d"
  by (induction rows arbitrary: d) (simp_all add: qa_list_for_user_def pk_touch_last_used_def)

text \<open>A loaded resolver answers as the specification does on the tables it loaded from.\<close>

definition loaded_from :: "cipher \<Rightarrow> db \<Rightarrow> UserCredentials \<Rightarrow> bool" where
  "loaded_from cy d uc \<longleftrightarrow> uc_loaded uc \<and>
     uc_by_provider uc = (\<lambda>p. List.find (\<lambda>k. pk_provider k = p) (rev (list_active_for_user (uc_user_id uc) d))) \<and>
     uc_caps uc = (\<lambda>(p, m). map_option qa_daily_cap (List.find (\<lambda>a. qa_provider a = p \<and> qa_model a = m) (rev (qa_list_for_user (uc_user_id uc) d)))) \<and>
     (\<forall>p s. uc_decrypted uc p = Some s \<longrightarrow> (\<exists>row. uc_by_provider uc p = Some row \<and> cy_decrypt cy (pk_encrypted_key row) = Some s))"

lemma load_once_fresh:
  assumes "load_once True now (new_credentials u reg limits tier) d = (r, d1)"
  shows "\<exists>uc. r = Inr uc \<and> loaded_from cy d uc \<and> uc_user_id uc = u \<and> uc_registry uc = reg \<and> uc_limits uc = limits \<and> uc_tier uc = tier"
proof -
  have id: "map_option (\<lambda>r. r) x = x" for x :: "'a option" by (cases x) simp_all
  show ?thesis
    using assms by (auto simp: load_once_def new_credentials_def Let_def loaded_from_def rev_map map_of_find touch_keeps id fun_eq_iff)
qed

lemma for_provider_loaded:
  assumes "loaded_from cy d0 uc" "for_provider cy reachable now p m uc d = (r, uc1, d1)"
  shows "r = resolve_spec cy (uc_user_id uc) (uc_registry uc) (uc_limits uc) (uc_tier uc) d0 p m" "loaded_from cy d0 uc1"
    "uc_user_id uc1 = uc_user_id uc" "uc_registry uc1 = uc_registry uc" "uc_limits uc1 = uc_limits uc" "uc_tier uc1 = uc_tier uc"
proof -
  have ld: "uc_loaded uc" and bp: "uc_by_provider uc p = List.find (\<lambda>k. pk_provider k = p) (rev (list_active_for_user (uc_user_id uc) d0))"
    and dec: "uc_decrypted uc p = Some s \<Longrightarrow> \<exists>row. uc_by_provider uc p = Some row \<and> cy_decrypt cy (pk_encrypted_key row) = Some s" for s
    using assms(1) by (auto simp: loaded_from_def)
  have cap: "uc_caps uc (p, m) = map_option qa_daily_cap (List.find (\<lambda>a. qa_provider a = p \<and> qa_model a = m) (rev (qa_list_for_user (uc_user_id uc) d0)))"
    using assms(1) by (simp add: loaded_from_def)
  have shared: "shared_key uc p m = (case List.find (\<lambda>k. pk_provider k = p) (rev (list_active_for_user (uc_user_id uc) d0)) of
      Some row \<Rightarrow> (case cy_decrypt cy (pk_encrypted_key row) of None \<Rightarrow> resolve_spec cy (uc_user_id uc) (uc_registry uc) (uc_limits uc) (uc_tier uc) d0 p m
        | Some _ \<Rightarrow> shared_key uc p m) | None \<Rightarrow> resolve_spec cy (uc_user_id uc) (uc_registry uc) (uc_limits uc) (uc_tier uc) d0 p m)"
    by (simp add: shared_key_def resolve_spec_def Let_def cap_for_def cap split: option.splits)
  have own: "resolve_spec cy (uc_user_id uc) (uc_registry uc) (uc_limits uc) (uc_tier uc) d0 p m = Inr (private_key uc p row s)"
    if "uc_by_provider uc p = Some row" "cy_decrypt cy (pk_encrypted_key row) = Some s" for row s
    using that by (simp add: bp resolve_spec_def private_key_def Let_def)
  note f = assms(2) [unfolded for_provider_def load_once_def, simplified ld, simplified]
  show "r = resolve_spec cy (uc_user_id uc) (uc_registry uc) (uc_limits uc) (uc_tier uc) d0 p m"
  proof (cases "uc_by_provider uc p")
    case None
    then show ?thesis using f shared by (auto simp: bp)
  next
    case (Some row)
    show ?thesis
    proof (cases "cy_decrypt cy (pk_encrypted_key row)")
      case None
      then have "uc_decrypted uc p = None" using dec Some by (cases "uc_decrypted uc p") auto
      then show ?thesis using f shared Some None by (auto simp: bp)
    next
      case (Some s)
      then show ?thesis using f own [OF \<open>uc_by_provider uc p = Some row\<close> Some] dec \<open>uc_by_provider uc p = Some row\<close>
        by (cases "uc_decrypted uc p") auto
    qed
  qed
  have "uc1 = uc \<or> (\<exists>row s. uc_by_provider uc p = Some row \<and> cy_decrypt cy (pk_encrypted_key row) = Some s \<and>
      uc1 = uc\<lparr>uc_decrypted := (uc_decrypted uc)(p \<mapsto> s)\<rparr>)"
    using f by (auto split: option.split_asm)
  then show "loaded_from cy d0 uc1" "uc_user_id uc1 = uc_user_id uc" "uc_registry uc1 = uc_registry uc" "uc_limits uc1 = uc_limits uc" "uc_tier uc1 = uc_tier uc"
    using assms(1) by (auto simp: loaded_from_def split: if_splits)
qed

text \<open>The calls a request makes on one resolver, each with whatever happens to the tables just before it.\<close>

fun resolve_calls :: "cipher \<Rightarrow> (string \<times> string \<times> instant \<times> (db \<Rightarrow> db)) list \<Rightarrow> UserCredentials \<Rightarrow> db \<Rightarrow> (failure + ResolvedKey) list" where
  "resolve_calls cy [] uc d = []"
| "resolve_calls cy ((p, m, now, change) # calls) uc d =
    (case for_provider cy True now p m uc (change d) of (r, uc1, d1) \<Rightarrow> r # resolve_calls cy calls uc1 d1)"

lemma resolve_calls_loaded:
  assumes "loaded_from cy d0 uc"
  shows "resolve_calls cy calls uc d =
    map (\<lambda>(p, m, _, _). resolve_spec cy (uc_user_id uc) (uc_registry uc) (uc_limits uc) (uc_tier uc) d0 p m) calls"
  using assms
proof (induction calls arbitrary: uc d)
  case (Cons call calls)
  obtain p m now change where call: "call = (p, m, now, change)" by (cases call) auto
  obtain r uc1 d1 where f: "for_provider cy True now p m uc (change d) = (r, uc1, d1)"
    by (cases "for_provider cy True now p m uc (change d)") auto
  show ?case using for_provider_loaded [OF Cons.prems f] Cons.IH [of uc1 d1] by (simp add: call f)
qed simp

lemma for_provider_fresh:
  assumes "for_provider cy True now p m (new_credentials u reg limits tier) d = (r, uc1, d1)"
  shows "r = resolve_spec cy u reg limits tier d p m" "loaded_from cy d uc1"
    "uc_user_id uc1 = u" "uc_registry uc1 = reg" "uc_limits uc1 = limits" "uc_tier uc1 = tier"
proof -
  obtain x d2 where l: "load_once True now (new_credentials u reg limits tier) d = (x, d2)"
    by (cases "load_once True now (new_credentials u reg limits tier) d")
  then obtain uc where uc: "x = Inr uc" "loaded_from cy d uc" "uc_user_id uc = u" "uc_registry uc = reg" "uc_limits uc = limits" "uc_tier uc = tier"
    using load_once_fresh by blast
  then have "uc_loaded uc" by (simp add: loaded_from_def)
  then have "for_provider cy True now p m uc d2 = (r, uc1, d1)"
    using assms l uc(1) by (simp add: for_provider_def load_once_def)
  from for_provider_loaded [OF uc(2) this] uc show "r = resolve_spec cy u reg limits tier d p m" "loaded_from cy d uc1"
    "uc_user_id uc1 = u" "uc_registry uc1 = reg" "uc_limits uc1 = limits" "uc_tier uc1 = tier" by simp_all
qed

text \<open>Credential and quota scope belong together: a private key is spent under its owner, the shared key under the system.\<close>

definition scope_agrees :: "string \<Rightarrow> string \<Rightarrow> failure + ResolvedKey \<Rightarrow> bool" where
  "scope_agrees u provider r = (case r of Inl _ \<Rightarrow> True | Inr rk \<Rightarrow> rk_provider rk = provider \<and> rk_user_id rk = Some u \<and>
     rk_scope rk = quota_scope_for (Some (rk_pool rk)) u \<and> (rk_pool rk = Private \<longleftrightarrow> rk_key_id rk \<noteq> None) \<and>
     (rk_pool rk = Private \<longrightarrow> rk_shared_daily_cap rk = None))"

lemma resolve_spec_scope: "scope_agrees u provider (resolve_spec cy u reg limits tier d provider model)"
  by (auto simp: scope_agrees_def resolve_spec_def Let_def quota_scope_for_def ebind_def split: option.splits sum.splits)

text \<open>C24: one request's resolver is a snapshot. Whatever happens to the tables between its calls, every answer is the one
  the tables gave at its first call: the user's own active key of that provider where it can be decrypted, and the
  shared key with the user's cap otherwise; and the quota scope always belongs to the credential.\<close>
theorem resolver_is_snapshot:
  "resolve_calls cy ((p, m, now, change) # calls) (new_credentials u reg limits tier) d =
     map (\<lambda>(p, m, _, _). resolve_spec cy u reg limits tier (change d) p m) ((p, m, now, change) # calls) \<and>
   list_all2 (\<lambda>(p, m, _, _). scope_agrees u p) ((p, m, now, change) # calls)
     (resolve_calls cy ((p, m, now, change) # calls) (new_credentials u reg limits tier) d)"
proof -
  obtain r uc1 d1 where f: "for_provider cy True now p m (new_credentials u reg limits tier) (change d) = (r, uc1, d1)"
    by (cases "for_provider cy True now p m (new_credentials u reg limits tier) (change d)") auto
  note fresh = for_provider_fresh [OF f]
  have eq: "resolve_calls cy ((p, m, now, change) # calls) (new_credentials u reg limits tier) d =
     map (\<lambda>(p, m, _, _). resolve_spec cy u reg limits tier (change d) p m) ((p, m, now, change) # calls)"
    using fresh resolve_calls_loaded [OF fresh(2), of calls d1] f by simp
  moreover have "list_all2 (\<lambda>(p, m, _, _). scope_agrees u p) xs (map (\<lambda>(p, m, _, _). resolve_spec cy u reg limits tier (change d) p m) xs)" for xs
    by (induction xs) (auto simp: resolve_spec_scope)
  ultimately show ?thesis by metis
qed

subsection \<open>The life of a provider key\<close>

lemma active_after_deactivate:
  "list_active_for_user v (snd (pk_deactivate u provider d)) =
     filter (\<lambda>k. \<not> (v = u \<and> pk_provider k = provider)) (list_active_for_user v d)"
proof -
  have "filter (\<lambda>k. owned_by v k \<and> pk_is_active k) (map (\<lambda>r. if owned_by u r \<and> pk_provider r = provider then r\<lparr>pk_is_active := False\<rparr> else r) rows) =
      filter (\<lambda>k. \<not> (v = u \<and> pk_provider k = provider)) (filter (\<lambda>k. owned_by v k \<and> pk_is_active k) rows)" for rows
    by (induction rows) (auto simp: owned_by_def)
  then show ?thesis by (simp add: list_active_for_user_def pk_deactivate_def update_where_def)
qed

lemma active_after_upsert:
  assumes "pk_upsert new_id now u provider enc l4 nick vs lv d = (row, d1)"
  shows "list_active_for_user v d1 =
    filter (\<lambda>k. \<not> (v = u \<and> pk_provider k = provider)) (list_active_for_user v d) @ (if v = u then [row] else [])"
    "pk_provider row = provider" "pk_encrypted_key row = enc" "pk_id row = new_id" "qa_list_for_user v d1 = qa_list_for_user v d"
proof -
  have r: "owned_by v row \<longleftrightarrow> v = u" "pk_is_active row" "pk_provider row = provider" "pk_encrypted_key row = enc" "pk_id row = new_id"
    and d1: "d1 = (snd (pk_deactivate u provider d))\<lparr>db_provider_keys := db_provider_keys (snd (pk_deactivate u provider d)) @ [row]\<rparr>"
    using assms by (auto simp: pk_upsert_def Let_def owned_by_def)
  have "list_active_for_user v d1 = list_active_for_user v (snd (pk_deactivate u provider d)) @ (if v = u then [row] else [])"
    using r by (auto simp: d1 list_active_for_user_def)
  then show "list_active_for_user v d1 =
      filter (\<lambda>k. \<not> (v = u \<and> pk_provider k = provider)) (list_active_for_user v d) @ (if v = u then [row] else [])"
    by (simp add: active_after_deactivate)
  show "pk_provider row = provider" "pk_encrypted_key row = enc" "pk_id row = new_id" using r by simp_all
  show "qa_list_for_user v d1 = qa_list_for_user v d"
    by (simp add: d1 qa_list_for_user_def pk_deactivate_def update_where_def)
qed

lemma find_filter_other:
  "\<not> (v = u \<and> p = provider) \<Longrightarrow> List.find (\<lambda>k. pk_provider k = p) (rev (filter (\<lambda>k. \<not> (v = u \<and> pk_provider k = provider)) rows)) =
     List.find (\<lambda>k. pk_provider k = p) (rev rows)"
  by (induction rows rule: rev_induct) auto

lemma find_filter_removed:
  "List.find (\<lambda>k. pk_provider k = p) (rev (filter (\<lambda>k. pk_provider k \<noteq> p) rows)) = None"
  by (simp add: find_None_iff)

text \<open>The shared answer: the environment's key, under the system's scope.\<close>

definition on_shared_pool :: "ProviderRegistry \<Rightarrow> string \<Rightarrow> failure + ResolvedKey \<Rightarrow> bool" where
  "on_shared_pool reg provider r = (case r of
      Inl _ \<Rightarrow> \<exists>e. system_key_of reg provider = Inl e
    | Inr rk \<Rightarrow> rk_pool rk = Shared \<and> system_key_of reg provider = Inr (rk_key rk) \<and> rk_scope rk = SYSTEM_SCOPE \<and> rk_key_id rk = None)"

lemma resolve_spec_shared:
  "List.find (\<lambda>k. pk_provider k = p) (rev (list_active_for_user u d)) = None \<Longrightarrow> on_shared_pool reg p (resolve_spec cy u reg limits tier d p m)"
  by (auto simp: on_shared_pool_def resolve_spec_def Let_def ebind_def split: sum.splits)

lemma resolve_spec_cong:
  assumes "List.find (\<lambda>k. pk_provider k = p) (rev (list_active_for_user u d)) = List.find (\<lambda>k. pk_provider k = p) (rev (list_active_for_user u d'))"
    "qa_list_for_user u d = qa_list_for_user u d'"
  shows "resolve_spec cy u reg limits tier d p m = resolve_spec cy u reg limits tier d' p m"
  using assms by (simp add: resolve_spec_def)

text \<open>The life of a user's own provider key. A key is stored only for a signed-in user within the hourly limit, and only
  after its provider accepted it; every other outcome leaves the tables alone. From then on the user's next request
  spends that key and no older one, under the user's scope; once it is removed, the next request is back on the shared
  pool. No other user's credentials, and none of the user's for other providers, are affected.\<close>
theorem provider_key_lifecycle:
  assumes fernet: "\<And>x. cy_decrypt (ke_cipher env) (cy_encrypt (ke_cipher env) x) = Some x"
    and add: "add_provider_key env p provider plaintext nickname w d = (r, w1, d1)"
  shows "case r of
      Inl _ \<Rightarrow> d1 = d
    | Inr _ \<Rightarrow>
        is_session p \<and> (\<exists>v. ke_validate env provider plaintext = Inr v \<and> kv_valid v) \<and>
        resolve_spec (ke_cipher env) (pr_user_id p) reg limits tier d1 provider model =
          Inr \<lparr>rk_provider = provider, rk_key = plaintext, rk_pool = Private, rk_scope = pr_user_id p, rk_key_id = Some (ke_new_id env),
               rk_shared_daily_cap = None, rk_user_id = Some (pr_user_id p)\<rparr> \<and>
        (v \<noteq> pr_user_id p \<or> provider' \<noteq> provider \<longrightarrow>
           resolve_spec (ke_cipher env) v reg limits tier d1 provider' model = resolve_spec (ke_cipher env) v reg limits tier d provider' model) \<and>
        fst (remove_provider_key provider p d1) = Inr () \<and>
        on_shared_pool reg provider (resolve_spec (ke_cipher env) (pr_user_id p) reg limits tier (snd (remove_provider_key provider p d1)) provider model)"
proof (cases r)
  case (Inl e)
  then have "d1 = d"
    using add by (auto simp: add_provider_key_def split: prod.split_asm sum.split_asm if_split_asm)
  with Inl show ?thesis by simp
next
  case (Inr status)
  let ?u = "pr_user_id p" and ?cy = "ke_cipher env"
  obtain x w2 where lim: "enforce_key_validation_limit env p w = (x, w2)" by (cases "enforce_key_validation_limit env p w")
  obtain y where y: "x = Inr y" using add Inr lim by (auto simp: add_provider_key_def split: sum.split_asm)
  have s: "require_session p = Inr ()" using add Inr lim y by (auto simp: add_provider_key_def split: sum.split_asm)
  then have sess: "is_session p" by (simp add: require_session_def split: if_splits)
  have a: "adapter_for (ke_registry env) provider = Inr provider"
    using add Inr lim y s by (auto simp: add_provider_key_def adapter_for_def split: if_split_asm)
  obtain v0 where v0: "ke_validate env provider plaintext = Inr v0"
    using add Inr lim y s a by (auto simp: add_provider_key_def split: sum.split_asm)
  have valid: "kv_valid v0" using add Inr lim y s a v0 by (auto simp: add_provider_key_def split: if_split_asm)
  obtain row where up: "pk_upsert (ke_new_id env) (ke_now env) ?u provider (cy_encrypt ?cy plaintext) (py_last 4 plaintext) nickname
      Vs_valid (Some (ke_now env)) d = (row, d1)"
    using add Inr lim y s a v0 valid by (auto simp: add_provider_key_def split: prod.split_asm)
  note act = active_after_upsert [OF up]
  have own: "resolve_spec ?cy ?u reg limits tier d1 provider model =
      Inr \<lparr>rk_provider = provider, rk_key = plaintext, rk_pool = Private, rk_scope = ?u, rk_key_id = Some (ke_new_id env),
           rk_shared_daily_cap = None, rk_user_id = Some ?u\<rparr>"
    using act fernet by (simp add: resolve_spec_def)
  have other: "resolve_spec ?cy v reg limits tier d1 provider' model = resolve_spec ?cy v reg limits tier d provider' model"
    if "v \<noteq> ?u \<or> provider' \<noteq> provider"
    using that act find_filter_other [of v ?u provider' provider] by (intro resolve_spec_cong) (auto simp: act(1))
  have rem: "remove_provider_key provider p d1 = (Inr (), snd (pk_deactivate ?u provider d1))"
  proof -
    have "row \<in> set (list_active_for_user ?u d1)" by (simp add: act(1))
    then have "fst (pk_deactivate ?u provider d1)"
      using act(2) by (auto simp: pk_deactivate_def update_where_def list_active_for_user_def filter_empty_conv)
    then show ?thesis using s by (auto simp: remove_provider_key_def split: prod.splits)
  qed
  have "on_shared_pool reg provider (resolve_spec ?cy ?u reg limits tier (snd (pk_deactivate ?u provider d1)) provider model)"
    by (rule resolve_spec_shared) (simp add: active_after_deactivate find_filter_removed)
  with own other rem sess v0 valid Inr show ?thesis by simp
qed

text \<open>A provider that accepts every key, a cipher that reverses, and a user without a key.\<close>

definition ex_key_registry :: ProviderRegistry where
  "ex_key_registry = \<lparr>pr_specs = [], pr_adapters = [''groq''], pr_keys = [(''groq'', ''sys'')], pr_internal_slots = [], pr_private_key_only_slots = []\<rparr>"

definition ex_key_env :: "keyspace key_env" where
  "ex_key_env = \<lparr>ke_redis = mem_redis, ke_limiter = False, ke_registry = ex_key_registry,
     ke_validate = (\<lambda>provider _. Inr \<lparr>kv_valid = True, kv_provider = provider, kv_detail = None, kv_models = []\<rparr>),
     ke_cipher = \<lparr>cy_encrypt = rev, cy_decrypt = (\<lambda>s. Some (rev s))\<rparr>, ke_now = 0, ke_new_id = ''pk1''\<rparr>"

theorem provider_key_lifecycle_witness:
  "resolve_spec (ke_cipher ex_key_env) ''u1'' ex_key_registry None ''free''
     (snd (snd (add_provider_key ex_key_env ex_session ''groq'' ''secret'' None (calm Map.empty) ex_auth_db))) ''groq'' ''m'' =
   Inr \<lparr>rk_provider = ''groq'', rk_key = ''secret'', rk_pool = Private, rk_scope = ''u1'', rk_key_id = Some ''pk1'',
        rk_shared_daily_cap = None, rk_user_id = Some ''u1''\<rparr>"
proof -
  let ?a = "add_provider_key ex_key_env ex_session ''groq'' ''secret'' None (calm Map.empty) ex_auth_db"
  have "\<exists>st. fst ?a = Inr st"
    by (simp add: add_provider_key_def enforce_key_validation_limit_def ex_key_env_def ex_session_def require_session_def is_session_def
        adapter_for_def ex_key_registry_def split_beta)
  then obtain st where st: "fst ?a = Inr st" ..
  have "?a = (Inr st, fst (snd ?a), snd (snd ?a))" using st by (simp add: prod_eq_iff)
  from provider_key_lifecycle [OF _ this, of ex_key_registry None "''free''" "''m''" "[]" "''groq''"] show ?thesis
    by (simp add: ex_key_env_def ex_session_def)
qed

text \<open>A stored key that no longer decrypts fails a re-check as an internal error, where the resolver falls back quietly.\<close>

lemma unreadable_key_fails_recheck:
  assumes "enforce_key_validation_limit env p w = (Inr (), w1)" "is_session p" "get_active (pr_user_id p) provider d = Inr (Some row)"
    "adapter_for (ke_registry env) provider = Inr provider" "cy_decrypt (ke_cipher env) (pk_encrypted_key row) = None"
  shows "fst (revalidate_provider_key env p provider w d) = Inl (OtherFailure ''CredentialUnreadable'')"
  using assms by (simp add: revalidate_provider_key_def require_session_def)

end
