(* ===== verification/Gw_Adapter.thy ===== *)
theory Gw_Adapter
  imports Gw_Render Gw_Byok
begin

text \<open>
  What the three provider adapters share (\<^verbatim>\<open>app/providers/base.py\<close>): requests over an HTTP client, the hint sink, the
  reading of a server-sent event stream against an idle deadline, and the contract of \<^verbatim>\<open>ProviderAdapter\<close>, stated as a
  locale. The HTTP library is a parameter (\<open>client\<close>): it answers a request with a transport fault or a response, and a
  streamed request with a response and the lines of its body, each with the time it was asked for and the time it came.
  \<^verbatim>\<open>json.loads\<close> on a text and \<^verbatim>\<open>str\<close> of a value that is no string are the record \<open>json_lib\<close>.
\<close>

subsection \<open>Reading JSON values\<close>

type_synonym jdict = "(string \<times> json) list"

text \<open>\<^verbatim>\<open>isinstance\<close> tests; a \<^verbatim>\<open>bool\<close> is no \<open>jint\<close> (\<^verbatim>\<open>_is_int\<close>).\<close>

fun jobj :: "json \<Rightarrow> jdict option" where
  "jobj (JObj kvs) = Some kvs"
| "jobj _ = None"

fun jarr :: "json \<Rightarrow> json list option" where
  "jarr (JArr xs) = Some xs"
| "jarr _ = None"

fun jstr :: "json \<Rightarrow> string option" where
  "jstr (JStr s) = Some s"
| "jstr _ = None"

fun jint :: "json \<Rightarrow> int option" where
  "jint (JInt n) = Some n"
| "jint _ = None"

text \<open>The first element when it is a dict, of a value that is a non-empty list: \<^verbatim>\<open>choices[0]\<close>.\<close>

definition first_obj :: "json \<Rightarrow> jdict option" where
  "first_obj v = (case v of JArr (x # _) \<Rightarrow> jobj x | _ \<Rightarrow> None)"

record json_lib =
  jl_loads :: "string \<Rightarrow> json option"
  jl_str :: "json \<Rightarrow> string"

definition py_str :: "json_lib \<Rightarrow> json \<Rightarrow> string" where
  "py_str lib v = (case v of JStr s \<Rightarrow> s | _ \<Rightarrow> jl_str lib v)"

text \<open>A comprehension whose body may raise: the first exception leaves it.\<close>

fun emap :: "('a \<Rightarrow> 'b exn) \<Rightarrow> 'a list \<Rightarrow> 'b list exn" where
  "emap f [] = Inr []"
| "emap f (x # xs) = ebind (f x) (\<lambda>y. ebind (emap f xs) (\<lambda>ys. Inr (y # ys)))"

lemma emap_Inr: "emap f xs = Inr ys \<longleftrightarrow> list_all2 (\<lambda>x y. f x = Inr y) xs ys"
proof (induction xs arbitrary: ys)
  case (Cons x xs)
  then show ?case by (cases ys) (auto simp: ebind_Inr_iff list_all2_Cons1)
qed auto

subsection \<open>HTTP\<close>

datatype transport_fault = TimeoutException | ConnectError | RemoteProtocolError | OtherHTTPError

record http_timeout =
  ht_connect :: pyfloat
  ht_read :: pyfloat
  ht_write :: pyfloat
  ht_pool :: pyfloat

record http_request =
  rq_method :: string
  rq_url :: string
  rq_headers :: "(string \<times> string) list"
  rq_json :: "jdict option"
  rq_timeout :: http_timeout

text \<open>
  \<open>hr_json\<close>: what \<^verbatim>\<open>response.json()\<close> returns, \<open>None\<close> when it raises. \<open>hr_headers\<close>: by lower-case name.
  \<open>hr_request_json\<close>: the decoded body of the request that was answered, \<open>None\<close> when there is none or it is no JSON.
  \<open>hr_request_path\<close>: the path of its URL, \<open>None\<close> when no request is attached.
\<close>

record http_response =
  hr_status :: int
  hr_json :: "json option"
  hr_headers :: "string \<Rightarrow> string option"
  hr_request_json :: "json option"
  hr_request_path :: "string option"

text \<open>
  One step of \<^verbatim>\<open>lines.__anext__()\<close>: the clock when it is awaited, the clock when it is done, and what it gave. When the
  list is at its end without \<open>EndOfBody\<close> nothing more ever arrives.
\<close>

datatype line_item = Line string | EndOfBody | Broken transport_fault

record line_step =
  ln_asked :: instant
  ln_got :: instant
  ln_item :: line_item

text \<open>\<open>op_read_fault\<close>: what reading the body of an error response (\<^verbatim>\<open>response.aread()\<close>) raises, if anything.\<close>

record opened =
  op_response :: http_response
  op_read_fault :: "transport_fault option"
  op_at :: instant
  op_lines :: "line_step list"

record client =
  cl_request :: "http_request \<Rightarrow> transport_fault + http_response"
  cl_stream :: "http_request \<Rightarrow> transport_fault + opened"

definition DEFAULT_CONNECT_TIMEOUT_S :: pyfloat where "DEFAULT_CONNECT_TIMEOUT_S = 5"
definition DEFAULT_WRITE_TIMEOUT_S :: pyfloat where "DEFAULT_WRITE_TIMEOUT_S = 10"
definition DEFAULT_POOL_TIMEOUT_S :: pyfloat where "DEFAULT_POOL_TIMEOUT_S = 5"

record http_adapter =
  ha_base_url :: string
  ha_options :: "(string \<times> string) list"

definition rstrip_chars :: "char list \<Rightarrow> string \<Rightarrow> string" where
  "rstrip_chars cs s = rev (dropWhile (\<lambda>c. c \<in> set cs) (rev s))"

definition new_http_adapter :: "string \<Rightarrow> (string \<times> string) list option \<Rightarrow> http_adapter" where
  "new_http_adapter base_url opts = \<lparr>ha_base_url = rstrip_chars ''/'' base_url, ha_options = (case opts of None \<Rightarrow> [] | Some kvs \<Rightarrow> kvs)\<rparr>"

definition adapter_url :: "http_adapter \<Rightarrow> string \<Rightarrow> string" where
  "adapter_url self path = ha_base_url self @ ''/'' @ dropWhile (\<lambda>c. c = CHR ''/'') path"

definition adapter_timeout :: "pyfloat \<Rightarrow> http_timeout" where
  "adapter_timeout read_s = \<lparr>ht_connect = DEFAULT_CONNECT_TIMEOUT_S, ht_read = read_s, ht_write = DEFAULT_WRITE_TIMEOUT_S,
     ht_pool = DEFAULT_POOL_TIMEOUT_S\<rparr>"

subsection \<open>The hint sink\<close>

definition publish_hint :: "QuotaHint option \<Rightarrow> QuotaHint option \<Rightarrow> QuotaHint option" where
  "publish_hint hint var = (case hint of None \<Rightarrow> var | Some h \<Rightarrow> Some h)"

definition take_hint :: "QuotaHint option \<Rightarrow> QuotaHint option \<times> QuotaHint option" where
  "take_hint var = (var, None)"

subsection \<open>One request\<close>

text \<open>\<open>parse\<close> and \<open>hints\<close> are the adapter's \<^verbatim>\<open>parse_error\<close> and \<^verbatim>\<open>rate_limit_headers\<close>; the second component is the hint
  published.\<close>

type_synonym parse_error_fun = "transport_fault + http_response \<Rightarrow> string option \<Rightarrow> ProviderError"

definition http_request_of :: "http_adapter \<Rightarrow> string \<Rightarrow> string \<Rightarrow> (string \<times> string) list \<Rightarrow> jdict option \<Rightarrow> pyfloat \<Rightarrow> http_request" where
  "http_request_of self meth path headers body timeout_s =
     \<lparr>rq_method = meth, rq_url = adapter_url self path, rq_headers = headers, rq_json = body, rq_timeout = adapter_timeout timeout_s\<rparr>"

definition adapter_request :: "parse_error_fun \<Rightarrow> (http_response \<Rightarrow> QuotaHint option) \<Rightarrow> client \<Rightarrow> http_request \<Rightarrow> string option
    \<Rightarrow> (ProviderError + http_response) \<times> QuotaHint option" where
  "adapter_request parse hints cl rq model = (case cl_request cl rq of
      Inl fault \<Rightarrow> (Inl (parse (Inl fault) model), None)
    | Inr response \<Rightarrow> (Inr response, publish_hint (hints response) None))"

text \<open>The defaults a subclass may keep.\<close>

definition or_unknown :: "string option \<Rightarrow> string" where
  "or_unknown model = (case model of Some (c # cs) \<Rightarrow> c # cs | _ \<Rightarrow> ''unknown'')"

definition default_parse_error :: "string \<Rightarrow> parse_error_fun" where
  "default_parse_error name exc model = \<lparr>pe_class = Unavailable, pe_provider = name, pe_model = or_unknown model, pe_status_code = None\<rparr>"

definition default_rate_limit_headers :: "http_response \<Rightarrow> QuotaHint option" where
  "default_rate_limit_headers response = None"

subsection \<open>Server-sent events against a deadline\<close>

datatype sse_item = Frame string | Stalled | Cut transport_fault

definition event_of :: "string list \<Rightarrow> string" where
  "event_of data_lines = join [CHR 0x0A] data_lines"

definition DONE_SENTINEL :: string where "DONE_SENTINEL = ''[DONE]''"

fun sse_events :: "pyfloat \<Rightarrow> instant \<Rightarrow> string list \<Rightarrow> line_step list \<Rightarrow> sse_item list" where
  "sse_events idle deadline pending [] = [Stalled]"
| "sse_events idle deadline pending (l # ls) =
    (if deadline - ln_asked l \<le> 0 \<or> ln_got l > deadline then [Stalled]
     else case ln_item l of
         Broken fault \<Rightarrow> [Cut fault]
       | EndOfBody \<Rightarrow> if pending \<noteq> [] \<and> event_of pending \<noteq> DONE_SENTINEL then [Frame (event_of pending)] else []
       | Line raw \<Rightarrow>
           (let line = rstrip_chars [CHR 0x0D, CHR 0x0A] raw
            in if py_startswith line '':'' then sse_events idle deadline pending ls
               else if py_startswith line ''data:''
                    then sse_events idle (ln_got l + idle) (pending @ [py_lstrip (drop 5 line)]) ls
               else if line = [] \<and> pending \<noteq> []
                    then if event_of pending = DONE_SENTINEL then [] else Frame (event_of pending) # sse_events idle deadline [] ls
               else sse_events idle deadline pending ls))"

text \<open>
  \<open>_stream_events\<close>: a fault when the connection fails, the error of a status of at least 400, or the events of the body.
\<close>

definition stream_events :: "parse_error_fun \<Rightarrow> (http_response \<Rightarrow> QuotaHint option) \<Rightarrow> client \<Rightarrow> http_request \<Rightarrow> pyfloat \<Rightarrow> string
    \<Rightarrow> (ProviderError + sse_item list) \<times> QuotaHint option" where
  "stream_events parse hints cl rq idle_timeout_s model = (case cl_stream cl rq of
      Inl fault \<Rightarrow> (Inl (parse (Inl fault) (Some model)), None)
    | Inr o1 \<Rightarrow>
        (if hr_status (op_response o1) \<ge> 400
         then Inl (parse (case op_read_fault o1 of Some fault \<Rightarrow> Inl fault | None \<Rightarrow> Inr (op_response o1)) (Some model))
         else Inr (sse_events idle_timeout_s (op_at o1 + idle_timeout_s) [] (op_lines o1)),
         publish_hint (hints (op_response o1)) None))"

text \<open>
  What the three \<^verbatim>\<open>stream\<close> methods have in common: a frame that is no JSON is \<open>Unavailable\<close>, one that is no object is
  skipped, any other becomes a chunk or the error \<open>chunk_of\<close> raises; a stall and a broken connection end the stream.
\<close>

fun chunks_of :: "json_lib \<Rightarrow> ProviderError \<Rightarrow> (transport_fault \<Rightarrow> ProviderError) \<Rightarrow> (jdict \<Rightarrow> ProviderError + StreamChunk) \<Rightarrow> sse_item list
    \<Rightarrow> upstream list" where
  "chunks_of lib unavailable faulted chunk_of [] = []"
| "chunks_of lib unavailable faulted chunk_of (Stalled # us) = [UFault unavailable]"
| "chunks_of lib unavailable faulted chunk_of (Cut fault # us) = [UFault (faulted fault)]"
| "chunks_of lib unavailable faulted chunk_of (Frame f # us) = (case jl_loads lib f of
      None \<Rightarrow> [UFault unavailable]
    | Some v \<Rightarrow> (case jobj v of
          None \<Rightarrow> chunks_of lib unavailable faulted chunk_of us
        | Some event \<Rightarrow> (case chunk_of event of
              Inl e \<Rightarrow> [UFault e]
            | Inr c \<Rightarrow> UChunk c # chunks_of lib unavailable faulted chunk_of us)))"

definition unavailable_error :: "string \<Rightarrow> string \<Rightarrow> ProviderError" where
  "unavailable_error name model = \<lparr>pe_class = Unavailable, pe_provider = name, pe_model = model, pe_status_code = None\<rparr>"

definition adapter_stream :: "string \<Rightarrow> json_lib \<Rightarrow> parse_error_fun \<Rightarrow> (http_response \<Rightarrow> QuotaHint option) \<Rightarrow> (jdict \<Rightarrow> ProviderError + StreamChunk)
    \<Rightarrow> client \<Rightarrow> http_request \<Rightarrow> pyfloat \<Rightarrow> string \<Rightarrow> upstream list \<times> QuotaHint option" where
  "adapter_stream name lib parse hints chunk_of cl rq idle_timeout_s model =
    (case stream_events parse hints cl rq idle_timeout_s model of
       (Inl e, hint) \<Rightarrow> ([UFault e], hint)
     | (Inr items, hint) \<Rightarrow> (chunks_of lib (unavailable_error name model) (\<lambda>fault. parse (Inl fault) (Some model)) chunk_of items, hint))"

subsection \<open>Header values\<close>

text \<open>\<^verbatim>\<open>float(raw.strip())\<close> of a header that is present and not empty.\<close>

definition header_float :: "http_response \<Rightarrow> string \<Rightarrow> pyfloat option" where
  "header_float response h = (case hr_headers response h of Some (c # cs) \<Rightarrow> float_of_text (c # cs) | _ \<Rightarrow> None)"

definition header_int :: "http_response \<Rightarrow> string \<Rightarrow> int option" where
  "header_int response h = Option.bind (hr_headers response h) int_of_text"

definition json_object :: "http_response \<Rightarrow> jdict option" where
  "json_object response = Option.bind (hr_json response) jobj"

definition mentions :: "string list \<Rightarrow> string option \<Rightarrow> bool" where
  "mentions phrases message = (case message of Some s \<Rightarrow> s \<noteq> [] \<and> list_ex (\<lambda>p. py_contains p (py_lower s)) phrases | None \<Rightarrow> False)"

definition limit_in :: "(string \<Rightarrow> int option) \<Rightarrow> string option \<Rightarrow> int option" where
  "limit_in re message = (case message of Some s \<Rightarrow> if s = [] then None else re s | None \<Rightarrow> None)"

text \<open>A token count, and a usage block of two of them.\<close>

definition usage_in :: "jdict \<Rightarrow> string \<Rightarrow> string \<Rightarrow> (jdict \<Rightarrow> int) \<Rightarrow> Usage option" where
  "usage_in u k_in k_out extra = (case (jint (jget u k_in), jint (jget u k_out)) of
      (Some i, Some n) \<Rightarrow> Some \<lparr>us_tokens_in = i, us_tokens_out = n + extra u, us_estimated = False\<rparr>
    | _ \<Rightarrow> None)"

definition first_some :: "string option \<Rightarrow> string option \<Rightarrow> string" where
  "first_some model recovered = (case model of Some (c # cs) \<Rightarrow> c # cs | _ \<Rightarrow> or_unknown recovered)"

definition transport_error :: "string \<Rightarrow> string option \<Rightarrow> ProviderError" where
  "transport_error name model = unavailable_error name (or_unknown model)"

definition key_models :: "json \<Rightarrow> string \<Rightarrow> string list" where
  "key_models entries k = (case jarr entries of None \<Rightarrow> [] | Some es \<Rightarrow>
     List.map_filter (\<lambda>e. Option.bind (jobj e) (\<lambda>kvs. jstr (jget kvs k))) es)"

subsection \<open>The contract\<close>

text \<open>The methods of \<^verbatim>\<open>ProviderAdapter\<close>. A call returns what it returns or raises, and the hint it published.\<close>

record provider_ops =
  pa_name :: string
  pa_build_payload :: "CanonicalMessage list \<Rightarrow> ModelSpec \<Rightarrow> GenParams \<Rightarrow> ResolvedAttachment list \<Rightarrow> jdict exn"
  pa_complete :: "client \<Rightarrow> jdict \<Rightarrow> string \<Rightarrow> pyfloat \<Rightarrow> (ProviderError + Completion) exn \<times> QuotaHint option"
  pa_stream :: "client \<Rightarrow> jdict \<Rightarrow> string \<Rightarrow> pyfloat \<Rightarrow> pyfloat \<Rightarrow> upstream list \<times> QuotaHint option"
  pa_parse_error :: parse_error_fun
  pa_extract_usage :: "jdict \<Rightarrow> Usage"
  pa_estimate_tokens :: "jdict \<Rightarrow> int"
  pa_validate_key :: "client \<Rightarrow> string \<Rightarrow> (ProviderError + KeyValidation) \<times> QuotaHint option"
  pa_rate_limit_headers :: "http_response \<Rightarrow> QuotaHint option"

subsection \<open>Comments and deadlines\<close>

definition is_comment :: "line_step \<Rightarrow> bool" where
  "is_comment l = (case ln_item l of Line raw \<Rightarrow> py_startswith (rstrip_chars [CHR 0x0D, CHR 0x0A] raw) '':'' | _ \<Rightarrow> False)"

text \<open>The clock does not run backwards.\<close>

fun clock_runs :: "instant \<Rightarrow> line_step list \<Rightarrow> bool" where
  "clock_runs t [] \<longleftrightarrow> True"
| "clock_runs t (l # ls) \<longleftrightarrow> t \<le> ln_asked l \<and> ln_asked l \<le> ln_got l \<and> clock_runs (ln_got l) ls"

text \<open>From the deadline on the next line, whatever it is, is a stall.\<close>

lemma late_stalls: "clock_runs t ls \<Longrightarrow> deadline \<le> t \<Longrightarrow> sse_events idle deadline pending (filter P ls) = [Stalled]"
proof (induction ls arbitrary: t)
  case (Cons l ls)
  then show ?case by (cases "P l") (auto intro: Cons.IH)
qed simp

declare sse_events.simps(2) [simp del]

definition late :: "instant \<Rightarrow> line_step \<Rightarrow> bool" where
  "late deadline l \<longleftrightarrow> deadline - ln_asked l \<le> 0 \<or> ln_got l > deadline"

lemma sse_late: "late deadline l \<Longrightarrow> sse_events idle deadline pending (l # ls) = [Stalled]"
  by (simp add: late_def sse_events.simps(2))

lemma comment_step: "is_comment l \<Longrightarrow> \<not> late deadline l \<Longrightarrow> sse_events idle deadline pending (l # ls) = sse_events idle deadline pending ls"
  by (auto simp: is_comment_def late_def sse_events.simps(2) Let_def split: line_item.splits)

lemma sse_drop_comments:
  "clock_runs t ls \<Longrightarrow> sse_events idle deadline pending (filter (\<lambda>l. \<not> is_comment l) ls) = sse_events idle deadline pending ls"
proof (induction ls arbitrary: t deadline pending)
  case (Cons l ls)
  have runs: "clock_runs (ln_got l) ls" using Cons.prems by simp
  have IH: "sse_events idle d p (filter (\<lambda>l. \<not> is_comment l) ls) = sse_events idle d p ls" for d p by (rule Cons.IH [OF runs])
  show ?case
  proof (cases "is_comment l")
    case True
    have "sse_events idle deadline pending (filter (\<lambda>l. \<not> is_comment l) ls) = [Stalled]" if "late deadline l"
      by (rule late_stalls [OF runs]) (use that Cons.prems in \<open>auto simp: late_def\<close>)
    then show ?thesis using True IH by (cases "late deadline l") (simp_all add: comment_step sse_late)
  next
    case False
    then show ?thesis using IH by (cases "ln_item l") (simp_all add: sse_events.simps(2) Let_def)
  qed
qed simp

text \<open>
  An event as a provider writes it: the text after \<^verbatim>\<open>data:\<close>, then an empty line. A text is plain when the framing cannot
  change it. \<open>in_time\<close>: every line comes before the deadline that the last data line set.
\<close>

definition wire_of :: "string \<Rightarrow> line_item list" where
  "wire_of p = [Line (''data: '' @ p), Line []]"

definition plain :: "string \<Rightarrow> bool" where
  "plain p \<longleftrightarrow> CHR 0x0D \<notin> set p \<and> CHR 0x0A \<notin> set p \<and> (p = [] \<or> \<not> isspace (hd p))"

fun in_time :: "pyfloat \<Rightarrow> instant \<Rightarrow> line_step list \<Rightarrow> bool" where
  "in_time idle deadline [] \<longleftrightarrow> True"
| "in_time idle deadline (l # ls) \<longleftrightarrow> \<not> late deadline l \<and>
    in_time idle (case ln_item l of Line raw \<Rightarrow> if py_startswith raw ''data:'' then ln_got l + idle else deadline | _ \<Rightarrow> deadline) ls"

lemma rstrip_last: "s \<noteq> [] \<Longrightarrow> last s \<notin> set cs \<Longrightarrow> rstrip_chars cs s = s"
  by (cases s rule: rev_cases) (auto simp: rstrip_chars_def)

lemma read_data_line:
  assumes "plain p"
  shows "rstrip_chars [CHR 0x0D, CHR 0x0A] (''data: '' @ p) = ''data: '' @ p" "py_lstrip (drop 5 (''data: '' @ p)) = p"
proof -
  have "last (''data: '' @ p) \<notin> {CHR 0x0D, CHR 0x0A}" using assms last_in_set [of p] by (auto simp: plain_def simp del: last_in_set)
  then show "rstrip_chars [CHR 0x0D, CHR 0x0A] (''data: '' @ p) = ''data: '' @ p" by (intro rstrip_last) auto
  show "py_lstrip (drop 5 (''data: '' @ p)) = p" using assms by (cases p) (auto simp: plain_def py_lstrip_def isspace_def)
qed

text \<open>One event in time is one frame, and moves the deadline; the sentinel ends the stream.\<close>

lemma sse_one_event:
  assumes "plain p" "in_time idle deadline (l1 # l2 # ls)" "ln_item l1 = Line (''data: '' @ p)" "ln_item l2 = Line []"
  shows "sse_events idle deadline [] (l1 # l2 # ls) =
    (if p = DONE_SENTINEL then [] else Frame p # sse_events idle (ln_got l1 + idle) [] ls) \<and> in_time idle (ln_got l1 + idle) ls"
proof -
  have d: "py_startswith (''data: '' @ p) ''data:''" "\<not> py_startswith (''data: '' @ p) '':''" by (simp_all add: py_startswith_def)
  have "sse_events idle deadline [] (l1 # l2 # ls) = sse_events idle (ln_got l1 + idle) [p] (l2 # ls)"
    using assms(2,3) d read_data_line [OF assms(1)] by (simp add: sse_events.simps(2) late_def Let_def del: append_Cons drop_Cons')
  also have "\<dots> = (if p = DONE_SENTINEL then [] else Frame p # sse_events idle (ln_got l1 + idle) [] ls)"
    using assms(2-4) d by (simp add: sse_events.simps(2) late_def Let_def rstrip_chars_def py_startswith_def event_of_def)
  finally show ?thesis using assms(2-4) d by (simp add: py_startswith_def)
qed

lemma split_wire: "map ln_item ls = wire_of p @ xs \<Longrightarrow>
  \<exists>l1 l2 ls'. ls = l1 # l2 # ls' \<and> ln_item l1 = Line (''data: '' @ p) \<and> ln_item l2 = Line [] \<and> map ln_item ls' = xs"
  by (auto simp: wire_of_def map_eq_Cons_conv)

lemma sse_delivers:
  assumes "list_all (\<lambda>p. plain p \<and> p \<noteq> DONE_SENTINEL) ps" "map ln_item ls = concat (map wire_of (ps @ [DONE_SENTINEL]))" "in_time idle deadline ls"
  shows "sse_events idle deadline [] ls = map Frame ps"
  using assms
proof (induction ps arbitrary: ls deadline)
  case Nil
  then obtain l1 l2 where ls: "ls = [l1, l2]" and i: "ln_item l1 = Line (''data: '' @ DONE_SENTINEL)" "ln_item l2 = Line []"
    using split_wire [of ls DONE_SENTINEL "[]"] by auto
  have "plain DONE_SENTINEL" by (simp add: plain_def DONE_SENTINEL_def isspace_def)
  then show ?case using sse_one_event [OF _ _ i, of idle deadline "[]"] Nil.prems(3) by (simp add: ls)
next
  case (Cons p ps)
  then obtain l1 l2 ls' where ls: "ls = l1 # l2 # ls'" and i: "ln_item l1 = Line (''data: '' @ p)" "ln_item l2 = Line []"
    and rest: "map ln_item ls' = concat (map wire_of (ps @ [DONE_SENTINEL]))"
    using split_wire [of ls p] by auto
  from Cons.prems sse_one_event [OF _ _ i, of idle deadline ls'] Cons.IH [OF _ rest, of "ln_got l1 + idle"]
  show ?case by (simp add: ls)
qed

subsection \<open>Properties of the event reader\<close>

text \<open>A keepalive comment is invisible: with a clock that does not run backwards, the events read from a body, and
  whether and where it stalls, are those of the body without its comment lines. A run of comments longer than the idle
  timeout is a stall.\<close>

theorem keepalives_are_invisible:
  assumes "clock_runs t ls"
  shows "sse_events idle deadline pending ls = sse_events idle deadline pending (filter (\<lambda>l. \<not> is_comment l) ls)"
  using sse_drop_comments [OF assms] by simp

definition ex_line :: "instant \<Rightarrow> line_item \<Rightarrow> line_step" where
  "ex_line t x = \<lparr>ln_asked = t, ln_got = t, ln_item = x\<rparr>"

definition ex_stalled :: "line_step list" where
  "ex_stalled = [ex_line 1 (Line ''data: a''), ex_line 1 (Line []), ex_line 20 (Line '': PROCESSING''), ex_line 30 (Line '': PROCESSING''),
     ex_line 40 (Line ''data: b'')]"

theorem keepalives_are_invisible_witness:
  "sse_events 30 30 [] ex_stalled = [Frame ''a'', Stalled]"
proof -
  have "sse_events 30 30 [] ex_stalled = sse_events 30 30 [] (filter (\<lambda>l. \<not> is_comment l) ex_stalled)"
    by (rule keepalives_are_invisible [of 0]) (simp add: ex_stalled_def ex_line_def)
  also have "\<dots> = [Frame ''a'', Stalled]" by code_simp
  finally show ?thesis .
qed

text \<open>A streamed answer arrives whole: when every data line comes within the idle timeout of the one before it, the
  events of a successful response up to the sentinel are delivered one for one and in order, whatever keepalives stand
  between them.\<close>

theorem stream_delivers_in_time:
  assumes "cl_stream cl rq = Inr body" "hr_status (op_response body) < 400" "clock_runs (op_at body) (op_lines body)"
    and "list_all (\<lambda>p. plain p \<and> p \<noteq> DONE_SENTINEL) ps"
    and "map ln_item (filter (\<lambda>l. \<not> is_comment l) (op_lines body)) = concat (map wire_of (ps @ [DONE_SENTINEL]))"
    and "in_time idle (op_at body + idle) (filter (\<lambda>l. \<not> is_comment l) (op_lines body))"
  shows "fst (stream_events parse hints cl rq idle model) = Inr (map Frame ps)"
  using assms sse_delivers [OF assms(4-6)] sse_drop_comments [OF assms(3)] by (simp add: stream_events_def)

definition ex_response :: "int \<Rightarrow> json option \<Rightarrow> http_response" where
  "ex_response status body = \<lparr>hr_status = status, hr_json = body, hr_headers = (\<lambda>_. None), hr_request_json = None, hr_request_path = None\<rparr>"

definition ex_opened :: opened where
  "ex_opened = \<lparr>op_response = ex_response 200 None, op_read_fault = None, op_at = 0,
     op_lines = [ex_line 20 (Line '': PROCESSING''), ex_line 25 (Line ''data: a''), ex_line 25 (Line []), ex_line 40 (Line '': PROCESSING''),
       ex_line 54 (Line ''data: b''), ex_line 54 (Line []), ex_line 55 (Line ''data: [DONE]''), ex_line 55 (Line [])]\<rparr>"

definition ex_client :: "http_response \<Rightarrow> client" where
  "ex_client response = \<lparr>cl_request = (\<lambda>_. Inr response), cl_stream = (\<lambda>_. Inr ex_opened)\<rparr>"

definition ex_request :: http_request where
  "ex_request = http_request_of (new_http_adapter ''https://api.example/v1/'' None) ''POST'' ''/chat/completions'' [] None 60"

theorem stream_delivers_in_time_witness:
  "fst (stream_events (default_parse_error ''x'') default_rate_limit_headers (ex_client (ex_response 200 None)) ex_request 30 ''m'')
     = Inr [Frame ''a'', Frame ''b'']"
proof -
  have "fst (stream_events (default_parse_error ''x'') default_rate_limit_headers (ex_client (ex_response 200 None)) ex_request 30 ''m'')
     = Inr (map Frame [''a'', ''b''])"
    by (rule stream_delivers_in_time [where body = ex_opened])
      (simp_all add: ex_client_def ex_opened_def ex_response_def ex_line_def is_comment_def wire_of_def DONE_SENTINEL_def late_def plain_def
         rstrip_chars_def py_startswith_def isspace_def)
  then show ?thesis by simp
qed

text \<open>Only a data line moves the deadline: the blank line that ends an event does not.\<close>

lemma blank_line_keeps_deadline:
  "sse_events 30 30 [] [ex_line 1 (Line ''data: a''), ex_line 25 (Line []), ex_line 32 (Line ''data: b'')] = [Frame ''a'', Stalled]"
  by code_simp

subsection \<open>The contract as an interface\<close>

text \<open>
  What fitting measures, in two parts: the text of the messages, and the native files they refer to.
\<close>

definition text_cost :: "CanonicalMessage list \<Rightarrow> ResolvedAttachment list \<Rightarrow> int" where
  "text_cost ms as = sum_list (map (\<lambda>m. estimate_text_tokens (materialize m (index_by_hash as)) + PER_MESSAGE_TOKEN_OVERHEAD) ms)"

definition embedded_tokens :: "CanonicalMessage list \<Rightarrow> ResolvedAttachment list \<Rightarrow> int" where
  "embedded_tokens ms as = sum_list (map (\<lambda>m. native_tokens (List.map_filter (\<lambda>b. Option.bind (ref_hash b) (index_by_hash as)) (cm_content m))) ms)"

lemma total_cost_split: "total_cost ms as materialize estimate_text_tokens = text_cost ms as + embedded_tokens ms as"
  by (simp add: total_cost_def text_cost_def embedded_tokens_def cost_def sum_list_addf)

lemma text_cost_positive: "ms \<noteq> [] \<Longrightarrow> 1 \<le> text_cost ms as"
proof (induction ms)
  case (Cons m ms)
  have "1 \<le> estimate_text_tokens (materialize m (index_by_hash as)) + PER_MESSAGE_TOKEN_OVERHEAD"
    by (simp add: estimate_text_tokens_def PER_MESSAGE_TOKEN_OVERHEAD_def)
  with Cons show ?case by (cases ms) (auto simp: text_cost_def)
qed simp

text \<open>
  A stream as the router may see it: chunks that carry no refusal, then at most one error, which names the provider and
  the model.
\<close>

fun stream_ok :: "string \<Rightarrow> string \<Rightarrow> upstream list \<Rightarrow> bool" where
  "stream_ok name model [] \<longleftrightarrow> True"
| "stream_ok name model (UChunk c # us) \<longleftrightarrow> sc_finish_reason c \<noteq> Some ''content_filter'' \<and> stream_ok name model us"
| "stream_ok name model (UFault e # us) \<longleftrightarrow> us = [] \<and> pe_provider e = name \<and> pe_model e = model"
| "stream_ok name model (UTimeout # us) \<longleftrightarrow> False"

text \<open>
  What the router and the render pipeline rely on. Errors name the provider and the model that was asked, so that they
  reach the right breaker; a fault of the transport is \<open>Unavailable\<close>; an estimate is positive and at most what fitting
  measured; an answer is never blank and never a refusal; a key is called valid or invalid only when the provider
  answered.
\<close>

locale provider_adapter =
  fixes ops :: provider_ops
  assumes parse_names: "pe_provider (pa_parse_error ops exc model) = pa_name ops"
    and parse_keeps_model: "m \<noteq> [] \<Longrightarrow> pe_model (pa_parse_error ops exc (Some m)) = m"
    and transport_unavailable: "pe_class (pa_parse_error ops (Inl fault) model) = Unavailable"
    and estimate_positive: "1 \<le> pa_estimate_tokens ops payload"
    and estimate_within: "pa_build_payload ops ms spec params as = Inr payload \<Longrightarrow> pa_estimate_tokens ops payload \<le> max 1 (text_cost ms as)"
    and complete_answers: "pa_complete ops cl payload key timeout = (Inr (Inr c), hint) \<Longrightarrow> \<not> blank (cp_text c) \<and> cp_finish_reason c \<noteq> FR_content_filter"
    and complete_names: "pa_build_payload ops ms spec params as = Inr payload \<Longrightarrow> ms_model spec \<noteq> [] \<Longrightarrow>
      pa_complete ops cl payload key timeout = (Inr (Inl e), hint) \<Longrightarrow> pe_provider e = pa_name ops \<and> pe_model e = ms_model spec"
    and stream_names: "pa_build_payload ops ms spec params as = Inr payload \<Longrightarrow> ms_model spec \<noteq> [] \<Longrightarrow>
      stream_ok (pa_name ops) (ms_model spec) (fst (pa_stream ops cl payload key timeout idle))"
    and validates: "pa_validate_key ops cl key = (Inr kv, hint) \<Longrightarrow>
      kv_provider kv = pa_name ops \<and> (\<exists>rq response. cl_request cl rq = Inr response \<and> (kv_valid kv \<longleftrightarrow> hr_status response < 400))"
begin

lemma payload_fits:
  assumes "pa_build_payload ops ms spec params as = Inr payload" "total_cost ms as materialize estimate_text_tokens \<le> n" "0 < n"
  shows "pa_estimate_tokens ops payload + embedded_tokens ms as \<le> n"
proof (cases "ms = []")
  case True
  then show ?thesis using estimate_within [OF assms(1)] assms(3) by (simp add: text_cost_def embedded_tokens_def)
next
  case False
  then have "1 \<le> text_cost ms as" by (rule text_cost_positive)
  with estimate_within [OF assms(1)] assms(2) show ?thesis by (simp add: total_cost_split)
qed

end

subsection \<open>Requests and streams under the contract\<close>

lemma adapter_request_cases:
  assumes "adapter_request parse hints cl rq model = (r, hint)"
  obtains fault where "cl_request cl rq = Inl fault" "r = Inl (parse (Inl fault) model)"
    | response where "cl_request cl rq = Inr response" "r = Inr response"
  using assms by (auto simp: adapter_request_def split: sum.splits)

lemma chunks_of_ok:
  assumes "\<And>ev c. chunk_of ev = Inr c \<Longrightarrow> sc_finish_reason c \<noteq> Some ''content_filter''"
    and "\<And>ev e. chunk_of ev = Inl e \<Longrightarrow> pe_provider e = name \<and> pe_model e = model"
    and "\<And>f. pe_provider (faulted f) = name \<and> pe_model (faulted f) = model"
  shows "stream_ok name model (chunks_of lib (unavailable_error name model) faulted chunk_of items)"
proof (induction items)
  case (Cons it items)
  then show ?case using assms by (cases it) (auto simp: unavailable_error_def split: option.splits sum.splits)
qed simp

lemma adapter_stream_ok:
  assumes "\<And>ev c. chunk_of ev = Inr c \<Longrightarrow> sc_finish_reason c \<noteq> Some ''content_filter''"
    and "\<And>ev e. chunk_of ev = Inl e \<Longrightarrow> pe_provider e = name \<and> pe_model e = model"
    and p: "\<And>x. pe_provider (parse x (Some model)) = name \<and> pe_model (parse x (Some model)) = model"
  shows "stream_ok name model (fst (adapter_stream name lib parse hints chunk_of cl rq idle model))"
  using chunks_of_ok [of chunk_of name model "\<lambda>f. parse (Inl f) (Some model)", OF assms(1,2)] p
  by (auto simp: adapter_stream_def stream_events_def split: sum.splits)

lemma first_some_model [simp]: "m \<noteq> [] \<Longrightarrow> first_some (Some m) r = m" "m \<noteq> [] \<Longrightarrow> or_unknown (Some m) = m"
  by (cases m; simp add: first_some_def or_unknown_def)+

end
