(* ===== verification/Gw_Chat.thy ===== *)
theory Gw_Chat
  imports Gw_Adapter
begin

text \<open>
  The two adapters that speak the OpenAI chat format: \<^verbatim>\<open>app/providers/groq.py\<close> and \<^verbatim>\<open>app/providers/openrouter.py\<close>. The
  sources repeat the code of the request body, of the answer and of a stream chunk word for word; it is written once
  here (\<open>chat_\<close>), and each adapter's functions instantiate it or say what they do differently.
\<close>

definition CHAT_COMPLETIONS_PATH :: string where "CHAT_COMPLETIONS_PATH = ''/chat/completions''"
definition CHAT_MODELS_PATH :: string where "CHAT_MODELS_PATH = ''/models''"
definition VALIDATE_KEY_TIMEOUT_S :: pyfloat where "VALIDATE_KEY_TIMEOUT_S = 10"

subsection \<open>The request body\<close>

fun role_name :: "Role \<Rightarrow> string" where
  "role_name System = ''system''"
| "role_name User = ''user''"
| "role_name Assistant = ''assistant''"

definition chat_render_attachment :: "ResolvedAttachment \<Rightarrow> string exn" where
  "chat_render_attachment a = (if ra_mode a = Native then Inl NotImplementedError else Inr (document_envelope a))"

definition chat_render_block :: "by_hash \<Rightarrow> ContentBlock \<Rightarrow> string list exn" where
  "chat_render_block bh b = (case b of
      TextBlock s \<Rightarrow> Inr [s]
    | OmissionMarkerBlock n \<Rightarrow> Inr [''['' @ int_text n @ '' earlier messages omitted]'']
    | FileRefBlock h _ _ _ \<Rightarrow> (case bh h of None \<Rightarrow> Inl ValueError | Some a \<Rightarrow> ebind (chat_render_attachment a) (\<lambda>s. Inr [s]))
    | OtherBlock _ \<Rightarrow> Inr [])"

definition BLANK_LINE :: string where "BLANK_LINE = [CHR 0x0A, CHR 0x0A]"

definition chat_render_content :: "by_hash \<Rightarrow> CanonicalMessage \<Rightarrow> string exn" where
  "chat_render_content bh message = ebind (emap (chat_render_block bh) (cm_content message)) (\<lambda>parts. Inr (join BLANK_LINE (concat parts)))"

definition opt_field :: "string \<Rightarrow> 'a option \<Rightarrow> ('a \<Rightarrow> json) \<Rightarrow> jdict" where
  "opt_field k v f = (case v of None \<Rightarrow> [] | Some x \<Rightarrow> [(k, f x)])"

definition stop_field :: "string \<Rightarrow> string list \<Rightarrow> jdict" where
  "stop_field k stop = (if stop = [] then [] else [(k, JArr (map JStr stop))])"

definition chat_build_payload :: "CanonicalMessage list \<Rightarrow> ModelSpec \<Rightarrow> GenParams \<Rightarrow> ResolvedAttachment list \<Rightarrow> jdict exn" where
  "chat_build_payload messages spec params attachments =
    (let bh = index_by_hash attachments
     in ebind (emap (\<lambda>m. ebind (chat_render_content bh m) (\<lambda>content.
                  Inr (JObj [(''role'', JStr (role_name (cm_role m))), (''content'', JStr content)]))) messages) (\<lambda>rendered.
        Inr ([(''model'', JStr (ms_model spec)), (''messages'', JArr rendered), (''temperature'', JFloat (gp_temperature params)),
              (''stream'', JBool (gp_stream params))] @
             opt_field ''max_tokens'' (gp_max_tokens params) (\<lambda>n. JInt (min n (ms_max_output_tokens spec))) @
             opt_field ''top_p'' (gp_top_p params) JFloat @
             stop_field ''stop'' (gp_stop params))))"

subsection \<open>The answer\<close>

definition chat_message_content :: "jdict \<Rightarrow> string option" where
  "chat_message_content choice = Option.bind (jobj (jget choice ''message'')) (\<lambda>message. jstr (jget message ''content''))"

text \<open>\<^verbatim>\<open>_FINISH_REASONS.get(raw, "stop") if raw else "stop"\<close>: a non-empty list or dict cannot be looked up (\<^verbatim>\<open>TypeError\<close>).\<close>

definition chat_finish :: "(string \<Rightarrow> finish_reason option) \<Rightarrow> json \<Rightarrow> finish_reason exn" where
  "chat_finish reasons raw = (case raw of
      JStr s \<Rightarrow> Inr (case reasons s of Some r \<Rightarrow> r | None \<Rightarrow> FR_stop)
    | JArr (x # xs) \<Rightarrow> Inl OtherError
    | JObj (x # xs) \<Rightarrow> Inl OtherError
    | _ \<Rightarrow> Inr FR_stop)"

definition provider_error :: "error_class \<Rightarrow> string \<Rightarrow> string \<Rightarrow> int option \<Rightarrow> ProviderError" where
  "provider_error c name model status = \<lparr>pe_class = c, pe_provider = name, pe_model = model, pe_status_code = status\<rparr>"

definition chat_read_choice :: "string \<Rightarrow> (string \<Rightarrow> finish_reason option) \<Rightarrow> jdict \<Rightarrow> string \<Rightarrow> (ProviderError + string \<times> finish_reason) exn" where
  "chat_read_choice name reasons body model =
    (let fail = (\<lambda>c. Inr (Inl (provider_error c name model None)))
     in case first_obj (jget body ''choices'') of
          None \<Rightarrow> fail EmptyResponse
        | Some choice \<Rightarrow>
            (let raw_finish = jget choice ''finish_reason''
             in if raw_finish = JStr ''content_filter'' then fail ContentFiltered
                else case chat_message_content choice of
                    None \<Rightarrow> fail EmptyResponse
                  | Some content \<Rightarrow> if blank content then fail EmptyResponse
                      else ebind (chat_finish reasons raw_finish) (\<lambda>r. Inr (Inr (content, r)))))"

definition chat_estimate_output_tokens :: "jdict \<Rightarrow> int" where
  "chat_estimate_output_tokens body = (case Option.bind (first_obj (jget body ''choices'')) chat_message_content of
      None \<Rightarrow> 0 | Some content \<Rightarrow> int (length content div CHARS_PER_TOKEN))"

definition chat_extract_usage :: "jdict \<Rightarrow> Usage" where
  "chat_extract_usage body = (case Option.bind (jobj (jget body ''usage'')) (\<lambda>u. usage_in u ''prompt_tokens'' ''completion_tokens'' (\<lambda>_. 0)) of
      Some u \<Rightarrow> u
    | None \<Rightarrow> \<lparr>us_tokens_in = 0, us_tokens_out = chat_estimate_output_tokens body, us_estimated = True\<rparr>)"

definition chat_message_tokens :: "json \<Rightarrow> int" where
  "chat_message_tokens message = (case jobj message of None \<Rightarrow> 0
     | Some kvs \<Rightarrow> (case jstr (jget kvs ''content'') of Some content \<Rightarrow> int (length content div CHARS_PER_TOKEN) | None \<Rightarrow> 0)
                    + PER_MESSAGE_TOKEN_OVERHEAD)"

definition chat_estimate_tokens :: "jdict \<Rightarrow> int" where
  "chat_estimate_tokens payload = (case jarr (jget payload ''messages'') of None \<Rightarrow> 1
     | Some messages \<Rightarrow> max 1 (sum_list (map chat_message_tokens messages)))"

text \<open>\<^verbatim>\<open>str(payload.get("model", "unknown"))\<close>.\<close>

definition payload_model :: "json_lib \<Rightarrow> jdict \<Rightarrow> string" where
  "payload_model lib payload = py_str lib (jget_or payload ''model'' (JStr ''unknown''))"

text \<open>\<open>with_input\<close>: the one place that holds both halves of an estimated usage.\<close>

definition with_input :: "Usage \<Rightarrow> int \<Rightarrow> Usage" where
  "with_input usage n = (if us_estimated usage then usage\<lparr>us_tokens_in := n\<rparr> else usage)"

text \<open>From a response to a completion, common to the three adapters: \<open>read\<close> takes the text out of the body.\<close>

definition completion_of :: "string \<Rightarrow> parse_error_fun \<Rightarrow> (jdict \<Rightarrow> (ProviderError + string \<times> finish_reason) exn) \<Rightarrow> (jdict \<Rightarrow> Usage) \<Rightarrow> int
    \<Rightarrow> string \<Rightarrow> string \<Rightarrow> http_response \<Rightarrow> (ProviderError + Completion) exn" where
  "completion_of name parse read extract input_tokens id_key model response =
    (if hr_status response \<ge> 400 then Inr (Inl (parse (Inr response) (Some model)))
     else case json_object response of
         None \<Rightarrow> Inr (Inl (provider_error EmptyResponse name model (Some (hr_status response))))
       | Some body \<Rightarrow> ebind (read body) (\<lambda>r. Inr (case r of
             Inl e \<Rightarrow> Inl e
           | Inr (txt, reason) \<Rightarrow> Inr \<lparr>cp_text = txt, cp_usage = with_input (extract body) input_tokens, cp_finish_reason = reason,
                                      cp_raw_id = jstr (jget body id_key)\<rparr>)))"

definition complete_via :: "string \<Rightarrow> parse_error_fun \<Rightarrow> (http_response \<Rightarrow> QuotaHint option) \<Rightarrow> (int \<Rightarrow> jdict \<Rightarrow> (ProviderError + string \<times> finish_reason) exn)
    \<Rightarrow> (jdict \<Rightarrow> Usage) \<Rightarrow> int \<Rightarrow> string \<Rightarrow> client \<Rightarrow> http_request \<Rightarrow> string \<Rightarrow> (ProviderError + Completion) exn \<times> QuotaHint option" where
  "complete_via name parse hints read extract input_tokens id_key cl rq model =
    (case adapter_request parse hints cl rq (Some model) of
       (Inl e, hint) \<Rightarrow> (Inr (Inl e), hint)
     | (Inr response, hint) \<Rightarrow> (completion_of name parse (read (hr_status response)) extract input_tokens id_key model response, hint))"

definition validate_via :: "parse_error_fun \<Rightarrow> (http_response \<Rightarrow> QuotaHint option) \<Rightarrow> (http_response \<Rightarrow> ProviderError + KeyValidation) \<Rightarrow> client \<Rightarrow> http_request
    \<Rightarrow> (ProviderError + KeyValidation) \<times> QuotaHint option" where
  "validate_via parse hints check cl rq = (case adapter_request parse hints cl rq None of
      (Inl e, hint) \<Rightarrow> (Inl e, hint)
    | (Inr response, hint) \<Rightarrow> (check response, hint))"

definition chat_stream_chunk :: "(string \<Rightarrow> finish_reason option) \<Rightarrow> (finish_reason \<Rightarrow> string) \<Rightarrow> Usage option \<Rightarrow> jdict \<Rightarrow> StreamChunk" where
  "chat_stream_chunk reasons reason_name usage event = (case first_obj (jget event ''choices'') of
      None \<Rightarrow> \<lparr>sc_delta = [], sc_finish_reason = None, sc_usage = usage\<rparr>
    | Some choice \<Rightarrow>
        \<lparr>sc_delta = (case Option.bind (jobj (jget choice ''delta'')) (\<lambda>d. jstr (jget d ''content'')) of Some s \<Rightarrow> s | None \<Rightarrow> []),
         sc_finish_reason = map_option (\<lambda>raw. case reasons raw of Some r \<Rightarrow> reason_name r | None \<Rightarrow> raw) (jstr (jget choice ''finish_reason'')),
         sc_usage = usage\<rparr>)"

fun finish_name :: "finish_reason \<Rightarrow> string" where
  "finish_name FR_stop = ''stop''"
| "finish_name FR_length = ''length''"
| "finish_name FR_content_filter = ''content_filter''"
| "finish_name FR_error = ''error''"

text \<open>A chunk that says the model declined is raised, not passed on.\<close>

definition refuse_filtered :: "string \<Rightarrow> string \<Rightarrow> StreamChunk \<Rightarrow> ProviderError + StreamChunk" where
  "refuse_filtered name model chunk =
    (if sc_finish_reason chunk = Some ''content_filter'' then Inl (provider_error ContentFiltered name model None) else Inr chunk)"

definition model_from_request :: "http_response \<Rightarrow> string option" where
  "model_from_request response = Option.bind (hr_request_json response) (\<lambda>v. Option.bind (jobj v) (\<lambda>kvs. jstr (jget kvs ''model'')))"

definition bearer_headers :: "string \<Rightarrow> (string \<times> string) list" where
  "bearer_headers key = [(''Authorization'', ''Bearer '' @ key), (''Accept'', ''application/json'')]"

definition rejected_key :: "string \<Rightarrow> string \<Rightarrow> KeyValidation" where
  "rejected_key name detail = \<lparr>kv_valid = False, kv_provider = name, kv_detail = Some detail, kv_models = []\<rparr>"

definition accepted_key :: "string \<Rightarrow> string list \<Rightarrow> KeyValidation" where
  "accepted_key name models = \<lparr>kv_valid = True, kv_provider = name, kv_detail = None, kv_models = models\<rparr>"

definition chat_validate_response :: "string \<Rightarrow> parse_error_fun \<Rightarrow> string \<Rightarrow> http_response \<Rightarrow> ProviderError + KeyValidation" where
  "chat_validate_response name parse detail response =
    (if hr_status response = 401 \<or> hr_status response = 403 then Inr (rejected_key name detail)
     else if hr_status response \<ge> 400 then Inl (parse (Inr response) None)
     else Inr (accepted_key name (key_models (jget (case json_object response of None \<Rightarrow> [] | Some b \<Rightarrow> b) ''data'') ''id'')))"


subsection \<open>Groq\<close>

definition GROQ :: string where "GROQ = ''groq''"

definition groq_context_codes :: "string list" where
  "groq_context_codes = [''context_length_exceeded'', ''string_above_max_length'']"
definition groq_rate_limit_codes :: "string list" where
  "groq_rate_limit_codes = [''rate_limit_exceeded'', ''tokens_exceeded'', ''quota_exceeded'']"
definition groq_content_filter_codes :: "string list" where
  "groq_content_filter_codes = [''content_filter'', ''content_policy_violation'']"
definition groq_context_phrases :: "string list" where
  "groq_context_phrases = [''reduce the length'', ''context length'', ''maximum context'', ''too long for model'']"
definition groq_limit_phrases :: "string list" where
  "groq_limit_phrases = [''maximum context length is'', ''context length of'', ''limit'']"

definition groq_finish_reasons :: "string \<Rightarrow> finish_reason option" where
  "groq_finish_reasons = map_of [(''stop'', FR_stop), (''length'', FR_length), (''max_tokens'', FR_length), (''content_filter'', FR_content_filter)]"

definition groq_parse_duration :: "string \<Rightarrow> pyfloat option" where
  "groq_parse_duration raw =
    (let txt = py_strip raw
     in if txt = [] then None
        else case find_durations txt of [] \<Rightarrow> float_of_text txt | ds \<Rightarrow> Some (sum_list ds))"

definition groq_duration_header :: "http_response \<Rightarrow> string \<Rightarrow> pyfloat option" where
  "groq_duration_header response h = Option.bind (hr_headers response h) groq_parse_duration"

definition groq_read_retry_after :: "http_response \<Rightarrow> pyfloat option" where
  "groq_read_retry_after response = (case header_float response ''retry-after'' of
      Some x \<Rightarrow> Some x
    | None \<Rightarrow> (case groq_duration_header response ''x-ratelimit-reset-tokens'' of
        Some x \<Rightarrow> Some x
      | None \<Rightarrow> groq_duration_header response ''x-ratelimit-reset-requests''))"

definition groq_read_error_fields :: "jdict option \<Rightarrow> string option \<times> string option" where
  "groq_read_error_fields body = (case body of None \<Rightarrow> (None, None)
    | Some b \<Rightarrow> (case jget b ''error'' of
          JStr s \<Rightarrow> (None, Some s)
        | JObj err \<Rightarrow> (jstr (jget err ''code''), jstr (jget err ''message''))
        | _ \<Rightarrow> (None, jstr (jget b ''message''))))"

definition groq_read_limit_tokens :: "string option \<Rightarrow> int option" where
  "groq_read_limit_tokens = limit_in (limit_tokens_in groq_limit_phrases)"

definition code_in :: "string option \<Rightarrow> string list \<Rightarrow> bool" where
  "code_in code codes = (case code of None \<Rightarrow> False | Some c \<Rightarrow> c \<in> set codes)"

definition groq_class :: "int \<Rightarrow> string option \<Rightarrow> string option \<Rightarrow> pyfloat option \<Rightarrow> error_class" where
  "groq_class status code message retry =
    (if code_in code groq_context_codes then ContextTooLong (groq_read_limit_tokens message)
     else if code_in code groq_rate_limit_codes then RateLimited retry
     else if code_in code groq_content_filter_codes then ContentFiltered
     else if status = 401 \<or> status = 403 then AuthFailed
     else if status = 429 then RateLimited retry
     else if status = 413 then ContextTooLong (groq_read_limit_tokens message)
     else if status = 400 \<or> status = 422
          then if mentions groq_context_phrases message then ContextTooLong (groq_read_limit_tokens message) else BadRequest
     else if status = 404 then BadRequest
     else Unavailable)"

definition groq_error_from_response :: "http_response \<Rightarrow> string option \<Rightarrow> ProviderError" where
  "groq_error_from_response response model =
    (let (code, message) = groq_read_error_fields (json_object response)
     in provider_error (groq_class (hr_status response) code message (groq_read_retry_after response)) GROQ
          (first_some model (model_from_request response)) (Some (hr_status response)))"

definition groq_parse_error :: parse_error_fun where
  "groq_parse_error exc model = (case exc of
      Inl fault \<Rightarrow> transport_error GROQ model
    | Inr response \<Rightarrow> groq_error_from_response response model)"

definition groq_rate_limit_headers :: "http_response \<Rightarrow> QuotaHint option" where
  "groq_rate_limit_headers response =
    (let hint = \<lparr>qh_requests_remaining = header_int response ''x-ratelimit-remaining-requests'',
                 qh_tokens_remaining = header_int response ''x-ratelimit-remaining-tokens'',
                 qh_requests_reset_s = groq_duration_header response ''x-ratelimit-reset-requests'',
                 qh_tokens_reset_s = groq_duration_header response ''x-ratelimit-reset-tokens''\<rparr>
     in if hint_is_empty hint then None else Some hint)"

definition groq_read_choice :: "jdict \<Rightarrow> string \<Rightarrow> (ProviderError + string \<times> finish_reason) exn" where
  "groq_read_choice body model = chat_read_choice GROQ groq_finish_reasons body model"

definition groq_complete :: "http_adapter \<Rightarrow> json_lib \<Rightarrow> client \<Rightarrow> jdict \<Rightarrow> string \<Rightarrow> pyfloat \<Rightarrow> (ProviderError + Completion) exn \<times> QuotaHint option" where
  "groq_complete self lib cl payload key timeout =
    (let model = payload_model lib payload
     in complete_via GROQ groq_parse_error groq_rate_limit_headers (\<lambda>_ body. groq_read_choice body model) chat_extract_usage
          (chat_estimate_tokens payload) ''id'' cl
          (http_request_of self ''POST'' CHAT_COMPLETIONS_PATH (bearer_headers key) (Some payload) timeout) model)"

text \<open>Usage rides on the last chunk under \<^verbatim>\<open>x_groq\<close>.\<close>

definition groq_stream_chunk :: "jdict \<Rightarrow> StreamChunk" where
  "groq_stream_chunk event = chat_stream_chunk groq_finish_reasons finish_name
     (Option.bind (jobj (jget event ''x_groq'')) (\<lambda>x. Option.bind (jobj (jget x ''usage''))
        (\<lambda>u. usage_in u ''prompt_tokens'' ''completion_tokens'' (\<lambda>_. 0)))) event"

definition groq_stream :: "http_adapter \<Rightarrow> json_lib \<Rightarrow> client \<Rightarrow> jdict \<Rightarrow> string \<Rightarrow> pyfloat \<Rightarrow> pyfloat \<Rightarrow> upstream list \<times> QuotaHint option" where
  "groq_stream self lib cl payload key timeout idle_timeout =
    (let model = payload_model lib payload
     in adapter_stream GROQ lib groq_parse_error groq_rate_limit_headers (\<lambda>event. refuse_filtered GROQ model (groq_stream_chunk event)) cl
          (http_request_of self ''POST'' CHAT_COMPLETIONS_PATH (bearer_headers key) (Some payload) timeout) idle_timeout model)"

definition groq_validate_key :: "http_adapter \<Rightarrow> client \<Rightarrow> string \<Rightarrow> (ProviderError + KeyValidation) \<times> QuotaHint option" where
  "groq_validate_key self cl key =
    validate_via groq_parse_error groq_rate_limit_headers
      (chat_validate_response GROQ groq_parse_error ''Groq rejected this key. Check that it is active and has not been revoked.'') cl
      (http_request_of self ''GET'' CHAT_MODELS_PATH (bearer_headers key) None VALIDATE_KEY_TIMEOUT_S)"

definition groq_ops :: "http_adapter \<Rightarrow> json_lib \<Rightarrow> provider_ops" where
  "groq_ops self lib = \<lparr>pa_name = GROQ, pa_build_payload = chat_build_payload, pa_complete = groq_complete self lib,
     pa_stream = groq_stream self lib, pa_parse_error = groq_parse_error, pa_extract_usage = chat_extract_usage,
     pa_estimate_tokens = chat_estimate_tokens, pa_validate_key = groq_validate_key self, pa_rate_limit_headers = groq_rate_limit_headers\<rparr>"

subsection \<open>OpenRouter\<close>

definition OPENROUTER :: string where "OPENROUTER = ''openrouter''"
definition MS_EPOCH_FLOOR :: pyfloat where "MS_EPOCH_FLOOR = 100000000000"
definition S_EPOCH_FLOOR :: pyfloat where "S_EPOCH_FLOOR = 1000000000"
definition REMAINING_HEADER :: string where "REMAINING_HEADER = ''x-ratelimit-remaining''"
definition RESET_HEADER :: string where "RESET_HEADER = ''x-ratelimit-reset''"

definition openrouter_credit_codes :: "string list" where
  "openrouter_credit_codes = [''402'', ''insufficient_credits'', ''insufficient_quota'']"
definition openrouter_rate_limit_codes :: "string list" where
  "openrouter_rate_limit_codes = [''429'', ''rate_limit_exceeded'', ''rate_limited'']"
definition openrouter_context_codes :: "string list" where
  "openrouter_context_codes = [''context_length_exceeded'', ''string_above_max_length'']"
definition openrouter_content_filter_codes :: "string list" where
  "openrouter_content_filter_codes = [''content_filter'', ''content_policy_violation'']"
definition openrouter_context_phrases :: "string list" where
  "openrouter_context_phrases = [''reduce the length'', ''context length'', ''maximum context'', ''too long for model'', ''token limit'']"
definition openrouter_limit_phrases :: "string list" where
  "openrouter_limit_phrases = [''maximum context length is'', ''context length of'', ''limit is'', ''limit'']"

definition openrouter_finish_reasons :: "string \<Rightarrow> finish_reason option" where
  "openrouter_finish_reasons = map_of [(''stop'', FR_stop), (''length'', FR_length), (''max_tokens'', FR_length),
     (''content_filter'', FR_content_filter), (''error'', FR_error)]"

text \<open>The repeated code.\<close>

definition openrouter_build_payload :: "CanonicalMessage list \<Rightarrow> ModelSpec \<Rightarrow> GenParams \<Rightarrow> ResolvedAttachment list \<Rightarrow> jdict exn" where
  "openrouter_build_payload = chat_build_payload"
definition openrouter_extract_usage :: "jdict \<Rightarrow> Usage" where
  "openrouter_extract_usage = chat_extract_usage"
definition openrouter_estimate_tokens :: "jdict \<Rightarrow> int" where
  "openrouter_estimate_tokens = chat_estimate_tokens"
definition openrouter_read_limit_tokens :: "string option \<Rightarrow> int option" where
  "openrouter_read_limit_tokens = limit_in (limit_tokens_in openrouter_limit_phrases)"

text \<open>The reset header is a time in milliseconds or in seconds, or already a delay; \<open>now\<close> is the injected clock.\<close>

definition reset_seconds :: "instant \<Rightarrow> string option \<Rightarrow> pyfloat option" where
  "reset_seconds now raw = (case Option.bind raw float_of_text of None \<Rightarrow> None
     | Some v \<Rightarrow> Some (if v > MS_EPOCH_FLOOR then max 0 (v / 1000 - now) else if v > S_EPOCH_FLOOR then max 0 (v - now) else max 0 v))"

definition openrouter_read_retry_after :: "instant \<Rightarrow> http_response option \<Rightarrow> pyfloat option" where
  "openrouter_read_retry_after now response = (case response of None \<Rightarrow> None
     | Some r \<Rightarrow> (case header_float r ''retry-after'' of Some x \<Rightarrow> Some x | None \<Rightarrow> reset_seconds now (hr_headers r RESET_HEADER)))"

text \<open>\<^verbatim>\<open>error.code\<close> is an integer here; it is compared as text.\<close>

definition openrouter_read_error_fields :: "jdict option \<Rightarrow> string option \<times> string option \<times> jdict" where
  "openrouter_read_error_fields body = (case body of None \<Rightarrow> (None, None, [])
    | Some b \<Rightarrow> (case jget b ''error'' of
          JStr s \<Rightarrow> (None, Some s, [])
        | JObj err \<Rightarrow> ((case jget err ''code'' of JStr s \<Rightarrow> Some s | JInt n \<Rightarrow> Some (int_text n) | _ \<Rightarrow> None),
                       jstr (jget err ''message''), (case jobj (jget err ''metadata'') of Some d \<Rightarrow> d | None \<Rightarrow> []))
        | _ \<Rightarrow> (None, jstr (jget b ''message''), [])))"

definition looks_like_moderation :: "jdict \<Rightarrow> bool" where
  "looks_like_moderation metadata \<longleftrightarrow> map_of metadata ''reasons'' \<noteq> None \<or> map_of metadata ''flagged_input'' \<noteq> None"

definition openrouter_class :: "int \<Rightarrow> string option \<Rightarrow> string option \<Rightarrow> jdict \<Rightarrow> pyfloat option \<Rightarrow> error_class" where
  "openrouter_class status code message metadata retry =
    (if code_in code openrouter_credit_codes then RateLimited retry
     else if code_in code openrouter_rate_limit_codes then RateLimited retry
     else if code_in code openrouter_context_codes then ContextTooLong (openrouter_read_limit_tokens message)
     else if code_in code openrouter_content_filter_codes then ContentFiltered
     else if status = 402 then RateLimited retry
     else if status = 403 \<and> looks_like_moderation metadata then ContentFiltered
     else if status = 401 \<or> status = 403 then AuthFailed
     else if status = 429 then RateLimited retry
     else if status = 400 \<or> status = 422
          then if mentions openrouter_context_phrases message then ContextTooLong (openrouter_read_limit_tokens message) else BadRequest
     else if status = 404 then BadRequest
     else Unavailable)"

definition openrouter_classify :: "instant \<Rightarrow> int \<Rightarrow> jdict option \<Rightarrow> string option \<Rightarrow> http_response option \<Rightarrow> ProviderError" where
  "openrouter_classify now status body model response =
    (let (code, message, metadata) = openrouter_read_error_fields body
     in provider_error (openrouter_class status code message metadata (openrouter_read_retry_after now response)) OPENROUTER
          (first_some model (Option.bind response model_from_request)) (Some status))"

definition openrouter_parse_error :: "instant \<Rightarrow> parse_error_fun" where
  "openrouter_parse_error now exc model = (case exc of
      Inl fault \<Rightarrow> transport_error OPENROUTER model
    | Inr response \<Rightarrow> openrouter_classify now (hr_status response) (json_object response) model (Some response))"

definition openrouter_rate_limit_headers :: "instant \<Rightarrow> http_response \<Rightarrow> QuotaHint option" where
  "openrouter_rate_limit_headers now response =
    (let hint = \<lparr>qh_requests_remaining = header_int response REMAINING_HEADER, qh_tokens_remaining = None,
                 qh_requests_reset_s = reset_seconds now (hr_headers response RESET_HEADER), qh_tokens_reset_s = None\<rparr>
     in if hint_is_empty hint then None else Some hint)"

text \<open>The options of the deployment first, so that the credential wins.\<close>

definition dict_set :: "(string \<times> 'v) list \<Rightarrow> string \<Rightarrow> 'v \<Rightarrow> (string \<times> 'v) list" where
  "dict_set d k v = (if k \<in> fst ` set d then map (\<lambda>(a, b). if a = k then (a, v) else (a, b)) d else d @ [(k, v)])"

definition openrouter_auth_headers :: "http_adapter \<Rightarrow> string \<Rightarrow> (string \<times> string) list" where
  "openrouter_auth_headers self key = dict_set (dict_set (ha_options self) ''Authorization'' (''Bearer '' @ key)) ''Accept'' ''application/json''"

text \<open>A body of a 200 may be an error object.\<close>

definition openrouter_read_choice :: "instant \<Rightarrow> jdict \<Rightarrow> int \<Rightarrow> string \<Rightarrow> (ProviderError + string \<times> finish_reason) exn" where
  "openrouter_read_choice now body status model =
    (if jobj (jget body ''error'') \<noteq> None then Inr (Inl (openrouter_classify now status (Some body) (Some model) None))
     else chat_read_choice OPENROUTER openrouter_finish_reasons body model)"

definition openrouter_complete :: "http_adapter \<Rightarrow> json_lib \<Rightarrow> instant \<Rightarrow> client \<Rightarrow> jdict \<Rightarrow> string \<Rightarrow> pyfloat
    \<Rightarrow> (ProviderError + Completion) exn \<times> QuotaHint option" where
  "openrouter_complete self lib now cl payload key timeout =
    (let model = payload_model lib payload
     in complete_via OPENROUTER (openrouter_parse_error now) (openrouter_rate_limit_headers now)
          (\<lambda>status body. openrouter_read_choice now body status model) openrouter_extract_usage (openrouter_estimate_tokens payload) ''id'' cl
          (http_request_of self ''POST'' CHAT_COMPLETIONS_PATH (openrouter_auth_headers self key) (Some payload) timeout) model)"

definition openrouter_stream_chunk :: "jdict \<Rightarrow> StreamChunk" where
  "openrouter_stream_chunk event = chat_stream_chunk openrouter_finish_reasons finish_name
     (Option.bind (jobj (jget event ''usage'')) (\<lambda>u. usage_in u ''prompt_tokens'' ''completion_tokens'' (\<lambda>_. 0))) event"

definition openrouter_event :: "instant \<Rightarrow> string \<Rightarrow> jdict \<Rightarrow> ProviderError + StreamChunk" where
  "openrouter_event now model event =
    (if jobj (jget event ''error'') \<noteq> None then Inl (openrouter_classify now 200 (Some event) (Some model) None)
     else refuse_filtered OPENROUTER model (openrouter_stream_chunk event))"

definition openrouter_stream :: "http_adapter \<Rightarrow> json_lib \<Rightarrow> instant \<Rightarrow> client \<Rightarrow> jdict \<Rightarrow> string \<Rightarrow> pyfloat \<Rightarrow> pyfloat
    \<Rightarrow> upstream list \<times> QuotaHint option" where
  "openrouter_stream self lib now cl payload key timeout idle_timeout =
    (let model = payload_model lib payload
     in adapter_stream OPENROUTER lib (openrouter_parse_error now) (openrouter_rate_limit_headers now) (openrouter_event now model) cl
          (http_request_of self ''POST'' CHAT_COMPLETIONS_PATH (openrouter_auth_headers self key) (Some payload) timeout) idle_timeout model)"

definition openrouter_validate_key :: "http_adapter \<Rightarrow> instant \<Rightarrow> client \<Rightarrow> string \<Rightarrow> (ProviderError + KeyValidation) \<times> QuotaHint option" where
  "openrouter_validate_key self now cl key =
    validate_via (openrouter_parse_error now) (openrouter_rate_limit_headers now)
      (chat_validate_response OPENROUTER (openrouter_parse_error now)
         ''OpenRouter rejected this key. Check that it is active and has not been revoked.'') cl
      (http_request_of self ''GET'' CHAT_MODELS_PATH (openrouter_auth_headers self key) None VALIDATE_KEY_TIMEOUT_S)"

definition openrouter_ops :: "http_adapter \<Rightarrow> json_lib \<Rightarrow> instant \<Rightarrow> provider_ops" where
  "openrouter_ops self lib now = \<lparr>pa_name = OPENROUTER, pa_build_payload = openrouter_build_payload, pa_complete = openrouter_complete self lib now,
     pa_stream = openrouter_stream self lib now, pa_parse_error = openrouter_parse_error now, pa_extract_usage = openrouter_extract_usage,
     pa_estimate_tokens = openrouter_estimate_tokens, pa_validate_key = openrouter_validate_key self now,
     pa_rate_limit_headers = openrouter_rate_limit_headers now\<rparr>"

subsection \<open>Calls under the contract\<close>


lemma completion_of_cases:
  assumes "completion_of name parse read extract n k model response = Inr r"
  obtains "400 \<le> hr_status response" "r = Inl (parse (Inr response) (Some model))"
    | "r = Inl (provider_error EmptyResponse name model (Some (hr_status response)))"
    | body e where "read body = Inr (Inl e)" "r = Inl e"
    | body c where "read body = Inr (Inr (cp_text c, cp_finish_reason c))" "r = Inr c"
proof (cases "400 \<le> hr_status response")
  case True
  with assms that(1) show ?thesis by (auto simp: completion_of_def)
next
  case status: False
  show ?thesis
  proof (cases "json_object response")
    case None
    with assms status that(2) show ?thesis by (auto simp: completion_of_def)
  next
    case (Some body)
    with assms status obtain x where x: "read body = Inr x" and r: "r = (case x of Inl e \<Rightarrow> Inl e
        | Inr (txt, reason) \<Rightarrow> Inr \<lparr>cp_text = txt, cp_usage = with_input (extract body) n, cp_finish_reason = reason,
                                     cp_raw_id = jstr (jget body k)\<rparr>)"
      by (auto simp: completion_of_def ebind_Inr_iff)
    show ?thesis
    proof (cases x)
      case (Inl e)
      with x r that(3) show ?thesis by auto
    next
      case (Inr tr)
      with x r have "read body = Inr (Inr (cp_text (projr r), cp_finish_reason (projr r)))" "r = Inr (projr r)" by (auto split: prod.splits)
      then show ?thesis by (rule that(4))
    qed
  qed
qed

lemma complete_via_answers:
  assumes "complete_via name parse hints read extract n k cl rq model = (Inr (Inr c), hint)"
    and "\<And>status body txt r. read status body = Inr (Inr (txt, r)) \<Longrightarrow> \<not> blank txt \<and> r \<noteq> FR_content_filter"
  shows "\<not> blank (cp_text c) \<and> cp_finish_reason c \<noteq> FR_content_filter"
  using assms by (auto simp: complete_via_def split: prod.splits sum.splits elim!: completion_of_cases)

lemma complete_via_names:
  assumes "complete_via name parse hints read extract n k cl rq model = (Inr (Inl e), hint)"
    and "\<And>status body e. read status body = Inr (Inl e) \<Longrightarrow> pe_provider e = name \<and> pe_model e = model"
    and "\<And>x. pe_provider (parse x (Some model)) = name \<and> pe_model (parse x (Some model)) = model"
  shows "pe_provider e = name \<and> pe_model e = model"
  using assms by (auto simp: complete_via_def provider_error_def split: prod.splits sum.splits elim!: completion_of_cases adapter_request_cases)

lemma validate_via_laws:
  assumes "validate_via parse hints check cl rq = (Inr kv, hint)"
    and "\<And>response kv. check response = Inr kv \<Longrightarrow> kv_provider kv = name \<and> (kv_valid kv \<longleftrightarrow> hr_status response < 400)"
  shows "kv_provider kv = name \<and> (\<exists>rq response. cl_request cl rq = Inr response \<and> (kv_valid kv \<longleftrightarrow> hr_status response < 400))"
  using assms by (fastforce simp: validate_via_def split: prod.splits sum.splits elim!: adapter_request_cases)

lemma refuse_filtered_laws:
  "refuse_filtered name model c = Inr c' \<Longrightarrow> sc_finish_reason c' \<noteq> Some ''content_filter''"
  "refuse_filtered name model c = Inl e \<Longrightarrow> pe_provider e = name \<and> pe_model e = model"
  by (auto simp: refuse_filtered_def provider_error_def split: if_splits)

lemma chat_read_choice_laws:
  "chat_read_choice name reasons body model = Inr (Inr (s, r)) \<Longrightarrow> (\<And>x. reasons x = Some FR_content_filter \<Longrightarrow> x = ''content_filter'') \<Longrightarrow>
     \<not> blank s \<and> r \<noteq> FR_content_filter"
  "chat_read_choice name reasons body model = Inr (Inl e) \<Longrightarrow> pe_provider e = name \<and> pe_model e = model"
  by (auto simp: chat_read_choice_def provider_error_def ebind_Inr_iff chat_finish_def Let_def
      split: if_splits option.splits json.splits list.splits)


subsection \<open>The text sent is the text measured\<close>

lemma not_native: "mode \<noteq> Native \<longleftrightarrow> mode = Injected"
  by (cases mode) auto

lemma chat_block_part: "chat_render_block bh b = Inr ps \<Longrightarrow> ps = (case block_part bh b of None \<Rightarrow> [] | Some s \<Rightarrow> [s])"
  by (cases b) (auto simp: chat_render_block_def block_part_def chat_render_attachment_def not_native split: option.splits if_splits)

lemma concat_parts: "concat (map (\<lambda>b. case f b of None \<Rightarrow> [] | Some s \<Rightarrow> [s]) bs) = List.map_filter f bs"
  by (induction bs) (auto simp: map_filter_def split: option.splits)

lemma emap_map: "emap f xs = Inr ys \<Longrightarrow> (\<And>x y. f x = Inr y \<Longrightarrow> y = g x) \<Longrightarrow> ys = map g xs"
  by (induction xs arbitrary: ys) (auto simp: ebind_Inr_iff)

lemma chat_content_materialize: "chat_render_content bh m = Inr s \<Longrightarrow> s = materialize m bh"
  by (auto simp: chat_render_content_def ebind_Inr_iff materialize_def BLANK_LINE_def concat_parts [symmetric]
      dest: emap_map [where g = "\<lambda>b. case block_part bh b of None \<Rightarrow> [] | Some s \<Rightarrow> [s]", OF _ chat_block_part])

lemma chat_estimate:
  assumes "chat_build_payload ms spec params as = Inr payload"
  shows "chat_estimate_tokens payload = max 1 (text_cost ms as)"
proof -
  let ?g = "\<lambda>m. JObj [(''role'', JStr (role_name (cm_role m))), (''content'', JStr (materialize m (index_by_hash as)))]"
  from assms obtain rendered where e: "emap (\<lambda>m. ebind (chat_render_content (index_by_hash as) m) (\<lambda>content.
      Inr (JObj [(''role'', JStr (role_name (cm_role m))), (''content'', JStr content)]))) ms = Inr rendered"
    and p: "jget payload ''messages'' = JArr rendered"
    by (auto simp: chat_build_payload_def ebind_Inr_iff Let_def)
  have "rendered = map ?g ms" by (rule emap_map [OF e]) (auto simp: ebind_Inr_iff dest: chat_content_materialize)
  with p show ?thesis
    by (simp add: chat_estimate_tokens_def text_cost_def chat_message_tokens_def estimate_text_tokens_def comp_def)
qed

lemma chat_payload_model: "chat_build_payload ms spec params as = Inr payload \<Longrightarrow> payload_model lib payload = ms_model spec"
  by (auto simp: chat_build_payload_def ebind_Inr_iff Let_def payload_model_def jget_or_def py_str_def)


subsection \<open>Groq meets the contract\<close>

lemma groq_parse_laws:
  "pe_provider (groq_parse_error exc model) = GROQ" "m \<noteq> [] \<Longrightarrow> pe_model (groq_parse_error exc (Some m)) = m"
  "pe_class (groq_parse_error (Inl fault) model) = Unavailable"
  by (auto simp: groq_parse_error_def transport_error_def unavailable_error_def groq_error_from_response_def provider_error_def split: sum.splits prod.splits)

lemma groq_finish_filter: "groq_finish_reasons x = Some FR_content_filter \<Longrightarrow> x = ''content_filter''"
  by (auto simp: groq_finish_reasons_def split: if_splits)

lemma validate_response_laws:
  "chat_validate_response name parse detail response = Inr kv \<Longrightarrow> kv_provider kv = name \<and> (kv_valid kv \<longleftrightarrow> hr_status response < 400)"
  by (auto simp: chat_validate_response_def rejected_key_def accepted_key_def split: if_splits)

lemma chat_estimate_pos: "1 \<le> chat_estimate_tokens payload"
  by (simp add: chat_estimate_tokens_def split: option.splits)

lemma groq_call_laws:
  "groq_complete self lib cl payload key timeout = (Inr (Inr c), hint) \<Longrightarrow> \<not> blank (cp_text c) \<and> cp_finish_reason c \<noteq> FR_content_filter"
  "groq_complete self lib cl payload key timeout = (Inr (Inl e), hint) \<Longrightarrow> payload_model lib payload = m \<Longrightarrow> m \<noteq> [] \<Longrightarrow>
     pe_provider e = GROQ \<and> pe_model e = m"
  "payload_model lib payload = m \<Longrightarrow> m \<noteq> [] \<Longrightarrow> stream_ok GROQ m (fst (groq_stream self lib cl payload key timeout idle))"
  "groq_validate_key self cl key = (Inr kv, hint) \<Longrightarrow>
     kv_provider kv = GROQ \<and> (\<exists>rq response. cl_request cl rq = Inr response \<and> (kv_valid kv \<longleftrightarrow> hr_status response < 400))"
  unfolding groq_complete_def groq_stream_def groq_validate_key_def Let_def
  subgoal by (erule complete_via_answers) (auto simp: groq_read_choice_def dest: chat_read_choice_laws(1) groq_finish_filter)
  subgoal by (drule complete_via_names) (auto simp: groq_read_choice_def groq_parse_laws dest: chat_read_choice_laws(2))
  subgoal by (auto simp: groq_parse_laws intro!: adapter_stream_ok dest: refuse_filtered_laws)
  subgoal by (erule validate_via_laws) (rule validate_response_laws)
  done

interpretation groq: provider_adapter "groq_ops self lib"
  by unfold_locales (auto simp: groq_ops_def groq_parse_laws chat_estimate chat_estimate_pos intro: groq_call_laws(3) chat_payload_model
      dest: groq_call_laws(1,4) groq_call_laws(2) [OF _ chat_payload_model])

subsection \<open>OpenRouter meets the contract\<close>

lemma openrouter_classify_laws:
  "pe_provider (openrouter_classify now status body model response) = OPENROUTER"
  "m \<noteq> [] \<Longrightarrow> pe_model (openrouter_classify now status body (Some m) response) = m"
  by (simp_all add: openrouter_classify_def provider_error_def split: prod.splits)

lemma openrouter_parse_laws:
  "pe_provider (openrouter_parse_error now exc model) = OPENROUTER" "m \<noteq> [] \<Longrightarrow> pe_model (openrouter_parse_error now exc (Some m)) = m"
  "pe_class (openrouter_parse_error now (Inl fault) model) = Unavailable"
  by (auto simp: openrouter_parse_error_def transport_error_def unavailable_error_def openrouter_classify_laws split: sum.splits)

lemma openrouter_finish_filter: "openrouter_finish_reasons x = Some FR_content_filter \<Longrightarrow> x = ''content_filter''"
  by (auto simp: openrouter_finish_reasons_def split: if_splits)

lemma openrouter_call_laws:
  "openrouter_complete self lib now cl payload key timeout = (Inr (Inr c), hint) \<Longrightarrow> \<not> blank (cp_text c) \<and> cp_finish_reason c \<noteq> FR_content_filter"
  "openrouter_complete self lib now cl payload key timeout = (Inr (Inl e), hint) \<Longrightarrow> payload_model lib payload = m \<Longrightarrow> m \<noteq> [] \<Longrightarrow>
     pe_provider e = OPENROUTER \<and> pe_model e = m"
  "payload_model lib payload = m \<Longrightarrow> m \<noteq> [] \<Longrightarrow> stream_ok OPENROUTER m (fst (openrouter_stream self lib now cl payload key timeout idle))"
  "openrouter_validate_key self now cl key = (Inr kv, hint) \<Longrightarrow>
     kv_provider kv = OPENROUTER \<and> (\<exists>rq response. cl_request cl rq = Inr response \<and> (kv_valid kv \<longleftrightarrow> hr_status response < 400))"
  unfolding openrouter_complete_def openrouter_stream_def openrouter_validate_key_def Let_def
  subgoal by (erule complete_via_answers) (auto simp: openrouter_read_choice_def split: if_splits dest: chat_read_choice_laws(1) openrouter_finish_filter)
  subgoal by (drule complete_via_names) (auto simp: openrouter_read_choice_def openrouter_parse_laws openrouter_classify_laws split: if_splits
      dest: chat_read_choice_laws(2))
  subgoal by (auto simp: openrouter_parse_laws openrouter_event_def openrouter_classify_laws split: if_splits intro!: adapter_stream_ok
      dest: refuse_filtered_laws)
  subgoal by (erule validate_via_laws) (rule validate_response_laws)
  done

interpretation openrouter: provider_adapter "openrouter_ops self lib now"
  by unfold_locales (auto simp: openrouter_ops_def openrouter_build_payload_def openrouter_estimate_tokens_def openrouter_parse_laws chat_estimate
      chat_estimate_pos intro: openrouter_call_laws(3) chat_payload_model
      dest: openrouter_call_laws(1,4) openrouter_call_laws(2) [OF _ chat_payload_model])
subsection \<open>Durations\<close>

fun unit_name :: "duration_unit \<Rightarrow> string" where
  "unit_name Ms = ''ms''"
| "unit_name Sec = ''s''"
| "unit_name Minute = ''m''"
| "unit_name Hour = ''h''"

text \<open>A Go duration is a sequence of terms: a whole number, decimals if there are any, a unit.\<close>

definition go_term :: "nat \<times> string \<times> duration_unit \<Rightarrow> string" where
  "go_term t = (case t of (n, decimals, u) \<Rightarrow> dec n @ (if decimals = [] then [] else CHR ''.'' # decimals) @ unit_name u)"

definition go_value :: "nat \<times> string \<times> duration_unit \<Rightarrow> pyfloat" where
  "go_value t = (case t of (n, decimals, u) \<Rightarrow> (of_nat n + of_nat (digits_value decimals) / 10 ^ length decimals) * unit_scale u)"

definition no_letter :: "string \<Rightarrow> bool" where
  "no_letter s \<longleftrightarrow> s = [] \<or> is_digit (hd s)"

lemma takeWhile_digits: "list_all is_digit ds \<Longrightarrow> s = [] \<or> \<not> is_digit (hd s) \<Longrightarrow> takeWhile is_digit (ds @ s) = ds"
  by (cases s) (auto simp: list_all_iff)

lemma unit_not_digit: "unit_name u \<noteq> [] \<and> \<not> is_digit (hd (unit_name u)) \<and> hd (unit_name u) \<noteq> CHR ''.''"
  by (cases u) (simp_all add: is_digit_def)

lemma read_unit_name: "no_letter rest \<Longrightarrow> read_unit (unit_name u @ rest) = Some (u, rest)"
  by (cases u; cases rest) (auto simp: read_unit_def py_startswith_def no_letter_def is_digit_def)

lemma read_decimal_term:
  assumes "list_all is_digit decimals"
  shows "read_decimal (dec n @ (if decimals = [] then [] else CHR ''.'' # decimals) @ unit_name u @ rest)
    = Some (of_nat n + of_nat (digits_value decimals) / 10 ^ length decimals, unit_name u @ rest)"
proof -
  have ip: "takeWhile is_digit (dec n @ s) = dec n" if "s = [] \<or> \<not> is_digit (hd s)" for s by (rule takeWhile_digits [OF dec_digits that])
  have ne: "dec n \<noteq> []" by (subst dec.simps) simp
  have hd_u: "\<not> is_digit (hd (unit_name u @ rest))" "hd (unit_name u @ rest) \<noteq> CHR ''.''" "unit_name u @ rest \<noteq> []" using unit_not_digit [of u] by auto
  have dot: "py_startswith (unit_name u @ rest) ''.'' = False" using hd_u by (cases "unit_name u @ rest") (auto simp: py_startswith_def)
  have "takeWhile is_digit (decimals @ unit_name u @ rest) = decimals" by (rule takeWhile_digits [OF assms]) (use hd_u in auto)
  moreover have "\<not> is_digit (CHR ''.'')" by (simp add: is_digit_def)
  moreover have "digits_value [] = 0" by (simp add: digits_value_def)
  ultimately show ?thesis
    using ip [of "unit_name u @ rest"] ip [of "CHR ''.'' # decimals @ unit_name u @ rest"] hd_u ne dot
    by (cases "decimals = []") (simp_all add: read_decimal_def Let_def dec_value py_startswith_def)
qed

lemma read_duration_term:
  assumes "list_all is_digit (fst (snd t))" "no_letter rest"
  shows "read_duration (go_term t @ rest) = Some (go_value t, rest)"
  using assms read_decimal_term [of "fst (snd t)" "fst t" "snd (snd t)" rest] read_unit_name [of rest "snd (snd t)"]
  by (auto simp: read_duration_def go_term_def go_value_def split: prod.splits)

lemma go_term_hd: "go_term t \<noteq> [] \<and> is_digit (hd (go_term t))"
proof -
  obtain n d u where t: "t = (n, d, u)" by (cases t)
  have "dec n \<noteq> []" by (subst dec.simps) simp
  then show ?thesis using dec_digits [of n] by (cases "dec n") (auto simp: t go_term_def)
qed

lemma find_go_terms: "list_all (\<lambda>t. list_all is_digit (fst (snd t))) ts \<Longrightarrow> find_durations (concat (map go_term ts)) = map go_value ts"
proof (induction ts)
  case (Cons t ts)
  have "no_letter (concat (map go_term ts))" using go_term_hd by (cases ts) (auto simp: no_letter_def)
  then have r: "read_duration (go_term t @ concat (map go_term ts)) = Some (go_value t, concat (map go_term ts))"
    using Cons.prems read_duration_term by simp
  obtain c cs where c: "go_term t = c # cs" using go_term_hd [of t] by (cases "go_term t") auto
  show ?case using r Cons.IH Cons.prems by (subst find_durations.simps) (simp add: c)
qed (simp add: find_durations.simps)

lemma go_terms_strip: "py_strip (concat (map go_term ts)) = concat (map go_term ts)"
proof (cases "ts = []")
  case False
  define s where "s = concat (map go_term ts)"
  have first: "s \<noteq> []" "is_digit (hd s)" using go_term_hd False by (cases ts; auto simp: s_def)+
  then have "dropWhile isspace s = s" by (cases s) (auto simp: is_digit_def isspace_def Let_def)
  moreover obtain ts' n d u where ts: "ts = ts' @ [(n, d, u)]" using False by (metis prod_cases3 rev_exhaust)
  have "last s = last (unit_name u)" using unit_not_digit [of u] by (simp add: s_def ts go_term_def)
  then have "\<not> isspace (last s)" by (cases u) (simp_all add: isspace_def)
  then have "dropWhile isspace (rev s) = rev s" using first(1) by (cases s rule: rev_cases) auto
  ultimately show ?thesis by (simp add: py_strip_def s_def [symmetric])
qed (simp add: py_strip_def)

text \<open>A Go duration, the form of Groq's reset headers, is read as the seconds it stands for, whatever terms it has.\<close>

theorem go_duration_roundtrip:
  assumes "list_all (\<lambda>t. list_all is_digit (fst (snd t))) ts" "ts \<noteq> []"
  shows "groq_parse_duration (concat (map go_term ts)) = Some (sum_list (map go_value ts))"
proof -
  have "concat (map go_term ts) \<noteq> []" using go_term_hd assms(2) by (cases ts) auto
  moreover obtain d ds where "find_durations (concat (map go_term ts)) = d # ds" "sum_list (map go_value ts) = sum_list (d # ds)"
    using find_go_terms [OF assms(1)] assms(2) by (cases ts) auto
  ultimately show ?thesis unfolding groq_parse_duration_def go_terms_strip Let_def by simp
qed

theorem go_duration_roundtrip_witness:
  "concat (map go_term [(2, [], Minute), (59, ''56'', Sec)]) = ''2m59.56s'' \<and> groq_parse_duration ''2m59.56s'' = Some (17956 / 100)"
proof -
  have t: "concat (map go_term [(2, [], Minute), (59, ''56'', Sec)]) = ''2m59.56s''" by code_simp
  have "groq_parse_duration (concat (map go_term [(2, [], Minute), (59, ''56'', Sec)])) = Some (sum_list (map go_value [(2, [], Minute), (59, ''56'', Sec)]))"
    by (rule go_duration_roundtrip) (simp_all add: is_digit_def)
  then show ?thesis unfolding t by (simp add: go_value_def digits_value_def)
qed

end
