(* ===== verification/Gw_Gemini.thy ===== *)
theory Gw_Gemini
  imports Gw_Chat
begin

text \<open>
  The Gemini adapter (\<^verbatim>\<open>app/providers/gemini.py\<close>): the model in the URL, the system prompt in a field of its own,
  refusals in the body of a 200, retry hints in the body of an error. Bytes of a file are a \<open>string\<close>, one \<open>char\<close> each.
\<close>

definition GEMINI :: string where "GEMINI = ''gemini''"
definition MODEL_FIELD :: string where "MODEL_FIELD = ''_model''"
definition API_KEY_HEADER :: string where "API_KEY_HEADER = ''x-goog-api-key''"
definition GEMINI_MODELS_PATH :: string where "GEMINI_MODELS_PATH = ''/models''"

definition generate_content_path :: "string \<Rightarrow> string" where
  "generate_content_path model = ''/models/'' @ model @ '':generateContent''"

definition stream_generate_content_path :: "string \<Rightarrow> string" where
  "stream_generate_content_path model = ''/models/'' @ model @ '':streamGenerateContent''"

definition gemini_block_finish_reasons :: "string list" where
  "gemini_block_finish_reasons = [''SAFETY'', ''RECITATION'', ''BLOCKLIST'', ''PROHIBITED_CONTENT'', ''SPII'', ''IMAGE_SAFETY'']"

definition gemini_finish_reasons :: "string \<Rightarrow> finish_reason option" where
  "gemini_finish_reasons = map_of [(''STOP'', FR_stop), (''MAX_TOKENS'', FR_length), (''SAFETY'', FR_content_filter), (''RECITATION'', FR_content_filter)]"

definition gemini_api_key_phrases :: "string list" where
  "gemini_api_key_phrases = [''api key not valid'', ''api_key_invalid'', ''api key expired'', ''invalid api key'']"

definition gemini_context_phrases :: "string list" where
  "gemini_context_phrases = [''input token count'', ''exceeds the maximum number of tokens'', ''request payload size exceeds'', ''context length'']"

definition gemini_auth_statuses :: "string list" where
  "gemini_auth_statuses = [''UNAUTHENTICATED'', ''PERMISSION_DENIED'', ''FAILED_PRECONDITION'']"
definition gemini_unavailable_statuses :: "string list" where
  "gemini_unavailable_statuses = [''UNAVAILABLE'', ''INTERNAL'', ''DEADLINE_EXCEEDED'', ''ABORTED'', ''CANCELLED'', ''UNKNOWN'']"
definition gemini_bad_request_statuses :: "string list" where
  "gemini_bad_request_statuses = [''INVALID_ARGUMENT'', ''OUT_OF_RANGE'', ''NOT_FOUND'', ''UNIMPLEMENTED'', ''ALREADY_EXISTS'']"

subsection \<open>Base64\<close>

definition b64_char :: "nat \<Rightarrow> char" where
  "b64_char n = ''ABCDEFGHIJKLMNOPQRSTUVWXYZabcdefghijklmnopqrstuvwxyz0123456789+/'' ! n"

fun b64encode :: "string \<Rightarrow> string" where
  "b64encode [] = []"
| "b64encode [a] = (let n = of_char a * 16 in [b64_char (n div 64), b64_char (n mod 64), CHR ''='', CHR ''=''])"
| "b64encode [a, b] = (let n = (of_char a * 256 + of_char b) * 4
     in [b64_char (n div 4096), b64_char (n div 64 mod 64), b64_char (n mod 64), CHR ''=''])"
| "b64encode (a # b # c # s) = (let n = (of_char a * 256 + of_char b) * 256 + of_char c
     in [b64_char (n div 262144), b64_char (n div 4096 mod 64), b64_char (n div 64 mod 64), b64_char (n mod 64)] @ b64encode s)"

subsection \<open>The request body\<close>

definition gemini_text_block :: "by_hash \<Rightarrow> ContentBlock \<Rightarrow> string list exn" where
  "gemini_text_block bh b = (case b of
      TextBlock s \<Rightarrow> Inr [s]
    | OmissionMarkerBlock n \<Rightarrow> Inr [''['' @ int_text n @ '' earlier messages omitted]'']
    | FileRefBlock h _ _ _ \<Rightarrow> (case bh h of None \<Rightarrow> Inl ValueError
        | Some a \<Rightarrow> Inr (if ra_mode a = Injected then [document_envelope a] else []))
    | OtherBlock _ \<Rightarrow> Inr [])"

definition gemini_render_text :: "by_hash \<Rightarrow> CanonicalMessage \<Rightarrow> string exn" where
  "gemini_render_text bh message = ebind (emap (gemini_text_block bh) (cm_content message)) (\<lambda>parts. Inr (join BLANK_LINE (concat parts)))"

definition text_part :: "string \<Rightarrow> json" where
  "text_part s = JObj [(''text'', JStr s)]"

definition inline_part :: "string \<Rightarrow> string \<Rightarrow> json" where
  "inline_part mime bytes = JObj [(''inline_data'', JObj [(''mime_type'', JStr mime), (''data'', JStr (b64encode bytes))])]"

definition native_part :: "by_hash \<Rightarrow> ContentBlock \<Rightarrow> json list exn" where
  "native_part bh b = (case Option.bind (ref_hash b) bh of None \<Rightarrow> Inr []
     | Some a \<Rightarrow> if ra_mode a \<noteq> Native then Inr []
                 else case ra_data a of None \<Rightarrow> Inl ValueError | Some bytes \<Rightarrow> Inr [inline_part (ra_mime a) bytes])"

definition native_parts :: "by_hash \<Rightarrow> CanonicalMessage \<Rightarrow> json list exn" where
  "native_parts bh message = ebind (emap (native_part bh) (cm_content message)) (\<lambda>parts. Inr (concat parts))"

definition render_parts :: "by_hash \<Rightarrow> CanonicalMessage \<Rightarrow> json list exn" where
  "render_parts bh message =
    ebind (gemini_render_text bh message) (\<lambda>txt.
    ebind (native_parts bh message) (\<lambda>native.
      Inr ((if txt \<noteq> [] \<or> native = [] then [text_part txt] else []) @ native)))"

text \<open>\<^verbatim>\<open>_ROLES[role]\<close>, which is never asked for the system role.\<close>

fun gemini_role :: "Role \<Rightarrow> string exn" where
  "gemini_role User = Inr ''user''"
| "gemini_role Assistant = Inr ''model''"
| "gemini_role System = Inl KeyError"

definition gemini_content :: "by_hash \<Rightarrow> CanonicalMessage \<Rightarrow> json exn" where
  "gemini_content bh m = ebind (gemini_role (cm_role m)) (\<lambda>role. ebind (render_parts bh m) (\<lambda>parts.
     Inr (JObj [(''role'', JStr role), (''parts'', JArr parts)])))"

definition gemini_build_payload :: "CanonicalMessage list \<Rightarrow> ModelSpec \<Rightarrow> GenParams \<Rightarrow> ResolvedAttachment list \<Rightarrow> jdict exn" where
  "gemini_build_payload messages spec params attachments =
    (let bh = index_by_hash attachments
     in ebind (emap (gemini_render_text bh) (filter (\<lambda>m. cm_role m = System) messages)) (\<lambda>system_texts.
        ebind (emap (gemini_content bh) (filter (\<lambda>m. cm_role m \<noteq> System) messages)) (\<lambda>contents.
          let generation_config = [(''temperature'', JFloat (gp_temperature params))] @
                opt_field ''maxOutputTokens'' (gp_max_tokens params) (\<lambda>n. JInt (min n (ms_max_output_tokens spec))) @
                opt_field ''topP'' (gp_top_p params) JFloat @
                stop_field ''stopSequences'' (gp_stop params)
          in Inr ([(MODEL_FIELD, JStr (ms_model spec))] @
                (if system_texts = [] then [] else [(''system_instruction'', JObj [(''parts'', JArr [text_part (join BLANK_LINE system_texts)])])]) @
                [(''contents'', JArr contents), (''generationConfig'', JObj generation_config)]))))"

definition without_model :: "jdict \<Rightarrow> jdict" where
  "without_model payload = filter (\<lambda>(k, _). k \<noteq> MODEL_FIELD) payload"

definition split_model :: "jdict \<Rightarrow> (string \<times> jdict) exn" where
  "split_model payload = (case jget payload MODEL_FIELD of
      JStr (c # cs) \<Rightarrow> Inr (c # cs, without_model payload) | _ \<Rightarrow> Inl ValueError)"

definition split_model_lenient :: "jdict \<Rightarrow> string \<times> jdict" where
  "split_model_lenient payload = (or_unknown (jstr (jget payload MODEL_FIELD)), without_model payload)"

subsection \<open>The answer\<close>

definition part_text :: "json \<Rightarrow> string option" where
  "part_text part = Option.bind (jobj part) (\<lambda>kvs. jstr (jget kvs ''text''))"

definition candidate_text :: "jdict \<Rightarrow> string" where
  "candidate_text candidate = (case Option.bind (jobj (jget candidate ''content'')) (\<lambda>content. jarr (jget content ''parts'')) of
      None \<Rightarrow> [] | Some parts \<Rightarrow> concat (List.map_filter part_text parts))"

definition block_reason :: "jdict \<Rightarrow> json" where
  "block_reason body = (case jobj (jget body ''promptFeedback'') of None \<Rightarrow> JNull | Some feedback \<Rightarrow> jget feedback ''blockReason'')"

definition gemini_blocks :: "json \<Rightarrow> bool" where
  "gemini_blocks raw_finish = (case jstr raw_finish of None \<Rightarrow> False | Some s \<Rightarrow> s \<in> set gemini_block_finish_reasons)"

definition read_candidate :: "jdict \<Rightarrow> string \<Rightarrow> ProviderError + string \<times> finish_reason" where
  "read_candidate body model =
    (let fail = (\<lambda>c. Inl (provider_error c GEMINI model None))
     in if truthy (block_reason body) then fail ContentFiltered
        else case first_obj (jget body ''candidates'') of
            None \<Rightarrow> fail EmptyResponse
          | Some candidate \<Rightarrow>
              (let raw_finish = jget candidate ''finishReason''; txt = candidate_text candidate
               in if gemini_blocks raw_finish then fail ContentFiltered
                  else if blank txt then fail EmptyResponse
                  else Inr (txt, case Option.bind (jstr raw_finish) gemini_finish_reasons of Some r \<Rightarrow> r | None \<Rightarrow> FR_stop)))"

definition gemini_estimate_output_tokens :: "jdict \<Rightarrow> int" where
  "gemini_estimate_output_tokens body = (case first_obj (jget body ''candidates'') of None \<Rightarrow> 0
     | Some candidate \<Rightarrow> int (length (candidate_text candidate) div CHARS_PER_TOKEN))"

text \<open>Thinking tokens are generated, and count as output.\<close>

definition thoughts :: "jdict \<Rightarrow> int" where
  "thoughts u = (case jint (jget u ''thoughtsTokenCount'') of Some n \<Rightarrow> n | None \<Rightarrow> 0)"

definition gemini_usage :: "jdict \<Rightarrow> Usage option" where
  "gemini_usage body = Option.bind (jobj (jget body ''usageMetadata'')) (\<lambda>u. usage_in u ''promptTokenCount'' ''candidatesTokenCount'' thoughts)"

definition gemini_extract_usage :: "jdict \<Rightarrow> Usage" where
  "gemini_extract_usage body = (case gemini_usage body of Some u \<Rightarrow> u
     | None \<Rightarrow> \<lparr>us_tokens_in = 0, us_tokens_out = gemini_estimate_output_tokens body, us_estimated = True\<rparr>)"

definition parts_length :: "json \<Rightarrow> nat" where
  "parts_length parts = (case jarr parts of None \<Rightarrow> 0 | Some ps \<Rightarrow> sum_list (map length (List.map_filter part_text ps)))"

definition gemini_entry_tokens :: "json \<Rightarrow> int" where
  "gemini_entry_tokens entry = (case jobj entry of None \<Rightarrow> 0
     | Some kvs \<Rightarrow> int (parts_length (jget kvs ''parts'') div CHARS_PER_TOKEN) + PER_MESSAGE_TOKEN_OVERHEAD)"

definition gemini_estimate_tokens :: "jdict \<Rightarrow> int" where
  "gemini_estimate_tokens payload = max 1 (gemini_entry_tokens (jget payload ''system_instruction'') +
     (case jarr (jget payload ''contents'') of None \<Rightarrow> 0 | Some entries \<Rightarrow> sum_list (map gemini_entry_tokens entries)))"

subsection \<open>Errors\<close>

definition gemini_read_error_fields :: "jdict option \<Rightarrow> string option \<times> string option \<times> jdict list" where
  "gemini_read_error_fields body = (case body of None \<Rightarrow> (None, None, [])
    | Some b \<Rightarrow> (case jget b ''error'' of
          JStr s \<Rightarrow> (None, Some s, [])
        | JObj err \<Rightarrow> (jstr (jget err ''status''), jstr (jget err ''message''),
                       (case jarr (jget err ''details'') of None \<Rightarrow> [] | Some ds \<Rightarrow> List.map_filter jobj ds))
        | _ \<Rightarrow> (None, jstr (jget b ''message''), [])))"

definition gemini_read_limit_tokens :: "string option \<Rightarrow> int option" where
  "gemini_read_limit_tokens = limit_in (\<lambda>s. let phrase = ''maximum number of tokens allowed''
     in search_count [\<lambda>s. count_after s phrase (nondigit_gap 20 s phrase)] s)"

text \<open>A protobuf duration in JSON: a number, or decimal digits with an optional \<^verbatim>\<open>s\<close>.\<close>

definition gemini_parse_duration :: "json \<Rightarrow> pyfloat option" where
  "gemini_parse_duration raw = (case raw of
      JInt n \<Rightarrow> Some (of_int n)
    | JFloat x \<Rightarrow> Some x
    | JStr s \<Rightarrow> (case read_decimal (py_strip s) of
          Some (x, rest) \<Rightarrow> if rest = [] \<or> rest = ''s'' then Some x else None
        | None \<Rightarrow> None)
    | _ \<Rightarrow> None)"

definition is_retry_info :: "jdict \<Rightarrow> bool" where
  "is_retry_info entry \<longleftrightarrow> (case jget entry ''@type'' of JStr t \<Rightarrow> py_endswith t ''RetryInfo'' | _ \<Rightarrow> False) \<or> map_of entry ''retryDelay'' \<noteq> None"

fun retry_delay_in :: "jdict list \<Rightarrow> pyfloat option" where
  "retry_delay_in [] = None"
| "retry_delay_in (e # es) =
    (case (if is_retry_info e then gemini_parse_duration (jget e ''retryDelay'') else None) of Some x \<Rightarrow> Some x | None \<Rightarrow> retry_delay_in es)"

definition gemini_read_retry_after :: "http_response \<Rightarrow> jdict list \<Rightarrow> pyfloat option" where
  "gemini_read_retry_after response details = (case header_float response ''retry-after'' of Some x \<Rightarrow> Some x | None \<Rightarrow> retry_delay_in details)"

text \<open>\<^verbatim>\<open>rsplit("/", 1)[-1]\<close>, then what is before the first colon of it.\<close>

definition model_from_url :: "http_response \<Rightarrow> string option" where
  "model_from_url response = (case hr_request_path response of None \<Rightarrow> None
     | Some path \<Rightarrow> (let segment = rev (takeWhile (\<lambda>c. c \<noteq> CHR ''/'') (rev path)); model = takeWhile (\<lambda>c. c \<noteq> CHR '':'') segment
         in if CHR '':'' \<in> set segment \<and> model \<noteq> [] then Some model else None))"

definition gemini_class :: "int \<Rightarrow> string option \<Rightarrow> string option \<Rightarrow> pyfloat option \<Rightarrow> error_class" where
  "gemini_class status status_string message retry =
    (if mentions gemini_api_key_phrases message then AuthFailed
     else if mentions gemini_context_phrases message then ContextTooLong (gemini_read_limit_tokens message)
     else if status_string = Some ''RESOURCE_EXHAUSTED'' then RateLimited retry
     else if code_in status_string gemini_auth_statuses then AuthFailed
     else if code_in status_string gemini_unavailable_statuses then Unavailable
     else if code_in status_string gemini_bad_request_statuses then BadRequest
     else if status = 401 \<or> status = 403 then AuthFailed
     else if status = 429 then RateLimited retry
     else if status = 400 \<or> status = 404 \<or> status = 422 then BadRequest
     else Unavailable)"

definition gemini_error_from_response :: "http_response \<Rightarrow> string option \<Rightarrow> ProviderError" where
  "gemini_error_from_response response model =
    (let (status_string, message, details) = gemini_read_error_fields (json_object response)
     in provider_error (gemini_class (hr_status response) status_string message (gemini_read_retry_after response details)) GEMINI
          (first_some model (model_from_url response)) (Some (hr_status response)))"

definition gemini_parse_error :: parse_error_fun where
  "gemini_parse_error exc model = (case exc of
      Inl fault \<Rightarrow> transport_error GEMINI model
    | Inr response \<Rightarrow> gemini_error_from_response response model)"

subsection \<open>Calls\<close>

definition gemini_auth_headers :: "string \<Rightarrow> (string \<times> string) list" where
  "gemini_auth_headers key = [(API_KEY_HEADER, key), (''Accept'', ''application/json'')]"

definition gemini_complete :: "http_adapter \<Rightarrow> client \<Rightarrow> jdict \<Rightarrow> string \<Rightarrow> pyfloat \<Rightarrow> (ProviderError + Completion) exn \<times> QuotaHint option" where
  "gemini_complete self cl payload key timeout = (case split_model payload of
      Inl e \<Rightarrow> (Inl e, None)
    | Inr (model, body) \<Rightarrow>
        complete_via GEMINI gemini_parse_error default_rate_limit_headers (\<lambda>_ parsed. Inr (read_candidate parsed model)) gemini_extract_usage
          (gemini_estimate_tokens payload) ''responseId'' cl
          (http_request_of self ''POST'' (generate_content_path model) (gemini_auth_headers key) (Some body) timeout) model)"

definition gemini_stream_chunk :: "jdict \<Rightarrow> StreamChunk" where
  "gemini_stream_chunk event =
    (if truthy (block_reason event) then \<lparr>sc_delta = [], sc_finish_reason = Some ''content_filter'', sc_usage = None\<rparr>
     else case first_obj (jget event ''candidates'') of
         None \<Rightarrow> \<lparr>sc_delta = [], sc_finish_reason = None, sc_usage = gemini_usage event\<rparr>
       | Some candidate \<Rightarrow>
           \<lparr>sc_delta = candidate_text candidate,
            sc_finish_reason = map_option (\<lambda>raw. if raw \<in> set gemini_block_finish_reasons then ''content_filter''
               else case gemini_finish_reasons raw of Some r \<Rightarrow> finish_name r | None \<Rightarrow> raw) (jstr (jget candidate ''finishReason'')),
            sc_usage = gemini_usage event\<rparr>)"

definition gemini_stream :: "http_adapter \<Rightarrow> json_lib \<Rightarrow> client \<Rightarrow> jdict \<Rightarrow> string \<Rightarrow> pyfloat \<Rightarrow> pyfloat \<Rightarrow> upstream list \<times> QuotaHint option" where
  "gemini_stream self lib cl payload key timeout idle_timeout =
    (let (model, body) = split_model_lenient payload
     in adapter_stream GEMINI lib gemini_parse_error default_rate_limit_headers (\<lambda>event. refuse_filtered GEMINI model (gemini_stream_chunk event)) cl
          (http_request_of self ''POST'' (stream_generate_content_path model @ ''?alt=sse'') (gemini_auth_headers key) (Some body) timeout)
          idle_timeout model)"

definition strip_models_prefix :: "string \<Rightarrow> string" where
  "strip_models_prefix s = py_removeprefix s ''models/''"

definition gemini_validate_response :: "http_response \<Rightarrow> ProviderError + KeyValidation" where
  "gemini_validate_response response =
    (if hr_status response = 401 \<or> hr_status response = 403
     then Inr (rejected_key GEMINI ''Gemini rejected this key. Check that it is active and has not been revoked.'')
     else if hr_status response \<ge> 400
     then if mentions gemini_api_key_phrases (fst (snd (gemini_read_error_fields (json_object response))))
          then Inr (rejected_key GEMINI ''Gemini rejected this key as invalid. Check that it is active and copied in full.'')
          else Inl (gemini_parse_error (Inr response) None)
     else Inr (accepted_key GEMINI (map strip_models_prefix
            (key_models (jget (case json_object response of None \<Rightarrow> [] | Some b \<Rightarrow> b) ''models'') ''name''))))"

definition gemini_validate_key :: "http_adapter \<Rightarrow> client \<Rightarrow> string \<Rightarrow> (ProviderError + KeyValidation) \<times> QuotaHint option" where
  "gemini_validate_key self cl key =
    validate_via gemini_parse_error default_rate_limit_headers gemini_validate_response cl
      (http_request_of self ''GET'' GEMINI_MODELS_PATH (gemini_auth_headers key) None VALIDATE_KEY_TIMEOUT_S)"

definition gemini_ops :: "http_adapter \<Rightarrow> json_lib \<Rightarrow> provider_ops" where
  "gemini_ops self lib = \<lparr>pa_name = GEMINI, pa_build_payload = gemini_build_payload, pa_complete = gemini_complete self,
     pa_stream = gemini_stream self lib, pa_parse_error = gemini_parse_error, pa_extract_usage = gemini_extract_usage,
     pa_estimate_tokens = gemini_estimate_tokens, pa_validate_key = gemini_validate_key self, pa_rate_limit_headers = default_rate_limit_headers\<rparr>"

subsection \<open>The payload is no larger than what was measured\<close>

lemma join_shorter: "length (join sep (concat (map f bs))) \<le> length (join sep (concat (map g bs)))" if "\<And>b. f b = g b \<or> f b = []" for f g :: "'a \<Rightarrow> string list"
proof -
  have len: "length (join sep ps) = sum_list (map (\<lambda>p. length p + length sep) ps) - length sep" for ps
    by (induction sep ps rule: join.induct) auto
  have "sum_list (map (\<lambda>p. length p + length sep) (concat (map f bs))) \<le> sum_list (map (\<lambda>p. length p + length sep) (concat (map g bs)))"
  proof (induction bs)
    case (Cons b bs)
    then show ?case using that [of b] by auto
  qed simp
  then show ?thesis by (simp only: len diff_le_mono)
qed

definition gemini_pieces :: "by_hash \<Rightarrow> ContentBlock \<Rightarrow> string list" where
  "gemini_pieces bh b = (case gemini_text_block bh b of Inr ps \<Rightarrow> ps | Inl _ \<Rightarrow> [])"

lemma gemini_text_shorter: "gemini_render_text bh m = Inr s \<Longrightarrow> length s \<le> length (materialize m bh)"
proof -
  assume "gemini_render_text bh m = Inr s"
  then obtain parts where e: "emap (gemini_text_block bh) (cm_content m) = Inr parts" and s: "s = join BLANK_LINE (concat parts)"
    by (auto simp: gemini_render_text_def ebind_Inr_iff)
  have parts: "parts = map (gemini_pieces bh) (cm_content m)" by (rule emap_map [OF e]) (simp add: gemini_pieces_def)
  have sub: "gemini_pieces bh b = (case block_part bh b of None \<Rightarrow> [] | Some s \<Rightarrow> [s]) \<or> gemini_pieces bh b = []" for b
    by (cases b) (auto simp: gemini_pieces_def gemini_text_block_def block_part_def split: option.splits)
  show ?thesis
    unfolding s parts materialize_def concat_parts [symmetric] BLANK_LINE_def [symmetric]
    by (rule join_shorter) (rule sub)
qed

lemma native_no_text: "native_part bh b = Inr ps \<Longrightarrow> List.map_filter part_text ps = []"
  by (auto simp: native_part_def inline_part_def part_text_def map_filter_def split: option.splits if_splits)

lemma natives_no_text: "emap (native_part bh) bs = Inr pss \<Longrightarrow> List.map_filter part_text (concat pss) = []"
  by (induction bs arbitrary: pss) (auto simp: ebind_Inr_iff map_filter_def dest: native_no_text [unfolded map_filter_def])

definition measured :: "by_hash \<Rightarrow> CanonicalMessage \<Rightarrow> int" where
  "measured bh m = estimate_text_tokens (materialize m bh) + PER_MESSAGE_TOKEN_OVERHEAD"

lemma gemini_entry_within: "gemini_content bh m = Inr v \<Longrightarrow> gemini_entry_tokens v \<le> measured bh m"
proof -
  assume "gemini_content bh m = Inr v"
  then obtain role s native where t: "gemini_render_text bh m = Inr s" and n: "native_parts bh m = Inr native"
    and v: "v = JObj [(''role'', JStr role), (''parts'', JArr ((if s \<noteq> [] \<or> native = [] then [text_part s] else []) @ native))]"
    by (auto simp: gemini_content_def render_parts_def ebind_Inr_iff)
  have "List.map_filter part_text native = []" using n by (auto simp: native_parts_def ebind_Inr_iff dest: natives_no_text)
  then have "parts_length (JArr ((if s \<noteq> [] \<or> native = [] then [text_part s] else []) @ native)) \<le> length s"
    by (simp add: parts_length_def map_filter_def text_part_def part_text_def)
  also have "\<dots> \<le> length (materialize m bh)" by (rule gemini_text_shorter [OF t])
  finally show ?thesis by (auto simp: v gemini_entry_tokens_def measured_def estimate_text_tokens_def CHARS_PER_TOKEN_def intro: div_le_mono)
qed

lemma joined_within: "ts \<noteq> [] \<Longrightarrow>
  int (length (join BLANK_LINE ts) div CHARS_PER_TOKEN) + PER_MESSAGE_TOKEN_OVERHEAD
   \<le> sum_list (map (\<lambda>t. int (length t div CHARS_PER_TOKEN) + PER_MESSAGE_TOKEN_OVERHEAD) ts)"
proof (induction ts)
  case (Cons t ts)
  have "(a + 2 + b) div 4 \<le> a div 4 + b div 4 + (2 :: nat)" for a b by linarith
  from this [of "length t" "length (join BLANK_LINE ts)"] Cons.IH show ?case
    by (cases ts) (auto simp: BLANK_LINE_def CHARS_PER_TOKEN_def PER_MESSAGE_TOKEN_OVERHEAD_def)
qed simp

lemma gemini_estimate_within:
  assumes "gemini_build_payload ms spec params as = Inr payload"
  shows "gemini_estimate_tokens payload \<le> max 1 (text_cost ms as)"
proof -
  let ?bh = "index_by_hash as" and ?S = "filter (\<lambda>m. cm_role m = System) ms" and ?C = "filter (\<lambda>m. cm_role m \<noteq> System) ms"
  from assms obtain ts cs where ts: "emap (gemini_render_text ?bh) ?S = Inr ts" and cs: "emap (gemini_content ?bh) ?C = Inr cs"
    and sys: "jget payload ''system_instruction'' = (if ts = [] then JNull else JObj [(''parts'', JArr [text_part (join BLANK_LINE ts)])])"
    and con: "jget payload ''contents'' = JArr cs"
    by (auto simp: gemini_build_payload_def ebind_Inr_iff Let_def MODEL_FIELD_def)
  have "sum_list (map (\<lambda>t. int (length t div CHARS_PER_TOKEN) + PER_MESSAGE_TOKEN_OVERHEAD) ts) \<le> sum_list (map (measured ?bh) ?S)"
    using ts unfolding emap_Inr
    by (induction rule: list_all2_induct) (auto simp: measured_def estimate_text_tokens_def CHARS_PER_TOKEN_def dest!: gemini_text_shorter
        intro!: add_mono div_le_mono)
  moreover have "gemini_entry_tokens (jget payload ''system_instruction'') =
      (if ts = [] then 0 else int (length (join BLANK_LINE ts) div CHARS_PER_TOKEN) + PER_MESSAGE_TOKEN_OVERHEAD)"
    by (simp add: sys gemini_entry_tokens_def parts_length_def map_filter_def text_part_def part_text_def)
  moreover have "sum_list (map gemini_entry_tokens cs) \<le> sum_list (map (measured ?bh) ?C)"
    using cs unfolding emap_Inr by (induction rule: list_all2_induct) (auto dest: gemini_entry_within intro!: add_mono)
  moreover have "sum_list (map (measured ?bh) ?S) + sum_list (map (measured ?bh) ?C) = text_cost ms as"
    unfolding text_cost_def measured_def [symmetric] by (induction ms) auto
  moreover have "ts = [] \<longleftrightarrow> ?S = []" using ts by (auto simp: emap_Inr)
  ultimately show ?thesis using joined_within [of ts] by (auto simp: gemini_estimate_tokens_def con)
qed

subsection \<open>Gemini meets the contract\<close>

lemma gemini_parse_laws:
  "pe_provider (gemini_parse_error exc model) = GEMINI" "m \<noteq> [] \<Longrightarrow> pe_model (gemini_parse_error exc (Some m)) = m"
  "pe_class (gemini_parse_error (Inl fault) model) = Unavailable"
  by (auto simp: gemini_parse_error_def transport_error_def unavailable_error_def gemini_error_from_response_def provider_error_def split: sum.splits prod.splits)

lemma gemini_finish_filter: "gemini_finish_reasons x = Some FR_content_filter \<Longrightarrow> x \<in> set gemini_block_finish_reasons"
  by (auto simp: gemini_finish_reasons_def gemini_block_finish_reasons_def split: if_splits)

lemma read_candidate_laws:
  "read_candidate body model = Inr (s, r) \<Longrightarrow> \<not> blank s \<and> r \<noteq> FR_content_filter"
  "read_candidate body model = Inl e \<Longrightarrow> pe_provider e = GEMINI \<and> pe_model e = model"
  by (auto simp: read_candidate_def provider_error_def gemini_blocks_def Let_def split: if_splits option.splits
      dest: gemini_finish_filter elim!: bind_eq_Some_conv [THEN iffD1, THEN exE])

lemma gemini_split: "gemini_build_payload ms spec params as = Inr payload \<Longrightarrow> ms_model spec \<noteq> [] \<Longrightarrow>
  split_model payload = Inr (ms_model spec, without_model payload) \<and> split_model_lenient payload = (ms_model spec, without_model payload)"
  by (cases "ms_model spec") (auto simp: gemini_build_payload_def ebind_Inr_iff Let_def split_model_def split_model_lenient_def MODEL_FIELD_def or_unknown_def)

lemma gemini_validate_laws:
  "gemini_validate_response response = Inr kv \<Longrightarrow> kv_provider kv = GEMINI \<and> (kv_valid kv \<longleftrightarrow> hr_status response < 400)"
  by (auto simp: gemini_validate_response_def rejected_key_def accepted_key_def split: if_splits)

lemma gemini_call_laws:
  "gemini_complete self cl payload key timeout = (Inr (Inr c), hint) \<Longrightarrow> \<not> blank (cp_text c) \<and> cp_finish_reason c \<noteq> FR_content_filter"
  "gemini_complete self cl payload key timeout = (Inr (Inl e), hint) \<Longrightarrow> split_model payload = Inr (m, body) \<Longrightarrow> m \<noteq> [] \<Longrightarrow>
     pe_provider e = GEMINI \<and> pe_model e = m"
  "split_model_lenient payload = (m, body) \<Longrightarrow> m \<noteq> [] \<Longrightarrow> stream_ok GEMINI m (fst (gemini_stream self lib cl payload key timeout idle))"
  "gemini_validate_key self cl key = (Inr kv, hint) \<Longrightarrow>
     kv_provider kv = GEMINI \<and> (\<exists>rq response. cl_request cl rq = Inr response \<and> (kv_valid kv \<longleftrightarrow> hr_status response < 400))"
  unfolding gemini_complete_def gemini_stream_def gemini_validate_key_def
  subgoal by (auto split: sum.splits elim!: complete_via_answers dest: read_candidate_laws(1))
  subgoal by (simp, drule complete_via_names) (auto simp: gemini_parse_laws dest: read_candidate_laws(2))
  subgoal by (auto simp: gemini_parse_laws intro!: adapter_stream_ok dest: refuse_filtered_laws)
  subgoal by (erule validate_via_laws) (rule gemini_validate_laws)
  done

lemma gemini_estimate_pos: "1 \<le> gemini_estimate_tokens payload"
  by (simp add: gemini_estimate_tokens_def)

interpretation gemini: provider_adapter "gemini_ops self lib"
  by unfold_locales (auto simp: gemini_ops_def gemini_parse_laws gemini_estimate_pos gemini_estimate_within
      dest: gemini_split gemini_call_laws)

end
