(* ===== verification/Gw_Adapters.thy ===== *)
theory Gw_Adapters
  imports Gw_Gemini
begin

text \<open>
  The adapters together: the three that \<^verbatim>\<open>build_registry\<close> constructs, each an interpretation of \<open>provider_adapter\<close>, in
  the render pipeline and in front of the router's decision after an error.
\<close>

definition adapters :: "http_adapter \<Rightarrow> json_lib \<Rightarrow> instant \<Rightarrow> provider_ops list" where
  "adapters self lib now = [groq_ops self lib, openrouter_ops self lib now, gemini_ops self lib]"

lemma adapters_meet_contract: "ops \<in> set (adapters self lib now) \<Longrightarrow> provider_adapter ops"
  using groq.provider_adapter_axioms openrouter.provider_adapter_axioms gemini.provider_adapter_axioms by (auto simp: adapters_def)

definition render_adapter :: "provider_ops \<Rightarrow> jdict adapter" where
  "render_adapter ops = \<lparr>ad_build_payload = pa_build_payload ops, ad_estimate_tokens = pa_estimate_tokens ops\<rparr>"

definition ex_lib :: json_lib where
  "ex_lib = \<lparr>jl_loads = (\<lambda>s. if s = ''a'' then Some (JObj [(''choices'', JArr [JObj [(''delta'', JObj [(''content'', JStr ''Hi'')])]])]) else None),
     jl_str = (\<lambda>_. [])\<rparr>"

definition ex_self :: http_adapter where
  "ex_self = new_http_adapter ''https://api.example/v1/'' None"

definition ex_payload :: jdict where
  "ex_payload = [(''model'', JStr (ms_model ex_model)), (''messages'', JArr []), (''temperature'', JFloat 0), (''stream'', JBool False)]"



text \<open>What the adapter builds fits the model: when the render pipeline returns a payload, it was built from a history
  that obeys the schema and from the messages left after the reported number was dropped, and the adapter's own estimate
  of it together with the native files it embeds stays within the input budget.\<close>

theorem payload_within_budget:
  assumes "ops \<in> set (adapters self lib now)" "render history spec params (render_adapter ops) resolve strategy = Inr (Inr (payload, report))"
  shows "history_ok history \<and> (\<exists>ms as. pa_build_payload ops ms spec params as = Inr payload \<and>
    rr_messages_dropped report + length ms = length history \<and>
    pa_estimate_tokens ops payload + embedded_tokens ms as \<le> input_budget spec params)"
proof -
  from render_result [OF assms(2)] obtain ms as where b: "pa_build_payload ops ms spec params as = Inr payload"
    and fits: "total_cost ms as materialize estimate_text_tokens \<le> input_budget spec params" "0 < input_budget spec params"
    and rest: "rr_messages_dropped report + length ms = length history" "history_ok history"
    by (auto simp: render_adapter_def)
  from provider_adapter.payload_fits [OF adapters_meet_contract [OF assms(1)] b fits] b rest show ?thesis by blast
qed

theorem payload_within_budget_witness:
  "case render ex_history ex_model ex_params (render_adapter (gemini_ops ex_self ex_lib)) no_attachments Truncate of
     Inr (Inr (payload, report)) \<Rightarrow> history_ok ex_history \<and> (\<exists>ms as. gemini_build_payload ms ex_model ex_params as = Inr payload \<and>
       rr_messages_dropped report + length ms = length ex_history \<and>
       gemini_estimate_tokens payload + embedded_tokens ms as \<le> input_budget ex_model ex_params)
   | _ \<Rightarrow> False"
proof -
  have "case render ex_history ex_model ex_params (render_adapter (gemini_ops ex_self ex_lib)) no_attachments Truncate of
      Inr (Inr (payload, report)) \<Rightarrow> True | _ \<Rightarrow> False" by code_simp
  then obtain payload report where r: "render ex_history ex_model ex_params (render_adapter (gemini_ops ex_self ex_lib)) no_attachments Truncate
      = Inr (Inr (payload, report))" by (auto split: sum.splits)
  from payload_within_budget [OF _ r, of ex_self ex_lib 0] r show ?thesis by (simp add: adapters_def gemini_ops_def)
qed

subsection \<open>Refusals\<close>

text \<open>How each provider says that it declined to answer.\<close>

definition chat_refuses :: "jdict \<Rightarrow> bool" where
  "chat_refuses body = (case first_obj (jget body ''choices'') of None \<Rightarrow> False | Some choice \<Rightarrow> jget choice ''finish_reason'' = JStr ''content_filter'')"

definition gemini_refuses :: "jdict \<Rightarrow> bool" where
  "gemini_refuses body \<longleftrightarrow> truthy (block_reason body) \<or>
     (case first_obj (jget body ''candidates'') of None \<Rightarrow> False | Some candidate \<Rightarrow> gemini_blocks (jget candidate ''finishReason''))"

lemma refusal_aborts: "next_move_after attempts most left refit retries chars ContentFiltered = Abort"
  by (simp add: next_move_after_def)

lemma chat_refusesE:
  assumes "chat_refuses body"
  obtains choice where "first_obj (jget body ''choices'') = Some choice" "jget choice ''finish_reason'' = JStr ''content_filter''"
  using assms by (auto simp: chat_refuses_def split: option.splits)

lemma chat_refusal:
  assumes "chat_refuses body"
  shows "\<exists>e. chat_read_choice name reasons body model = Inr (Inl e) \<and> pe_class e = ContentFiltered"
    and "reasons ''content_filter'' = Some FR_content_filter \<Longrightarrow>
      \<exists>e. refuse_filtered name model (chat_stream_chunk reasons finish_name usage body) = Inl e \<and> pe_class e = ContentFiltered"
  using assms by (auto elim!: chat_refusesE simp: chat_read_choice_def provider_error_def refuse_filtered_def chat_stream_chunk_def)

lemma groq_refusal:
  assumes "chat_refuses body"
  shows "\<exists>e. groq_read_choice body model = Inr (Inl e) \<and> pe_class e = ContentFiltered"
    and "\<exists>e. refuse_filtered GROQ model (groq_stream_chunk body) = Inl e \<and> pe_class e = ContentFiltered"
  unfolding groq_read_choice_def groq_stream_chunk_def
  by (rule chat_refusal(1) [OF assms], rule chat_refusal(2) [OF assms]) (simp add: groq_finish_reasons_def)

lemma openrouter_refusal:
  assumes "chat_refuses body" "jobj (jget body ''error'') = None"
  shows "\<exists>e. openrouter_read_choice now body status model = Inr (Inl e) \<and> pe_class e = ContentFiltered"
    and "\<exists>e. openrouter_event now model body = Inl e \<and> pe_class e = ContentFiltered"
  using chat_refusal [OF assms(1)] assms(2)
  by (simp_all add: openrouter_read_choice_def openrouter_event_def openrouter_stream_chunk_def openrouter_finish_reasons_def)

lemma gemini_refusal:
  assumes "gemini_refuses body"
  shows "\<exists>e. read_candidate body model = Inl e \<and> pe_class e = ContentFiltered"
    and "\<exists>e. refuse_filtered GEMINI model (gemini_stream_chunk body) = Inl e \<and> pe_class e = ContentFiltered"
proof -
  have c: "sc_finish_reason (gemini_stream_chunk body) = Some ''content_filter''"
  proof (cases "truthy (block_reason body)")
    case False
    with assms obtain candidate raw where "first_obj (jget body ''candidates'') = Some candidate" "jget candidate ''finishReason'' = JStr raw"
      "raw \<in> set gemini_block_finish_reasons"
      by (auto simp: gemini_refuses_def gemini_blocks_def split: option.splits elim: jstr.elims)
    with False show ?thesis by (simp add: gemini_stream_chunk_def)
  qed (simp add: gemini_stream_chunk_def)
  show "\<exists>e. read_candidate body model = Inl e \<and> pe_class e = ContentFiltered"
    using assms by (auto simp: gemini_refuses_def read_candidate_def provider_error_def Let_def split: option.splits)
  show "\<exists>e. refuse_filtered GEMINI model (gemini_stream_chunk body) = Inl e \<and> pe_class e = ContentFiltered"
    by (simp add: refuse_filtered_def c provider_error_def)
qed

definition ex_blocked :: jdict where
  "ex_blocked = [(''promptFeedback'', JObj [(''blockReason'', JStr ''SAFETY'')])]"



subsection \<open>Findings\<close>

text \<open>
  An OpenRouter moderation refusal that comes as an error object in a 200, or in an event of a stream, is taken for a
  transient fault: its code 403 is in none of the sets of codes, and the status the ladder sees is 200. The same object
  with HTTP status 403 is a refusal.
\<close>

definition moderated :: jdict where
  "moderated = [(''error'', JObj [(''code'', JInt 403), (''message'', JStr ''flagged''), (''metadata'', JObj [(''reasons'', JArr [JStr ''hate''])])])]"

lemma moderation_in_200_is_retried:
  "pe_class (openrouter_classify now 403 (Some moderated) (Some model) None) = ContentFiltered \<and>
   (\<exists>e. openrouter_event now model moderated = Inl e \<and> pe_class e = Unavailable) \<and>
   next_move_after 1 4 2 False 0 0 Unavailable \<noteq> Abort"
proof -
  have code: "int_text 403 = ''403''" by code_simp
  have fields: "openrouter_read_error_fields (Some moderated) = (Some ''403'', Some ''flagged'', [(''reasons'', JArr [JStr ''hate''])])"
    by (simp add: openrouter_read_error_fields_def moderated_def code)
  have cls: "openrouter_class 403 (Some ''403'') m [(''reasons'', v)] r = ContentFiltered" "openrouter_class 200 (Some ''403'') m [(''reasons'', v)] r = Unavailable"
    for m v r
    by (simp_all add: openrouter_class_def code_in_def openrouter_credit_codes_def openrouter_rate_limit_codes_def openrouter_context_codes_def
        openrouter_content_filter_codes_def looks_like_moderation_def)
  have "jobj (jget moderated ''error'') \<noteq> None" by (simp add: moderated_def)
  then show ?thesis by (simp add: openrouter_classify_def openrouter_event_def fields cls provider_error_def next_move_after_def)
qed

text \<open>A finish reason that is a JSON list raises out of \<^verbatim>\<open>complete\<close> as a \<^verbatim>\<open>TypeError\<close>, not as a provider error.\<close>

lemma unhashable_finish_reason_escapes:
  "groq_read_choice [(''choices'', JArr [JObj [(''finish_reason'', JArr [JNull]), (''message'', JObj [(''content'', JStr ''Hi'')])]])] model = Inl OtherError"
  by (simp add: groq_read_choice_def chat_read_choice_def first_obj_def chat_message_content_def blank_def py_strip_def isspace_def chat_finish_def Let_def)

end
