(* ===== verification/Gw_Perception.thy ===== *)
theory Gw_Perception
  imports Gw_Extract
begin

text \<open>
  The perception lane (\<^verbatim>\<open>app/perception/lane.py\<close>) with the local tier (\<^verbatim>\<open>app/perception/local.py\<close>) and the object store's
  paths: how a stored file reaches the model that is about to answer. PyMuPDF, Pillow and Tesseract are the record
  \<open>document_lib\<close>; the object store is a function from paths to bytes that may raise.
\<close>

subsection \<open>What a native file costs\<close>

record Measurement =
  me_pages :: "int option"
  me_width :: "int option"
  me_height :: "int option"

definition unmeasured :: Measurement where
  "unmeasured = \<lparr>me_pages = None, me_width = None, me_height = None\<rparr>"

definition TOKENS_PER_TILE :: int where "TOKENS_PER_TILE = 258"
definition IMAGE_SINGLE_TILE_EDGE :: int where "IMAGE_SINGLE_TILE_EDGE = 384"
definition TILE_EDGE_MIN :: int where "TILE_EDGE_MIN = 256"
definition TILE_EDGE_MAX :: int where "TILE_EDGE_MAX = 768"
definition TILE_EDGE_DIVISOR :: pyfloat where "TILE_EDGE_DIVISOR = 3 / 2"
definition UNMEASURED_PDF_BYTES_PER_PAGE :: int where "UNMEASURED_PDF_BYTES_PER_PAGE = 50000"
definition UNMEASURED_IMAGE_TILES :: int where "UNMEASURED_IMAGE_TILES = 4"

definition tile_edge :: "int \<Rightarrow> int \<Rightarrow> int" where
  "tile_edge width height = min TILE_EDGE_MAX (max TILE_EDGE_MIN (py_int_of_float (of_int (min width height) / TILE_EDGE_DIVISOR)))"

text \<open>\<^verbatim>\<open>-(-n // d)\<close>, rounding up.\<close>

definition ceil_div :: "int \<Rightarrow> int \<Rightarrow> int" where
  "ceil_div n d = - (- n div d)"

definition image_tiles :: "int \<Rightarrow> int \<Rightarrow> int" where
  "image_tiles width height =
    (if width \<le> 0 \<or> height \<le> 0 then UNMEASURED_IMAGE_TILES
     else if width \<le> IMAGE_SINGLE_TILE_EDGE \<and> height \<le> IMAGE_SINGLE_TILE_EDGE then 1
     else ceil_div width (tile_edge width height) * ceil_div height (tile_edge width height))"

definition native_token_cost :: "string \<Rightarrow> int \<Rightarrow> Measurement \<Rightarrow> int" where
  "native_token_cost mime size_bytes m =
    (if mime = ''application/pdf''
     then let pages = (case me_pages m of Some n \<Rightarrow> n | None \<Rightarrow> max 1 (ceil_div size_bytes UNMEASURED_PDF_BYTES_PER_PAGE))
          in max 1 pages * TOKENS_PER_TILE
     else case (me_width m, me_height m) of
         (Some w, Some h) \<Rightarrow> image_tiles w h * TOKENS_PER_TILE
       | _ \<Rightarrow> UNMEASURED_IMAGE_TILES * TOKENS_PER_TILE)"

subsection \<open>The local tier\<close>

text \<open>
  \<open>dl_pdf\<close>: for each page of a PDF its text, or what reading it raises; \<open>None\<close> when the file cannot be opened. \<open>dl_ocr_page\<close> and \<open>dl_ocr_image\<close>: what Tesseract
  reads on a rasterized page and on an image; an error of the first leaves the function, an error of the second is
  caught. \<open>dl_image_size\<close>: the size of an image, \<open>None\<close> when Pillow cannot open it. \<open>dl_isalnum\<close>: \<^verbatim>\<open>str.isalnum\<close> on a
  character.
\<close>

record document_lib =
  dl_pdf :: "string \<Rightarrow> string exn list option"
  dl_ocr_available :: bool
  dl_ocr_page :: "string \<Rightarrow> nat \<Rightarrow> string exn"
  dl_ocr_image :: "string \<Rightarrow> string exn"
  dl_image_size :: "string \<Rightarrow> (int \<times> int) option"
  dl_isalnum :: "char \<Rightarrow> bool"

definition TEXT_LAYER_MIN_CHARS_PER_PAGE :: int where "TEXT_LAYER_MIN_CHARS_PER_PAGE = 40"
definition MIN_OCR_CHARS :: nat where "MIN_OCR_CHARS = 10"
definition LOCAL_PROVIDER :: string where "LOCAL_PROVIDER = ''local''"
definition LOCAL_MODEL :: string where "LOCAL_MODEL = ''local''"

definition envelope :: "string \<Rightarrow> string \<Rightarrow> string \<Rightarrow> string \<Rightarrow> string" where
  "envelope summary structure figures verbatim =
     ''## Summary'' @ [newline] @ summary @ [newline, newline] @ ''## Structure'' @ [newline] @ structure @ [newline, newline] @
     ''## Figures and tables'' @ [newline] @ figures @ [newline, newline] @ ''## Verbatim text'' @ [newline] @ verbatim"

definition is_meaningful :: "document_lib \<Rightarrow> string \<Rightarrow> bool" where
  "is_meaningful lib s \<longleftrightarrow> length (py_strip s) \<ge> MIN_OCR_CHARS \<and> list_ex (dl_isalnum lib) (py_strip s)"

text \<open>The dash of the source's sentences is written as a hyphen.\<close>

definition paragraphs :: "string list \<Rightarrow> string" where
  "paragraphs ts = join [newline, newline] (filter (\<lambda>t. t \<noteq> []) (map py_strip ts))"

definition not_analyzed :: string where
  "not_analyzed = ''Not analyzed by the local tier.''"

definition pdf_structure :: "nat \<Rightarrow> string \<Rightarrow> string" where
  "pdf_structure pages how = ''PDF document, '' @ dec pages @ '' page(s), '' @ how"

definition text_layer_body :: "string list \<Rightarrow> string" where
  "text_layer_body ts = envelope
     (''Not available - this reading came from the local tier, which does not summarize; only the document'' @ [CHR 0x27] @ ''s own text layer.'')
     (pdf_structure (length ts) ''read from its embedded text.'') not_analyzed (paragraphs ts)"

definition ocr_body :: "nat \<Rightarrow> nat \<Rightarrow> string \<Rightarrow> string" where
  "ocr_body page_count processed ocr_text = envelope
     ''Not available - this document had no usable text layer and was read by local OCR.''
     (pdf_structure page_count ''scanned (no embedded text layer).'') not_analyzed
     (ocr_text @ (if page_count > processed
        then [newline, newline] @ ''[Only the first '' @ dec processed @ '' of '' @ dec page_count @
             '' pages were processed by OCR; the remaining pages were not read.]'' else []))"

definition extract_pdf :: "document_lib \<Rightarrow> string \<Rightarrow> bool \<Rightarrow> nat \<Rightarrow> (string \<times> confidence \<times> int option) option exn" where
  "extract_pdf lib data ocr_enabled max_ocr_pages = (case dl_pdf lib data of
      None \<Rightarrow> Inr None
    | Some pages \<Rightarrow>
        (let page_count = length pages
         in if page_count = 0 then Inr None
            else ebind (emap (\<lambda>p. p) pages) (\<lambda>ts.
                 if sum_list (map (int \<circ> length \<circ> py_strip) ts) \<ge> TEXT_LAYER_MIN_CHARS_PER_PAGE * int page_count
                 then Inr (Some (text_layer_body ts, Medium, Some (int page_count)))
                 else if \<not> ocr_enabled \<or> \<not> dl_ocr_available lib then Inr None
                 else let processed = min page_count max_ocr_pages
                      in ebind (emap (dl_ocr_page lib data) [0..<processed]) (\<lambda>chunks.
                           let ocr_text = paragraphs chunks
                           in if \<not> is_meaningful lib ocr_text then Inr None
                              else Inr (Some (ocr_body page_count processed ocr_text, Low, Some (int page_count)))))))"

definition extract_image :: "document_lib \<Rightarrow> string \<Rightarrow> bool \<Rightarrow> (string \<times> confidence \<times> int option) option" where
  "extract_image lib data ocr_enabled =
    (if \<not> ocr_enabled \<or> \<not> dl_ocr_available lib then None
     else case dl_ocr_image lib data of
         Inl _ \<Rightarrow> None
       | Inr s \<Rightarrow> if \<not> is_meaningful lib s then None
                  else Some (envelope ''Not available - this image was read by local OCR.'' ''Image.'' not_analyzed (py_strip s), Low, None))"

definition extract_sync :: "document_lib \<Rightarrow> string \<Rightarrow> string \<Rightarrow> bool \<Rightarrow> nat \<Rightarrow> (string \<times> confidence \<times> int option) option exn" where
  "extract_sync lib mime data ocr_enabled max_ocr_pages =
    (if mime = ''application/pdf'' then extract_pdf lib data ocr_enabled max_ocr_pages
     else if py_startswith mime ''image/'' then Inr (extract_image lib data ocr_enabled)
     else Inl ValueError)"

definition extract_locally :: "document_lib \<Rightarrow> string \<Rightarrow> string \<Rightarrow> string \<Rightarrow> bool \<Rightarrow> nat \<Rightarrow> Extraction option exn" where
  "extract_locally lib file_hash mime data ocr_enabled max_ocr_pages =
    ebind (extract_sync lib mime data ocr_enabled max_ocr_pages) (\<lambda>r. Inr (map_option (\<lambda>(s, c, pages).
      \<lparr>xt_file_hash = file_hash, xt_text = s, xt_confidence = c, xt_tier = Local, xt_provider = LOCAL_PROVIDER, xt_model = LOCAL_MODEL,
       xt_pages = pages\<rparr>) r))"

definition measure_file :: "document_lib \<Rightarrow> string \<Rightarrow> string \<Rightarrow> Measurement" where
  "measure_file lib mime data =
    (if mime = ''application/pdf'' then (case dl_pdf lib data of None \<Rightarrow> unmeasured | Some ts \<Rightarrow> unmeasured\<lparr>me_pages := Some (int (length ts))\<rparr>)
     else if py_startswith mime ''image/''
          then (case dl_image_size lib data of None \<Rightarrow> unmeasured | Some (w, h) \<Rightarrow> unmeasured\<lparr>me_width := Some w, me_height := Some h\<rparr>)
     else unmeasured)"

definition object_path :: "string \<Rightarrow> string exn" where
  "object_path file_hash = (if length file_hash < 2 then Inl ValueError else Inr (take 2 file_hash @ ''/'' @ file_hash))"

subsection \<open>The resolver\<close>

record file_ref =
  rf_hash :: string
  rf_filename :: string
  rf_mime :: string
  rf_bytes :: int

record lane_settings =
  ls_local_only :: bool
  ls_ocr_enabled :: bool
  ls_ocr_max_pages :: nat

record 'r lane_env =
  le_penv :: "'r penv"
  le_store :: "string \<Rightarrow> string exn"
  le_lib :: document_lib
  le_settings :: lane_settings

text \<open>The memo, by file and by whether the file goes to the model as it is.\<close>

type_synonym memo = "(string \<times> bool) \<rightharpoonup> ResolvedAttachment"

definition native_wanted :: "file_ref \<Rightarrow> ModelSpec \<Rightarrow> bool" where
  "native_wanted ref spec =
    (if \<not> supports_mime spec (rf_mime ref) then False
     else case ms_max_file_bytes spec of None \<Rightarrow> True | Some n \<Rightarrow> rf_bytes ref \<le> n)"

definition native_attachment :: "file_ref \<Rightarrow> string \<Rightarrow> Measurement \<Rightarrow> ResolvedAttachment" where
  "native_attachment ref data m = \<lparr>ra_file_hash = rf_hash ref, ra_filename = rf_filename ref, ra_mime = rf_mime ref,
     ra_size_bytes = rf_bytes ref, ra_mode = Native, ra_data = Some data, ra_text = None, ra_confidence = None, ra_tier = Some TierNative,
     ra_token_cost = native_token_cost (rf_mime ref) (rf_bytes ref) m, ra_pages = me_pages m\<rparr>"

definition injected_attachment :: "file_ref \<Rightarrow> Extraction \<Rightarrow> extraction_tier \<Rightarrow> ResolvedAttachment" where
  "injected_attachment ref e tier = \<lparr>ra_file_hash = rf_hash ref, ra_filename = rf_filename ref, ra_mime = rf_mime ref,
     ra_size_bytes = rf_bytes ref, ra_mode = Injected, ra_data = None, ra_text = Some (xt_text e), ra_confidence = Some (xt_confidence e),
     ra_tier = Some tier, ra_token_cost = 0, ra_pages = xt_pages e\<rparr>"

text \<open>\<open>_guarded\<close>: whatever a tier raises becomes \<open>None\<close>; only \<open>FileUnreadable\<close> passes.\<close>

definition guarded :: "('r, 'a option) pact \<Rightarrow> ('r, 'a option) pact" where
  "guarded m s = (case m s of (Inl FileUnreadable, s1) \<Rightarrow> (Inl FileUnreadable, s1) | (Inl _, s1) \<Rightarrow> (Inr None, s1) | (Inr x, s1) \<Rightarrow> (Inr x, s1))"

text \<open>
  \<open>_Lazy\<close>: the bytes are fetched at most once; a failed fetch raises where it happens and gives nothing afterwards.
  \<open>lz\<close>: \<open>None\<close> before the fetch, then what it gave.
\<close>

definition fetch_bytes :: "'r lane_env \<Rightarrow> string \<Rightarrow> string exn" where
  "fetch_bytes env file_hash = ebind (object_path file_hash) (le_store env)"

definition lazy_bytes :: "'r lane_env \<Rightarrow> string \<Rightarrow> string option option \<Rightarrow> string option exn \<times> string option option" where
  "lazy_bytes env file_hash lz = (case lz of
      Some v \<Rightarrow> (Inr v, lz)
    | None \<Rightarrow> (case fetch_bytes env file_hash of Inl e \<Rightarrow> (Inl e, Some None) | Inr b \<Rightarrow> (Inr (Some b), Some (Some b))))"

text \<open>What a guarded tier gets of it.\<close>

definition bytes_for_tier :: "'r lane_env \<Rightarrow> string \<Rightarrow> string option option \<Rightarrow> string option \<times> string option option" where
  "bytes_for_tier env file_hash lz = (case lazy_bytes env file_hash lz of (Inl _, lz1) \<Rightarrow> (None, lz1) | (Inr v, lz1) \<Rightarrow> (v, lz1))"

definition local_tier :: "'r lane_env \<Rightarrow> file_ref \<Rightarrow> string \<Rightarrow> ('r, Extraction option) pact" where
  "local_tier env ref data =
    pbind (plift (extract_locally (le_lib env) (rf_hash ref) (rf_mime ref) data (ls_ocr_enabled (le_settings env)) (ls_ocr_max_pages (le_settings env))))
      (\<lambda>reading. case reading of
          None \<Rightarrow> preturn None
        | Some e \<Rightarrow> if ls_local_only (le_settings env) then preturn (Some e)
                    else pbind (persist (le_penv env) e) (\<lambda>_. preturn (Some e)))"

definition document_of :: "file_ref \<Rightarrow> string \<Rightarrow> document" where
  "document_of ref data = \<lparr>dc_file_hash = rf_hash ref, dc_filename = rf_filename ref, dc_mime = rf_mime ref, dc_data = data\<rparr>"

text \<open>From tier 2 on: the model, then a stored local reading, then the local tier.\<close>

definition lower_tiers :: "'r lane_env \<Rightarrow> file_ref \<Rightarrow> Extraction option \<Rightarrow> string option option \<Rightarrow> ('r, ResolvedAttachment) pact" where
  "lower_tiers env ref cached lz =
    (let local_only = ls_local_only (le_settings env);
         (llm_data, lz2) = (if local_only then (None, lz) else bytes_for_tier env (rf_hash ref) lz)
     in pbind (case llm_data of None \<Rightarrow> preturn None | Some data \<Rightarrow> guarded (extract_with_llm (le_penv env) (document_of ref data))) (\<lambda>extracted.
          case extracted of
            Some e \<Rightarrow> preturn (injected_attachment ref e TierLlm)
          | None \<Rightarrow> (case cached of
                Some e \<Rightarrow> preturn (injected_attachment ref e TierCache)
              | None \<Rightarrow>
                  (let (local_data, _) = bytes_for_tier env (rf_hash ref) lz2
                   in pbind (case local_data of None \<Rightarrow> preturn None | Some data \<Rightarrow> guarded (local_tier env ref data)) (\<lambda>reading.
                        case reading of Some e \<Rightarrow> preturn (injected_attachment ref e TierLocal) | None \<Rightarrow> praise FileUnreadable)))))"

text \<open>Tier 1: the bytes ride in the payload, and the measurement makes them visible to the budget.\<close>

definition native_then_lower :: "'r lane_env \<Rightarrow> file_ref \<Rightarrow> bool \<Rightarrow> Extraction option \<Rightarrow> ('r, ResolvedAttachment) pact" where
  "native_then_lower env ref native cached =
    (let (native_data, lz1) = (if native then bytes_for_tier env (rf_hash ref) None else (None, None))
     in case native_data of
          Some data \<Rightarrow> preturn (native_attachment ref data (measure_file (le_lib env) (rf_mime ref) data))
        | None \<Rightarrow> lower_tiers env ref cached lz1)"

definition run_chain :: "'r lane_env \<Rightarrow> file_ref \<Rightarrow> bool \<Rightarrow> ('r, ResolvedAttachment) pact" where
  "run_chain env ref native =
    pbind (if ls_local_only (le_settings env) then preturn None else guarded (load_cached (le_penv env) (rf_hash ref))) (\<lambda>cached.
      case cached of
        Some e \<Rightarrow> if xt_tier e = Llm then preturn (injected_attachment ref e TierCache) else native_then_lower env ref native cached
      | None \<Rightarrow> native_then_lower env ref native cached)"

definition resolve_one :: "'r lane_env \<Rightarrow> file_ref \<Rightarrow> ModelSpec \<Rightarrow> memo \<Rightarrow> 'r pstate \<Rightarrow> (ResolvedAttachment exn \<times> memo) \<times> 'r pstate" where
  "resolve_one env ref spec memo s =
    (let key = (rf_hash ref, native_wanted ref spec)
     in case memo key of
          Some a \<Rightarrow> ((Inr a, memo), s)
        | None \<Rightarrow> (case run_chain env ref (native_wanted ref spec) s of
              (Inl e, s1) \<Rightarrow> ((Inl e, memo), s1)
            | (Inr a, s1) \<Rightarrow> ((Inr a, memo(key \<mapsto> a)), s1)))"

fun resolve_from :: "'r lane_env \<Rightarrow> ModelSpec \<Rightarrow> file_ref list \<Rightarrow> string list \<Rightarrow> memo \<Rightarrow> 'r pstate
    \<Rightarrow> (ResolvedAttachment list exn \<times> memo) \<times> 'r pstate" where
  "resolve_from env spec [] seen memo s = ((Inr [], memo), s)"
| "resolve_from env spec (ref # refs) seen memo s =
    (if rf_hash ref \<in> set seen then resolve_from env spec refs seen memo s
     else case resolve_one env ref spec memo s of
         ((Inl e, memo1), s1) \<Rightarrow> ((Inl e, memo1), s1)
       | ((Inr a, memo1), s1) \<Rightarrow> (case resolve_from env spec refs (rf_hash ref # seen) memo1 s1 of
             ((Inl e, memo2), s2) \<Rightarrow> ((Inl e, memo2), s2)
           | ((Inr as, memo2), s2) \<Rightarrow> ((Inr (a # as), memo2), s2)))"

definition resolve_files :: "'r lane_env \<Rightarrow> file_ref list \<Rightarrow> ModelSpec \<Rightarrow> memo \<Rightarrow> 'r pstate \<Rightarrow> (ResolvedAttachment list exn \<times> memo) \<times> 'r pstate" where
  "resolve_files env refs spec memo s = resolve_from env spec refs [] memo s"

end
