(* ===== verification/Gw_Perception_Props.thy ===== *)
theory Gw_Perception_Props
  imports Gw_Perception Gw_Router_Props
begin

text \<open>
  What the perception lane promises: every file is read or refused, a reading is made once per request, a model's reading
  is never lost, a native file is never free, and what is resolved can be sent. The invariants of the stored rows are
  proved once, in the locale \<open>rows_invariant\<close>, over every action of the lane.
\<close>

subsection \<open>Only an unreadable file surfaces\<close>

lemma guarded_raises: "guarded m s = (Inl e, s1) \<Longrightarrow> e = FileUnreadable"
  by (auto simp: guarded_def split: prod.splits sum.splits py_error.splits)

lemma pbind_Inl: "pbind m f s = (Inl e, s1) \<Longrightarrow> (m s = (Inl e, s1)) \<or> (\<exists>x s2. m s = (Inr x, s2) \<and> f x s2 = (Inl e, s1))"
  by (auto simp: pbind_def split: prod.splits sum.splits)

lemma pbind_Inr: "pbind m f s = (Inr y, s1) \<longleftrightarrow> (\<exists>x s2. m s = (Inr x, s2) \<and> f x s2 = (Inr y, s1))"
  by (auto simp: pbind_def split: prod.splits sum.splits)

lemma preturn_iff [simp]: "preturn x s = (r, s1) \<longleftrightarrow> r = Inr x \<and> s1 = s" "praise e s = (r, s1) \<longleftrightarrow> r = Inl e \<and> s1 = s"
  by (auto simp: preturn_def praise_def)

lemma lower_tiers_raises: "lower_tiers env ref cached lz s = (Inl e, s1) \<Longrightarrow> e = FileUnreadable"
  by (auto simp: lower_tiers_def Let_def split: prod.splits option.splits if_splits dest!: pbind_Inl dest: guarded_raises)

lemma native_raises: "native_then_lower env ref native cached s = (Inl e, s1) \<Longrightarrow> e = FileUnreadable"
  by (auto simp: native_then_lower_def Let_def split: prod.splits option.splits if_splits dest: lower_tiers_raises)

lemma run_chain_raises: "run_chain env ref native s = (Inl e, s1) \<Longrightarrow> e = FileUnreadable"
  by (auto simp: run_chain_def split: option.splits if_splits dest!: pbind_Inl dest: guarded_raises native_raises)

lemma resolve_from_raises: "resolve_from env spec refs seen memo s = ((Inl e, memo1), s1) \<Longrightarrow> e = FileUnreadable"
proof (induction env spec refs seen memo s rule: resolve_from.induct)
  case (2 env spec ref refs seen memo s)
  then show ?case
    by (auto simp: resolve_one_def Let_def split: if_splits option.splits prod.splits sum.splits dest: run_chain_raises)
qed simp

subsection \<open>What is resolved\<close>

definition resolved_for :: "'r lane_env \<Rightarrow> bool \<Rightarrow> string \<Rightarrow> ResolvedAttachment \<Rightarrow> bool" where
  "resolved_for env native h a \<longleftrightarrow> ra_file_hash a = h \<and>
    (if ra_mode a = Native then native \<and> ra_tier a = Some TierNative \<and> TOKENS_PER_TILE \<le> ra_token_cost a \<and>
        (\<exists>data. fetch_bytes env h = Inr data \<and> ra_data a = Some data)
     else ra_text a \<noteq> None \<and> ra_confidence a \<noteq> None \<and> ra_token_cost a = 0 \<and> ra_tier a \<noteq> Some TierNative)"

lemma ceil_div_pos: "0 < n \<Longrightarrow> 0 < d \<Longrightarrow> 1 \<le> ceil_div n d \<and> n \<le> ceil_div n d * d"
proof -
  assume a: "0 < n" "0 < d"
  have "- n div d * d = - n - - n mod d" using div_mult_mod_eq [of "- n" d] by linarith
  moreover have "0 \<le> - n mod d" using a(2) by (rule pos_mod_sign)
  ultimately have "n \<le> - (- n div d * d)" by linarith
  then have "n \<le> ceil_div n d * d" by (simp add: ceil_div_def)
  moreover from this a have "0 < ceil_div n d * d" by linarith
  then have "0 < ceil_div n d" using a(2) by (simp add: zero_less_mult_iff)
  ultimately show ?thesis by linarith
qed

lemma tile_edge_pos: "0 < tile_edge w h"
  by (simp add: tile_edge_def TILE_EDGE_MAX_def TILE_EDGE_MIN_def min_def max_def)

lemma image_tiles_pos: "1 \<le> image_tiles w h"
proof (cases "w \<le> 0 \<or> h \<le> 0 \<or> (w \<le> IMAGE_SINGLE_TILE_EDGE \<and> h \<le> IMAGE_SINGLE_TILE_EDGE)")
  case True
  then show ?thesis by (auto simp: image_tiles_def UNMEASURED_IMAGE_TILES_def)
next
  case False
  then have "1 \<le> ceil_div w (tile_edge w h)" "1 \<le> ceil_div h (tile_edge w h)" using ceil_div_pos tile_edge_pos by auto
  then have "1 * 1 \<le> ceil_div w (tile_edge w h) * ceil_div h (tile_edge w h)" by (intro mult_mono) auto
  with False show ?thesis by (simp add: image_tiles_def)
qed

lemma native_cost_pos: "TOKENS_PER_TILE \<le> native_token_cost mime n m"
  using image_tiles_pos
  by (auto simp: native_token_cost_def TOKENS_PER_TILE_def UNMEASURED_IMAGE_TILES_def Let_def split: option.splits)

lemma bytes_for_tier_Some: "bytes_for_tier env h None = (Some data, lz) \<Longrightarrow> fetch_bytes env h = Inr data"
  by (auto simp: bytes_for_tier_def lazy_bytes_def split: sum.splits)

lemma injected_ok: "tier \<noteq> TierNative \<Longrightarrow> resolved_for env native (rf_hash ref) (injected_attachment ref e tier)"
  by (simp add: resolved_for_def injected_attachment_def)

lemma lower_tiers_ok: "lower_tiers env ref cached lz s = (Inr a, s1) \<Longrightarrow> resolved_for env native (rf_hash ref) a"
  by (auto simp: lower_tiers_def Let_def pbind_Inr split: prod.splits option.splits if_splits intro: injected_ok)

lemma native_ok: "native_then_lower env ref native cached s = (Inr a, s1) \<Longrightarrow> resolved_for env native (rf_hash ref) a"
  by (auto simp: native_then_lower_def Let_def resolved_for_def native_attachment_def native_cost_pos split: prod.splits option.splits if_splits
      dest: bytes_for_tier_Some lower_tiers_ok [unfolded resolved_for_def])

lemma run_chain_ok: "run_chain env ref native s = (Inr a, s1) \<Longrightarrow> resolved_for env native (rf_hash ref) a"
  by (auto simp: run_chain_def pbind_Inr split: option.splits if_splits intro: injected_ok dest: native_ok)

definition memo_ok :: "'r lane_env \<Rightarrow> memo \<Rightarrow> bool" where
  "memo_ok env memo \<longleftrightarrow> (\<forall>h n a. memo (h, n) = Some a \<longrightarrow> resolved_for env n h a)"

lemma resolve_one_ok:
  "resolve_one env ref spec memo s = ((r, memo1), s1) \<Longrightarrow> memo_ok env memo \<Longrightarrow>
    memo_ok env memo1 \<and> memo \<subseteq>\<^sub>m memo1 \<and> (\<forall>a. r = Inr a \<longrightarrow> resolved_for env (native_wanted ref spec) (rf_hash ref) a \<and>
      memo1 (rf_hash ref, native_wanted ref spec) = Some a)"
  by (auto simp: resolve_one_def memo_ok_def map_le_def Let_def split: option.splits prod.splits sum.splits if_splits dest: run_chain_ok)

fun firsts :: "string list \<Rightarrow> file_ref list \<Rightarrow> file_ref list" where
  "firsts seen [] = []"
| "firsts seen (r # rs) = (if rf_hash r \<in> set seen then firsts seen rs else r # firsts (rf_hash r # seen) rs)"

lemma resolve_from_ok:
  "resolve_from env spec refs seen memo s = ((Inr as, memo1), s1) \<Longrightarrow> memo_ok env memo \<Longrightarrow>
    memo_ok env memo1 \<and> memo \<subseteq>\<^sub>m memo1 \<and>
    list_all2 (\<lambda>ref a. resolved_for env (native_wanted ref spec) (rf_hash ref) a \<and> memo1 (rf_hash ref, native_wanted ref spec) = Some a) (firsts seen refs) as"
proof (induction env spec refs seen memo s arbitrary: as memo1 s1 rule: resolve_from.induct)
  case (2 env spec ref refs seen memo s)
  show ?case
  proof (cases "rf_hash ref \<in> set seen")
    case True
    then show ?thesis using 2 by simp
  next
    case False
    obtain r m s' where one: "resolve_one env ref spec memo s = ((r, m), s')" by (metis prod.exhaust)
    then obtain a as' where r: "r = Inr a" and as: "as = a # as'"
      and rest: "resolve_from env spec refs (rf_hash ref # seen) m s' = ((Inr as', memo1), s1)"
      using 2(3) False by (auto split: sum.splits prod.splits)
    note a = resolve_one_ok [OF one 2(4)]
    have IH: "memo_ok env memo1 \<and> m \<subseteq>\<^sub>m memo1 \<and>
       list_all2 (\<lambda>ref a. resolved_for env (native_wanted ref spec) (rf_hash ref) a \<and> memo1 (rf_hash ref, native_wanted ref spec) = Some a)
         (firsts (rf_hash ref # seen) refs) as'"
      using 2(2) [OF False one [symmetric]] rest r a by auto
    then show ?thesis using a r as False map_le_trans [of memo m memo1] by (auto simp: map_le_def dom_def)
  qed
qed (auto simp: map_le_def)

subsection \<open>A reading in Redis\<close>

lemma extraction_roundtrip: "extraction_from_json (extraction_to_json e) = Some e"
  by (cases "xt_confidence e"; cases "xt_tier e"; cases "xt_pages e")
    (simp_all add: extraction_from_json_def extraction_to_json_def EXTRACTION_FIELDS_def jget_def read_confidence_def read_tier_def)

lemma resolve_from_memo_ok: "memo_ok env memo \<Longrightarrow> resolve_from env spec refs seen memo s = ((r, memo1), s1) \<Longrightarrow> memo_ok env memo1"
proof (induction env spec refs seen memo s arbitrary: r memo1 s1 rule: resolve_from.induct)
  case (2 env spec ref refs seen memo s)
  show ?case
  proof (cases "rf_hash ref \<in> set seen")
    case True
    then show ?thesis using 2 by simp
  next
    case False
    obtain r' m s' where one: "resolve_one env ref spec memo s = ((r', m), s')" by (metis prod.exhaust)
    have m: "memo_ok env m" using resolve_one_ok [OF one 2(3)] by blast
    show ?thesis
    proof (cases r')
      case (Inl e)
      then show ?thesis using 2(4) False one m by auto
    next
      case (Inr a)
      obtain r2 m2 s2 where rest: "resolve_from env spec refs (rf_hash ref # seen) m s' = ((r2, m2), s2)" by (metis prod.exhaust)
      then have "memo1 = m2" using 2(4) False one Inr by (cases r2) auto
      then show ?thesis using 2(2) [OF False one [symmetric] refl Inr m rest] by simp
    qed
  qed
qed simp

lemma resolve_from_again:
  "list_all (\<lambda>ref. memo (rf_hash ref, native_wanted ref spec) \<noteq> None) (firsts seen refs) \<Longrightarrow>
    resolve_from env spec refs seen memo s = ((Inr (map (\<lambda>ref. the (memo (rf_hash ref, native_wanted ref spec))) (firsts seen refs)), memo), s)"
  by (induction refs arbitrary: seen) (auto simp: resolve_one_def Let_def)

lemma firsts_subset: "set (firsts seen refs) \<subseteq> set refs"
  by (induction refs arbitrary: seen) auto

lemma firsts_cong: "list_all (\<lambda>ref. f ref = g ref) refs \<Longrightarrow> map f (firsts seen refs) = map g (firsts seen refs)"
  using firsts_subset by (fastforce simp: list_all_iff)

subsection \<open>Stored readings\<close>

definition good_db :: "db_step list \<Rightarrow> bool" where
  "good_db ds \<longleftrightarrow> list_all (\<lambda>d. \<forall>t h r. t h = Some r \<and> fe_tier r = ''llm'' \<longrightarrow> ds_others d t h = Some r) ds"

definition llm_kept :: "extraction_table \<Rightarrow> 'r pstate \<Rightarrow> bool" where
  "llm_kept t s \<longleftrightarrow> good_db (ps_db s) \<and> (\<forall>h r. t h = Some r \<and> fe_tier r = ''llm'' \<longrightarrow> ps_rows s h = Some r)"

definition keeps :: "('r pstate \<Rightarrow> bool) \<Rightarrow> ('r, 'a) pact \<Rightarrow> bool" where
  "keeps P m \<longleftrightarrow> (\<forall>s. P s \<longrightarrow> P (snd (m s)))"

named_theorems keeps_rules "which actions keep a condition on the lane's state"

lemma keeps_basic [keeps_rules]: "keeps P (preturn x)" "keeps P (praise e)" "keeps P (plift y)"
  by (auto simp: keeps_def preturn_def praise_def plift_def)

lemma keeps_pbind [keeps_rules]: "keeps P m \<Longrightarrow> (\<And>x. keeps P (f x)) \<Longrightarrow> keeps P (pbind m f)"
  by (fastforce simp: keeps_def pbind_def split: prod.splits sum.splits)

lemma keeps_branch [keeps_rules]:
  "keeps P m \<Longrightarrow> keeps P m' \<Longrightarrow> keeps P (if b then m else m')"
  "keeps P m0 \<Longrightarrow> (\<And>x. keeps P (m1 x)) \<Longrightarrow> keeps P (case v of None \<Rightarrow> m0 | Some x \<Rightarrow> m1 x)"
  "(\<And>a b. keeps P (m2 a b)) \<Longrightarrow> keeps P (case p of (a, b) \<Rightarrow> m2 a b)"
  "(\<And>e. keeps P (m3 e)) \<Longrightarrow> (\<And>y. keeps P (m4 y)) \<Longrightarrow> keeps P (case u of Inl e \<Rightarrow> m3 e | Inr y \<Rightarrow> m4 y)"
  by (auto split: option.splits prod.splits sum.splits)

lemma keeps_guarded [keeps_rules]: "keeps P m \<Longrightarrow> keeps P (guarded m)"
  by (fastforce simp: keeps_def guarded_def split: prod.splits sum.splits py_error.splits)

text \<open>
  A condition on the stored rows: it does not look at Redis or at the counters, and the two sessions the lane opens keep
  it. Then everything the lane does keeps it.
\<close>

locale rows_invariant =
  fixes P :: "'r pstate \<Rightarrow> bool"
  assumes P_cong: "ps_rows s' = ps_rows s \<Longrightarrow> ps_db s' = ps_db s \<Longrightarrow> P s' = P s"
    and P_get: "P s \<Longrightarrow> P (snd (session (\<lambda>t. (ext_get h t, t)) s))"
    and P_upsert: "P s \<Longrightarrow> P (snd (session (ext_upsert e) s))"
begin

lemma same_rows: "(\<And>s. ps_rows (snd (m s)) = ps_rows s \<and> ps_db (snd (m s)) = ps_db s) \<Longrightarrow> keeps P m"
  unfolding keeps_def by (metis P_cong)

lemma keeps_world [keeps_rules]: "keeps P (on_pworld f)" "keeps P (pcall op)"
  by (rule same_rows; simp add: pcall_def on_pworld_def Let_def split_beta)+

lemma keeps_counters [keeps_rules]:
  "keeps P (pclock env)" "keeps P (pbreaker_clock env)" "keeps P (fresh_uuid env)" "keeps P (call_model env ops payload key)"
  "keeps P (report_auth_failure resolved)"
  by (rule same_rows; simp add: pclock_def pbreaker_clock_def fresh_uuid_def call_model_def report_auth_failure_def)+

lemma keeps_sessions [keeps_rules]: "keeps P (session (\<lambda>t. (ext_get h t, t)))" "keeps P (session (ext_upsert e))"
  by (simp_all add: keeps_def P_get P_upsert)

lemma keeps_tier0 [keeps_rules]: "keeps P (cache_extraction env e)" "keeps P (load_cached env h)" "keeps P (persist env e)"
  unfolding cache_extraction_def load_cached_def persist_def cached_in_redis_def by (intro keeps_rules)+

lemma keeps_await [keeps_rules]: "keeps P (await_winner env h left)"
proof (induction env h left rule: await_winner.induct)
  case (1 env h left)
  then show ?case by (cases "left \<le> 0"; subst await_winner.simps) (simp_all add: keeps_rules)
qed

lemma keeps_attempt [keeps_rules]: "keeps P (attempt_candidate env d message spec decision)"
  unfolding attempt_candidate_def settle_reading_def attempt_failed_def attempt_read_def perception_reserve_def perception_commit_def perception_release_def Let_def
  by (intro keeps_rules)

lemma keeps_walk [keeps_rules]: "keeps P (walk_candidates env d message chain)"
proof (induction chain)
  case (Cons spec chain)
  have "keeps P (case r of NextSpec \<Rightarrow> walk_candidates env d message chain | StopChain \<Rightarrow> preturn None | GotReading e \<Rightarrow> preturn (Some e))" for r
    using Cons.IH keeps_basic by (cases r) auto
  then show ?case unfolding walk_candidates.simps by (intro keeps_rules Cons.IH)
qed (simp add: keeps_basic)

lemma keeps_finally [keeps_rules]: "keeps P m \<Longrightarrow> keeps P (finally_release env lk m)"
proof -
  assume m: "keeps P m"
  have "keeps P (lock_release env lk)" unfolding lock_release_def by (intro keeps_rules)
  with m show ?thesis by (auto simp: keeps_def finally_release_def Let_def split: prod.splits)
qed

lemma keeps_extract [keeps_rules]: "keeps P (extract_with_llm env d)"
  unfolding extract_with_llm_def new_lock_def lock_acquire_def read_under_lock_def by (intro keeps_rules)

lemma keeps_chain [keeps_rules]: "keeps P (run_chain env ref native)"
  unfolding run_chain_def native_then_lower_def lower_tiers_def local_tier_def Let_def by (intro keeps_rules)

lemma keeps_resolve: "P s \<Longrightarrow> P (snd (resolve_from env spec refs seen memo s))"
proof (induction env spec refs seen memo s rule: resolve_from.induct)
  case (2 env spec ref refs seen memo s)
  have one: "P (snd (resolve_one env ref spec memo s))"
    using 2(3) keeps_chain [of env ref "native_wanted ref spec"]
    by (auto simp: resolve_one_def keeps_def Let_def split: option.splits prod.splits sum.splits)
  show ?case using 2 one by (auto split: prod.splits sum.splits)
qed simp

end

lemma upsert_keeps_llm: "t0 h = Some r \<Longrightarrow> fe_tier r = ''llm'' \<Longrightarrow> snd (ext_upsert e t0) h = Some r"
  by (auto simp: ext_upsert_def UPGRADABLE_FROM_def split: option.splits)

lemma session_keeps_llm:
  assumes "\<And>t0 h r. t0 h = Some r \<Longrightarrow> fe_tier r = ''llm'' \<Longrightarrow> snd (op t0) h = Some r"
    and k: "llm_kept t s"
  shows "llm_kept t (snd (session op s))"
proof (cases "ps_db s")
  case Nil
  with k assms(1) show ?thesis by (auto simp: session_def llm_kept_def Let_def split_beta)
next
  case (Cons d ds)
  then have "\<And>h r. ps_rows s h = Some r \<Longrightarrow> fe_tier r = ''llm'' \<Longrightarrow> ds_others d (ps_rows s) h = Some r" "good_db ds"
    using k by (auto simp: llm_kept_def good_db_def)
  with k Cons assms(1) show ?thesis by (simp add: session_def llm_kept_def Let_def split_beta)
qed

interpretation llm: rows_invariant "llm_kept t" for t
proof unfold_locales
  show "llm_kept t s' = llm_kept t s" if "ps_rows s' = ps_rows s" "ps_db s' = ps_db s" for s s' :: "'a pstate"
    using that by (simp add: llm_kept_def)
  show "llm_kept t (snd (session (\<lambda>t. (ext_get h t, t)) s))" if "llm_kept t s" for h and s :: "'a pstate"
    using that by (rule session_keeps_llm [rotated]) simp
  show "llm_kept t (snd (session (ext_upsert e) s))" if "llm_kept t s" for e and s :: "'a pstate"
    using that by (rule session_keeps_llm [rotated]) (rule upsert_keeps_llm)
qed

definition file_ref_of :: "ContentBlock \<Rightarrow> file_ref option" where
  "file_ref_of b = (case b of FileRefBlock h f m n \<Rightarrow> Some \<lparr>rf_hash = h, rf_filename = f, rf_mime = m, rf_bytes = n\<rparr> | _ \<Rightarrow> None)"

definition refs_of :: "CanonicalMessage list \<Rightarrow> file_ref list" where
  "refs_of ms = List.map_filter file_ref_of (concat (map cm_content ms))"

subsection \<open>Examples\<close>

definition ex_perception_registry :: ProviderRegistry where
  "ex_perception_registry = \<lparr>pr_specs = [(PERCEPTION_SLOT, [])], pr_adapters = [], pr_keys = [], pr_internal_slots = [], pr_private_key_only_slots = []\<rparr>"

definition ex_penv :: "unit penv" where
  "ex_penv = \<lparr>px_redis = no_redis, px_cache = False, px_registry = ex_perception_registry, px_breaker = default_breaker, px_quota = None, px_context_id = None,
     px_clock = (\<lambda>_. 0), px_uuid = (\<lambda>_. ''u''), px_resolve = (\<lambda>_ _. Inl OtherError), px_adapter = (\<lambda>_. groq_ops ex_self ex_lib),
     px_client = (\<lambda>_. ex_client (ex_response 200 None))\<rparr>"

definition ex_pages_lib :: document_lib where
  "ex_pages_lib = \<lparr>dl_pdf = (\<lambda>_. Some [Inr (replicate 50 (CHR ''x''))]), dl_ocr_available = False, dl_ocr_page = (\<lambda>_ _. Inl OtherError),
     dl_ocr_image = (\<lambda>_. Inl OtherError), dl_image_size = (\<lambda>_. None), dl_isalnum = (\<lambda>_. True)\<rparr>"

definition ex_lane :: "(string \<Rightarrow> string exn) \<Rightarrow> unit lane_env" where
  "ex_lane store = \<lparr>le_penv = ex_penv, le_store = store, le_lib = ex_pages_lib,
     le_settings = \<lparr>ls_local_only = False, ls_ocr_enabled = False, ls_ocr_max_pages = 10\<rparr>\<rparr>"

definition ex_pstate :: "extraction_table \<Rightarrow> unit pstate" where
  "ex_pstate t = \<lparr>ps_world = calm (), ps_rows = t, ps_db = [], ps_calls = 0, ps_uuids = 0, ps_ticks = 0, ps_auth_failures = []\<rparr>"

definition ex_ref :: file_ref where
  "ex_ref = \<lparr>rf_hash = ''abc'', rf_filename = ''a.pdf'', rf_mime = ''application/pdf'', rf_bytes = 4\<rparr>"

lemma memo_ok_empty: "memo_ok env Map.empty"
  by (simp add: memo_ok_def)

text \<open>C27: the lane gives every file a reading or says it cannot: for every distinct file of the history, in order, it returns
  the stored bytes with a cost of at least one tile, only to a model that takes them, or a text with its confidence; the
  one exception that leaves it is that a file is unreadable, whatever a tier, the store or the database raised.\<close>

theorem lane_reads_or_refuses:
  assumes "memo_ok env memo"
  shows "memo_ok env (snd (fst (resolve_files env refs spec memo s))) \<and>
    (case fst (fst (resolve_files env refs spec memo s)) of
       Inl e \<Rightarrow> e = FileUnreadable
     | Inr as \<Rightarrow> list_all2 (\<lambda>ref a. resolved_for env (native_wanted ref spec) (rf_hash ref) a) (firsts [] refs) as)"
proof -
  obtain r m s1 where r: "resolve_from env spec refs [] memo s = ((r, m), s1)" by (metis prod.exhaust)
  show ?thesis
    using resolve_from_raises [of env spec refs "[]" memo s] resolve_from_ok [of env spec refs "[]" memo s] resolve_from_memo_ok [OF assms r] assms r
    by (auto simp: resolve_files_def split: sum.splits elim: list_all2_mono)
qed

theorem lane_reads_or_refuses_witness:
  "case fst (fst (resolve_files (ex_lane (\<lambda>_. Inr ''data'')) [ex_ref, ex_ref] ex_model Map.empty (ex_pstate Map.empty))) of
     Inl e \<Rightarrow> False
   | Inr as \<Rightarrow> map ra_tier as = [Some TierLocal] \<and>
       list_all2 (\<lambda>ref a. resolved_for (ex_lane (\<lambda>_. Inr ''data'')) (native_wanted ref ex_model) (rf_hash ref) a) [ex_ref] as"
proof -
  let ?r = "resolve_files (ex_lane (\<lambda>_. Inr ''data'')) [ex_ref, ex_ref] ex_model Map.empty (ex_pstate Map.empty)"
  have t: "case fst (fst ?r) of Inl e \<Rightarrow> False | Inr as \<Rightarrow> map ra_tier as = [Some TierLocal]" by code_simp
  have f: "firsts [] [ex_ref, ex_ref] = [ex_ref]" by simp
  from lane_reads_or_refuses [OF memo_ok_empty, of "ex_lane (\<lambda>_. Inr ''data'')" "[ex_ref, ex_ref]" ex_model "ex_pstate Map.empty", unfolded f] t
  show ?thesis by (auto split: sum.splits)
qed

text \<open>One reading per file and request: once a candidate's files are resolved, resolving them for another candidate that
  takes the same files natively gives the same attachments, asks no tier and changes nothing, whatever happened to the
  stores in between.\<close>

theorem readings_are_memoized:
  assumes "resolve_files env refs spec memo s = ((Inr as, memo1), s1)" "memo_ok env memo"
    and "list_all (\<lambda>ref. native_wanted ref spec' = native_wanted ref spec) refs"
  shows "resolve_files env refs spec' memo1 s2 = ((Inr as, memo1), s2)"
proof -
  let ?at = "\<lambda>sp ref. memo1 (rf_hash ref, native_wanted ref sp)"
  have all: "list_all2 (\<lambda>ref a. ?at spec ref = Some a) (firsts [] refs) as"
    using resolve_from_ok [OF assms(1)[unfolded resolve_files_def] assms(2)] by (auto elim: list_all2_mono)
  have same: "map (?at spec') (firsts [] refs) = map (?at spec) (firsts [] refs)"
    by (rule firsts_cong) (use assms(3) in \<open>simp add: list_all_iff\<close>)
  have "map (?at spec) (firsts [] refs) = map Some as" using all by (auto simp: list_all2_conv_all_nth intro!: nth_equalityI)
  with same have at: "map (?at spec') (firsts [] refs) = map Some as" by simp
  then have "None \<notin> set (map (?at spec') (firsts [] refs))" by auto
  then have "list_all (\<lambda>ref. ?at spec' ref \<noteq> None) (firsts [] refs)" by (force simp: list_all_iff)
  moreover have "map (\<lambda>ref. the (?at spec' ref)) (firsts [] refs) = as"
    using arg_cong [OF at, of "map the"] by (simp add: comp_def)
  ultimately show ?thesis using resolve_from_again [of memo1 spec' "[]" refs env s2] by (simp add: resolve_files_def)
qed


text \<open>A native file is never free: it costs at least one tile; a PDF costs every page, and the tiles charged for a large
  image cover it.\<close>

theorem native_cost_covers:
  "TOKENS_PER_TILE \<le> native_token_cost mime n m \<and>
   (mime = ''application/pdf'' \<and> me_pages m = Some p \<longrightarrow> p * TOKENS_PER_TILE \<le> native_token_cost mime n m) \<and>
   (0 < w \<and> 0 < h \<and> IMAGE_SINGLE_TILE_EDGE < max w h \<longrightarrow> w * h \<le> image_tiles w h * tile_edge w h ^ 2)"
proof (intro conjI impI native_cost_pos)
  assume "mime = ''application/pdf'' \<and> me_pages m = Some p"
  then show "p * TOKENS_PER_TILE \<le> native_token_cost mime n m" by (simp add: native_token_cost_def TOKENS_PER_TILE_def)
next
  assume a: "0 < w \<and> 0 < h \<and> IMAGE_SINGLE_TILE_EDGE < max w h"
  let ?e = "tile_edge w h"
  have "w \<le> ceil_div w ?e * ?e" "h \<le> ceil_div h ?e * ?e" using a ceil_div_pos tile_edge_pos by auto
  then have "w * h \<le> (ceil_div w ?e * ?e) * (ceil_div h ?e * ?e)" using a by (intro mult_mono) auto
  moreover have "image_tiles w h = ceil_div w ?e * ceil_div h ?e" using a by (auto simp: image_tiles_def)
  ultimately show "w * h \<le> image_tiles w h * ?e ^ 2" by (simp add: power2_eq_square algebra_simps)
qed

theorem native_cost_covers_witness:
  "image_tiles 1000 1000 * tile_edge 1000 1000 ^ 2 \<ge> 1000000 \<and> image_tiles 1000 1000 = 4"
proof -
  have "image_tiles 1000 1000 = 4" by code_simp
  moreover have "(1000 :: int) * 1000 \<le> image_tiles 1000 1000 * tile_edge 1000 1000 ^ 2"
    using native_cost_covers [of "[]" 0 unmeasured 0 1000 1000] by (simp add: IMAGE_SINGLE_TILE_EDGE_def)
  ultimately show ?thesis by simp
qed


definition ex_row :: "reading_tier \<Rightarrow> FileExtraction" where
  "ex_row t = \<lparr>fe_file_hash = ''abc'', fe_text = ''words'', fe_provider = ''p'', fe_model = ''m'', fe_confidence = ''high'', fe_tier = reading_tier_name t, fe_pages = None\<rparr>"

theorem readings_are_memoized_witness:
  "case resolve_files (ex_lane (\<lambda>_. Inr ''data'')) [ex_ref] ex_model Map.empty (ex_pstate Map.empty) of
     ((Inr as, memo1), s1) \<Rightarrow> resolve_files (ex_lane (\<lambda>_. Inr ''data'')) [ex_ref] ex_model memo1 (ex_pstate Map.empty) = ((Inr as, memo1), ex_pstate Map.empty)
   | _ \<Rightarrow> False"
proof -
  let ?r = "resolve_files (ex_lane (\<lambda>_. Inr ''data'')) [ex_ref] ex_model Map.empty (ex_pstate Map.empty)"
  have "case fst (fst ?r) of Inl e \<Rightarrow> False | Inr as \<Rightarrow> True" by code_simp
  then obtain as memo1 s1 where r: "?r = ((Inr as, memo1), s1)" by (cases ?r) (auto split: sum.splits)
  have "resolve_files (ex_lane (\<lambda>_. Inr ''data'')) [ex_ref] ex_model memo1 (ex_pstate Map.empty) = ((Inr as, memo1), ex_pstate Map.empty)"
    by (rule readings_are_memoized [OF r memo_ok_empty]) simp
  then show ?thesis unfolding r by simp
qed


subsection \<open>Files in a payload\<close>

lemma emap_total: "(\<And>x. x \<in> set xs \<Longrightarrow> \<exists>y. f x = Inr y) \<Longrightarrow> \<exists>ys. emap f xs = Inr ys"
proof (induction xs)
  case (Cons x xs)
  obtain y where "f x = Inr y" using Cons.prems [of x] by auto
  moreover obtain ys where "emap f xs = Inr ys" using Cons.IH Cons.prems by auto
  ultimately show ?case by simp
qed simp

lemma firsts_hashes: "rf_hash ` set (firsts seen refs) = rf_hash ` set refs - set seen"
  by (induction refs arbitrary: seen) auto

lemma index_by_hash_known:
  assumes "list_all2 (\<lambda>ref a. resolved_for env (N ref) (rf_hash ref) a) (firsts [] refs) as" "h \<in> rf_hash ` set refs"
  shows "\<exists>a n. index_by_hash as h = Some a \<and> resolved_for env n h a"
proof -
  have "set (map ra_file_hash as) = rf_hash ` set refs"
  proof -
    have "map ra_file_hash as = map rf_hash (firsts [] refs)"
      using assms(1) by (auto simp: list_all2_conv_all_nth resolved_for_def intro!: nth_equalityI)
    then have "set (map ra_file_hash as) = set (map rf_hash (firsts [] refs))" by simp
    then show ?thesis using firsts_hashes [of "[]" refs] by simp
  qed
  then obtain a where a: "index_by_hash as h = Some a"
    using assms(2) by (cases "index_by_hash as h") (auto simp: index_by_hash_def map_of_eq_None_iff image_image)
  then have "a \<in> set as" "ra_file_hash a = h" by (auto simp: index_by_hash_def dest!: map_of_SomeD)
  moreover have "\<exists>n. resolved_for env n (ra_file_hash a) a"
    using assms(1) \<open>a \<in> set as\<close> by (auto simp: in_set_conv_nth list_all2_conv_all_nth resolved_for_def)
  ultimately show ?thesis using a by blast
qed

lemma gemini_payload_total:
  assumes block: "\<And>m b. m \<in> set ms \<Longrightarrow> b \<in> set (cm_content m) \<Longrightarrow>
      (\<exists>ps. gemini_text_block (index_by_hash as) b = Inr ps) \<and> (\<exists>js. native_part (index_by_hash as) b = Inr js)"
  shows "\<exists>payload. gemini_build_payload ms spec params as = Inr payload"
proof -
  let ?bh = "index_by_hash as"
  have tx: "\<exists>s. gemini_render_text ?bh m = Inr s" if "m \<in> set ms" for m
    using emap_total [of "cm_content m" "gemini_text_block ?bh"] block [OF that] by (auto simp: gemini_render_text_def)
  have nt: "\<exists>ps. native_parts ?bh m = Inr ps" if "m \<in> set ms" for m
    using emap_total [of "cm_content m" "native_part ?bh"] block [OF that] by (auto simp: native_parts_def)
  have content: "\<exists>v. gemini_content ?bh m = Inr v" if m: "m \<in> set ms" and r: "cm_role m \<noteq> System" for m
    using tx [OF m] nt [OF m] r by (cases "cm_role m") (auto simp: gemini_content_def render_parts_def)
  obtain ts where "emap (gemini_render_text ?bh) (filter (\<lambda>m. cm_role m = System) ms) = Inr ts"
    using emap_total [of "filter (\<lambda>m. cm_role m = System) ms" "gemini_render_text ?bh"] tx by auto
  moreover obtain cs where "emap (gemini_content ?bh) (filter (\<lambda>m. cm_role m \<noteq> System) ms) = Inr cs"
    using emap_total [of "filter (\<lambda>m. cm_role m \<noteq> System) ms" "gemini_content ?bh"] content by auto
  ultimately show ?thesis by (simp add: gemini_build_payload_def Let_def)
qed

definition ex_file_message :: CanonicalMessage where
  "ex_file_message = extraction_message ''i'' ''c'' ''abc'' ''a.pdf'' ''application/pdf'' 4 0"

text \<open>What the lane resolves, the Gemini adapter can send: with the attachments of the messages' own files, building the
  payload raises nothing, whether a file goes as bytes or as text.\<close>

theorem resolved_files_can_be_sent:
  assumes "memo_ok env memo" "resolve_files env (refs_of ms) spec memo s = ((Inr as, memo1), s1)"
  shows "\<exists>payload. gemini_build_payload ms spec params as = Inr payload"
proof (rule gemini_payload_total)
  fix m b
  assume m: "m \<in> set ms" and b: "b \<in> set (cm_content m)"
  have all: "list_all2 (\<lambda>ref a. resolved_for env (native_wanted ref spec) (rf_hash ref) a) (firsts [] (refs_of ms)) as"
    using resolve_from_ok [OF assms(2)[unfolded resolve_files_def] assms(1)] by (auto elim: list_all2_mono)
  have known: "\<exists>a n. index_by_hash as h = Some a \<and> resolved_for env n h a" if "b = FileRefBlock h f t n" for h f t n
  proof (rule index_by_hash_known [OF all])
    have "\<lparr>rf_hash = h, rf_filename = f, rf_mime = t, rf_bytes = n\<rparr> \<in> set (refs_of ms)"
      using m b that by (force simp: refs_of_def file_ref_of_def map_filter_def)
    then show "h \<in> rf_hash ` set (refs_of ms)" by force
  qed
  then show "(\<exists>ps. gemini_text_block (index_by_hash as) b = Inr ps) \<and> (\<exists>js. native_part (index_by_hash as) b = Inr js)"
    by (cases b) (fastforce simp: gemini_text_block_def native_part_def resolved_for_def split: option.splits)+
qed

theorem resolved_files_can_be_sent_witness:
  "case resolve_files (ex_lane (\<lambda>_. Inr ''data'')) (refs_of [ex_file_message]) ex_model Map.empty (ex_pstate Map.empty) of
     ((Inr as, memo1), s1) \<Rightarrow> map ra_mode as = [Injected] \<and> (\<exists>payload. gemini_build_payload [ex_file_message] ex_model extraction_params as = Inr payload)
   | _ \<Rightarrow> False"
proof -
  let ?r = "resolve_files (ex_lane (\<lambda>_. Inr ''data'')) (refs_of [ex_file_message]) ex_model Map.empty (ex_pstate Map.empty)"
  have "case fst (fst ?r) of Inl e \<Rightarrow> False | Inr as \<Rightarrow> map ra_mode as = [Injected]" by code_simp
  then obtain as memo1 s1 where r: "?r = ((Inr as, memo1), s1)" and m: "map ra_mode as = [Injected]" by (cases ?r) (auto split: sum.splits)
  show ?thesis unfolding r using m resolved_files_can_be_sent [OF memo_ok_empty r] by simp
qed

subsection \<open>Where the code departs from its own account\<close>

text \<open>
  A stored local reading is held back so that a model can replace it, but the second look at tier 0, under the lock, finds
  that same row: no model is called, nothing is stored, and the reading is passed on as a model's.
\<close>

lemma stored_local_reading_is_final:
  assumes "\<not> px_cache (le_penv env)" "\<not> ls_local_only (le_settings env)" "ps_db s = []"
    and "ps_rows s (rf_hash ref) = Some r" "fe_tier r = ''local''"
    and "fetch_bytes env (rf_hash ref) = Inr data" "extraction_lock (rf_hash ref) = Inr key"
    and "reg_candidates (px_registry (le_penv env)) PERCEPTION_SLOT = Inr chain"
  shows "run_chain env ref False s = (Inr (injected_attachment ref (extraction_of_row r) TierLlm), s\<lparr>ps_uuids := Suc (ps_uuids s)\<rparr>)"
  using assms
  by (simp add: run_chain_def guarded_def load_cached_def cached_in_redis_def session_def ext_get_def cache_extraction_def pbind_def preturn_def plift_def
      extraction_of_row_def native_then_lower_def lower_tiers_def bytes_for_tier_def lazy_bytes_def extract_with_llm_def new_lock_def fresh_uuid_def
      lock_acquire_def finally_release_def read_under_lock_def lock_release_def document_of_def)

text \<open>
  A local reading that the table refuses, because a model's reading is stored, still replaces the model's reading in
  Redis, which is looked at first.
\<close>

lemma refused_reading_is_cached:
  assumes "px_redis env = mem_redis" "px_cache env" "ps_world s = calm v" "ps_db s = []"
    and "ps_rows s (xt_file_hash e) = Some r" "fe_tier r = ''llm''" "extraction (xt_file_hash e) = Inr key"
  shows "ps_rows (snd (persist env e s)) = ps_rows s \<and> ks_get (wd_srv (ps_world (snd (persist env e s)))) key = Some (extraction_to_json e)"
  using assms
  by (simp add: persist_def session_def ext_upsert_def UPGRADABLE_FROM_def cache_extraction_def pbind_def plift_def pcall_def on_pworld_def preturn_def
      client_call_def calm_def mem_redis_def writing_def ks_get_def Let_def)

text \<open>A second reading by a model does not overwrite the first.\<close>

lemma second_model_reading_is_refused:
  "t (xt_file_hash e) = Some r \<Longrightarrow> fe_tier r = ''llm'' \<Longrightarrow> ext_upsert e t = (r, t)"
  by (simp add: ext_upsert_def UPGRADABLE_FROM_def)

text \<open>The local tier is not always of low confidence.\<close>

lemma text_layer_is_medium:
  "map_option (fst \<circ> snd) (projr (extract_pdf ex_pages_lib ''data'' False 0)) = Some Medium"
  by code_simp

end
