(* ===== verification/Gw_Store.thy ===== *)
theory Gw_Store
  imports Gw_Tables Gw_Canonical "HOL-Library.List_Lexorder" "HOL-Library.Char_ord"
begin

text \<open>
  Conversations, their messages and the request log (\<^verbatim>\<open>app/db/models.py\<close>, \<^verbatim>\<open>app/db/repo/conversations.py\<close>,
  \<^verbatim>\<open>app/db/repo/messages.py\<close>, the writes of \<^verbatim>\<open>app/db/repo/requests.py\<close>). A table is the list of its rows, a statement its
  effect on them; a function that raises leaves the tables its caller had, because repositories never commit. The row
  lock of an append makes its four statements one step.
\<close>

subsection \<open>Rows\<close>

record Conversation =
  cv_id :: string
  cv_user_id :: string
  cv_title :: "string option"
  cv_preferred_slot :: string
  cv_pinned_model :: "string option"
  cv_created_at :: instant
  cv_updated_at :: instant

record Message =
  mg_id :: string
  mg_conversation_id :: string
  mg_seq :: int
  mg_role :: string
  mg_content :: json
  mg_meta :: json
  mg_schema_version :: int
  mg_created_at :: instant

record Request =
  rq_id :: string
  rq_user_id :: string
  rq_api_key_id :: "string option"
  rq_conversation_id :: "string option"
  rq_requested_slot :: "string option"
  rq_served_slot :: "string option"
  rq_provider :: "string option"
  rq_model :: "string option"
  rq_substituted :: bool
  rq_attempts :: "json list"
  rq_tokens_in :: "int option"
  rq_tokens_out :: "int option"
  rq_wasted_tokens_out :: int
  rq_latency_ms :: "int option"
  rq_status :: string
  rq_error_code :: "string option"
  rq_cache_hit :: bool
  rq_ttft_ms :: "int option"
  rq_quota_scope :: string
  rq_created_at :: instant

record store =
  sto_conversations :: "Conversation list"
  sto_messages :: "Message list"
  sto_requests :: "Request list"

definition empty_store :: store where
  "empty_store = \<lparr>sto_conversations = [], sto_messages = [], sto_requests = []\<rparr>"

definition integrity_error :: failure where
  "integrity_error = OtherFailure ''IntegrityError''"

text \<open>An exception of the canonical schema reaches the catch-all handler.\<close>

definition unhandled :: "'a exn \<Rightarrow> failure + 'a" where
  "unhandled x = (case x of Inl _ \<Rightarrow> Inl (OtherFailure ''InvariantViolation'') | Inr y \<Rightarrow> Inr y)"

subsection \<open>\<^verbatim>\<open>conversations\<close>\<close>

definition CONVERSATIONS_MAX_PAGE_SIZE :: int where "CONVERSATIONS_MAX_PAGE_SIZE = 200"

definition conv_create :: "string \<Rightarrow> instant \<Rightarrow> string \<Rightarrow> string option \<Rightarrow> string \<Rightarrow> store \<Rightarrow> failure + Conversation \<times> store" where
  "conv_create new_id now user_id title preferred_slot d =
    (if list_ex (\<lambda>c. cv_id c = new_id) (sto_conversations d) then Inl integrity_error
     else let c = \<lparr>cv_id = new_id, cv_user_id = user_id, cv_title = title, cv_preferred_slot = preferred_slot, cv_pinned_model = None,
                   cv_created_at = now, cv_updated_at = now\<rparr>
          in Inr (c, d\<lparr>sto_conversations := sto_conversations d @ [c]\<rparr>))"

definition is_owned :: "string \<Rightarrow> string \<Rightarrow> Conversation \<Rightarrow> bool" where
  "is_owned cid uid c \<longleftrightarrow> cv_id c = cid \<and> cv_user_id c = uid"

definition get_owned :: "string \<Rightarrow> string \<Rightarrow> store \<Rightarrow> Conversation option" where
  "get_owned cid uid d = List.find (is_owned cid uid) (sto_conversations d)"

definition conv_list_for_user :: "string \<Rightarrow> int \<Rightarrow> int \<Rightarrow> store \<Rightarrow> Conversation list" where
  "conv_list_for_user uid limit offset d =
    take (nat (max 1 (min limit CONVERSATIONS_MAX_PAGE_SIZE))) (drop (nat (max 0 offset))
      (rev (sort_key cv_updated_at (sort_key cv_id (filter (\<lambda>c. cv_user_id c = uid) (sto_conversations d))))))"

definition conv_update :: "(Conversation \<Rightarrow> bool) \<Rightarrow> (Conversation \<Rightarrow> Conversation) \<Rightarrow> store \<Rightarrow> bool \<times> store" where
  "conv_update P f d = (let (n, rows) = update_where P f (sto_conversations d) in (n > 0, d\<lparr>sto_conversations := rows\<rparr>))"

definition touch :: "instant \<Rightarrow> string \<Rightarrow> string \<Rightarrow> string option \<Rightarrow> store \<Rightarrow> bool \<times> store" where
  "touch now cid uid preferred_slot = conv_update (is_owned cid uid)
     (\<lambda>c. c\<lparr>cv_updated_at := now, cv_preferred_slot := (case preferred_slot of Some p \<Rightarrow> p | None \<Rightarrow> cv_preferred_slot c)\<rparr>)"

definition set_pinned :: "instant \<Rightarrow> string \<Rightarrow> string \<Rightarrow> string \<Rightarrow> store \<Rightarrow> bool \<times> store" where
  "set_pinned now cid uid model = conv_update (\<lambda>c. is_owned cid uid c \<and> (cv_pinned_model c = None \<or> cv_pinned_model c = Some model))
     (\<lambda>c. c\<lparr>cv_pinned_model := Some model, cv_updated_at := now\<rparr>)"

definition conv_rename :: "instant \<Rightarrow> string \<Rightarrow> string \<Rightarrow> string option \<Rightarrow> store \<Rightarrow> bool \<times> store" where
  "conv_rename now cid uid title = conv_update (is_owned cid uid) (\<lambda>c. c\<lparr>cv_title := title, cv_updated_at := now\<rparr>)"

text \<open>The messages go with the conversation; the request log keeps its rows.\<close>

definition conv_delete :: "string \<Rightarrow> string \<Rightarrow> store \<Rightarrow> bool \<times> store" where
  "conv_delete cid uid d =
    (if \<not> list_ex (is_owned cid uid) (sto_conversations d) then (False, d)
     else (True, \<lparr>sto_conversations = filter (\<lambda>c. \<not> is_owned cid uid c) (sto_conversations d),
                  sto_messages = filter (\<lambda>m. mg_conversation_id m \<noteq> cid) (sto_messages d),
                  sto_requests = map (\<lambda>r. if rq_conversation_id r = Some cid then r\<lparr>rq_conversation_id := None\<rparr> else r) (sto_requests d)\<rparr>))"

subsection \<open>\<^verbatim>\<open>messages\<close>\<close>

definition MESSAGES_MAX_PAGE_SIZE :: int where "MESSAGES_MAX_PAGE_SIZE = 200"

definition role_of :: "Role \<Rightarrow> string" where
  "role_of r = (case r of System \<Rightarrow> ''system'' | User \<Rightarrow> ''user'' | Assistant \<Rightarrow> ''assistant'')"

definition to_canonical :: "Message \<Rightarrow> CanonicalMessage exn" where
  "to_canonical row =
    ebind (parse_role (JStr (mg_role row))) (\<lambda>role.
    ebind (parse_content (mg_content row)) (\<lambda>content.
    ebind (parse_meta (mg_meta row)) (\<lambda>meta.
      Inr \<lparr>cm_id = mg_id row, cm_conversation_id = mg_conversation_id row, cm_role = role, cm_content = content, cm_meta = meta,
           cm_created_at = mg_created_at row, cm_seq = mg_seq row, cm_schema_version = mg_schema_version row\<rparr>)))"

fun canonicals :: "Message list \<Rightarrow> CanonicalMessage list exn" where
  "canonicals [] = Inr []"
| "canonicals (r # rs) = ebind (to_canonical r) (\<lambda>m. ebind (canonicals rs) (\<lambda>ms. Inr (m # ms)))"

definition rows_of :: "string \<Rightarrow> store \<Rightarrow> Message list" where
  "rows_of cid d = sort_key mg_seq (filter (\<lambda>m. mg_conversation_id m = cid) (sto_messages d))"

definition get_last :: "string \<Rightarrow> store \<Rightarrow> CanonicalMessage option exn" where
  "get_last cid d = (case rev (rows_of cid d) of [] \<Rightarrow> Inr None | r # _ \<Rightarrow> ebind (to_canonical r) (\<lambda>m. Inr (Some m)))"

text \<open>The constraints of the table.\<close>

definition message_checks :: "Message \<Rightarrow> bool" where
  "message_checks r \<longleftrightarrow> mg_role r \<in> {''system'', ''user'', ''assistant''} \<and> 0 \<le> mg_seq r \<and>
     (case mg_content r of JArr (_ # _) \<Rightarrow> True | _ \<Rightarrow> False) \<and> (mg_role r = ''system'' \<longrightarrow> mg_seq r = 0)"

definition message_conflicts :: "Message \<Rightarrow> Message \<Rightarrow> bool" where
  "message_conflicts r r' \<longleftrightarrow> mg_id r' = mg_id r \<or> (mg_conversation_id r' = mg_conversation_id r \<and>
     (mg_seq r' = mg_seq r \<or> (mg_role r' = ''system'' \<and> mg_role r = ''system'')))"

definition insert_message :: "Message \<Rightarrow> store \<Rightarrow> failure + store" where
  "insert_message r d =
    (if \<not> message_checks r \<or> list_ex (message_conflicts r) (sto_messages d) then Inl integrity_error
     else Inr (d\<lparr>sto_messages := sto_messages d @ [r]\<rparr>))"

definition conversation_not_found :: failure where
  "conversation_not_found = AppFailure (app_error C_NotFound (Some ''That conversation does not exist.'') (Some ''conversation_not_found'') Map.empty Map.empty)"

definition message_row :: "string \<Rightarrow> instant \<Rightarrow> string \<Rightarrow> int \<Rightarrow> Role \<Rightarrow> ContentBlock list \<Rightarrow> MessageMeta \<Rightarrow> Message" where
  "message_row mid now cid seq role content meta = \<lparr>mg_id = mid, mg_conversation_id = cid, mg_seq = seq, mg_role = role_of role,
     mg_content = JArr (map (JObj \<circ> block_items) content), mg_meta = to_jsonb meta, mg_schema_version = SCHEMA_VERSION, mg_created_at = now\<rparr>"

text \<open>\<open>new_id\<close> and \<open>now\<close> are the defaults of the row.\<close>

definition msg_append :: "string \<Rightarrow> instant \<Rightarrow> string \<Rightarrow> string \<Rightarrow> Role \<Rightarrow> ContentBlock list \<Rightarrow> MessageMeta option \<Rightarrow> string option \<Rightarrow> store
    \<Rightarrow> failure + CanonicalMessage \<times> store" where
  "msg_append new_id now cid uid role content meta message_id d =
    (if get_owned cid uid d = None then Inl conversation_not_found
     else ebind (unhandled (get_last cid d)) (\<lambda>previous.
       let seq = (case previous of None \<Rightarrow> 0 | Some p \<Rightarrow> cm_seq p + 1);
           message_meta = (case meta of Some m \<Rightarrow> m | None \<Rightarrow> default_meta)
       in ebind (unhandled (validate_message role content message_meta seq)) (\<lambda>_.
          ebind (unhandled (validate_append previous role seq)) (\<lambda>_.
            let row = message_row (case message_id of Some i \<Rightarrow> i | None \<Rightarrow> new_id) now cid seq role content message_meta
            in ebind (insert_message row d) (\<lambda>d1.
               ebind (unhandled (to_canonical row)) (\<lambda>m. Inr (m, d1)))))))"

definition list_for_conversation :: "string \<Rightarrow> string \<Rightarrow> store \<Rightarrow> CanonicalMessage list exn" where
  "list_for_conversation cid uid d = (if get_owned cid uid d = None then Inr [] else canonicals (rows_of cid d))"

record MessagePage =
  mp_messages :: "CanonicalMessage list"
  mp_has_more :: bool
  mp_next_before_seq :: "int option"

definition list_page_for_conversation :: "string \<Rightarrow> string \<Rightarrow> int option \<Rightarrow> int \<Rightarrow> store \<Rightarrow> MessagePage exn" where
  "list_page_for_conversation cid uid before_seq limit d =
    (let clamped = nat (max 1 (min limit MESSAGES_MAX_PAGE_SIZE));
         matching = (if get_owned cid uid d = None then []
                     else filter (\<lambda>r. case before_seq of None \<Rightarrow> True | Some b \<Rightarrow> mg_seq r < b) (rows_of cid d));
         rows = take (Suc clamped) (rev matching);
         has_more = (length rows > clamped)
     in ebind (canonicals (rev (take clamped rows))) (\<lambda>messages.
          Inr \<lparr>mp_messages = messages, mp_has_more = has_more,
               mp_next_before_seq = (if has_more \<and> messages \<noteq> [] then Some (cm_seq (hd messages)) else None)\<rparr>))"

subsection \<open>\<^verbatim>\<open>requests\<close>\<close>

definition STATUS_OK :: string where "STATUS_OK = ''ok''"
definition STATUS_ERROR :: string where "STATUS_ERROR = ''error''"
definition STATUS_REPLAYED :: string where "STATUS_REPLAYED = ''replayed''"

text \<open>The defaults of the columns the callers leave out; the identifier and the time are the database's.\<close>

definition request_row :: "string \<Rightarrow> string \<Rightarrow> Request" where
  "request_row user_id status = \<lparr>rq_id = [], rq_user_id = user_id, rq_api_key_id = None, rq_conversation_id = None, rq_requested_slot = None,
     rq_served_slot = None, rq_provider = None, rq_model = None, rq_substituted = False, rq_attempts = [], rq_tokens_in = None,
     rq_tokens_out = None, rq_wasted_tokens_out = 0, rq_latency_ms = None, rq_status = status, rq_error_code = None, rq_cache_hit = False,
     rq_ttft_ms = None, rq_quota_scope = ''system'', rq_created_at = 0\<rparr>"

text \<open>The conversation a row names must exist (the foreign key); users and gateway keys are in other tables.\<close>

definition req_create :: "string \<Rightarrow> instant \<Rightarrow> Request \<Rightarrow> store \<Rightarrow> failure + Request \<times> store" where
  "req_create new_id now r d =
    (if list_ex (\<lambda>r'. rq_id r' = new_id) (sto_requests d) \<or>
        (case rq_conversation_id r of None \<Rightarrow> False | Some c \<Rightarrow> \<not> list_ex (\<lambda>v. cv_id v = c) (sto_conversations d))
     then Inl integrity_error
     else let row = r\<lparr>rq_id := new_id, rq_created_at := now\<rparr> in Inr (row, d\<lparr>sto_requests := sto_requests d @ [row]\<rparr>))"

definition req_list_for_user :: "string \<Rightarrow> nat \<Rightarrow> store \<Rightarrow> Request list" where
  "req_list_for_user uid limit d =
    take limit (rev (sort_key rq_created_at (sort_key rq_id (filter (\<lambda>r. rq_user_id r = uid) (sto_requests d)))))"

end
