(* ===== verification/Gw_Usage.thy ===== *)
theory Gw_Usage
  imports Gw_Store Gw_Byok
begin

text \<open>
  The usage log (\<^verbatim>\<open>app/usage/logger.py\<close>), the counters and histograms behind it (\<^verbatim>\<open>app/usage/metrics.py\<close>), the price
  table (\<^verbatim>\<open>app/usage/pricing.py\<close>) and the dashboard's aggregates (\<^verbatim>\<open>app/db/repo/requests.py\<close>). Decimals are exact
  rationals; a facade returns the metrics it counted also when the row is refused.
\<close>

subsection \<open>Counters and histograms\<close>

definition DURATION_BUCKETS_MS :: "pyfloat list" where
  "DURATION_BUCKETS_MS = [25, 50, 100, 250, 500, 1000, 2500, 5000, 10000, 30000, 60000]"

definition NO_KEY_POOL :: string where "NO_KEY_POOL = ''none''"
definition UNKNOWN_LABEL :: string where "UNKNOWN_LABEL = ''unknown''"

record Histogram =
  hi_bounds :: "pyfloat list"
  hi_counts :: "nat list"
  hi_total_ms :: pyfloat
  hi_count :: nat

definition new_histogram :: "pyfloat list \<Rightarrow> Histogram" where
  "new_histogram bounds = \<lparr>hi_bounds = bounds, hi_counts = replicate (length bounds) 0, hi_total_ms = 0, hi_count = 0\<rparr>"

text \<open>The count of the first bucket that holds the observation goes up; beyond the last bound none does.\<close>

fun bump :: "pyfloat \<Rightarrow> pyfloat list \<Rightarrow> nat list \<Rightarrow> nat list" where
  "bump x (b # bs) (n # ns) = (if x \<le> b then Suc n # ns else n # bump x bs ns)"
| "bump x _ ns = ns"

definition hist_observe :: "pyfloat \<Rightarrow> Histogram \<Rightarrow> Histogram" where
  "hist_observe ms h = (let observation = max 0 ms
     in h\<lparr>hi_count := Suc (hi_count h), hi_total_ms := hi_total_ms h + observation, hi_counts := bump observation (hi_bounds h) (hi_counts h)\<rparr>)"

text \<open>The last row, \<open>None\<close>, is the bucket \<^verbatim>\<open>+Inf\<close>.\<close>

fun running :: "nat \<Rightarrow> pyfloat list \<Rightarrow> nat list \<Rightarrow> (pyfloat option \<times> nat) list" where
  "running acc (b # bs) (n # ns) = (Some b, acc + n) # running (acc + n) bs ns"
| "running acc _ _ = []"

definition cumulative :: "Histogram \<Rightarrow> (pyfloat option \<times> nat) list" where
  "cumulative h = running 0 (hi_bounds h) (hi_counts h) @ [(None, hi_count h)]"

record MetricsRegistry =
  mr_bounds :: "pyfloat list"
  mr_requests :: "string \<times> string \<times> string \<times> string \<rightharpoonup> nat"
  mr_durations :: "string \<times> RoutingMode \<rightharpoonup> Histogram"
  mr_breaker_fail_open :: "string \<times> string \<rightharpoonup> nat"

definition new_metrics :: "pyfloat list \<Rightarrow> MetricsRegistry" where
  "new_metrics buckets = \<lparr>mr_bounds = sort buckets, mr_requests = Map.empty, mr_durations = Map.empty, mr_breaker_fail_open = Map.empty\<rparr>"

text \<open>\<^verbatim>\<open>x or default\<close> of an optional string.\<close>

definition or_label :: "string option \<Rightarrow> string \<Rightarrow> string" where
  "or_label x fallback = (case x of None \<Rightarrow> fallback | Some s \<Rightarrow> if s = [] then fallback else s)"

definition incr :: "('k \<rightharpoonup> nat) \<Rightarrow> 'k \<Rightarrow> ('k \<rightharpoonup> nat)" where
  "incr m k = m(k \<mapsto> Suc (case m k of None \<Rightarrow> 0 | Some n \<Rightarrow> n))"

definition record_request :: "string option \<Rightarrow> string option \<Rightarrow> string \<Rightarrow> string option \<Rightarrow> MetricsRegistry \<Rightarrow> MetricsRegistry" where
  "record_request provider model status key_pool mr = mr\<lparr>mr_requests :=
     incr (mr_requests mr) (or_label provider UNKNOWN_LABEL, or_label model UNKNOWN_LABEL, status, or_label key_pool NO_KEY_POOL)\<rparr>"

definition observe_duration :: "string option \<Rightarrow> RoutingMode \<Rightarrow> pyfloat \<Rightarrow> MetricsRegistry \<Rightarrow> MetricsRegistry" where
  "observe_duration provider mode ms mr =
    (let key = (or_label provider UNKNOWN_LABEL, mode);
         histogram = (case mr_durations mr key of None \<Rightarrow> new_histogram (mr_bounds mr) | Some h \<Rightarrow> h)
     in mr\<lparr>mr_durations := (mr_durations mr)(key \<mapsto> hist_observe ms histogram)\<rparr>)"

definition record_breaker_fail_open :: "string \<Rightarrow> string \<Rightarrow> MetricsRegistry \<Rightarrow> MetricsRegistry" where
  "record_breaker_fail_open provider model mr = mr\<lparr>mr_breaker_fail_open := incr (mr_breaker_fail_open mr) (provider, model)\<rparr>"

subsection \<open>The facades\<close>

fun outcome_name :: "AttemptOutcome \<Rightarrow> string" where
  "outcome_name At_ok = ''ok''"
| "outcome_name At_error = ''error''"
| "outcome_name At_skipped_breaker = ''skipped_breaker''"
| "outcome_name At_skipped_quota = ''skipped_quota''"

fun breaker_name :: "BreakerState \<Rightarrow> string" where
  "breaker_name CLOSED = ''closed''"
| "breaker_name OPEN = ''open''"
| "breaker_name HALF_OPEN = ''half_open''"

text \<open>\<^verbatim>\<open>round(x, 3)\<close>, to even on a tie.\<close>

definition round3 :: "pyfloat \<Rightarrow> pyfloat" where
  "round3 x = (let y = x * 1000; n = \<lfloor>y\<rfloor>; r = y - of_int n
     in of_int (if r < 1 / 2 \<or> (r = 1 / 2 \<and> even n) then n else n + 1) / 1000)"

definition attempt_to_json :: "AttemptRecord \<Rightarrow> json" where
  "attempt_to_json a = JObj ([(''n'', JInt (int (ar_n a))), (''slot'', JStr (ar_slot a)), (''provider'', JStr (ar_provider a)), (''model'', JStr (ar_model a)),
     (''outcome'', JStr (outcome_name (ar_outcome a))), (''error_code'', opt_json JStr (ar_error_code a)), (''latency_ms'', JInt (ar_latency_ms a)),
     (''wasted_tokens_out'', JInt (int (ar_wasted_tokens_out a))), (''breaker'', JStr (breaker_name (ar_breaker a)))] @
     (case ar_retry_after_s a of None \<Rightarrow> [] | Some s \<Rightarrow> [(''retry_after_s'', JFloat (round3 s))]) @
     (case ar_blocked_window a of None \<Rightarrow> [] | Some w \<Rightarrow> [(''blocked_window'', JStr (window_name w))]) @
     (case ar_key_pool a of None \<Rightarrow> [] | Some p \<Rightarrow> [(''key_pool'', JStr (pool_name p))]))"

definition count_outcome :: "MetricsRegistry option \<Rightarrow> string option \<Rightarrow> string option \<Rightarrow> string \<Rightarrow> string option \<Rightarrow> RoutingMode \<Rightarrow> int \<Rightarrow> MetricsRegistry option" where
  "count_outcome metrics provider model status key_pool mode latency_ms =
     map_option (observe_duration provider mode (of_int latency_ms) \<circ> record_request provider model status key_pool) metrics"

text \<open>What every row of a request carries.\<close>

definition turn_row :: "Principal \<Rightarrow> string \<Rightarrow> string \<Rightarrow> string option \<Rightarrow> int \<Rightarrow> Request" where
  "turn_row caller status requested_slot cid latency_ms = (request_row (pr_user_id caller) status)\<lparr>rq_api_key_id := pr_api_key_id caller,
     rq_conversation_id := cid, rq_requested_slot := Some requested_slot, rq_latency_ms := Some latency_ms\<rparr>"

type_synonym logged = "(failure + Request \<times> store) \<times> MetricsRegistry option"

definition record_turn_success :: "string \<Rightarrow> instant \<Rightarrow> Principal \<Rightarrow> ModelSpec \<Rightarrow> string \<Rightarrow> Usage \<Rightarrow> int \<Rightarrow> string option \<Rightarrow> bool \<Rightarrow> AttemptRecord list
    \<Rightarrow> bool \<Rightarrow> int \<Rightarrow> string \<Rightarrow> key_pool option \<Rightarrow> RoutingMode \<Rightarrow> MetricsRegistry option \<Rightarrow> store \<Rightarrow> logged" where
  "record_turn_success rid now caller spec requested_slot usage latency_ms cid cache_hit attempts swapped wasted quota_scope key_pool mode metrics d =
    (req_create rid now ((turn_row caller STATUS_OK requested_slot cid latency_ms)\<lparr>rq_served_slot := Some (ms_slot spec),
        rq_provider := Some (ms_provider spec), rq_model := Some (ms_model spec), rq_tokens_in := Some (us_tokens_in usage),
        rq_tokens_out := Some (us_tokens_out usage), rq_cache_hit := cache_hit, rq_substituted := swapped,
        rq_attempts := map attempt_to_json attempts, rq_wasted_tokens_out := wasted, rq_quota_scope := quota_scope\<rparr>) d,
     count_outcome metrics (Some (ms_provider spec)) (Some (ms_model spec)) STATUS_OK (map_option pool_name key_pool) mode latency_ms)"

definition record_failed :: "string \<Rightarrow> instant \<Rightarrow> Principal \<Rightarrow> ProviderError \<Rightarrow> string \<Rightarrow> int \<Rightarrow> ModelSpec option \<Rightarrow> string option \<Rightarrow> AttemptRecord list
    \<Rightarrow> bool \<Rightarrow> string \<Rightarrow> key_pool option \<Rightarrow> RoutingMode \<Rightarrow> MetricsRegistry option \<Rightarrow> store \<Rightarrow> logged" where
  "record_failed rid now caller err requested_slot latency_ms spec cid attempts swapped quota_scope key_pool mode metrics d =
    (req_create rid now ((turn_row caller STATUS_ERROR requested_slot cid latency_ms)\<lparr>rq_served_slot := map_option ms_slot spec,
        rq_provider := Some (pe_provider err), rq_model := Some (pe_model err), rq_error_code := Some (error_code (pe_class err)),
        rq_substituted := swapped, rq_attempts := map attempt_to_json attempts, rq_quota_scope := quota_scope\<rparr>) d,
     count_outcome metrics (Some (pe_provider err)) (Some (pe_model err)) STATUS_ERROR (map_option pool_name key_pool) mode latency_ms)"

definition record_cache_hit :: "string \<Rightarrow> instant \<Rightarrow> Principal \<Rightarrow> string \<Rightarrow> string \<Rightarrow> string \<Rightarrow> string \<Rightarrow> int \<Rightarrow> string option \<Rightarrow> bool \<Rightarrow> string
    \<Rightarrow> MetricsRegistry option \<Rightarrow> store \<Rightarrow> logged" where
  "record_cache_hit rid now caller provider model slot requested_slot latency_ms cid swapped quota_scope metrics d =
    (req_create rid now ((turn_row caller STATUS_OK requested_slot cid latency_ms)\<lparr>rq_served_slot := Some slot, rq_provider := Some provider,
        rq_model := Some model, rq_tokens_in := Some 0, rq_tokens_out := Some 0, rq_cache_hit := True, rq_substituted := swapped,
        rq_quota_scope := quota_scope\<rparr>) d,
     map_option (record_request (Some provider) (Some model) STATUS_OK None) metrics)"

definition record_replay :: "string \<Rightarrow> instant \<Rightarrow> Principal \<Rightarrow> string \<Rightarrow> int \<Rightarrow> string option \<Rightarrow> MetricsRegistry option \<Rightarrow> store \<Rightarrow> logged" where
  "record_replay rid now caller requested_slot latency_ms cid metrics d =
    (req_create rid now (turn_row caller STATUS_REPLAYED requested_slot cid latency_ms) d,
     map_option (record_request None None STATUS_REPLAYED None) metrics)"

definition record_stream_failure :: "string \<Rightarrow> instant \<Rightarrow> Principal \<Rightarrow> string \<Rightarrow> int \<Rightarrow> string option \<Rightarrow> ModelSpec option \<Rightarrow> string option \<Rightarrow> AttemptRecord list
    \<Rightarrow> bool \<Rightarrow> int \<Rightarrow> string \<Rightarrow> key_pool option \<Rightarrow> MetricsRegistry option \<Rightarrow> store \<Rightarrow> logged" where
  "record_stream_failure rid now caller requested_slot latency_ms ecode spec cid attempts swapped wasted quota_scope key_pool metrics d =
    (req_create rid now ((turn_row caller STATUS_ERROR requested_slot cid latency_ms)\<lparr>rq_served_slot := map_option ms_slot spec,
        rq_provider := map_option ms_provider spec, rq_model := map_option ms_model spec, rq_error_code := ecode,
        rq_substituted := swapped, rq_attempts := map attempt_to_json attempts, rq_wasted_tokens_out := wasted, rq_quota_scope := quota_scope\<rparr>) d,
     count_outcome metrics (map_option ms_provider spec) (map_option ms_model spec) STATUS_ERROR (map_option pool_name key_pool) STREAM latency_ms)"

subsection \<open>Prices\<close>

record PricingEntry =
  pp_input_per_mtok :: rat
  pp_output_per_mtok :: rat
  pp_currency :: string

type_synonym PricingConfig = "(string \<times> (string \<times> PricingEntry) list) list"

definition price_for_model :: "PricingConfig \<Rightarrow> string \<Rightarrow> string \<Rightarrow> PricingEntry option" where
  "price_for_model pricing provider model = Option.bind (map_of pricing provider) (\<lambda>es. map_of es model)"

definition simulated_cost :: "PricingConfig \<Rightarrow> string \<Rightarrow> string \<Rightarrow> int \<Rightarrow> int \<Rightarrow> rat option" where
  "simulated_cost pricing provider model tokens_in tokens_out = map_option (\<lambda>e.
     (of_int tokens_in * pp_input_per_mtok e + of_int tokens_out * pp_output_per_mtok e) / 1000000) (price_for_model pricing provider model)"

definition default_currency :: "PricingConfig \<Rightarrow> string option" where
  "default_currency pricing = (case concat (map snd pricing) of [] \<Rightarrow> None | (_, e) # _ \<Rightarrow> Some (pp_currency e))"

subsection \<open>The dashboard\<close>

definition NON_ERROR_STATUSES :: "string list" where "NON_ERROR_STATUSES = [STATUS_OK, STATUS_REPLAYED]"
definition SHARED_SCOPE :: string where "SHARED_SCOPE = ''system''"

datatype Window = W1h | W24h | W7d

text \<open>Width in seconds and number of buckets.\<close>

fun window_spec :: "Window \<Rightarrow> int \<times> nat" where
  "window_spec W1h = (60, 60)"
| "window_spec W24h = (3600, 24)"
| "window_spec W7d = (21600, 28)"

definition window_span :: "Window \<Rightarrow> instant \<Rightarrow> instant \<times> instant" where
  "window_span window now = (let (step, count) = window_spec window; last = py_int_of_float now div step * step
     in (of_int (last - step * int (count - 1)), of_int last))"

record VolumePoint =
  vp_bucket_start :: instant
  vp_total :: nat
  vp_errors :: nat
  vp_cache_hits :: nat

definition is_error_row :: "Request \<Rightarrow> bool" where
  "is_error_row r \<longleftrightarrow> rq_status r \<notin> set NON_ERROR_STATUSES"

definition count_where :: "('a \<Rightarrow> bool) \<Rightarrow> 'a list \<Rightarrow> nat" where
  "count_where P rows = length (filter P rows)"

text \<open>\<^verbatim>\<open>generate_series(first, last, width)\<close>, each bucket joined with the user's rows in it.\<close>

definition volume_series :: "string \<Rightarrow> Window \<Rightarrow> instant \<Rightarrow> store \<Rightarrow> VolumePoint list" where
  "volume_series uid window now d =
    (let (first, last) = window_span window now; width = of_int (fst (window_spec window));
         point = (\<lambda>start. let rows = filter (\<lambda>r. rq_user_id r = uid \<and> start \<le> rq_created_at r \<and> rq_created_at r < start + width) (sto_requests d)
                   in \<lparr>vp_bucket_start = start, vp_total = length rows, vp_errors = count_where is_error_row rows, vp_cache_hits = count_where rq_cache_hit rows\<rparr>)
     in map (\<lambda>i. point (first + of_nat i * width)) [0..<nat \<lfloor>(last - first) / width\<rfloor> + 1])"

record ProviderSlice =
  sl_provider :: string
  sl_model :: "string option"
  sl_requests :: nat
  sl_tokens_in :: int
  sl_tokens_out :: int

definition rows_since :: "string \<Rightarrow> instant \<Rightarrow> store \<Rightarrow> Request list" where
  "rows_since uid since d = filter (\<lambda>r. rq_user_id r = uid \<and> since \<le> rq_created_at r) (sto_requests d)"

text \<open>\<^verbatim>\<open>coalesce(sum(x), 0)\<close>: a missing number does not count.\<close>

definition sum_of :: "('a \<Rightarrow> int option) \<Rightarrow> 'a list \<Rightarrow> int" where
  "sum_of f rows = sum_list (map (\<lambda>r. case f r of None \<Rightarrow> 0 | Some n \<Rightarrow> n) rows)"

text \<open>\<^verbatim>\<open>GROUP BY provider, model\<close>, the largest group first, then by name; a missing model sorts last.\<close>

definition slice_key :: "ProviderSlice \<Rightarrow> int \<times> string \<times> bool \<times> string" where
  "slice_key s = (- int (sl_requests s), sl_provider s, sl_model s = None, case sl_model s of None \<Rightarrow> [] | Some m \<Rightarrow> m)"

fun key_le :: "int \<times> string \<times> bool \<times> string \<Rightarrow> int \<times> string \<times> bool \<times> string \<Rightarrow> bool" where
  "key_le (n, p, b, m) (n', p', b', m') = (n < n' \<or> n = n' \<and> (p < p' \<or> p = p' \<and> (\<not> b \<and> b' \<or> b = b' \<and> m \<le> m')))"

fun insert_slice :: "ProviderSlice \<Rightarrow> ProviderSlice list \<Rightarrow> ProviderSlice list" where
  "insert_slice s [] = [s]"
| "insert_slice s (t # ts) = (if key_le (slice_key s) (slice_key t) then s # t # ts else t # insert_slice s ts)"

definition provider_distribution :: "string \<Rightarrow> instant \<Rightarrow> store \<Rightarrow> ProviderSlice list" where
  "provider_distribution uid since d =
    (let rows = filter (\<lambda>r. rq_provider r \<noteq> None \<and> \<not> rq_cache_hit r) (rows_since uid since d);
         slice = (\<lambda>(p, m). let rs = filter (\<lambda>r. rq_provider r = Some p \<and> rq_model r = m) rows
                   in \<lparr>sl_provider = p, sl_model = m, sl_requests = length rs, sl_tokens_in = sum_of rq_tokens_in rs, sl_tokens_out = sum_of rq_tokens_out rs\<rparr>)
     in foldr insert_slice (map slice (remdups (map (\<lambda>r. (the (rq_provider r), rq_model r)) rows))) [])"

record OutcomeSummary =
  os_total :: nat
  os_ok :: nat
  os_errors :: nat
  os_cache_hits :: nat
  os_replays :: nat
  os_substituted :: nat
  os_multi_attempt :: nat
  os_tokens_in :: int
  os_tokens_out :: int
  os_wasted_tokens_out :: int

definition outcome_summary :: "string \<Rightarrow> instant \<Rightarrow> store \<Rightarrow> OutcomeSummary" where
  "outcome_summary uid since d = (let rows = rows_since uid since d in
     \<lparr>os_total = length rows, os_ok = count_where (\<lambda>r. rq_status r = STATUS_OK) rows, os_errors = count_where is_error_row rows,
      os_cache_hits = count_where rq_cache_hit rows, os_replays = count_where (\<lambda>r. rq_status r = STATUS_REPLAYED) rows,
      os_substituted = count_where rq_substituted rows, os_multi_attempt = count_where (\<lambda>r. length (rq_attempts r) > 1) rows,
      os_tokens_in = sum_of rq_tokens_in rows, os_tokens_out = sum_of rq_tokens_out rows,
      os_wasted_tokens_out = sum_of (Some \<circ> rq_wasted_tokens_out) rows\<rparr>)"

record PoolSplit =
  sp_shared_requests :: nat
  sp_shared_tokens_in :: int
  sp_shared_tokens_out :: int
  sp_private_requests :: nat
  sp_private_tokens_in :: int
  sp_private_tokens_out :: int

definition pool_split :: "string \<Rightarrow> instant \<Rightarrow> store \<Rightarrow> PoolSplit" where
  "pool_split uid since d =
    (let rows = rows_since uid since d; shared = filter (\<lambda>r. rq_quota_scope r = SHARED_SCOPE) rows; own = filter (\<lambda>r. rq_quota_scope r \<noteq> SHARED_SCOPE) rows in
     \<lparr>sp_shared_requests = length shared, sp_shared_tokens_in = sum_of rq_tokens_in shared, sp_shared_tokens_out = sum_of rq_tokens_out shared,
      sp_private_requests = length own, sp_private_tokens_in = sum_of rq_tokens_in own, sp_private_tokens_out = sum_of rq_tokens_out own\<rparr>)"

end
