(* ===== verification/Gw_Usage_Props.thy ===== *)
theory Gw_Usage_Props
  imports Gw_Usage
begin

text \<open>
  The dashboard's aggregates agree with each other, and the exported histograms count what was observed.
\<close>

subsection \<open>The aggregates of one span\<close>

lemma count_where_filter: "count_where Q (filter R rows) = length (filter (\<lambda>r. R r \<and> Q r) rows)"
  by (simp add: count_where_def conj_commute)

lemma filter_between:
  fixes f e g :: rat
  assumes "f \<le> e" "e \<le> g"
  shows "length (filter (\<lambda>r. P r \<and> f \<le> t r \<and> t r < g) rs) =
    length (filter (\<lambda>r. P r \<and> f \<le> t r \<and> t r < e) rs) + length (filter (\<lambda>r. P r \<and> e \<le> t r \<and> t r < g) rs)"
proof (induction rs)
  case (Cons a rs)
  have "e \<le> t a \<Longrightarrow> f \<le> t a" "t a < e \<Longrightarrow> t a < g" using assms by linarith+
  with Cons show ?case by auto
qed simp

lemma bucket_sum:
  fixes f w :: rat
  assumes "0 < w"
  shows "(\<Sum>i\<leftarrow>[0..<n]. length (filter (\<lambda>r. P r \<and> f + of_nat i * w \<le> t r \<and> t r < f + of_nat i * w + w) rows)) =
    length (filter (\<lambda>r. P r \<and> f \<le> t r \<and> t r < f + of_nat n * w) rows)"
proof (induction n)
  case (Suc n)
  let ?e = "f + of_nat n * w"
  have "f \<le> ?e" "?e \<le> ?e + w" using assms by simp_all
  note filter_between [OF this, of P t rows]
  moreover have "f + of_nat (Suc n) * w = ?e + w" by (simp add: algebra_simps)
  ultimately show ?case using Suc.IH by (simp only: upt_Suc_append map_append sum_list_append le0) simp
qed auto

lemma window_cover:
  assumes "window_span window now = (first, till)" "window_spec window = (step, cnt)"
  shows "first + of_nat cnt * of_int step = till + of_int step \<and> now < till + of_int step \<and> 0 < step \<and> nat \<lfloor>(till - first) / of_int step\<rfloor> + 1 = cnt"
proof -
  have sc: "0 < step" "0 < cnt" using assms(2) by (cases window; auto)+
  let ?n = "py_int_of_float now"
  have first: "first = of_int (?n div step * step - step * int (cnt - 1))" and till: "till = of_int (?n div step * step)"
    using assms by (auto simp: window_span_def Let_def)
  have "now < of_int ?n + 1" unfolding py_int_of_float_def using floor_correct [of now] ceiling_correct [of now] by (cases "0 \<le> now") (simp, simp, linarith)
  moreover have "?n + 1 \<le> ?n div step * step + step" using sc(1) div_mult_mod_eq [of ?n step] pos_mod_bound [OF sc(1), of ?n] by linarith
  then have "(of_int ?n :: rat) + 1 \<le> till + of_int step" unfolding till by (metis of_int_1 of_int_add of_int_le_iff)
  moreover have diff: "till - first = of_int step * of_nat (cnt - 1)" unfolding first till by simp
  moreover have "(till - first) / of_int step = of_nat (cnt - 1)" unfolding diff using sc by simp
  then have "nat \<lfloor>(till - first) / of_int step\<rfloor> + 1 = cnt" using sc(2) by simp
  moreover have "first + of_nat cnt * of_int step = till + of_int step" using diff sc(2) by (simp add: of_nat_diff algebra_simps)
  ultimately show ?thesis using sc(1) by auto
qed

text \<open>C33: the dashboard does not contradict itself: over one window, the bars of the volume chart add up to the summary's totals,
  errors and cache hits (if no request is stamped in the future), the outcomes divide the total, and the two pools divide
  its requests and tokens.\<close>

theorem dashboard_adds_up:
  assumes "\<forall>r\<in>set (sto_requests d). rq_created_at r \<le> now"
    and "window_span window now = (since, till)" "s = outcome_summary uid since d" "p = pool_split uid since d"
  shows "sum_list (map vp_total (volume_series uid window now d)) = os_total s \<and>
    sum_list (map vp_errors (volume_series uid window now d)) = os_errors s \<and>
    sum_list (map vp_cache_hits (volume_series uid window now d)) = os_cache_hits s \<and>
    os_total s = os_ok s + os_errors s + os_replays s \<and> os_total s = sp_shared_requests p + sp_private_requests p \<and>
    os_tokens_in s = sp_shared_tokens_in p + sp_private_tokens_in p \<and> os_tokens_out s = sp_shared_tokens_out p + sp_private_tokens_out p"
proof -
  obtain step cnt where spec: "window_spec window = (step, cnt)" by (metis prod.exhaust)
  note cover = window_cover [OF assms(2) spec]
  have "filter (\<lambda>r. Q r \<and> since \<le> rq_created_at r \<and> rq_created_at r < since + of_nat cnt * of_int step) (sto_requests d) =
      filter (\<lambda>r. Q r \<and> since \<le> rq_created_at r) (sto_requests d)" for Q
    using assms(1) cover by (intro filter_cong) auto
  then have bars: "(\<Sum>i\<leftarrow>[0..<cnt]. length (filter (\<lambda>r. Q r \<and> since + of_nat i * of_int step \<le> rq_created_at r \<and> rq_created_at r < since + of_nat i * of_int step + of_int step) (sto_requests d))) =
      length (filter (\<lambda>r. Q r \<and> since \<le> rq_created_at r) (sto_requests d))" for Q
    using bucket_sum [of "of_int step" Q since rq_created_at "sto_requests d" cnt] cover by simp
  have split: "length rs = count_where (\<lambda>r. rq_status r = STATUS_OK) rs + count_where is_error_row rs + count_where (\<lambda>r. rq_status r = STATUS_REPLAYED) rs" for rs
    by (induction rs) (auto simp: count_where_def is_error_row_def NON_ERROR_STATUSES_def STATUS_OK_def STATUS_REPLAYED_def)
  have pools: "length rs = length (filter (\<lambda>r. rq_quota_scope r = SHARED_SCOPE) rs) + length (filter (\<lambda>r. rq_quota_scope r \<noteq> SHARED_SCOPE) rs)"
    "sum_of f rs = sum_of f (filter (\<lambda>r. rq_quota_scope r = SHARED_SCOPE) rs) + sum_of f (filter (\<lambda>r. rq_quota_scope r \<noteq> SHARED_SCOPE) rs)" for rs f
    by (induction rs) (auto simp: sum_of_def)
  have series: "sum_list (map vp_total (volume_series uid window now d)) = os_total s" "sum_list (map vp_errors (volume_series uid window now d)) = os_errors s"
    "sum_list (map vp_cache_hits (volume_series uid window now d)) = os_cache_hits s"
    using bars [of "\<lambda>r. rq_user_id r = uid"] bars [of "\<lambda>r. rq_user_id r = uid \<and> is_error_row r"] bars [of "\<lambda>r. rq_user_id r = uid \<and> rq_cache_hit r"] cover
    by (simp_all add: volume_series_def assms(2,3) spec Let_def comp_def outcome_summary_def rows_since_def count_where_filter conj_ac del: upt_Suc)
  show ?thesis
    using series split [of "rows_since uid since d"] pools(1) [of "rows_since uid since d"] pools(2) [of _ "rows_since uid since d"]
    unfolding assms(3,4) outcome_summary_def pool_split_def Let_def by simp
qed

definition ex_log :: store where
  "ex_log = \<lparr>sto_conversations = [], sto_messages = [], sto_requests = [(request_row ''u'' STATUS_OK)\<lparr>rq_created_at := 30\<rparr>,
     (request_row ''u'' STATUS_REPLAYED)\<lparr>rq_created_at := 61\<rparr>]\<rparr>"

theorem dashboard_adds_up_witness:
  "sum_list (map vp_total (volume_series ''u'' W1h 100 ex_log)) = os_total (outcome_summary ''u'' (- 3480) ex_log) \<and>
   os_ok (outcome_summary ''u'' (- 3480) ex_log) = 1 \<and> os_replays (outcome_summary ''u'' (- 3480) ex_log) = 1"
proof -
  have "window_span W1h 100 = (- 3480, 60)" by code_simp
  from dashboard_adds_up [OF _ this refl refl, of ex_log "''u''"]
  have "sum_list (map vp_total (volume_series ''u'' W1h 100 ex_log)) = os_total (outcome_summary ''u'' (- 3480) ex_log)"
    by (simp add: ex_log_def request_row_def)
  moreover have "os_ok (outcome_summary ''u'' (- 3480) ex_log) = 1" "os_replays (outcome_summary ''u'' (- 3480) ex_log) = 1" by code_simp+
  ultimately show ?thesis by simp
qed

subsection \<open>The time to the first token\<close>

text \<open>No facade fills the column: a streamed turn that measured its first token stores nothing of it.\<close>

lemma ttft_is_never_stored:
  "fst (record_turn_success rid now caller spec slot usage latency cid hit attempts swapped wasted scope pool mode metrics d) = Inr (row, d') \<Longrightarrow> rq_ttft_ms row = None"
  "fst (record_stream_failure rid now caller slot latency ecode mspec cid attempts swapped wasted scope pool metrics d) = Inr (row, d') \<Longrightarrow> rq_ttft_ms row = None"
  by (auto simp: record_turn_success_def record_stream_failure_def req_create_def turn_row_def request_row_def Let_def split: if_splits)

subsection \<open>Histograms\<close>

lemma bump_length [simp]: "length (bump x bs ns) = length ns"
  by (induction x bs ns rule: bump.induct) auto

lemma running_bump:
  assumes "sorted bs" "length ns = length bs"
  shows "running acc bs (bump x bs ns) = map (\<lambda>(b, n). (b, if x \<le> the b then Suc n else n)) (running acc bs ns)"
proof -
  have later: "running (Suc acc) bs ns = map (\<lambda>(b, n). (b, Suc n)) (running acc bs ns)" for acc bs ns
    by (induction acc bs ns rule: running.induct) auto
  have above: "map (\<lambda>(b, n). (b, if x \<le> the b then Suc n else n)) (running acc bs ns) = map (\<lambda>(b, n). (b, Suc n)) (running acc bs ns)"
    if "\<forall>b\<in>set bs. x \<le> b" for x acc bs ns using that by (induction acc bs ns rule: running.induct) auto
  show ?thesis using assms
  proof (induction x bs ns arbitrary: acc rule: bump.induct)
    case (1 x b bs n ns)
    show ?case
    proof (cases "x \<le> b")
      case True
      with 1(2) have all: "\<forall>b'\<in>set bs. x \<le> b'" by auto
      show ?thesis using True later [of "acc + n" bs ns] by (simp add: above [OF all] del: map_eq_conv)
    next
      case False
      with 1 show ?thesis by simp
    qed
  qed auto
qed

text \<open>What a bucket of an exported histogram must hold.\<close>

definition at_or_below :: "pyfloat list \<Rightarrow> pyfloat option \<Rightarrow> nat" where
  "at_or_below xs b = (case b of None \<Rightarrow> length xs | Some le \<Rightarrow> count_where (\<lambda>x. max 0 x \<le> le) xs)"

definition observed :: "pyfloat list \<Rightarrow> pyfloat list \<Rightarrow> Histogram" where
  "observed bounds xs = fold hist_observe xs (new_histogram bounds)"

lemma observed_snoc: "observed bounds (xs @ [x]) = hist_observe x (observed bounds xs)"
  by (simp add: observed_def)

lemma observed_fields: "hi_bounds (observed bounds xs) = bounds" "length (hi_counts (observed bounds xs)) = length bounds" "hi_count (observed bounds xs) = length xs"
  by (induction xs rule: rev_induct) (simp_all add: observed_snoc hist_observe_def Let_def, simp_all add: observed_def new_histogram_def)

lemma running_observed:
  assumes "sorted bounds"
  shows "running 0 bounds (hi_counts (observed bounds xs)) = map (\<lambda>b. (Some b, at_or_below xs (Some b))) bounds"
proof (induction xs rule: rev_induct)
  case Nil
  have "running 0 bs (replicate (length bs) 0) = map (\<lambda>b. (Some b, 0)) bs" for bs by (induction bs) auto
  then show ?case by (simp add: observed_def new_histogram_def at_or_below_def count_where_def)
next
  case (snoc x xs)
  then show ?case
    using running_bump [OF assms observed_fields(2), of 0 "max 0 x" xs]
    by (simp add: observed_snoc hist_observe_def Let_def observed_fields at_or_below_def count_where_def)
qed

text \<open>An exported histogram counts what was observed: the bucket of each bound holds exactly the observations at or below it
  and the last bucket all of them, whatever the bounds and in whatever order the observations came.\<close>

theorem histogram_is_cumulative:
  "cumulative (observed (sort buckets) xs) = map (\<lambda>b. (b, at_or_below xs b)) (map Some (sort buckets) @ [None])"
  using running_observed [of "sort buckets" xs] by (simp add: cumulative_def observed_fields at_or_below_def)

end
