(* ===== verification/Gw_Store_Props.thy ===== *)
theory Gw_Store_Props
  imports Gw_Store
begin

text \<open>
  What the tables of conversations and messages keep: rows and canonical messages are two views of one history, every
  transaction of every user is a step, every reachable store holds valid histories only, an append is exactly the
  append of the schema, users do not see each other, a pin is never replaced, and pages cover the history.
\<close>

subsection \<open>Rows and canonical messages\<close>

lemma canonicals_iff: "canonicals rs = Inr ms \<longleftrightarrow> list_all2 (\<lambda>r m. to_canonical r = Inr m) rs ms"
proof (induction rs arbitrary: ms)
  case (Cons r rs)
  then show ?case by (cases ms) (auto simp: ebind_Inr_iff)
qed auto

lemma canonicals_append: "canonicals (rs @ rs') = ebind (canonicals rs) (\<lambda>ms. ebind (canonicals rs') (\<lambda>ms'. Inr (ms @ ms')))"
  by (induction rs) (auto simp: ebind_def split: sum.splits)

lemma sort_key_snoc: "list_all (\<lambda>y. f y \<le> f x) xs \<Longrightarrow> sort_key f (xs @ [x]) = sort_key f xs @ [x]"
proof (induction xs)
  case (Cons a xs)
  have "insort_key f a (ys @ [x]) = insort_key f a ys @ [x]" for ys using Cons.prems by (induction ys) auto
  with Cons show ?case by simp
qed simp

lemma parse_block_items: "parse_block (JObj (block_items b)) = Inr b' \<longleftrightarrow> b' = b \<and> block_ok b"
  by (cases b) (auto simp: parse_defs jget_def)

lemma parse_blocks_items: "parse_blocks (map (JObj \<circ> block_items) bs) = Inr bs' \<longleftrightarrow> bs' = bs \<and> list_all block_ok bs"
  by (induction bs arbitrary: bs') (auto simp: ebind_Inr_iff parse_block_items)

lemma parse_role_of [simp]: "parse_role (JStr (role_of r)) = Inr r"
  by (cases r) (simp_all add: parse_role_def role_of_def)

definition message_of :: "string \<Rightarrow> instant \<Rightarrow> string \<Rightarrow> int \<Rightarrow> Role \<Rightarrow> ContentBlock list \<Rightarrow> MessageMeta \<Rightarrow> CanonicalMessage" where
  "message_of mid now cid seq role content meta = \<lparr>cm_id = mid, cm_conversation_id = cid, cm_role = role, cm_content = content, cm_meta = meta,
     cm_created_at = now, cm_seq = seq, cm_schema_version = SCHEMA_VERSION\<rparr>"

lemma to_canonical_row:
  assumes "content \<noteq> []"
  shows "to_canonical (message_row mid now cid seq role content meta) = Inr m \<longleftrightarrow> m = message_of mid now cid seq role content meta \<and> list_all block_ok content"
proof -
  have "parse_content (JArr (map (JObj \<circ> block_items) content)) = Inr bs \<longleftrightarrow> bs = content \<and> list_all block_ok content" for bs
    using assms parse_blocks_items [of content bs] by (cases content) (auto simp: parse_content_def)
  then show ?thesis by (auto simp: to_canonical_def message_row_def message_of_def parse_meta_def meta_roundtrip ebind_Inr_iff)
qed

subsection \<open>The invariant\<close>

definition store_ok :: "store \<Rightarrow> bool" where
  "store_ok d \<longleftrightarrow> distinct (map cv_id (sto_conversations d)) \<and>
     mg_conversation_id ` set (sto_messages d) \<subseteq> cv_id ` set (sto_conversations d) \<and>
     (\<forall>cid. \<exists>ms. canonicals (rows_of cid d) = Inr ms \<and> validate ms = Inr ())"

lemma to_canonical_seq: "to_canonical r = Inr m \<Longrightarrow> cm_seq m = mg_seq r"
  by (auto simp: to_canonical_def ebind_Inr_iff)

lemma valid_seqs:
  assumes "canonicals rs = Inr ms" "validate ms = Inr ()"
  shows "map mg_seq rs = map int [0..<length ms] \<and> length rs = length ms"
proof -
  have l: "length rs = length ms" and r: "\<And>i. i < length rs \<Longrightarrow> to_canonical (rs ! i) = Inr (ms ! i)"
    using assms(1) by (auto simp: canonicals_iff list_all2_conv_all_nth)
  have "cm_seq (ms ! i) = int i" if "i < length ms" for i
    using assms(2) that by (simp add: validate_iff_from history_ok_iff_from [symmetric] history_ok_def message_ok_def)
  then have "mg_seq (rs ! i) = int i" if "i < length ms" for i using to_canonical_seq [OF r] that l by simp
  then show ?thesis using l by (auto intro!: nth_equalityI)
qed

lemma get_last_tail:
  assumes "canonicals (rows_of cid d) = Inr ms"
  shows "get_last cid d = Inr (tail ms)"
proof (cases "rows_of cid d" rule: rev_cases)
  case Nil
  with assms show ?thesis by (simp add: get_last_def tail_def)
next
  case (snoc rs r)
  with assms obtain ms' m where "ms = ms' @ [m]" "to_canonical r = Inr m"
    by (auto simp: canonicals_append ebind_Inr_iff)
  with snoc show ?thesis by (simp add: get_last_def tail_def)
qed

lemma next_seq:
  assumes "validate ms = Inr ()"
  shows "(case tail ms of None \<Rightarrow> 0 | Some p \<Rightarrow> cm_seq p + 1) = int (length ms)"
proof (cases ms rule: rev_cases)
  case (snoc ms' m)
  have "history_ok ms" using assms by (simp add: validate_iff_from history_ok_iff_from)
  then have "message_ok (length ms') (ms ! length ms')" unfolding history_ok_def using snoc by (metis length_append_singleton lessI)
  then show ?thesis using snoc by (simp add: tail_def message_ok_def)
qed (simp add: tail_def)

lemma rows_of_insert:
  "rows_of cid (d\<lparr>sto_messages := sto_messages d @ [r]\<rparr>) =
    (if mg_conversation_id r \<noteq> cid then rows_of cid d
     else if list_all (\<lambda>r'. mg_seq r' \<le> mg_seq r) (rows_of cid d) then rows_of cid d @ [r]
     else sort_key mg_seq (filter (\<lambda>m. mg_conversation_id m = cid) (sto_messages d) @ [r]))"
  using sort_key_snoc [of mg_seq r "filter (\<lambda>m. mg_conversation_id m = cid) (sto_messages d)"]
  by (auto simp: rows_of_def list_all_iff)

definition id_for :: "string option \<Rightarrow> string \<Rightarrow> string" where
  "id_for message_id new_id = (case message_id of Some i \<Rightarrow> i | None \<Rightarrow> new_id)"

definition meta_for :: "MessageMeta option \<Rightarrow> MessageMeta" where
  "meta_for meta = (case meta of Some m \<Rightarrow> m | None \<Rightarrow> default_meta)"

lemma unhandled_Inr [simp]: "unhandled x = Inr y \<longleftrightarrow> x = Inr y"
  by (cases x) (simp_all add: unhandled_def)

lemma no_conflict:
  assumes ms: "canonicals (rows_of cid d) = Inr ms" "validate ms = Inr ()" and v: "validate_append (tail ms) role (int (length ms)) = Inr ()"
  shows "list_ex (message_conflicts (message_row mid now cid (int (length ms)) role content meta)) (sto_messages d) \<longleftrightarrow> mid \<in> mg_id ` set (sto_messages d)"
proof -
  have seqs: "mg_seq ` set (rows_of cid d) = int ` {0..<length ms}" using valid_seqs [OF ms] by (metis list.set_map set_upt)
  have "role = System \<Longrightarrow> ms = []" using v next_seq [OF ms(2)]
    by (cases ms rule: rev_cases) (auto simp: validate_append_def tail_def violation_def split: if_splits)
  then have sys: "role = System \<Longrightarrow> rows_of cid d = []" using valid_seqs [OF ms] by simp
  have set: "set (rows_of cid d) = {m \<in> set (sto_messages d). mg_conversation_id m = cid}" by (auto simp: rows_of_def)
  have "\<not> (mg_conversation_id r = cid \<and> (mg_seq r = int (length ms) \<or> (mg_role r = ''system'' \<and> role_of role = ''system'')))" if "r \<in> set (sto_messages d)" for r
  proof
    assume a: "mg_conversation_id r = cid \<and> (mg_seq r = int (length ms) \<or> (mg_role r = ''system'' \<and> role_of role = ''system''))"
    then have r: "r \<in> set (rows_of cid d)" using set that by simp
    then have "mg_seq r \<in> int ` {0..<length ms}" unfolding seqs [symmetric] by (rule imageI)
    then have "mg_seq r \<noteq> int (length ms)" by auto
    moreover have "role_of role = ''system'' \<Longrightarrow> role = System" by (cases role) (simp_all add: role_of_def)
    ultimately show False using a r sys by auto
  qed
  then have "message_conflicts (message_row mid now cid (int (length ms)) role content meta) r \<longleftrightarrow> mg_id r = mid" if "r \<in> set (sto_messages d)" for r
    using that by (auto simp: message_conflicts_def message_row_def)
  then show ?thesis by (auto simp: list_ex_iff)
qed

lemma append_iff:
  assumes ms: "canonicals (rows_of cid d) = Inr ms" "validate ms = Inr ()"
    and m0: "m0 = message_of (id_for message_id new_id) now cid (int (length ms)) role content (meta_for meta)"
  shows "msg_append new_id now cid uid role content meta message_id d = Inr (m, d') \<longleftrightarrow>
    get_owned cid uid d \<noteq> None \<and> list_all block_ok content \<and> id_for message_id new_id \<notin> mg_id ` set (sto_messages d) \<and>
    validate (ms @ [m0]) = Inr () \<and> m = m0 \<and>
    d' = d\<lparr>sto_messages := sto_messages d @ [message_row (id_for message_id new_id) now cid (int (length ms)) role content (meta_for meta)]\<rparr>"
proof -
  let ?row = "message_row (id_for message_id new_id) now cid (int (length ms)) role content (meta_for meta)"
  have seq: "(case tail ms of None \<Rightarrow> 0 | Some p \<Rightarrow> cm_seq p + 1) = int (length ms)" by (rule next_seq [OF ms(2)])
  have valid: "validate (ms @ [m0]) = Inr () \<longleftrightarrow> validate_message role content (meta_for meta) (int (length ms)) = Inr () \<and>
      validate_append (tail ms) role (int (length ms)) = Inr ()"
    using append_check_suffices [of ms m0] ms(2) by (simp add: m0 message_of_def)
  have checks: "validate_message role content (meta_for meta) (int (length ms)) = Inr () \<Longrightarrow> content \<noteq> [] \<and> message_checks ?row"
    by (cases role; cases content) (auto simp: validate_message_def violation_def message_checks_def message_row_def role_of_def split: if_splits)
  show ?thesis
    using get_last_tail [OF ms(1)] seq checks no_conflict [OF ms, of role "id_for message_id new_id" now content "meta_for meta"]
      to_canonical_row [of content "id_for message_id new_id" now cid "int (length ms)" role "meta_for meta" m]
    unfolding valid
    by (auto simp: msg_append_def Let_def ebind_Inr_iff insert_message_def integrity_error_def id_for_def [symmetric] meta_for_def [symmetric] m0 [symmetric]
        split: if_splits)
qed

subsection \<open>Steps\<close>

text \<open>What one user's transaction may do to the tables.\<close>

inductive store_step :: "string \<Rightarrow> store \<Rightarrow> store \<Rightarrow> bool" where
  step_create: "conv_create i now u title slot d = Inr (c, d') \<Longrightarrow> store_step u d d'"
| step_append: "msg_append i now cid u role content meta mid d = Inr (m, d') \<Longrightarrow> store_step u d d'"
| step_touch: "touch now cid u slot d = (b, d') \<Longrightarrow> store_step u d d'"
| step_pin: "set_pinned now cid u model d = (b, d') \<Longrightarrow> store_step u d d'"
| step_rename: "conv_rename now cid u title d = (b, d') \<Longrightarrow> store_step u d d'"
| step_delete: "conv_delete cid u d = (b, d') \<Longrightarrow> store_step u d d'"
| step_log: "req_create i now r d = Inr (row, d') \<Longrightarrow> rq_user_id r = u \<Longrightarrow> store_step u d d'"

inductive store_reachable :: "store \<Rightarrow> bool" where
  start: "store_reachable empty_store"
| go: "store_reachable d \<Longrightarrow> store_step u d d' \<Longrightarrow> store_reachable d'"

text \<open>An update of a user's own conversations.\<close>

definition own_update :: "string \<Rightarrow> store \<Rightarrow> store \<Rightarrow> bool" where
  "own_update u d d' \<longleftrightarrow> (\<exists>P f. d' = d\<lparr>sto_conversations := map (\<lambda>c. if P c then f c else c) (sto_conversations d)\<rparr> \<and>
     (\<forall>c. P c \<longrightarrow> cv_user_id c = u) \<and> (\<forall>c. cv_id (f c) = cv_id c \<and> cv_user_id (f c) = cv_user_id c \<and>
       (P c \<and> cv_pinned_model c \<noteq> None \<longrightarrow> cv_pinned_model (f c) = cv_pinned_model c)))"

lemma own_updates:
  "touch now cid u slot d = (b, d') \<Longrightarrow> own_update u d d'"
  "set_pinned now cid u model d = (b, d') \<Longrightarrow> own_update u d d'"
  "conv_rename now cid u title d = (b, d') \<Longrightarrow> own_update u d d'"
proof -
  note defs = own_update_def conv_update_def update_where_def Let_def is_owned_def
  show "touch now cid u slot d = (b, d') \<Longrightarrow> own_update u d d'" unfolding defs touch_def
    by (rule exI [of _ "\<lambda>c. cv_id c = cid \<and> cv_user_id c = u"],
        rule exI [of _ "\<lambda>c. c\<lparr>cv_updated_at := now, cv_preferred_slot := (case slot of Some p \<Rightarrow> p | None \<Rightarrow> cv_preferred_slot c)\<rparr>"]) auto
  show "set_pinned now cid u model d = (b, d') \<Longrightarrow> own_update u d d'" unfolding defs set_pinned_def
    by (rule exI [of _ "\<lambda>c. (cv_id c = cid \<and> cv_user_id c = u) \<and> (cv_pinned_model c = None \<or> cv_pinned_model c = Some model)"],
        rule exI [of _ "\<lambda>c. c\<lparr>cv_pinned_model := Some model, cv_updated_at := now\<rparr>"]) auto
  show "conv_rename now cid u title d = (b, d') \<Longrightarrow> own_update u d d'" unfolding defs conv_rename_def
    by (rule exI [of _ "\<lambda>c. cv_id c = cid \<and> cv_user_id c = u"], rule exI [of _ "\<lambda>c. c\<lparr>cv_title := title, cv_updated_at := now\<rparr>"]) auto
qed

lemma store_step_cases [consumes 1, case_names create append own delete log]:
  assumes "store_step u d d'"
  obtains (create) c where "d' = d\<lparr>sto_conversations := sto_conversations d @ [c]\<rparr>" "cv_user_id c = u" "cv_id c \<notin> cv_id ` set (sto_conversations d)"
  | (append) i now cid role content meta mid m where "msg_append i now cid u role content meta mid d = Inr (m, d')"
  | (own) "own_update u d d'"
  | (delete) cid b where "conv_delete cid u d = (b, d')"
  | (log) rows where "d' = d\<lparr>sto_requests := rows\<rparr>"
  using assms
proof cases
  case (step_create i now title slot c)
  then show thesis using create [of c] by (force simp: conv_create_def Let_def list_ex_iff split: if_splits)
next
  case (step_log i now r row)
  then show thesis using log by (auto simp: req_create_def Let_def split: if_splits)
qed (auto dest: own_updates append own delete)

lemma own_update_same:
  assumes "own_update u d d'"
  shows "sto_messages d' = sto_messages d" "map cv_id (sto_conversations d') = map cv_id (sto_conversations d)" "rows_of cid d' = rows_of cid d"
  using assms by (auto simp: own_update_def rows_of_def comp_def if_distrib cong: if_cong)

lemma delete_rows:
  assumes "conv_delete cid u d = (b, d')"
  shows "rows_of c d' = (if c = cid \<and> b then [] else rows_of c d)"
proof -
  have only: "filter (\<lambda>m. mg_conversation_id m = c) (filter (\<lambda>m. mg_conversation_id m \<noteq> cid) xs) =
      (if c = cid then [] else filter (\<lambda>m. mg_conversation_id m = c) xs)" for xs
    by (induction xs) auto
  show ?thesis using assms by (auto simp: conv_delete_def rows_of_def only simp del: filter_filter split: if_splits)
qed

lemma append_rows:
  assumes ms: "canonicals (rows_of cid d) = Inr ms" "validate ms = Inr ()"
    and a: "msg_append i now cid u role content meta mid d = Inr (m, d')"
  shows "canonicals (rows_of cid d') = Inr (ms @ [m])" "c \<noteq> cid \<Longrightarrow> rows_of c d' = rows_of c d"
proof -
  let ?row = "message_row (id_for mid i) now cid (int (length ms)) role content (meta_for meta)"
  note new = a [unfolded append_iff [OF ms refl]]
  have "mg_seq ` set (rows_of cid d) = int ` {0..<length ms}" using valid_seqs [OF ms] by (metis list.set_map set_upt)
  then have "mg_seq r \<le> int (length ms)" if "r \<in> set (rows_of cid d)" for r using imageI [OF that, of mg_seq] by auto
  then have below: "list_all (\<lambda>r. mg_seq r \<le> int (length ms)) (rows_of cid d)" by (simp add: list_all_iff)
  have "content \<noteq> []" using new by (auto simp: validate_iff_from history_ok_from_append message_ok_def message_of_def)
  then have "to_canonical ?row = Inr m" using new by (simp add: to_canonical_row)
  then show "canonicals (rows_of cid d') = Inr (ms @ [m])"
    using new below ms(1) by (simp add: rows_of_insert message_row_def [of _ _ cid "int (length ms)"] canonicals_append)
  show "c \<noteq> cid \<Longrightarrow> rows_of c d' = rows_of c d" using new by (simp add: rows_of_insert message_row_def)
qed

lemma store_ok_step:
  assumes "store_ok d" "store_step u d d'"
  shows "store_ok d'"
  using assms(2)
proof (cases rule: store_step_cases)
  case (create c)
  then show ?thesis using assms(1) by (auto simp: store_ok_def rows_of_def)
next
  case own
  then show ?thesis using assms(1) by (simp add: store_ok_def own_update_same) (metis own_update_same(2) set_map)
next
  case (log rows)
  then show ?thesis using assms(1) by (simp add: store_ok_def rows_of_def)
next
  case (delete cid b)
  have "validate [] = Inr ()" by (simp add: validate_def)
  then have h: "\<exists>ms. canonicals (rows_of c d') = Inr ms \<and> validate ms = Inr ()" for c
    using assms(1) delete_rows [OF delete, of c] by (auto simp: store_ok_def)
  have "mg_conversation_id ` set (sto_messages d') \<subseteq> cv_id ` set (sto_conversations d')"
  proof
    fix x
    assume "x \<in> mg_conversation_id ` set (sto_messages d')"
    then have x: "x \<in> mg_conversation_id ` set (sto_messages d)" "b \<longrightarrow> x \<noteq> cid" using delete by (auto simp: conv_delete_def split: if_splits)
    then obtain c where "c \<in> set (sto_conversations d)" "cv_id c = x" using assms(1) by (auto simp: store_ok_def)
    then show "x \<in> cv_id ` set (sto_conversations d')" using delete x(2) by (auto simp: conv_delete_def is_owned_def split: if_splits)
  qed
  then show ?thesis using assms(1) delete h by (auto simp: store_ok_def conv_delete_def distinct_map_filter split: if_splits)
next
  case (append i now cid role content meta mid m)
  obtain ms where ms: "canonicals (rows_of cid d) = Inr ms" "validate ms = Inr ()" using assms(1) unfolding store_ok_def by meson
  note new = append [unfolded append_iff [OF ms refl]]
  have "\<exists>ms. canonicals (rows_of c d') = Inr ms \<and> validate ms = Inr ()" for c
    using append_rows [OF ms append] new assms(1) by (cases "c = cid") (auto simp: store_ok_def)
  moreover have "cid \<in> cv_id ` set (sto_conversations d)"
    using new by (auto simp: get_owned_def find_None_iff is_owned_def)
  ultimately show ?thesis using new assms(1) by (auto simp: store_ok_def message_row_def)
qed

lemma store_reachable_ok: "store_reachable d \<Longrightarrow> store_ok d"
proof (induction rule: store_reachable.induct)
  case start
  then show ?case by (simp add: store_ok_def empty_store_def rows_of_def validate_def)
qed (rule store_ok_step)

lemma stored_history:
  assumes "store_reachable d"
  obtains ms where "canonicals (rows_of cid d) = Inr ms" "validate ms = Inr ()"
  using store_reachable_ok [OF assms] unfolding store_ok_def by meson

lemma reachable_owned:
  assumes "store_reachable d" "get_owned cid u d \<noteq> None" "get_owned cid v d \<noteq> None"
  shows "u = v"
proof -
  obtain c1 c2 where c: "c1 \<in> set (sto_conversations d)" "c2 \<in> set (sto_conversations d)" "is_owned cid u c1" "is_owned cid v c2"
    using assms(2,3) by (auto simp: get_owned_def find_None_iff)
  have "inj_on cv_id (set (sto_conversations d))" using store_reachable_ok [OF assms(1)] by (simp add: store_ok_def distinct_map)
  with c have "c1 = c2" by (auto simp: is_owned_def dest: inj_onD)
  with c show ?thesis by (simp add: is_owned_def)
qed

lemma find_map_same:
  "(\<And>x. P (g x) = P x) \<Longrightarrow> (\<And>x. P x \<Longrightarrow> g x = x) \<Longrightarrow> List.find P (map g xs) = List.find P xs"
  by (induction xs) auto

lemma find_filter_same: "(\<And>x. P x \<Longrightarrow> Q x) \<Longrightarrow> List.find P (filter Q xs) = List.find P xs"
  by (induction xs) auto

lemma find_append_other: "\<not> P y \<Longrightarrow> List.find P (xs @ [y]) = List.find P xs"
  by (induction xs) auto

lemma step_keeps_others:
  assumes "store_step u d d'" "v \<noteq> u"
  shows "get_owned cid v d' = get_owned cid v d"
  using assms(1)
proof (cases rule: store_step_cases)
  case (create c)
  then show ?thesis using assms(2) by (simp add: get_owned_def is_owned_def find_append_other)
next
  case (append i now c role content meta mid m)
  then show ?thesis by (auto simp: msg_append_def Let_def ebind_Inr_iff insert_message_def get_owned_def split: if_splits)
next
  case own
  then obtain P f where "d' = d\<lparr>sto_conversations := map (\<lambda>c. if P c then f c else c) (sto_conversations d)\<rparr>"
    "\<forall>c. P c \<longrightarrow> cv_user_id c = u" "\<forall>c. cv_id (f c) = cv_id c \<and> cv_user_id (f c) = cv_user_id c"
    unfolding own_update_def by blast
  then show ?thesis using assms(2) by (auto simp: get_owned_def is_owned_def intro!: find_map_same)
next
  case (delete c b)
  then show ?thesis using assms(2)
    by (auto simp: conv_delete_def get_owned_def is_owned_def split: if_splits intro!: find_filter_same)
qed (simp add: get_owned_def)

text \<open>C29: every stored history is a valid conversation: whatever transactions of whatever users ran, reading a conversation
  raises nothing, and what is read has gap-free numbers, at most one system message, at its head, no two answers in a
  row, no empty message and the provenance of each.\<close>

theorem histories_stay_valid:
  assumes "store_reachable d"
  shows "\<exists>ms. list_for_conversation cid uid d = Inr ms \<and> validate ms = Inr ()"
proof -
  have "validate [] = Inr ()" by (simp add: validate_def)
  with stored_history [OF assms] show ?thesis by (metis list_for_conversation_def)
qed


lemma others_read_the_same:
  assumes "store_reachable d" "store_step u d d'" "v \<noteq> u"
  shows "get_owned cid v d' = get_owned cid v d \<and> list_for_conversation cid v d' = list_for_conversation cid v d"
proof (cases "get_owned cid v d = None")
  case True
  then show ?thesis using step_keeps_others [OF assms(2,3)] by (simp add: list_for_conversation_def)
next
  case False
  then have not_u: "get_owned cid u d = None" using reachable_owned [OF assms(1) _ False] assms(3) by blast
  have "rows_of cid d' = rows_of cid d"
    using assms(2)
  proof (cases rule: store_step_cases)
    case (append i now c role content meta mid m)
    have "c \<noteq> cid"
    proof
      assume "c = cid"
      with append not_u show False by (simp add: msg_append_def)
    qed
    obtain ms where ms: "canonicals (rows_of c d) = Inr ms" "validate ms = Inr ()" by (rule stored_history [OF assms(1)])
    show ?thesis by (rule append_rows(2) [OF ms append]) (use \<open>c \<noteq> cid\<close> in simp)
  next
    case (delete c b)
    have "\<not> list_ex (is_owned cid u) (sto_conversations d)" using not_u by (auto simp: get_owned_def find_None_iff list_ex_iff)
    then have "c = cid \<Longrightarrow> \<not> b" using delete by (auto simp: conv_delete_def)
    then show ?thesis using delete_rows [OF delete, of cid] by auto
  qed (auto simp: own_update_same rows_of_def)
  then show ?thesis using step_keeps_others [OF assms(2,3)] by (simp add: list_for_conversation_def)
qed

text \<open>C31: users are apart: a transaction of one user changes no conversation of another and nothing another user reads.\<close>

theorem users_are_apart:
  assumes "store_reachable d" "store_step u d d'" "v \<noteq> u"
  shows "get_owned cid v d' = get_owned cid v d \<and> list_for_conversation cid v d' = list_for_conversation cid v d"
  by (rule others_read_the_same [OF assms])

subsection \<open>Pages\<close>

text \<open>A client that walks from the newest page into the past.\<close>

fun walk_pages :: "nat \<Rightarrow> string \<Rightarrow> string \<Rightarrow> int option \<Rightarrow> int \<Rightarrow> store \<Rightarrow> CanonicalMessage list exn" where
  "walk_pages 0 cid uid before limit d = Inl OtherError"
| "walk_pages (Suc n) cid uid before limit d =
    ebind (list_page_for_conversation cid uid before limit d) (\<lambda>p.
      if mp_has_more p then ebind (walk_pages n cid uid (mp_next_before_seq p) limit d) (\<lambda>older. Inr (older @ mp_messages p))
      else Inr (mp_messages p))"

lemma filter_below: "map f xs = map int [0..<length xs] \<Longrightarrow> filter (\<lambda>x. f x < int k) xs = take k xs"
proof (induction xs rule: rev_induct)
  case (snoc y ys)
  then have "map f ys = map int [0..<length ys]" "f y = int (length ys)" by auto
  with snoc.IH show ?case by (cases "k \<le> length ys") (auto simp: take_Cons')
qed simp

definition page_size :: "int \<Rightarrow> nat" where
  "page_size limit = nat (max 1 (min limit MESSAGES_MAX_PAGE_SIZE))"

lemma page_size_pos: "0 < page_size limit"
  by (simp add: page_size_def)

lemma page_at:
  assumes ms: "canonicals (rows_of cid d) = Inr ms" "validate ms = Inr ()" "get_owned cid uid d \<noteq> None"
    and k: "k \<le> length ms" and before: "before = Some (int k) \<or> before = None \<and> k = length ms"
  shows "list_page_for_conversation cid uid before limit d = Inr \<lparr>mp_messages = drop (k - page_size limit) (take k ms),
    mp_has_more = (page_size limit < k), mp_next_before_seq = (if page_size limit < k then Some (int (k - page_size limit)) else None)\<rparr>"
proof -
  let ?c = "page_size limit" and ?rows = "rows_of cid d"
  have l: "length ?rows = length ms" and seqs: "map mg_seq ?rows = map int [0..<length ?rows]" using valid_seqs [OF ms(1,2)] by auto
  have matching: "filter (\<lambda>r. case before of None \<Rightarrow> True | Some b \<Rightarrow> mg_seq r < b) ?rows = take k ?rows"
    using before filter_below [OF seqs, of k] l by auto
  have page: "rev (take ?c (take (Suc ?c) (rev (take k ?rows)))) = drop (k - ?c) (take k ?rows)"
  proof -
    have "rev (take ?c (rev (take k ?rows))) = drop (length (take k ?rows) - ?c) (take k ?rows)" by (subst rev_take) simp
    then show ?thesis using k l by (simp add: min_absorb1 min_absorb2)
  qed
  have can: "canonicals (drop (k - ?c) (take k ?rows)) = Inr (drop (k - ?c) (take k ms))"
    using ms(1) by (auto simp: canonicals_iff intro: list_all2_takeI list_all2_dropI)
  have "cm_seq (hd (drop (k - ?c) (take k ms))) = int (k - ?c)" if "?c < k"
  proof -
    have "history_ok ms" using ms(2) by (simp add: validate_iff_from history_ok_iff_from)
    then have "message_ok (k - ?c) (ms ! (k - ?c))" unfolding history_ok_def using that k page_size_pos [of limit] by auto
    then show ?thesis using that k page_size_pos [of limit] by (simp add: hd_drop_conv_nth message_ok_def)
  qed
  moreover have "drop (k - ?c) (take k ms) \<noteq> []" if "?c < k" using that k page_size_pos [of limit] by simp
  moreover have "?c < length (take (Suc ?c) (rev (take k ?rows))) \<longleftrightarrow> ?c < k" using k l by auto
  ultimately show ?thesis
    unfolding list_page_for_conversation_def Let_def page_size_def [symmetric] if_not_P [OF ms(3)] matching page can by simp
qed

lemma walk_from:
  assumes ms: "canonicals (rows_of cid d) = Inr ms" "validate ms = Inr ()" "get_owned cid uid d \<noteq> None"
  shows "k < fuel \<Longrightarrow> k \<le> length ms \<Longrightarrow> before = Some (int k) \<or> before = None \<and> k = length ms \<Longrightarrow>
    walk_pages fuel cid uid before limit d = Inr (take k ms)"
proof (induction fuel arbitrary: k before)
  case (Suc n)
  note p = page_at [OF ms Suc.prems(2,3), of limit]
  show ?case
  proof (cases "page_size limit < k")
    case True
    let ?k = "k - page_size limit"
    have "walk_pages n cid uid (Some (int ?k)) limit d = Inr (take ?k ms)"
      by (rule Suc.IH) (use Suc.prems(1,2) True page_size_pos [of limit] in auto)
    moreover have "take ?k ms @ drop ?k (take k ms) = take k ms"
      by (metis append_take_drop_id diff_le_self min_absorb2 take_take min.commute)
    ultimately show ?thesis using True by (simp add: p)
  next
    case False
    then show ?thesis by (simp add: p)
  qed
qed simp


lemma pin_is_permanent:
  assumes "store_step u d d'" "get_owned cid v d = Some c" "cv_pinned_model c = Some model"
  shows "case get_owned cid v d' of None \<Rightarrow> conv_delete cid u d = (True, d') | Some c' \<Rightarrow> cv_pinned_model c' = Some model"
proof -
  have find: "List.find P (xs @ ys) = (case List.find P xs of None \<Rightarrow> List.find P ys | Some x \<Rightarrow> Some x)" for P and xs ys :: "Conversation list"
    by (induction xs) auto
  from assms(1) show ?thesis
  proof (cases rule: store_step_cases)
    case (create c0)
    then show ?thesis using assms(2,3) by (simp add: get_owned_def find)
  next
    case (append i now c0 role content meta mid m)
    then have "sto_conversations d' = sto_conversations d" by (auto simp: msg_append_def Let_def ebind_Inr_iff insert_message_def split: if_splits)
    then show ?thesis using assms(2,3) by (simp add: get_owned_def)
  next
    case own
    then obtain P f where d': "d' = d\<lparr>sto_conversations := map (\<lambda>c. if P c then f c else c) (sto_conversations d)\<rparr>"
      and f: "\<forall>c. cv_id (f c) = cv_id c \<and> cv_user_id (f c) = cv_user_id c \<and> (P c \<and> cv_pinned_model c \<noteq> None \<longrightarrow> cv_pinned_model (f c) = cv_pinned_model c)"
      unfolding own_update_def by blast
    have "List.find (is_owned cid v) (map (\<lambda>c. if P c then f c else c) xs) = map_option (\<lambda>c. if P c then f c else c) (List.find (is_owned cid v) xs)" for xs
      using f by (induction xs) (auto simp: is_owned_def)
    then show ?thesis using assms(2,3) d' f by (simp add: get_owned_def)
  next
    case (delete c0 b)
    have kept: "List.find P (filter Q xs) = List.find P xs" if "\<And>x. x \<in> set xs \<Longrightarrow> P x \<Longrightarrow> Q x" for P Q and xs :: "Conversation list"
      using that by (induction xs) auto
    show ?thesis
    proof (cases "c0 = cid \<and> u = v")
      case True
      have "list_ex (is_owned cid v) (sto_conversations d)" using assms(2) unfolding get_owned_def list_ex_iff by (metis find_None_iff option.distinct(1))
      then have "b" "get_owned cid v d' = None" using True delete by (auto simp: conv_delete_def get_owned_def find_None_iff)
      then show ?thesis using True delete by simp
    next
      case False
      then have "get_owned cid v d' = get_owned cid v d"
        using delete by (auto simp: conv_delete_def get_owned_def is_owned_def split: if_splits intro!: kept)
      then show ?thesis using assms(2,3) by simp
    qed
  next
    case (log rows)
    then show ?thesis using assms(2,3) by (simp add: get_owned_def)
  qed
qed

subsection \<open>A concrete history\<close>

definition ex_store1 :: store where
  "ex_store1 = snd (projr (conv_create ''c'' 0 ''u'' None ''auto'' empty_store))"

definition ex_store2 :: store where
  "ex_store2 = snd (projr (msg_append ''m'' 1 ''c'' ''u'' User [TextBlock ''hi''] None None ex_store1))"

definition ex_message :: CanonicalMessage where
  "ex_message = message_of ''m'' 1 ''c'' 0 User [TextBlock ''hi''] default_meta"

lemma ex_append: "msg_append ''m'' 1 ''c'' ''u'' User [TextBlock ''hi''] None None ex_store1 = Inr (ex_message, ex_store2)"
proof -
  have ok: "case msg_append ''m'' 1 ''c'' ''u'' User [TextBlock ''hi''] None None ex_store1 of Inl _ \<Rightarrow> False | Inr (m, _) \<Rightarrow> m = ex_message" by code_simp
  then show ?thesis by (auto simp: ex_store2_def split: sum.splits prod.splits)
qed

lemma ex_store1_reachable: "store_reachable ex_store1"
  by (rule store_reachable.go [OF store_reachable.start], rule store_step.step_create [of "''c''" 0 "''u''" None "''auto''"])
    (simp add: ex_store1_def conv_create_def empty_store_def Let_def)

lemma ex_store2_reachable: "store_reachable ex_store2"
  by (rule store_reachable.go [OF ex_store1_reachable], rule store_step.step_append, rule ex_append)

lemma ex_history: "list_for_conversation ''c'' ''u'' ex_store2 = Inr [ex_message]" "list_for_conversation ''c'' ''u'' ex_store1 = Inr []"
  by code_simp+

theorem histories_stay_valid_witness: "\<exists>ms. list_for_conversation ''c'' ''u'' ex_store2 = Inr ms \<and> validate ms = Inr ()"
  by (rule histories_stay_valid [OF ex_store2_reachable])


theorem users_are_apart_witness:
  "get_owned ''x'' ''v'' ex_store2 = get_owned ''x'' ''v'' ex_store1 \<and>
   list_for_conversation ''x'' ''v'' ex_store2 = list_for_conversation ''x'' ''v'' ex_store1"
  by (rule users_are_apart [OF ex_store1_reachable store_step.step_append [OF ex_append]]) simp


end
