(* ===== verification/Gw_Collector.thy ===== *)
theory Gw_Collector
  imports Gw_Usage_Props Gw_Store_Props Gw_Stream Gw_Cache
begin

text \<open>
  The response body (\<^verbatim>\<open>app/schemas/chat.py\<close>) and what happens to a finished stream (\<^verbatim>\<open>app/streaming/collector.py\<close>, and
  \<^verbatim>\<open>_persist\<close> of \<^verbatim>\<open>app/streaming/orchestrator.py\<close>). The state of a worker is the database, the metrics, and the router's
  state with the Redis connection in it. A database session is a transaction: it sees what other sessions committed
  before it, its writes go when it raises or its commit fails, and what it did to Redis and to the counters stays.
\<close>

subsection \<open>The response\<close>

record ServedBy =
  sb_slot :: string
  sb_provider :: string
  sb_model :: string

record UsageOut =
  uo_prompt_tokens :: int
  uo_completion_tokens :: int
  uo_total_tokens :: int
  uo_estimated :: bool

record Choice =
  ch_index :: int
  ch_message :: string
  ch_finish_reason :: string

record ChatCompletionResponse =
  re_id :: string
  re_created :: int
  re_model :: string
  re_choices :: "Choice list"
  re_usage :: UsageOut
  re_served_by :: ServedBy
  re_requested_slot :: string
  re_substituted :: bool
  re_attempts :: int
  re_degraded :: bool
  re_extraction_tier :: "extraction_tier option"
  re_messages_dropped :: int
  re_warning :: "string option"
  re_key_pool :: "key_pool option"
  re_conversation_id :: string
  re_message_id :: string

definition choice_dump :: "Choice \<Rightarrow> json" where
  "choice_dump c = JObj [(''index'', JInt (ch_index c)), (''message'', JObj [(''role'', JStr ''assistant''), (''content'', JStr (ch_message c))]),
     (''finish_reason'', JStr (ch_finish_reason c))]"

definition usage_dump :: "UsageOut \<Rightarrow> json" where
  "usage_dump u = JObj [(''prompt_tokens'', JInt (uo_prompt_tokens u)), (''completion_tokens'', JInt (uo_completion_tokens u)),
     (''total_tokens'', JInt (uo_total_tokens u)), (''estimated'', JBool (uo_estimated u))]"

definition served_dump :: "ServedBy \<Rightarrow> json" where
  "served_dump b = JObj [(''slot'', JStr (sb_slot b)), (''provider'', JStr (sb_provider b)), (''model'', JStr (sb_model b))]"

text \<open>\<^verbatim>\<open>model_dump(mode="json")\<close>.\<close>

definition response_dump :: "ChatCompletionResponse \<Rightarrow> (string \<times> json) list" where
  "response_dump r = [(''id'', JStr (re_id r)), (''object'', JStr ''chat.completion''), (''created'', JInt (re_created r)), (''model'', JStr (re_model r)),
     (''choices'', JArr (map choice_dump (re_choices r))), (''usage'', usage_dump (re_usage r)), (''served_by'', served_dump (re_served_by r)),
     (''requested_slot'', JStr (re_requested_slot r)), (''substituted'', JBool (re_substituted r)), (''attempts'', JInt (re_attempts r)),
     (''degraded'', JBool (re_degraded r)), (''extraction_tier'', opt_json (JStr \<circ> tier_name) (re_extraction_tier r)),
     (''messages_dropped'', JInt (re_messages_dropped r)), (''warning'', opt_json JStr (re_warning r)),
     (''key_pool'', opt_json (JStr \<circ> pool_name) (re_key_pool r)), (''conversation_id'', JStr (re_conversation_id r)), (''message_id'', JStr (re_message_id r))]"

text \<open>Pydantic's readers of the types it converts; what it takes for an integer, a boolean or a UUID beyond the written form is its own affair.\<close>

record validator =
  va_int :: "json \<Rightarrow> int option"
  va_bool :: "json \<Rightarrow> bool option"
  va_uuid :: "json \<Rightarrow> string option"

fun va_str :: "json \<Rightarrow> string option" where
  "va_str (JStr s) = Some s"
| "va_str _ = None"

definition va_literal :: "('a \<times> string) list \<Rightarrow> json \<Rightarrow> 'a option" where
  "va_literal names j = map_option fst (List.find (\<lambda>(_, n). j = JStr n) names)"

definition va_optional :: "(json \<Rightarrow> 'a option) \<Rightarrow> json \<Rightarrow> 'a option option" where
  "va_optional f j = (if j = JNull then Some None else map_option Some (f j))"

text \<open>One field, with its default if it has one.\<close>

definition va_field :: "(string \<times> json) list \<Rightarrow> string \<Rightarrow> 'a option \<Rightarrow> (json \<Rightarrow> 'a option) \<Rightarrow> 'a option" where
  "va_field kvs name fallback f = (case map_of kvs name of None \<Rightarrow> fallback | Some j \<Rightarrow> f j)"

definition va_object :: "string list \<Rightarrow> ((string \<times> json) list \<Rightarrow> 'a option) \<Rightarrow> json \<Rightarrow> 'a option" where
  "va_object names f j = (case j of JObj kvs \<Rightarrow> if list_all (\<lambda>k. k \<in> set names) (map fst kvs) then f kvs else None | _ \<Rightarrow> None)"

fun va_list :: "(json \<Rightarrow> 'a option) \<Rightarrow> json list \<Rightarrow> 'a list option" where
  "va_list f [] = Some []"
| "va_list f (j # js) = Option.bind (f j) (\<lambda>x. Option.bind (va_list f js) (\<lambda>xs. Some (x # xs)))"

definition message_validate :: "json \<Rightarrow> string option" where
  "message_validate = va_object [''role'', ''content''] (\<lambda>kvs.
     Option.bind (va_field kvs ''role'' (Some ()) (va_literal [((), ''assistant'')])) (\<lambda>_. va_field kvs ''content'' None va_str))"

definition choice_validate :: "validator \<Rightarrow> json \<Rightarrow> Choice option" where
  "choice_validate v = va_object [''index'', ''message'', ''finish_reason''] (\<lambda>kvs.
     Option.bind (va_field kvs ''index'' (Some 0) (va_int v)) (\<lambda>index.
     Option.bind (va_field kvs ''message'' None message_validate) (\<lambda>message.
     Option.bind (va_field kvs ''finish_reason'' None va_str) (\<lambda>reason.
       Some \<lparr>ch_index = index, ch_message = message, ch_finish_reason = reason\<rparr>))))"

definition usage_validate :: "validator \<Rightarrow> json \<Rightarrow> UsageOut option" where
  "usage_validate v = va_object [''prompt_tokens'', ''completion_tokens'', ''total_tokens'', ''estimated''] (\<lambda>kvs.
     Option.bind (va_field kvs ''prompt_tokens'' None (va_int v)) (\<lambda>prompt.
     Option.bind (va_field kvs ''completion_tokens'' None (va_int v)) (\<lambda>completion.
     Option.bind (va_field kvs ''total_tokens'' None (va_int v)) (\<lambda>tot.
     Option.bind (va_field kvs ''estimated'' (Some False) (va_bool v)) (\<lambda>estimated.
       Some \<lparr>uo_prompt_tokens = prompt, uo_completion_tokens = completion, uo_total_tokens = tot, uo_estimated = estimated\<rparr>)))))"

definition served_validate :: "json \<Rightarrow> ServedBy option" where
  "served_validate = va_object [''slot'', ''provider'', ''model''] (\<lambda>kvs.
     Option.bind (va_field kvs ''slot'' None va_str) (\<lambda>slot. Option.bind (va_field kvs ''provider'' None va_str) (\<lambda>provider.
     Option.bind (va_field kvs ''model'' None va_str) (\<lambda>model. Some \<lparr>sb_slot = slot, sb_provider = provider, sb_model = model\<rparr>))))"

definition RESPONSE_FIELDS :: "string list" where
  "RESPONSE_FIELDS = [''id'', ''object'', ''created'', ''model'', ''choices'', ''usage'', ''served_by'', ''requested_slot'', ''substituted'', ''attempts'',
     ''degraded'', ''extraction_tier'', ''messages_dropped'', ''warning'', ''key_pool'', ''conversation_id'', ''message_id'']"

text \<open>\<^verbatim>\<open>ChatCompletionResponse.model_validate\<close>; \<open>None\<close> is the \<^verbatim>\<open>ValidationError\<close>.\<close>

definition response_validate :: "validator \<Rightarrow> (string \<times> json) list \<Rightarrow> ChatCompletionResponse option" where
  "response_validate v body = va_object RESPONSE_FIELDS (\<lambda>kvs.
     Option.bind (va_field kvs ''id'' None va_str) (\<lambda>rid.
     Option.bind (va_field kvs ''object'' (Some ()) (va_literal [((), ''chat.completion'')])) (\<lambda>_.
     Option.bind (va_field kvs ''created'' None (va_int v)) (\<lambda>created.
     Option.bind (va_field kvs ''model'' None va_str) (\<lambda>model.
     Option.bind (va_field kvs ''choices'' None (\<lambda>j. case j of JArr js \<Rightarrow> va_list (choice_validate v) js | _ \<Rightarrow> None)) (\<lambda>choices.
     Option.bind (va_field kvs ''usage'' None (usage_validate v)) (\<lambda>usage.
     Option.bind (va_field kvs ''served_by'' None served_validate) (\<lambda>served.
     Option.bind (va_field kvs ''requested_slot'' None va_str) (\<lambda>slot.
     Option.bind (va_field kvs ''substituted'' (Some False) (va_bool v)) (\<lambda>swapped.
     Option.bind (va_field kvs ''attempts'' (Some 1) (va_int v)) (\<lambda>attempts.
     Option.bind (va_field kvs ''degraded'' (Some False) (va_bool v)) (\<lambda>degraded.
     Option.bind (va_field kvs ''extraction_tier'' (Some None)
       (va_optional (va_literal (map (\<lambda>t. (t, tier_name t)) [TierCache, TierNative, TierLlm, TierLocal])))) (\<lambda>tier.
     Option.bind (va_field kvs ''messages_dropped'' (Some 0) (va_int v)) (\<lambda>dropped.
     Option.bind (va_field kvs ''warning'' (Some None) (va_optional va_str)) (\<lambda>warning.
     Option.bind (va_field kvs ''key_pool'' (Some None) (va_optional (va_literal (map (\<lambda>p. (p, pool_name p)) [Shared, Private])))) (\<lambda>pool.
     Option.bind (va_field kvs ''conversation_id'' None (va_uuid v)) (\<lambda>cid.
     Option.bind (va_field kvs ''message_id'' None (va_uuid v)) (\<lambda>mid.
       Some \<lparr>re_id = rid, re_created = created, re_model = model, re_choices = choices, re_usage = usage, re_served_by = served,
         re_requested_slot = slot, re_substituted = swapped, re_attempts = attempts, re_degraded = degraded, re_extraction_tier = tier,
         re_messages_dropped = dropped, re_warning = warning, re_key_pool = pool, re_conversation_id = cid, re_message_id = mid\<rparr>))))))))))))))))))
     (JObj body)"

subsection \<open>A worker\<close>

text \<open>One database transaction as its session meets it: what others committed before it, the values the server draws for
  its rows, the clock, and whether its commit fails.\<close>

record txn =
  tx_others :: "store \<Rightarrow> store"
  tx_conversation_id :: string
  tx_message_id :: "nat \<Rightarrow> string"
  tx_request_id :: string
  tx_now :: instant
  tx_clock :: instant
  tx_fails :: bool

record 'r genv =
  ge_redis :: "'r redis"
  ge_txn :: "nat \<Rightarrow> txn"
  ge_wall :: "nat \<Rightarrow> instant"
  ge_iso :: "instant \<Rightarrow> string"

record 'r gstate =
  gs_store :: store
  gs_metrics :: "MetricsRegistry option"
  gs_router :: "'r rstate"
  gs_txns :: nat
  gs_reads :: nat

type_synonym ('r, 'a) gact = "'r gstate \<Rightarrow> (failure + 'a) \<times> 'r gstate"

definition gbind :: "('r, 'a) gact \<Rightarrow> ('a \<Rightarrow> ('r, 'b) gact) \<Rightarrow> ('r, 'b) gact" where
  "gbind m f g = (case m g of (Inl e, g1) \<Rightarrow> (Inl e, g1) | (Inr x, g1) \<Rightarrow> f x g1)"

definition greturn :: "'a \<Rightarrow> ('r, 'a) gact" where
  "greturn x g = (Inr x, g)"

definition graise :: "failure \<Rightarrow> ('r, 'a) gact" where
  "graise e g = (Inl e, g)"

definition commit_failed :: failure where
  "commit_failed = OtherFailure ''OperationalError''"

definition transaction :: "'r genv \<Rightarrow> (txn \<Rightarrow> ('r, 'a) gact) \<Rightarrow> ('r, 'a) gact" where
  "transaction env body g =
    (let x = ge_txn env (gs_txns g); d = tx_others x (gs_store g)
     in case body x (g\<lparr>gs_store := d, gs_txns := Suc (gs_txns g)\<rparr>) of
          (Inl e, g1) \<Rightarrow> (Inl e, g1\<lparr>gs_store := d\<rparr>)
        | (Inr y, g1) \<Rightarrow> if tx_fails x then (Inl commit_failed, g1\<lparr>gs_store := d\<rparr>) else (Inr y, g1))"

definition on_store :: "(store \<Rightarrow> failure + 'a \<times> store) \<Rightarrow> ('r, 'a) gact" where
  "on_store f g = (case f (gs_store g) of Inl e \<Rightarrow> (Inl e, g) | Inr (x, d) \<Rightarrow> (Inr x, g\<lparr>gs_store := d\<rparr>))"

definition on_log :: "(MetricsRegistry option \<Rightarrow> store \<Rightarrow> logged) \<Rightarrow> ('r, unit) gact" where
  "on_log f g = (case f (gs_metrics g) (gs_store g) of
      (Inl e, mr) \<Rightarrow> (Inl e, g\<lparr>gs_metrics := mr\<rparr>)
    | (Inr (_, d), mr) \<Rightarrow> (Inr (), g\<lparr>gs_store := d, gs_metrics := mr\<rparr>))"

definition gs_world :: "'r gstate \<Rightarrow> 'r world" where
  "gs_world g = rs_world (gs_router g)"

definition on_redis :: "('r world \<Rightarrow> 'a \<times> 'r world) \<Rightarrow> ('r, 'a) gact" where
  "on_redis f g = (let (x, w) = f (gs_world g) in (Inr x, g\<lparr>gs_router := (gs_router g)\<lparr>rs_world := w\<rparr>\<rparr>))"

definition to_redis :: "('r world \<Rightarrow> 'r world) \<Rightarrow> ('r, unit) gact" where
  "to_redis f = on_redis (\<lambda>w. ((), f w))"

definition wall_now :: "'r genv \<Rightarrow> ('r, instant) gact" where
  "wall_now env g = (Inr (ge_wall env (gs_reads g)), g\<lparr>gs_reads := Suc (gs_reads g)\<rparr>)"

definition gwhen :: "bool \<Rightarrow> ('r, unit) gact \<Rightarrow> ('r, unit) gact" where
  "gwhen b m = (if b then m else greturn ())"

subsection \<open>The collector\<close>

definition MISS :: string where "MISS = ''MISS''"
definition BYPASS :: string where "BYPASS = ''BYPASS''"
definition HIT :: string where "HIT = ''HIT''"

record Collector =
  co_principal :: Principal
  co_cache :: bool
  co_cache_key :: "string option"
  co_idempotency :: "ClaimTicket option"

definition one_choice :: "string \<Rightarrow> string \<Rightarrow> Choice list" where
  "one_choice content reason = [\<lparr>ch_index = 0, ch_message = content, ch_finish_reason = reason\<rparr>]"

definition usage_out :: "int \<Rightarrow> int \<Rightarrow> bool \<Rightarrow> UsageOut" where
  "usage_out tokens_in tokens_out estimated =
     \<lparr>uo_prompt_tokens = tokens_in, uo_completion_tokens = tokens_out, uo_total_tokens = tokens_in + tokens_out, uo_estimated = estimated\<rparr>"

definition replay_response :: "instant \<Rightarrow> string \<Rightarrow> StreamResult \<Rightarrow> ModelSpec \<Rightarrow> ChatCompletionResponse" where
  "replay_response now request_id r spec =
     \<lparr>re_id = request_id, re_created = py_int_of_float now, re_model = ms_model spec, re_choices = one_choice (sr_text r) (sr_finish_reason r),
      re_usage = usage_out (us_tokens_in (sr_usage r)) (us_tokens_out (sr_usage r)) (us_estimated (sr_usage r)),
      re_served_by = \<lparr>sb_slot = ms_slot spec, sb_provider = ms_provider spec, sb_model = ms_model spec\<rparr>,
      re_requested_slot = sr_requested_slot r, re_substituted = sr_substituted r, re_attempts = int (sr_attempts r), re_degraded = sr_degraded r,
      re_extraction_tier = sr_extraction_tier r, re_messages_dropped = int (sr_messages_dropped r), re_warning = None, re_key_pool = sr_key_pool r,
      re_conversation_id = sr_conversation_id r, re_message_id = sr_message_id r\<rparr>"

definition result_meta :: "StreamResult \<Rightarrow> ModelSpec \<Rightarrow> MessageMeta" where
  "result_meta r spec = \<lparr>mm_provider_used = Some (ms_provider spec), mm_model_used = Some (ms_model spec), mm_slot_used = Some (ms_slot spec),
     mm_requested_slot = Some (sr_requested_slot r), mm_substituted = sr_substituted r, mm_attempts = int (sr_attempts r),
     mm_tokens_in = Some (us_tokens_in (sr_usage r)), mm_tokens_out = Some (us_tokens_out (sr_usage r)),
     mm_wasted_tokens_out = int (sr_wasted_tokens_out r), mm_degraded = sr_degraded r, mm_extraction_tier = sr_extraction_tier r,
     mm_messages_dropped = int (sr_messages_dropped r), mm_key_pool = sr_key_pool r\<rparr>"

definition result_cached :: "string \<Rightarrow> StreamResult \<Rightarrow> ModelSpec \<Rightarrow> CachedResponse" where
  "result_cached now r spec = \<lparr>cr_text = sr_text r, cr_provider = ms_provider spec, cr_model = ms_model spec, cr_slot = ms_slot spec,
     cr_finish_reason = sr_finish_reason r, cr_tokens_in = us_tokens_in (sr_usage r), cr_tokens_out = us_tokens_out (sr_usage r),
     cr_usage_estimated = us_estimated (sr_usage r), cr_created_at = now\<rparr>"

definition write_cache :: "'r genv \<Rightarrow> Collector \<Rightarrow> StreamResult \<Rightarrow> ModelSpec \<Rightarrow> ('r, unit) gact" where
  "write_cache env co r spec = (case co_cache_key co of
      Some key \<Rightarrow> gwhen (co_cache co \<and> \<not> sr_degraded r \<and> sr_messages_dropped r = 0)
        (gbind (wall_now env) (\<lambda>now. to_redis (cache_put (ge_redis env) key (result_cached (ge_iso env now) r spec))))
    | None \<Rightarrow> greturn ())"

definition complete_claim :: "'r genv \<Rightarrow> Collector \<Rightarrow> StreamResult \<Rightarrow> ModelSpec \<Rightarrow> ('r, unit) gact" where
  "complete_claim env co r spec = (case co_idempotency co of
      Some ticket \<Rightarrow> gbind (wall_now env) (\<lambda>now. to_redis (ticket_complete (ge_redis env) ticket
        (response_dump (replay_response now (ct_request_id ticket) r spec)) (Some (if co_cache_key co = None then BYPASS else MISS))))
    | None \<Rightarrow> greturn ())"

definition persist_success :: "'r genv \<Rightarrow> Collector \<Rightarrow> StreamResult \<Rightarrow> txn \<Rightarrow> ('r, unit) gact" where
  "persist_success env co r x = (case sr_spec r of
      None \<Rightarrow> graise (OtherFailure ''AssertionError'')
    | Some spec \<Rightarrow>
       (let uid = pr_user_id (co_principal co) in
        gbind (on_store (msg_append (tx_message_id x 0) (tx_now x) (sr_conversation_id r) uid Assistant [TextBlock (sr_text r)]
                 (Some (result_meta r spec)) (Some (sr_message_id r)))) (\<lambda>_.
        gbind (on_log (record_turn_success (tx_request_id x) (tx_now x) (co_principal co) spec (sr_requested_slot r) (sr_usage r) (sr_latency_ms r)
                 (Some (sr_conversation_id r)) False (sr_trail r) (sr_substituted r) (int (sr_wasted_tokens_out r))
                 (quota_scope_for (sr_key_pool r) uid) (sr_key_pool r) STREAM)) (\<lambda>_.
        gbind (write_cache env co r spec) (\<lambda>_. complete_claim env co r spec)))))"

definition persist_failure :: "'r genv \<Rightarrow> Collector \<Rightarrow> StreamResult \<Rightarrow> txn \<Rightarrow> ('r, unit) gact" where
  "persist_failure env co r x = gbind
     (on_log (record_stream_failure (tx_request_id x) (tx_now x) (co_principal co) (sr_requested_slot r) (sr_latency_ms r) (sr_error_code r)
        (sr_spec r) (Some (sr_conversation_id r)) (sr_trail r) (sr_substituted r) (int (sr_wasted_tokens_out r))
        (quota_scope_for (sr_key_pool r) (pr_user_id (co_principal co))) (sr_key_pool r)))
     (\<lambda>_. case co_idempotency co of Some ticket \<Rightarrow> to_redis (ticket_release (ge_redis env) ticket) | None \<Rightarrow> greturn ())"

definition collector_persist :: "'r genv \<Rightarrow> Collector \<Rightarrow> StreamResult \<Rightarrow> ('r, unit) gact" where
  "collector_persist env co r = transaction env (if sr_status r = St_ok then persist_success env co r else persist_failure env co r)"

definition hit_meta :: "CachedResponse \<Rightarrow> string \<Rightarrow> MessageMeta" where
  "hit_meta c requested = default_meta\<lparr>mm_provider_used := Some (cr_provider c), mm_model_used := Some (cr_model c), mm_slot_used := Some (cr_slot c),
     mm_requested_slot := Some requested, mm_substituted := is_substitution requested (cr_slot c), mm_attempts := 0, mm_tokens_in := Some 0,
     mm_tokens_out := Some 0, mm_degraded := False\<rparr>"

definition hit_response :: "instant \<Rightarrow> string \<Rightarrow> CachedResponse \<Rightarrow> string \<Rightarrow> string \<Rightarrow> string option \<Rightarrow> string \<Rightarrow> string \<Rightarrow> ChatCompletionResponse" where
  "hit_response now request_id c reason requested warning cid mid =
     \<lparr>re_id = request_id, re_created = py_int_of_float now, re_model = cr_model c, re_choices = one_choice (cr_text c) reason,
      re_usage = usage_out 0 0 False, re_served_by = \<lparr>sb_slot = cr_slot c, sb_provider = cr_provider c, sb_model = cr_model c\<rparr>,
      re_requested_slot = requested, re_substituted = is_substitution requested (cr_slot c), re_attempts = 0, re_degraded = False,
      re_extraction_tier = None, re_messages_dropped = 0, re_warning = warning, re_key_pool = None, re_conversation_id = cid, re_message_id = mid\<rparr>"

text \<open>The claim is completed after the commit here.\<close>

definition persist_cache_hit :: "'r genv \<Rightarrow> Collector \<Rightarrow> CachedResponse \<Rightarrow> string \<Rightarrow> string \<Rightarrow> string \<Rightarrow> int \<Rightarrow> ('r, unit) gact" where
  "persist_cache_hit env co c requested cid mid latency_ms =
     gbind (transaction env (\<lambda>x.
       gbind (on_store (msg_append (tx_message_id x 0) (tx_now x) cid (pr_user_id (co_principal co)) Assistant [TextBlock (cr_text c)]
                (Some (hit_meta c requested)) (Some mid))) (\<lambda>_.
       on_log (record_cache_hit (tx_request_id x) (tx_now x) (co_principal co) (cr_provider c) (cr_model c) (cr_slot c) requested latency_ms (Some cid)
                (is_substitution requested (cr_slot c)) SYSTEM_SCOPE)))) (\<lambda>_.
     case co_idempotency co of
       Some ticket \<Rightarrow> gbind (wall_now env) (\<lambda>now. to_redis (ticket_complete (ge_redis env) ticket
         (response_dump (hit_response now (ct_request_id ticket) c ''stop'' requested None cid mid)) (Some HIT)))
     | None \<Rightarrow> greturn ())"

text \<open>How a run of the orchestrator ends: a finished turn goes to the collector, and whatever that raises is swallowed.\<close>

definition after_stream :: "'r genv \<Rightarrow> Collector \<Rightarrow> stream_end \<Rightarrow> 'r gstate \<Rightarrow> 'r gstate" where
  "after_stream env co e g = (case persisted e of None \<Rightarrow> g | Some r \<Rightarrow> snd (collector_persist env co r g))"

end
