(* ===== verification/Gw_Collector_Props.thy ===== *)
theory Gw_Collector_Props
  imports Gw_Collector
begin

text \<open>
  What the collector leaves behind: a stored body reads back, a finished stream is written down whole or not at all, the
  stored text is the text the client saw, the idempotency claim is settled, and the places where the claim and the tables
  part company.
\<close>

definition put_world :: "('r world \<Rightarrow> 'r world) \<Rightarrow> 'r gstate \<Rightarrow> 'r gstate" where
  "put_world f g = g\<lparr>gs_router := (gs_router g)\<lparr>rs_world := f (gs_world g)\<rparr>\<rparr>"

lemma put_world_fields [simp]: "gs_store (put_world f g) = gs_store g" "gs_metrics (put_world f g) = gs_metrics g" "gs_txns (put_world f g) = gs_txns g"
    "gs_reads (put_world f g) = gs_reads g" "gs_world (put_world f g) = f (gs_world g)"
  by (simp_all add: put_world_def gs_world_def)

lemma gs_world_upd [simp]: "gs_world (g\<lparr>gs_store := d\<rparr>) = gs_world g" "gs_world (g\<lparr>gs_metrics := mr\<rparr>) = gs_world g"
    "gs_world (g\<lparr>gs_txns := n\<rparr>) = gs_world g" "gs_world (g\<lparr>gs_reads := n\<rparr>) = gs_world g"
  by (simp_all add: gs_world_def)

lemma to_redis_run [simp]: "to_redis f g = (Inr (), put_world f g)"
  by (simp add: to_redis_def on_redis_def put_world_def)

lemma gbind_simps [simp]: "gbind (greturn y) f = f y" "gbind (graise e) f = graise e"
    "gbind (wall_now env) h g = h (ge_wall env (gs_reads g)) (g\<lparr>gs_reads := Suc (gs_reads g)\<rparr>)"
  by (auto simp: gbind_def greturn_def graise_def wall_now_def)

lemma gwhen_simps [simp]: "gwhen True m = m" "gwhen False m = greturn ()"
  by (simp_all add: gwhen_def)

subsection \<open>The stored body\<close>

text \<open>What Pydantic documents of its readers: a value of the declared type is accepted as it is.\<close>

definition validator_ok :: "validator \<Rightarrow> (string \<Rightarrow> bool) \<Rightarrow> bool" where
  "validator_ok v is_uuid \<longleftrightarrow> (\<forall>n. va_int v (JInt n) = Some n) \<and> (\<forall>b. va_bool v (JBool b) = Some b) \<and> (\<forall>u. is_uuid u \<longrightarrow> va_uuid v (JStr u) = Some u)"

lemma choice_validate_dump: "validator_ok v is_uuid \<Longrightarrow> choice_validate v (choice_dump c) = Some c"
  by (simp add: choice_validate_def choice_dump_def va_object_def va_field_def message_validate_def va_literal_def validator_ok_def)

lemma choices_validate_dump: "validator_ok v is_uuid \<Longrightarrow> va_list (choice_validate v) (map choice_dump cs) = Some cs"
  by (induction cs) (simp_all add: choice_validate_dump)

lemma usage_validate_dump: "validator_ok v is_uuid \<Longrightarrow> usage_validate v (usage_dump u) = Some u"
  by (simp add: usage_validate_def usage_dump_def va_object_def va_field_def validator_ok_def)

lemma served_validate_dump: "served_validate (served_dump b) = Some b"
  by (simp add: served_validate_def served_dump_def va_object_def va_field_def)

lemma va_optional_tier: "va_optional (va_literal [(TierCache, ''cache''), (TierNative, ''native''), (TierLlm, ''llm''), (TierLocal, ''local'')])
    (opt_json (JStr \<circ> tier_name) t) = Some t"
proof (cases t)
  case (Some a)
  then show ?thesis by (cases a) (simp_all add: va_optional_def va_literal_def opt_json_def)
qed (simp add: va_optional_def opt_json_def)

lemma va_optional_pool: "va_optional (va_literal [(Shared, ''shared''), (Private, ''private'')]) (opt_json (JStr \<circ> pool_name) p) = Some p"
proof (cases p)
  case (Some a)
  then show ?thesis by (cases a) (simp_all add: va_optional_def va_literal_def opt_json_def)
qed (simp add: va_optional_def opt_json_def)

lemma va_optional_str: "va_optional va_str (opt_json JStr s) = Some s"
  by (cases s) (simp_all add: va_optional_def opt_json_def)

lemma response_roundtrip:
  assumes "validator_ok v is_uuid" "is_uuid (re_conversation_id r)" "is_uuid (re_message_id r)"
  shows "response_validate v (response_dump r) = Some r"
  using assms
  by (simp add: response_validate_def response_dump_def va_object_def RESPONSE_FIELDS_def va_field_def choices_validate_dump usage_validate_dump
      served_validate_dump va_optional_tier va_optional_pool va_optional_str, simp add: validator_ok_def va_literal_def)

subsection \<open>One transaction\<close>

lemma transaction_store:
  "transaction env body g = (Inl e, g') \<Longrightarrow> gs_store g' = tx_others (ge_txn env (gs_txns g)) (gs_store g)"
  by (auto simp: transaction_def Let_def split: prod.splits sum.splits if_splits)

lemma transaction_commits:
  assumes "transaction env body g = (Inr y, g')"
  shows "body (ge_txn env (gs_txns g)) (g\<lparr>gs_store := tx_others (ge_txn env (gs_txns g)) (gs_store g), gs_txns := Suc (gs_txns g)\<rparr>) = (Inr y, g')"
    "\<not> tx_fails (ge_txn env (gs_txns g))"
  using assms by (auto simp: transaction_def Let_def split: prod.splits sum.splits if_splits)

lemma append_adds_row:
  "msg_append i now cid uid role content meta mid d = Inr (m, d') \<Longrightarrow>
    \<exists>row. d' = d\<lparr>sto_messages := sto_messages d @ [row]\<rparr> \<and> mg_id row = id_for mid i \<and> mg_conversation_id row = cid \<and> mg_role row = role_of role \<and>
      mg_content row = JArr (map (JObj \<circ> block_items) content) \<and> mg_meta row = to_jsonb (meta_for meta)"
  by (auto simp: msg_append_def ebind_Inr_iff insert_message_def message_row_def id_for_def meta_for_def Let_def split: if_splits)

lemma on_log_store:
  "on_log f g = (Inr (), g') \<Longrightarrow> \<exists>row. fst (f (gs_metrics g) (gs_store g)) = Inr (row, gs_store g')"
  by (auto simp: on_log_def split: prod.splits sum.splits)

lemma gbind_Inr: "gbind m f g = (Inr y, g') \<longleftrightarrow> (\<exists>x g1. m g = (Inr x, g1) \<and> f x g1 = (Inr y, g'))"
  by (auto simp: gbind_def split: prod.splits sum.splits)

lemma write_cache_run:
  obtains g' where "write_cache env co r spec g = (Inr (), g')" "gs_store g' = gs_store g" "gs_world g' = gs_world g \<or>
    (\<exists>key v. gs_world g' = cache_put (ge_redis env) key v (gs_world g))"
  by (cases "co_cache_key co"; cases "co_cache co \<and> \<not> sr_degraded r \<and> sr_messages_dropped r = 0") (auto simp: write_cache_def greturn_def)

lemma complete_claim_run:
  obtains g' where "complete_claim env co r spec g = (Inr (), g')" "gs_store g' = gs_store g"
    "gs_world g' = (case co_idempotency co of None \<Rightarrow> gs_world g | Some ticket \<Rightarrow> ticket_complete (ge_redis env) ticket
       (response_dump (replay_response (ge_wall env (gs_reads g)) (ct_request_id ticket) r spec)) (Some (if co_cache_key co = None then BYPASS else MISS)) (gs_world g))"
  by (cases "co_idempotency co") (auto simp: complete_claim_def greturn_def)

definition success_row :: "Collector \<Rightarrow> StreamResult \<Rightarrow> ModelSpec \<Rightarrow> Request" where
  "success_row co r spec = (turn_row (co_principal co) STATUS_OK (sr_requested_slot r) (Some (sr_conversation_id r)) (sr_latency_ms r))\<lparr>
     rq_served_slot := Some (ms_slot spec), rq_provider := Some (ms_provider spec), rq_model := Some (ms_model spec),
     rq_tokens_in := Some (us_tokens_in (sr_usage r)), rq_tokens_out := Some (us_tokens_out (sr_usage r)), rq_cache_hit := False,
     rq_substituted := sr_substituted r, rq_attempts := map attempt_to_json (sr_trail r), rq_wasted_tokens_out := int (sr_wasted_tokens_out r),
     rq_quota_scope := quota_scope_for (sr_key_pool r) (pr_user_id (co_principal co))\<rparr>"

definition answer_append :: "Collector \<Rightarrow> StreamResult \<Rightarrow> ModelSpec \<Rightarrow> txn \<Rightarrow> store \<Rightarrow> failure + CanonicalMessage \<times> store" where
  "answer_append co r spec x = msg_append (tx_message_id x 0) (tx_now x) (sr_conversation_id r) (pr_user_id (co_principal co)) Assistant [TextBlock (sr_text r)]
     (Some (result_meta r spec)) (Some (sr_message_id r))"

text \<open>The rows, then Redis: the last command completes the claim.\<close>

lemma persist_success_run:
  assumes "sr_spec r = Some spec"
  shows "case answer_append co r spec x (gs_store g) of
      Inl e \<Rightarrow> persist_success env co r x g = (Inl e, g)
    | Inr (m, d1) \<Rightarrow> (case req_create (tx_request_id x) (tx_now x) (success_row co r spec) d1 of
        Inl e \<Rightarrow> \<exists>g'. persist_success env co r x g = (Inl e, g') \<and> gs_world g' = gs_world g
      | Inr (row, d2) \<Rightarrow> \<exists>g' w now. persist_success env co r x g = (Inr (), g') \<and> gs_store g' = d2 \<and>
          (w = gs_world g \<or> (\<exists>key v. w = cache_put (ge_redis env) key v (gs_world g))) \<and>
          gs_world g' = (case co_idempotency co of None \<Rightarrow> w | Some ticket \<Rightarrow> ticket_complete (ge_redis env) ticket
            (response_dump (replay_response now (ct_request_id ticket) r spec)) (Some (if co_cache_key co = None then BYPASS else MISS)) w))"
proof (cases "answer_append co r spec x (gs_store g)")
  case (Inl e)
  then show ?thesis by (simp add: persist_success_def assms Let_def gbind_def on_store_def answer_append_def [symmetric])
next
  case (Inr p)
  then obtain m d1 where a: "answer_append co r spec x (gs_store g) = Inr (m, d1)" by (cases p) auto
  let ?log = "\<lambda>y mr. g\<lparr>gs_store := y, gs_metrics := mr\<rparr>"
  let ?mr = "count_outcome (gs_metrics g) (Some (ms_provider spec)) (Some (ms_model spec)) STATUS_OK (map_option pool_name (sr_key_pool r)) STREAM (sr_latency_ms r)"
  show ?thesis
  proof (cases "req_create (tx_request_id x) (tx_now x) (success_row co r spec) d1")
    case (Inl e)
    then have "persist_success env co r x g = (Inl e, ?log d1 ?mr)"
      using a by (simp add: persist_success_def assms Let_def gbind_def on_store_def on_log_def record_turn_success_def answer_append_def [symmetric] success_row_def [symmetric])
    then show ?thesis using a Inl by simp
  next
    case (Inr q)
    then obtain row d2 where q: "req_create (tx_request_id x) (tx_now x) (success_row co r spec) d1 = Inr (row, d2)" by (cases q) auto
    obtain g1 where g1: "write_cache env co r spec (?log d2 ?mr) = (Inr (), g1)" "gs_store g1 = d2"
      "gs_world g1 = gs_world g \<or> (\<exists>key v. gs_world g1 = cache_put (ge_redis env) key v (gs_world g))"
      by (rule write_cache_run [of env co r spec "?log d2 ?mr"]) simp
    obtain g2 where g2: "complete_claim env co r spec g1 = (Inr (), g2)" "gs_store g2 = gs_store g1"
      "gs_world g2 = (case co_idempotency co of None \<Rightarrow> gs_world g1 | Some ticket \<Rightarrow> ticket_complete (ge_redis env) ticket
         (response_dump (replay_response (ge_wall env (gs_reads g1)) (ct_request_id ticket) r spec)) (Some (if co_cache_key co = None then BYPASS else MISS)) (gs_world g1))"
      by (rule complete_claim_run)
    have "persist_success env co r x g = (Inr (), g2)"
      using a q g1(1) g2(1)
      by (simp add: persist_success_def assms Let_def gbind_def on_store_def on_log_def record_turn_success_def answer_append_def [symmetric] success_row_def [symmetric])
    then show ?thesis using a q g1 g2 by auto
  qed
qed

lemma persist_success_spec: "persist_success env co r x g = (Inr u, g') \<Longrightarrow> \<exists>spec. sr_spec r = Some spec"
  by (cases "sr_spec r") (auto simp: persist_success_def graise_def)

lemma persist_success_Inr:
  assumes spec: "sr_spec r = Some spec" and run: "persist_success env co r x g = (Inr (), g')"
  obtains m d1 row w now where "answer_append co r spec x (gs_store g) = Inr (m, d1)"
    "req_create (tx_request_id x) (tx_now x) (success_row co r spec) d1 = Inr (row, gs_store g')"
    "w = gs_world g \<or> (\<exists>key v. w = cache_put (ge_redis env) key v (gs_world g))"
    "gs_world g' = (case co_idempotency co of None \<Rightarrow> w | Some ticket \<Rightarrow> ticket_complete (ge_redis env) ticket
       (response_dump (replay_response now (ct_request_id ticket) r spec)) (Some (if co_cache_key co = None then BYPASS else MISS)) w)"
proof (cases "answer_append co r spec x (gs_store g)")
  case (Inl e)
  then show ?thesis using persist_success_run [OF spec, where co = co and x = x and g = g and env = env] run by simp
next
  case (Inr p)
  then obtain m d1 where a: "answer_append co r spec x (gs_store g) = Inr (m, d1)" by (cases p) auto
  note step = persist_success_run [OF spec, where co = co and x = x and g = g and env = env, unfolded a sum.case prod.case]
  show ?thesis
  proof (cases "req_create (tx_request_id x) (tx_now x) (success_row co r spec) d1")
    case (Inl e)
    then show ?thesis using step run by simp
  next
    case (Inr q)
    then obtain row d2 where q: "req_create (tx_request_id x) (tx_now x) (success_row co r spec) d1 = Inr (row, d2)" by (cases q) auto
    show ?thesis using step [unfolded q sum.case prod.case run] by (elim exE conjE) (rule that [OF a], use q in simp_all)
  qed
qed

lemma req_create_Inr:
  "req_create i now r d = Inr (row, d') \<longleftrightarrow> i \<notin> rq_id ` set (sto_requests d) \<and>
     (case rq_conversation_id r of None \<Rightarrow> True | Some c \<Rightarrow> c \<in> cv_id ` set (sto_conversations d)) \<and>
     row = r\<lparr>rq_id := i, rq_created_at := now\<rparr> \<and> d' = d\<lparr>sto_requests := sto_requests d @ [row]\<rparr>"
  by (auto simp: req_create_def Let_def list_ex_iff split: option.splits)

definition failure_row :: "Collector \<Rightarrow> StreamResult \<Rightarrow> Request" where
  "failure_row co r = (turn_row (co_principal co) STATUS_ERROR (sr_requested_slot r) (Some (sr_conversation_id r)) (sr_latency_ms r))\<lparr>
     rq_served_slot := map_option ms_slot (sr_spec r), rq_provider := map_option ms_provider (sr_spec r), rq_model := map_option ms_model (sr_spec r),
     rq_error_code := sr_error_code r, rq_substituted := sr_substituted r, rq_attempts := map attempt_to_json (sr_trail r),
     rq_wasted_tokens_out := int (sr_wasted_tokens_out r), rq_quota_scope := quota_scope_for (sr_key_pool r) (pr_user_id (co_principal co))\<rparr>"

lemma persist_failure_store:
  assumes "persist_failure env co r x g = (Inr (), g')"
  obtains row where "req_create (tx_request_id x) (tx_now x) (failure_row co r) (gs_store g) = Inr (row, gs_store g')"
  using assms by (auto simp: persist_failure_def gbind_Inr on_log_def greturn_def record_stream_failure_def failure_row_def [symmetric] split: sum.splits prod.splits option.splits)

text \<open>C35: a finished stream is written down whole or not at all: when the collector returns, exactly one row of the request log
  with the trail was added, and for an answer exactly one message with the promised identifier and the assembled text; a
  failed stream leaves no message; and when the collector raises, the tables are as the transaction found them.\<close>

theorem persist_is_atomic:
  "case collector_persist env co r g of
     (Inl e, g') \<Rightarrow> gs_store g' = tx_others (ge_txn env (gs_txns g)) (gs_store g)
   | (Inr _, g') \<Rightarrow> \<exists>row. let d = tx_others (ge_txn env (gs_txns g)) (gs_store g) in
       sto_requests (gs_store g') = sto_requests d @ [row] \<and> rq_conversation_id row = Some (sr_conversation_id r) \<and>
       rq_user_id row = pr_user_id (co_principal co) \<and> rq_attempts row = map attempt_to_json (sr_trail r) \<and> sto_conversations (gs_store g') = sto_conversations d \<and>
       (if sr_status r = St_ok
        then rq_status row = STATUS_OK \<and> (\<exists>m. sto_messages (gs_store g') = sto_messages d @ [m] \<and> mg_id m = sr_message_id r \<and>
          mg_conversation_id m = sr_conversation_id r \<and> mg_role m = ''assistant'' \<and> mg_content m = JArr [JObj (block_items (TextBlock (sr_text r)))])
        else rq_status row = STATUS_ERROR \<and> sto_messages (gs_store g') = sto_messages d)"
proof (cases "collector_persist env co r g")
  case (Pair res g')
  let ?x = "ge_txn env (gs_txns g)" let ?d = "tx_others ?x (gs_store g)" let ?g = "g\<lparr>gs_store := ?d, gs_txns := Suc (gs_txns g)\<rparr>"
  show ?thesis
  proof (cases res)
    case (Inl e)
    then show ?thesis using Pair by (auto simp: collector_persist_def dest: transaction_store)
  next
    case (Inr u)
    then have run: "(if sr_status r = St_ok then persist_success env co r else persist_failure env co r) ?x ?g = (Inr (), g')"
      using transaction_commits(1) [of env _ g u g'] Pair by (simp add: collector_persist_def)
    show ?thesis
    proof (cases "sr_status r = St_ok")
      case True
      with run have ps: "persist_success env co r ?x ?g = (Inr (), g')" by simp
      then obtain spec where spec: "sr_spec r = Some spec" using persist_success_spec by blast
      obtain m d1 row where p: "answer_append co r spec ?x ?d = Inr (m, d1)"
        "req_create (tx_request_id ?x) (tx_now ?x) (success_row co r spec) d1 = Inr (row, gs_store g')"
        by (rule persist_success_Inr [OF spec ps]) simp
      from append_adds_row [OF p(1) [unfolded answer_append_def]] p(2) show ?thesis using True Inr Pair
        by (auto simp: req_create_Inr success_row_def turn_row_def request_row_def role_of_def id_for_def)
    next
      case False
      with run have "persist_failure env co r ?x ?g = (Inr (), g')" by simp
      then obtain row where "req_create (tx_request_id ?x) (tx_now ?x) (failure_row co r) ?d = Inr (row, gs_store g')" by (rule persist_failure_store) simp
      then show ?thesis using False Inr Pair by (auto simp: req_create_Inr failure_row_def turn_row_def request_row_def)
    qed
  qed
qed

subsection \<open>From the stream to the row\<close>

lemma apply_event_ids:
  "apply_event ev t = Inr (t1, ps) \<Longrightarrow> tu_conversation_id t1 = tu_conversation_id t \<and> tu_message_id t1 = tu_message_id t \<and>
    tu_requested t1 = tu_requested t \<and> (tu_done t1 \<longrightarrow> tu_done t \<or> tu_spec t1 \<noteq> None)"
  by (cases ev) (auto simp: ebind_Inr_iff turn_begin_def turn_abort_def longer_of_def turn_complete_def Let_def split: if_splits)

lemma drive_ids:
  "drive redis us events failure t w = (fs, Over t', w') \<Longrightarrow> \<not> tu_done t \<Longrightarrow>
    tu_conversation_id t' = tu_conversation_id t \<and> tu_message_id t' = tu_message_id t \<and> tu_requested t' = tu_requested t \<and>
    (tu_done t' \<and> tu_status t' = St_ok \<longrightarrow> tu_spec t' \<noteq> None)"
proof (induction redis us events failure t w arbitrary: fs w' rule: drive.induct)
  case (2 redis u us events failure t w)
  show ?case
  proof (cases "wu_gone u \<or> \<not> wu_ready u")
    case True
    with 2 show ?thesis by (auto split: prod.splits if_splits)
  next
    case False
    show ?thesis
    proof (cases events)
      case Nil
      with 2(3,4) False show ?thesis
        by (auto simp: turn_record_failure_def longer_of_def Let_def split: option.splits if_splits sum.splits)
    next
      case (Cons ev evs)
      obtain t1 ps where a: "apply_event ev t = Inr (t1, ps)" using 2(3) False Cons by (cases "apply_event ev t") auto
      obtain o1 w1 where rec: "(if is_started ev then record_attempt redis (tu_message_id t) w else (Inr (), w)) = (o1, w1)" by (metis prod.exhaust)
      have ok: "\<exists>y. o1 = Inr y" using 2(3) False Cons a rec by (cases o1) auto
      show ?thesis
      proof (cases "tu_done t1")
        case True
        then have "t' = t1" using 2(3) False Cons a rec ok by auto
        then show ?thesis using apply_event_ids [OF a] True 2(4) by auto
      next
        case live: False
        then obtain fs2 where "drive redis us evs failure t1 w1 = (fs2, Over t', w')" using 2(3) False Cons a rec ok by (auto split: prod.splits)
        from "2.IH"(2) [OF _ _ Cons a refl rec [symmetric] _ live this] have ids: "tu_conversation_id t' = tu_conversation_id t1 \<and>
            tu_message_id t' = tu_message_id t1 \<and> tu_requested t' = tu_requested t1 \<and> (tu_done t' \<and> tu_status t' = St_ok \<longrightarrow> tu_spec t' \<noteq> None)"
          using False live ok by auto
        then show ?thesis using apply_event_ids [OF a] by simp
      qed
    qed
  qed
qed simp

text \<open>A conversation that waits for an answer.\<close>

definition awaits_answer :: "CanonicalMessage list \<Rightarrow> bool" where
  "awaits_answer ms \<longleftrightarrow> (case rev ms of [] \<Rightarrow> True | m # _ \<Rightarrow> cm_role m \<noteq> Assistant)"

lemma awaits_answer_iff: "awaits_answer ms \<longleftrightarrow> ms = [] \<or> cm_role (last ms) \<noteq> Assistant"
  by (cases ms rule: rev_cases) (simp_all add: awaits_answer_def)

lemma answer_fits:
  assumes "validate ms = Inr ()" "awaits_answer ms" "mm_provider_used meta \<noteq> None" "content \<noteq> []"
  shows "validate (ms @ [message_of mid now cid (int (length ms)) Assistant content meta]) = Inr ()"
  using assms by (auto simp: validate_iff_from history_ok_from_append message_ok_def message_of_def awaits_answer_iff)

lemma owned_conversation: "get_owned cid uid d \<noteq> None \<Longrightarrow> cid \<in> cv_id ` set (sto_conversations d)"
  by (auto simp: get_owned_def find_None_iff is_owned_def)

text \<open>Writing an answer down: the rows, and what reaches Redis.\<close>

lemma answer_is_written:
  assumes d: "store_reachable d" "get_owned (sr_conversation_id r) uid d \<noteq> None" "list_for_conversation (sr_conversation_id r) uid d = Inr ms" "awaits_answer ms"
    and new: "sr_message_id r \<notin> mg_id ` set (sto_messages d)" "tx_request_id x \<notin> rq_id ` set (sto_requests d)"
    and r: "sr_spec r = Some spec" and uid: "uid = pr_user_id (co_principal co)" and g: "gs_store g = d"
  obtains g' w now where "persist_success env co r x g = (Inr (), g')"
    "list_for_conversation (sr_conversation_id r) uid (gs_store g') =
       Inr (ms @ [message_of (sr_message_id r) (tx_now x) (sr_conversation_id r) (int (length ms)) Assistant [TextBlock (sr_text r)] (result_meta r spec)])"
    "sto_requests (gs_store g') = sto_requests d @ [(success_row co r spec)\<lparr>rq_id := tx_request_id x, rq_created_at := tx_now x\<rparr>]"
    "w = gs_world g \<or> (\<exists>key v. w = cache_put (ge_redis env) key v (gs_world g))"
    "gs_world g' = (case co_idempotency co of None \<Rightarrow> w | Some ticket \<Rightarrow> ticket_complete (ge_redis env) ticket
       (response_dump (replay_response now (ct_request_id ticket) r spec)) (Some (if co_cache_key co = None then BYPASS else MISS)) w)"
proof -
  let ?cid = "sr_conversation_id r"
  let ?m = "message_of (sr_message_id r) (tx_now x) ?cid (int (length ms)) Assistant [TextBlock (sr_text r)] (result_meta r spec)"
  have rows: "canonicals (rows_of ?cid d) = Inr ms" using d(2,3) by (metis list_for_conversation_def)
  then have v: "validate ms = Inr ()" using stored_history [OF d(1), of ?cid] by auto
  let ?d1 = "d\<lparr>sto_messages := sto_messages d @ [message_row (sr_message_id r) (tx_now x) ?cid (int (length ms)) Assistant [TextBlock (sr_text r)] (result_meta r spec)]\<rparr>"
  have fits: "validate (ms @ [?m]) = Inr ()" by (rule answer_fits [OF v d(4)]) (simp_all add: result_meta_def)
  have a: "answer_append co r spec x d = Inr (?m, ?d1)"
    using append_iff [OF rows v refl, where message_id = "Some (sr_message_id r)" and new_id = "tx_message_id x 0" and now = "tx_now x" and role = Assistant
        and content = "[TextBlock (sr_text r)]" and meta = "Some (result_meta r spec)" and uid = uid and m = ?m and d' = ?d1] d(2) new(1) fits
    by (simp add: answer_append_def uid id_for_def meta_for_def)
  let ?row = "(success_row co r spec)\<lparr>rq_id := tx_request_id x, rq_created_at := tx_now x\<rparr>"
  let ?d2 = "?d1\<lparr>sto_requests := sto_requests d @ [?row]\<rparr>"
  have q: "req_create (tx_request_id x) (tx_now x) (success_row co r spec) ?d1 = Inr (?row, ?d2)"
    using new(2) owned_conversation [OF d(2)] by (simp add: req_create_Inr success_row_def turn_row_def)
  have "canonicals (rows_of ?cid ?d1) = Inr (ms @ [?m])" using append_rows(1) [OF rows v a [unfolded answer_append_def]] .
  then have l: "list_for_conversation ?cid uid ?d2 = Inr (ms @ [?m])" using d(2) by (simp add: list_for_conversation_def rows_of_def get_owned_def)
  show ?thesis
    using persist_success_run [OF r, where co = co and x = x and g = g and env = env, unfolded g a q sum.case prod.case]
    by (elim exE conjE) (rule that, use l in simp_all)
qed

text \<open>C34: what the client saw is what the conversation keeps: a stream that ends well leaves, at the end of its conversation,
  one assistant message with the announced identifier whose text is exactly what the client's screen shows, and one row
  of the log that agrees with it on the model, the tokens and the trail, provided the conversation still waits for an
  answer, the identifiers are new and the commit succeeds.\<close>

theorem stream_is_stored_as_shown:
  assumes run: "stream_completion renv redis wakes requested cid mid pinned w s = Inr (fs, Over t)" "tu_status t = St_ok" "key_ok redis mid"
    and d: "store_reachable d" "get_owned cid uid d \<noteq> None" "list_for_conversation cid uid d = Inr ms" "awaits_answer ms"
    and new: "mid \<notin> mg_id ` set (sto_messages d)" "tx_request_id x \<notin> rq_id ` set (sto_requests d)"
    and x: "x = ge_txn env (gs_txns g)" "d = tx_others x (gs_store g)" "\<not> tx_fails x" and uid: "uid = pr_user_id (co_principal co)"
  shows "\<exists>m row. list_for_conversation cid uid (gs_store (after_stream env co (Over t) g)) = Inr (ms @ [m]) \<and>
    sto_requests (gs_store (after_stream env co (Over t) g)) = sto_requests d @ [row] \<and>
    cm_id m = mid \<and> cm_role m = Assistant \<and> cm_content m = [TextBlock (screen [] fs)] \<and> screen [] fs \<noteq> [] \<and>
    rq_status row = STATUS_OK \<and> rq_conversation_id row = Some cid \<and> rq_attempts row = map attempt_to_json (tu_trail t) \<and>
    rq_model row = mm_model_used (cm_meta m) \<and> rq_tokens_out row = mm_tokens_out (cm_meta m)"
proof -
  obtain events failure s' w' where dr: "drive redis wakes events failure (new_turn cid mid requested pinned) w = (fs, Over t, w')"
    and post: "drive_post events failure [] (new_turn cid mid requested pinned) fs (Over t)" by (rule stream_completion_drive [OF run(1,3)])
  have ids: "tu_conversation_id t = cid" "tu_message_id t = mid" "tu_done t" "tu_spec t \<noteq> None"
    using drive_ids [OF dr] post run(2) by (auto simp: new_turn_def drive_post_def)
  have shown: "screen [] fs = concat (tu_buffer t)" "concat (tu_buffer t) \<noteq> []" using post run(2) by (auto simp: drive_post_def split: option.splits)
  let ?r = "turn_result t"
  obtain spec where spec: "tu_spec t = Some spec" using ids(4) by blast
  have r: "sr_status ?r = St_ok" "sr_spec ?r = Some spec" "sr_conversation_id ?r = cid" "sr_message_id ?r = mid" "sr_text ?r = screen [] fs" "sr_trail ?r = tu_trail t"
    using run(2) ids spec shown by (simp_all add: turn_result_def)
  let ?g = "g\<lparr>gs_store := d, gs_txns := Suc (gs_txns g)\<rparr>"
  obtain g' where g': "persist_success env co ?r x ?g = (Inr (), g')"
    "list_for_conversation cid uid (gs_store g') = Inr (ms @ [message_of mid (tx_now x) cid (int (length ms)) Assistant [TextBlock (screen [] fs)] (result_meta ?r spec)])"
    "sto_requests (gs_store g') = sto_requests d @ [(success_row co ?r spec)\<lparr>rq_id := tx_request_id x, rq_created_at := tx_now x\<rparr>]"
    by (rule answer_is_written [where r = ?r and g = ?g and env = env, OF d(1) _ _ d(4) _ new(2) r(2) uid]) (use d(2,3) new(1) r in auto)
  then have "collector_persist env co ?r g = (Inr (), g')" using r(1) x by (simp add: collector_persist_def transaction_def Let_def)
  then have "after_stream env co (Over t) g = g'" using ids(3) by (simp add: after_stream_def persisted_def)
  then show ?thesis using g'(2,3) shown r by (auto simp: message_of_def success_row_def turn_row_def request_row_def result_meta_def)
qed

subsection \<open>The far end of the claim\<close>

lemma cache_put_quiet: "quiet w \<Longrightarrow> quiet (cache_put R key v w)"
  by (cases "exact_cache key") (simp_all add: cache_put_def client_call_quiet writing_def)

definition claim_again :: "'r redis \<Rightarrow> ClaimTicket \<Rightarrow> string \<Rightarrow> 'r world \<Rightarrow> ClaimResult exn" where
  "claim_again R t rid w = fst (claim R (ct_key t) (ct_user_id t) (ct_fingerprint t) rid (ct_stream t) w)"

lemma completed_claim_replays:
  assumes "redis_server R view" "quiet w" "idempotency (ct_user_id t) (ct_key t) = Inr k"
  shows "claim_again R t rid (ticket_complete R t body cs w) =
    Inr (Replay (finished (ct_fingerprint t) (ct_request_id t) (ct_stream t) body cs))"
proof -
  note stored = redis_server.complete_view [OF assms, where fp = "ct_fingerprint t" and rid = "ct_request_id t" and st = "ct_stream t" and response = body and cs = cs]
  show ?thesis unfolding claim_again_def ticket_complete_def
    by (rule redis_server.claim_held [OF assms(1) stored(1) assms(3) stored(2), where fp = "ct_fingerprint t" and rid = rid and st = "ct_stream t"])
      (simp add: answer_of_def finished_def)
qed

lemma released_claim_is_free:
  assumes "redis_server R view" "quiet w" "idempotency (ct_user_id t) (ct_key t) = Inr k"
  shows "claim_again R t rid (ticket_release R t w) = Inr Claimed"
proof -
  note free = redis_server.release_view [OF assms]
  show ?thesis unfolding claim_again_def ticket_release_def
    by (rule redis_server.claim_absent [OF assms(1) free(1) assms(3) free(2), where fp = "ct_fingerprint t" and rid = rid and st = "ct_stream t"]) simp
qed

lemma persist_failure_world:
  "persist_failure env co r x g = (Inr (), g') \<Longrightarrow>
    gs_world g' = (case co_idempotency co of None \<Rightarrow> gs_world g | Some ticket \<Rightarrow> ticket_release (ge_redis env) ticket (gs_world g))"
  by (cases "co_idempotency co") (auto simp: persist_failure_def gbind_Inr on_log_def greturn_def split: sum.splits prod.splits)

text \<open>C36: a finished stream settles its idempotency claim: after an answer was written down, a retry of the request is answered
  with a body that validates and names the stored message, its text and the reason it ended; after a failure was
  written down, a retry may claim the key again.\<close>

theorem collected_claim_is_settled:
  assumes redis: "redis_server R view" "ge_redis env = R" "quiet (gs_world g)" and key: "idempotency (ct_user_id t) (ct_key t) = Inr k"
    and co: "co_idempotency co = Some t" and run: "collector_persist env co r g = (Inr (), g')"
    and ids: "validator_ok v is_uuid" "is_uuid (sr_conversation_id r)" "is_uuid (sr_message_id r)"
  shows "if sr_status r = St_ok
    then \<exists>e body resp. claim_again R t rid (gs_world g') = Inr (Replay e) \<and> ie_response e = Some body \<and> response_validate v body = Some resp \<and>
      re_message_id resp = sr_message_id r \<and> re_conversation_id resp = sr_conversation_id r \<and> re_choices resp = one_choice (sr_text r) (sr_finish_reason r)
    else claim_again R t rid (gs_world g') = Inr Claimed"
proof -
  let ?x = "ge_txn env (gs_txns g)" let ?g = "g\<lparr>gs_store := tx_others ?x (gs_store g), gs_txns := Suc (gs_txns g)\<rparr>"
  note body = transaction_commits(1) [OF run [unfolded collector_persist_def]]
  show ?thesis
  proof (cases "sr_status r = St_ok")
    case True
    then have ps: "persist_success env co r ?x ?g = (Inr (), g')" using body by simp
    then obtain spec where spec: "sr_spec r = Some spec" using persist_success_spec by blast
    obtain w now where w: "w = gs_world g \<or> (\<exists>key v. w = cache_put (ge_redis env) key v (gs_world g))"
      "gs_world g' = ticket_complete R t (response_dump (replay_response now (ct_request_id t) r spec)) (Some (if co_cache_key co = None then BYPASS else MISS)) w"
      by (rule persist_success_Inr [OF spec ps]) (simp add: co redis(2))
    let ?resp = "replay_response now (ct_request_id t) r spec"
    have "quiet w" using w(1) redis(3) cache_put_quiet by blast
    from completed_claim_replays [OF redis(1) this key] have "claim_again R t rid (gs_world g') = Inr (Replay (finished (ct_fingerprint t) (ct_request_id t) (ct_stream t)
        (response_dump ?resp) (Some (if co_cache_key co = None then BYPASS else MISS))))" unfolding w(2) .
    moreover have "response_validate v (response_dump ?resp) = Some ?resp" by (rule response_roundtrip [OF ids(1)]) (use ids in \<open>simp_all add: replay_response_def\<close>)
    ultimately show ?thesis using True by (auto simp: finished_def replay_response_def)
  next
    case False
    then have "persist_failure env co r ?x ?g = (Inr (), g')" using body by simp
    from persist_failure_world [OF this] have "gs_world g' = ticket_release R t (gs_world g)" by (simp add: co redis(2))
    then show ?thesis using False released_claim_is_free [OF redis(1,3) key] by simp
  qed
qed

subsection \<open>Where the claim and the tables part\<close>

text \<open>The claim is completed inside the transaction: a commit that fails takes the rows back, and every retry is answered
  with a message that was never stored.\<close>

lemma replay_of_a_lost_answer:
  assumes d: "store_reachable d" "get_owned (sr_conversation_id r) uid d \<noteq> None" "list_for_conversation (sr_conversation_id r) uid d = Inr ms" "awaits_answer ms"
    and new: "sr_message_id r \<notin> mg_id ` set (sto_messages d)" "tx_request_id x \<notin> rq_id ` set (sto_requests d)"
    and r: "sr_status r = St_ok" "sr_spec r = Some spec" and uid: "uid = pr_user_id (co_principal co)"
    and x: "x = ge_txn env (gs_txns g)" "d = tx_others x (gs_store g)" "tx_fails x"
    and redis: "redis_server R view" "ge_redis env = R" "quiet (gs_world g)" and key: "idempotency (ct_user_id t) (ct_key t) = Inr k" and co: "co_idempotency co = Some t"
  shows "\<exists>g' e. collector_persist env co r g = (Inl commit_failed, g') \<and> gs_store g' = d \<and> claim_again R t rid (gs_world g') = Inr (Replay e)"
proof -
  let ?g = "g\<lparr>gs_store := d, gs_txns := Suc (gs_txns g)\<rparr>"
  obtain g1 w now where g1: "persist_success env co r x ?g = (Inr (), g1)" "w = gs_world g \<or> (\<exists>key v. w = cache_put R key v (gs_world g))"
    "gs_world g1 = ticket_complete R t (response_dump (replay_response now (ct_request_id t) r spec)) (Some (if co_cache_key co = None then BYPASS else MISS)) w"
    by (rule answer_is_written [where g = ?g and env = env, OF d new r(2) uid]) (auto simp: co redis(2))
  have "quiet w" using g1(2) redis(3) cache_put_quiet by blast
  from completed_claim_replays [OF redis(1) this key] show ?thesis
    using g1(1,3) r(1) x by (auto simp: collector_persist_def transaction_def Let_def)
qed

text \<open>An answer the tables refuse, because the conversation was deleted meanwhile or another answer came first, is lost, and
  the claim stays in flight: nothing was sent to Redis.\<close>

lemma refused_answer_keeps_claim:
  assumes d: "store_reachable d" "d = tx_others (ge_txn env (gs_txns g)) (gs_store g)" and r: "sr_status r = St_ok" and uid: "uid = pr_user_id (co_principal co)"
    and refused: "get_owned (sr_conversation_id r) uid d = None \<or> (list_for_conversation (sr_conversation_id r) uid d = Inr ms \<and> \<not> awaits_answer ms)"
  shows "gs_store (snd (collector_persist env co r g)) = d \<and> gs_world (snd (collector_persist env co r g)) = gs_world g"
proof (cases "sr_spec r")
  case None
  then show ?thesis using r d(2) by (simp add: collector_persist_def transaction_def Let_def persist_success_def graise_def)
next
  case (Some spec)
  let ?x = "ge_txn env (gs_txns g)" let ?g = "g\<lparr>gs_store := d, gs_txns := Suc (gs_txns g)\<rparr>"
  obtain ms' where ms': "canonicals (rows_of (sr_conversation_id r) d) = Inr ms'" "validate ms' = Inr ()" by (rule stored_history [OF d(1)])
  have "answer_append co r spec ?x d \<noteq> Inr (m, d1)" for m d1
  proof
    assume "answer_append co r spec ?x d = Inr (m, d1)"
    then have "get_owned (sr_conversation_id r) uid d \<noteq> None \<and> awaits_answer ms'"
      unfolding answer_append_def append_iff [OF ms' refl]
      by (auto simp: uid awaits_answer_iff validate_iff_from history_ok_from_append message_of_def)
    then show False using refused ms' by (auto simp: list_for_conversation_def)
  qed
  then obtain e where "answer_append co r spec ?x (gs_store ?g) = Inl e" by (cases "answer_append co r spec ?x (gs_store ?g)") auto
  then have "persist_success env co r ?x ?g = (Inl e, ?g)" using persist_success_run [OF Some, where co = co and x = ?x and g = ?g and env = env] by simp
  then show ?thesis using r d(2) by (simp add: collector_persist_def transaction_def Let_def)
qed

text \<open>A client that leaves ends the stream without the collector: the claim is neither completed nor released.\<close>

lemma disconnect_keeps_claim: "after_stream env co (ClientGone t) g = g"
  by (simp add: after_stream_def persisted_def)

text \<open>The endpoint refuses to cache an answer whose prompt was cut, be it by messages or by documents; the collector looks at
  the messages only, so the streamed answer to a cut document is cached.\<close>

lemma cut_document_is_cached:
  assumes "0 < rr_documents_truncated (so_report e)" "rr_messages_dropped (so_report e) = 0" "\<not> rr_degraded (so_report e)"
    and "co_cache co" "co_cache_key co = Some key" "r = turn_result (turn_complete e t)"
  shows "gs_world (snd (write_cache env co r (so_spec e) g)) =
    cache_put (ge_redis env) key (result_cached (ge_iso env (ge_wall env (gs_reads g))) r (so_spec e)) (gs_world g)"
  using assms by (simp add: write_cache_def turn_result_def turn_complete_def)

subsection \<open>A turn written down\<close>

definition ex_asked :: store where
  "ex_asked = snd (projr (msg_append ''q'' 1 ''c'' ''u'' User [TextBlock ''hi''] None None ex_store1))"

definition ex_question :: CanonicalMessage where
  "ex_question = message_of ''q'' 1 ''c'' 0 User [TextBlock ''hi''] default_meta"

lemma ex_asked_append: "msg_append ''q'' 1 ''c'' ''u'' User [TextBlock ''hi''] None None ex_store1 = Inr (ex_question, ex_asked)"
proof -
  have "case msg_append ''q'' 1 ''c'' ''u'' User [TextBlock ''hi''] None None ex_store1 of Inl _ \<Rightarrow> False | Inr (m, _) \<Rightarrow> m = ex_question" by code_simp
  then show ?thesis by (auto simp: ex_asked_def split: sum.splits prod.splits)
qed

lemma ex_asked_facts:
  "store_reachable ex_asked" "get_owned ''c'' ''u'' ex_asked \<noteq> None" "list_for_conversation ''c'' ''u'' ex_asked = Inr [ex_question]"
  "awaits_answer [ex_question]" "''m'' \<notin> mg_id ` set (sto_messages ex_asked)" "''r1'' \<notin> rq_id ` set (sto_requests ex_asked)"
  by (rule store_reachable.go [OF ex_store1_reachable], rule store_step.step_append, rule ex_asked_append) code_simp+

definition ex_txn :: txn where
  "ex_txn = \<lparr>tx_others = (\<lambda>d. d), tx_conversation_id = ''c2'', tx_message_id = (\<lambda>_. ''x''), tx_request_id = ''r1'', tx_now = 2, tx_clock = 2, tx_fails = False\<rparr>"

definition ex_genv :: "'r redis \<Rightarrow> 'r genv" where
  "ex_genv R = \<lparr>ge_redis = R, ge_txn = (\<lambda>_. ex_txn), ge_wall = (\<lambda>_. 3), ge_iso = (\<lambda>_. ''1970-01-01T00:00:03+00:00'')\<rparr>"

definition ex_router_state :: "'r world \<Rightarrow> 'r rstate" where
  "ex_router_state w = \<lparr>rs_world = w, rs_ticks = 0, rs_calls = 0, rs_uuids = 0, rs_metrics = None, rs_hint = None, rs_auth_failures = [], rs_sleeps = []\<rparr>"

definition ex_gstate :: "'r world \<Rightarrow> 'r gstate" where
  "ex_gstate w = \<lparr>gs_store = ex_asked, gs_metrics = None, gs_router = ex_router_state w, gs_txns = 0, gs_reads = 0\<rparr>"

definition ex_ticket :: ClaimTicket where
  "ex_ticket = \<lparr>ct_key = ''k'', ct_user_id = ''u'', ct_fingerprint = ''f'', ct_request_id = ''r'', ct_stream = True\<rparr>"

definition ex_collector :: Collector where
  "ex_collector = \<lparr>co_principal = \<lparr>pr_user_id = ''u'', pr_auth_method = Am_session, pr_api_key_id = None, pr_tier = ''free''\<rparr>, co_cache = False,
     co_cache_key = None, co_idempotency = Some ex_ticket\<rparr>"

theorem stream_is_stored_as_shown_witness:
  "case stream_completion ex_stream_env None ex_wakes ''general'' ''c'' ''m'' None (rs_world ex_start) ex_start of
     Inr (fs, Over t) \<Rightarrow> (\<exists>m. list_for_conversation ''c'' ''u'' (gs_store (after_stream (ex_genv mem_redis) ex_collector (Over t) (ex_gstate (calm Map.empty)))) =
       Inr ([ex_question] @ [m]) \<and> cm_id m = ''m'' \<and> cm_content m = [TextBlock (screen [] fs)])
   | _ \<Rightarrow> False"
proof -
  obtain fs t where r: "stream_completion ex_stream_env None ex_wakes ''general'' ''c'' ''m'' None (rs_world ex_start) ex_start = Inr (fs, Over t)"
    "tu_status t = St_ok" by (rule ex_stream_run_ends)
  have k: "key_ok (None :: unit redis option) ''m''" by (simp add: key_ok_def)
  have x: "ex_txn = ge_txn (ex_genv mem_redis) (gs_txns (ex_gstate (calm Map.empty)))" "ex_asked = tx_others ex_txn (gs_store (ex_gstate (calm (Map.empty :: keyspace))))"
    "\<not> tx_fails ex_txn" "''u'' = pr_user_id (co_principal ex_collector)" "''r1'' = tx_request_id ex_txn"
    by (simp_all add: ex_genv_def ex_gstate_def ex_txn_def ex_collector_def)
  from stream_is_stored_as_shown [OF r k ex_asked_facts(1-5) ex_asked_facts(6) [unfolded x(5)] x(1-4)] show ?thesis unfolding r(1) by auto
qed

definition ex_result :: StreamResult where
  "ex_result = \<lparr>sr_conversation_id = ''c'', sr_message_id = ''m'', sr_requested_slot = ''general'',
     sr_spec = Some (ex_slot ''a'' 0), sr_text = ''hello'', sr_usage = \<lparr>us_tokens_in = 1, us_tokens_out = 2, us_estimated = False\<rparr>, sr_finish_reason = ''stop'',
     sr_status = St_ok, sr_error_code = None, sr_substituted = False, sr_attempts = 1, sr_trail = [], sr_latency_ms = 5, sr_ttft_ms = Some 1,
     sr_wasted_tokens_out = 0, sr_degraded = False, sr_extraction_tier = None, sr_messages_dropped = 0, sr_key_pool = Some Shared\<rparr>"

definition strict_validator :: validator where
  "strict_validator = \<lparr>va_int = (\<lambda>j. case j of JInt n \<Rightarrow> Some n | _ \<Rightarrow> None), va_bool = (\<lambda>j. case j of JBool b \<Rightarrow> Some b | _ \<Rightarrow> None), va_uuid = va_str\<rparr>"

lemma strict_validator_ok: "validator_ok strict_validator (\<lambda>_. True)"
  by (simp add: validator_ok_def strict_validator_def)

lemma ex_persist_runs: "\<exists>g'. collector_persist (ex_genv mem_redis) ex_collector ex_result (ex_gstate (calm Map.empty)) = (Inr (), g')"
proof -
  let ?g = "(ex_gstate (calm (Map.empty :: keyspace)))\<lparr>gs_txns := Suc 0\<rparr>"
  obtain g' where "persist_success (ex_genv mem_redis) ex_collector ex_result ex_txn ?g = (Inr (), g')"
    by (rule answer_is_written [where g = ?g and r = ex_result and x = ex_txn and co = ex_collector and env = "ex_genv mem_redis" and d = ex_asked and uid = "''u''"])
      (use ex_asked_facts in \<open>simp_all add: ex_result_def ex_txn_def ex_collector_def ex_gstate_def\<close>)
  then show ?thesis by (simp add: collector_persist_def transaction_def Let_def ex_genv_def ex_gstate_def ex_txn_def ex_result_def)
qed

theorem collected_claim_is_settled_witness:
  "\<exists>g' e body resp. collector_persist (ex_genv mem_redis) ex_collector ex_result (ex_gstate (calm Map.empty)) = (Inr (), g') \<and>
     claim_again mem_redis ex_ticket ''r2'' (gs_world g') = Inr (Replay e) \<and> ie_response e = Some body \<and>
     response_validate strict_validator body = Some resp \<and> re_message_id resp = ''m'' \<and> re_choices resp = one_choice ''hello'' ''stop''"
proof -
  obtain g' where g': "collector_persist (ex_genv mem_redis) ex_collector ex_result (ex_gstate (calm Map.empty)) = (Inr (), g')" using ex_persist_runs by blast
  have env: "ge_redis (ex_genv mem_redis) = mem_redis" "quiet (gs_world (ex_gstate (calm (Map.empty :: keyspace))))" "co_idempotency ex_collector = Some ex_ticket"
    "idempotency (ct_user_id ex_ticket) (ct_key ex_ticket) = Inr ''idem:u:k''"
    by (simp_all add: ex_genv_def ex_gstate_def ex_router_state_def gs_world_def ex_collector_def ex_ticket_def ex_idem_key)
  from collected_claim_is_settled [OF mem_redis_server env(1,2,4,3) g' strict_validator_ok TrueI TrueI, of "''r2''"] g' show ?thesis
    by (auto simp: ex_result_def)
qed

end
