(* ===== verification/Gw_Completions.thy ===== *)
theory Gw_Completions
  imports Gw_Collector_Props Gw_Render
begin

text \<open>
  The chat endpoint (\<^verbatim>\<open>app/api/v1/chat.py\<close>) with the table of files (\<^verbatim>\<open>app/db/repo/files.py\<close>) it checks references against.
  The handler composes the components of the other theories: registry, idempotency store, tables, cache, router,
  orchestrator, collector and usage log. Each use of the request's session up to its commit is one transaction. The quotes
  that \<^verbatim>\<open>repr\<close> adds to a name in a message are left out; logging is left out.
\<close>

subsection \<open>Files\<close>

record File =
  fl_id :: string
  fl_user_id :: string
  fl_file_hash :: string
  fl_filename :: string
  fl_mime :: string
  fl_bytes :: int
  fl_storage_path :: string
  fl_created_at :: instant

definition file_get_owned :: "string \<Rightarrow> string \<Rightarrow> File list \<Rightarrow> File option" where
  "file_get_owned uid h files = List.find (\<lambda>f. fl_user_id f = uid \<and> fl_file_hash f = h) files"

definition get_owned_many :: "string \<Rightarrow> string list \<Rightarrow> File list \<Rightarrow> File list" where
  "get_owned_many uid hashes files = (if hashes = [] then [] else filter (\<lambda>f. fl_user_id f = uid \<and> fl_file_hash f \<in> set hashes) files)"

definition create_if_absent :: "string \<Rightarrow> instant \<Rightarrow> string \<Rightarrow> string \<Rightarrow> string \<Rightarrow> string \<Rightarrow> int \<Rightarrow> string \<Rightarrow> File list \<Rightarrow> (File \<times> bool) \<times> File list" where
  "create_if_absent new_id now uid h filename mime size_bytes storage_path files = (case file_get_owned uid h files of
      Some row \<Rightarrow> ((row, False), files)
    | None \<Rightarrow> (let row = \<lparr>fl_id = new_id, fl_user_id = uid, fl_file_hash = h, fl_filename = filename, fl_mime = mime, fl_bytes = size_bytes,
                         fl_storage_path = storage_path, fl_created_at = now\<rparr> in ((row, True), files @ [row])))"

subsection \<open>The environment of a request\<close>

text \<open>\<open>cn_routing\<close>: the router's environment for a history and parameters. \<open>cn_private\<close>: what
  \<^verbatim>\<open>resolves_private_for_every_provider\<close> answers for this caller. \<open>cn_perf\<close>: the readings of the performance counter.
  \<open>cn_wakes\<close>: the moments a streamed turn wakes up; where they end, the task is cancelled.\<close>

record ('r, 'p) chat_env =
  cn_base :: "'r genv"
  cn_routing :: "CanonicalMessage list \<Rightarrow> GenParams \<Rightarrow> ('r, 'p) renv"
  cn_registry :: ProviderRegistry
  cn_private :: "ModelSpec list \<Rightarrow> failure + bool"
  cn_files :: "File list"
  cn_cache :: bool
  cn_sha256 :: "json \<Rightarrow> string"
  cn_validator :: validator
  cn_context_id :: "string option"
  cn_uuid :: string
  cn_message_uuid :: string
  cn_perf :: "nat \<Rightarrow> instant"
  cn_wakes :: "wakeup list"

text \<open>What is sent back: a body with its \<^verbatim>\<open>X-Cache\<close> header, or the frames of a stream and how it ended; the flag is the header
  \<^verbatim>\<open>X-Idempotent-Replay\<close>.\<close>

datatype chat_reply = JsonReply ChatCompletionResponse string bool | StreamReply "frame list" "stream_end option" string bool

definition glift :: "failure + 'a \<Rightarrow> ('r, 'a) gact" where
  "glift x = (case x of Inl e \<Rightarrow> graise e | Inr y \<Rightarrow> greturn y)"

definition perf_now :: "('r, 'p) chat_env \<Rightarrow> ('r, instant) gact" where
  "perf_now env g = (Inr (cn_perf env (gs_reads g)), g\<lparr>gs_reads := Suc (gs_reads g)\<rparr>)"

definition chat_elapsed_ms :: "('r, 'p) chat_env \<Rightarrow> instant \<Rightarrow> ('r, int) gact" where
  "chat_elapsed_ms env started = gbind (perf_now env) (\<lambda>now. greturn (py_int_of_float ((now - started) * 1000)))"

subsection \<open>Checks\<close>

definition unknown_slot :: "ProviderRegistry \<Rightarrow> string \<Rightarrow> failure" where
  "unknown_slot registry requested = AppFailure (app_error C_InvalidRequest (Some (''Unknown model slot '' @ requested @ ''.'')) (Some ''unknown_slot'')
     [''available'' \<mapsto> JArr (map JStr (AUTO # slots registry))] Map.empty)"

definition validate_slot :: "('r, 'p) chat_env \<Rightarrow> string \<Rightarrow> failure + unit" where
  "validate_slot env requested = (let registry = cn_registry env in
     if requested = AUTO then Inr ()
     else case reg_candidates registry requested of
         Inl _ \<Rightarrow> Inl (unknown_slot registry requested)
       | Inr cs \<Rightarrow> if is_internal registry requested then Inl (unknown_slot registry requested)
           else if requires_private_key registry requested
           then ebind (cn_private env cs) (\<lambda>reachable. if reachable then Inr () else Inl (unknown_slot registry requested))
           else Inr ())"

definition MAX_KEY_LENGTH :: nat where "MAX_KEY_LENGTH = 255"

text \<open>\<^verbatim>\<open>str.isprintable\<close> on one code point below 256.\<close>

definition isprintable :: "char \<Rightarrow> bool" where
  "isprintable c = (let n = (of_char c :: nat) in (32 \<le> n \<and> n \<le> 126) \<or> (161 \<le> n \<and> n \<noteq> 173))"

definition validated_idempotency_key :: "string \<Rightarrow> failure + string" where
  "validated_idempotency_key raw =
    (if raw = [] \<or> length raw > MAX_KEY_LENGTH \<or> \<not> list_all isprintable raw \<or> list_ex isspace raw
     then Inl (AppFailure (app_error C_InvalidRequest (Some ''Idempotency-Key must be 1-255 printable characters with no whitespace.'')
       (Some ''invalid_idempotency_key'') Map.empty Map.empty))
     else Inr raw)"

definition resolve_conversation :: "txn \<Rightarrow> Principal \<Rightarrow> IdempotentRequest \<Rightarrow> ('r, Conversation) gact" where
  "resolve_conversation x caller body = (case iq_conversation_id body of
      None \<Rightarrow> on_store (conv_create (tx_conversation_id x) (tx_now x) (pr_user_id caller) None (iq_model body))
    | Some cid \<Rightarrow> gbind (on_store (\<lambda>d. Inr (get_owned cid (pr_user_id caller) d, d))) (\<lambda>existing. case existing of
        None \<Rightarrow> graise conversation_not_found
      | Some c \<Rightarrow> if list_ex (\<lambda>m. im_role m = ''system'') (iq_messages body)
          then graise (AppFailure (app_error C_InvalidRequest (Some ''A system message can only be set when a conversation is created.'')
            (Some ''system_message_not_first'') Map.empty Map.empty))
          else greturn c))"

definition file_not_found :: "string \<Rightarrow> failure" where
  "file_not_found h = AppFailure (app_error C_NotFound (Some (''No file with hash '' @ h @ '' is owned by this user.'')) (Some ''file_not_found'')
     [''file_hash'' \<mapsto> JStr h] Map.empty)"

definition resolve_file_refs :: "('r, 'p) chat_env \<Rightarrow> Principal \<Rightarrow> IdempotentRequest \<Rightarrow> failure + (string \<rightharpoonup> File)" where
  "resolve_file_refs env caller body =
    (let hashes = remdups (concat (map im_file_refs (iq_messages body)));
         by_hash = map_of (map (\<lambda>f. (fl_file_hash f, f)) (get_owned_many (pr_user_id caller) hashes (cn_files env)))
     in if hashes = [] then Inr Map.empty
        else case sort (filter (\<lambda>h. by_hash h = None) hashes) of [] \<Rightarrow> Inr by_hash | h # _ \<Rightarrow> Inl (file_not_found h))"

subsection \<open>The inbound turn\<close>

fun input_role :: "string \<Rightarrow> Role" where
  "input_role r = (if r = ''system'' then System else User)"

fun ref_blocks :: "(string \<rightharpoonup> File) \<Rightarrow> string list \<Rightarrow> failure + ContentBlock list" where
  "ref_blocks owned [] = Inr []"
| "ref_blocks owned (h # hs) = (case owned h of
      None \<Rightarrow> Inl (OtherFailure ''KeyError'')
    | Some f \<Rightarrow> ebind (ref_blocks owned hs) (\<lambda>bs. Inr (FileRefBlock (fl_file_hash f) (fl_filename f) (fl_mime f) (fl_bytes f) # bs)))"

fun append_inbound :: "txn \<Rightarrow> string \<Rightarrow> string \<Rightarrow> (string \<rightharpoonup> File) \<Rightarrow> nat \<Rightarrow> IdempotentMessage list \<Rightarrow> ('r, unit) gact" where
  "append_inbound x cid uid owned n [] = greturn ()"
| "append_inbound x cid uid owned n (m # ms) =
    gbind (glift (ref_blocks owned (im_file_refs m))) (\<lambda>refs.
    gbind (on_store (msg_append (tx_message_id x n) (tx_now x) cid uid (input_role (im_role m)) (TextBlock (im_content m) # refs) None None)) (\<lambda>_.
      append_inbound x cid uid owned (Suc n) ms))"

definition open_turn :: "('r, 'p) chat_env \<Rightarrow> Principal \<Rightarrow> IdempotentRequest \<Rightarrow> ('r, Conversation) gact" where
  "open_turn env caller body = transaction (cn_base env) (\<lambda>x.
     gbind (resolve_conversation x caller body) (\<lambda>conversation.
     gbind (glift (resolve_file_refs env caller body)) (\<lambda>owned.
     gbind (append_inbound x (cv_id conversation) (pr_user_id caller) owned 0 (iq_messages body)) (\<lambda>_.
     gbind (on_store (\<lambda>d. Inr (touch (tx_clock x) (cv_id conversation) (pr_user_id caller) (Some (iq_model body)) d))) (\<lambda>_.
       greturn conversation)))))"

text \<open>A read on the session after its commit begins the next transaction.\<close>

definition read_history :: "('r, 'p) chat_env \<Rightarrow> string \<Rightarrow> string \<Rightarrow> ('r, CanonicalMessage list) gact" where
  "read_history env cid uid g =
    (let d = tx_others (ge_txn (cn_base env) (gs_txns g)) (gs_store g)
     in (unhandled (list_for_conversation cid uid d), g\<lparr>gs_store := d, gs_txns := Suc (gs_txns g)\<rparr>))"

definition params_of :: "IdempotentRequest \<Rightarrow> GenParams" where
  "params_of body = \<lparr>gp_temperature = iq_temperature body, gp_max_tokens = iq_max_tokens body, gp_top_p = iq_top_p body, gp_stop = iq_stop body,
     gp_stream = iq_stream body\<rparr>"

definition cache_key_of :: "('r, 'p) chat_env \<Rightarrow> IdempotentRequest \<Rightarrow> CanonicalMessage list \<Rightarrow> string option" where
  "cache_key_of env body history =
    (if cn_cache env \<and> is_cacheable (iq_temperature body) history False False
     then Some (request_hash (cn_sha256 env) (iq_model body) history (iq_temperature body) (iq_max_tokens body) (iq_top_p body) (iq_stop body))
     else None)"

text \<open>The cache does not look at the types of the fields it reads back; an entry that \<^verbatim>\<open>put\<close> did not write fails where a field is used.\<close>

definition cached_value :: "(string \<times> json) list \<Rightarrow> failure + CachedResponse" where
  "cached_value kvs =
    (case (jget kvs ''text'', jget kvs ''provider'', jget kvs ''model'', jget kvs ''slot'', jget kvs ''finish_reason'', jget kvs ''tokens_in'', jget kvs ''tokens_out'',
           jget kvs ''usage_estimated'', jget kvs ''created_at'') of
       (JStr a, JStr p, JStr m, JStr s, JStr f, JInt i, JInt n, JBool b, JStr c) \<Rightarrow>
         Inr \<lparr>cr_text = a, cr_provider = p, cr_model = m, cr_slot = s, cr_finish_reason = f, cr_tokens_in = i, cr_tokens_out = n, cr_usage_estimated = b,
           cr_created_at = c\<rparr>
     | _ \<Rightarrow> Inl (OtherFailure ''TypeError''))"

definition cached_answer :: "('r, 'p) chat_env \<Rightarrow> string option \<Rightarrow> ('r, CachedResponse option) gact" where
  "cached_answer env key = (case key of
      None \<Rightarrow> greturn None
    | Some k \<Rightarrow> gbind (on_redis (cache_get (ge_redis (cn_base env)) k)) (\<lambda>hit. case hit of
        None \<Rightarrow> greturn None
      | Some kvs \<Rightarrow> gbind (glift (cached_value kvs)) (\<lambda>c. greturn (Some c))))"

definition app_failure :: "ProviderError \<Rightarrow> failure" where
  "app_failure e = (let a = to_app_error e in AppFailure (app_error (if ae_class a = InvalidRequest then C_InvalidRequest else C_UpstreamUnavailable)
     (Some (ae_message a)) (Some (ae_code a))
     (case ae_limit_tokens a of None \<Rightarrow> Map.empty | Some n \<Rightarrow> [''limit_tokens'' \<mapsto> JInt n])
     (case ae_retry_after a of None \<Rightarrow> Map.empty | Some n \<Rightarrow> [''Retry-After'' \<mapsto> int_text n])))"

subsection \<open>Without streaming\<close>

fun reason_text :: "finish_reason \<Rightarrow> string" where
  "reason_text FR_stop = ''stop''"
| "reason_text FR_length = ''length''"
| "reason_text FR_content_filter = ''content_filter''"
| "reason_text FR_error = ''error''"

definition call_router :: "('r, 'p) chat_env \<Rightarrow> Conversation \<Rightarrow> CanonicalMessage list \<Rightarrow> IdempotentRequest \<Rightarrow> ('r, RoutingFailed + RouterOutcome) gact" where
  "call_router env conversation history body g =
    (case route (cn_routing env history (params_of body)) (iq_model body) (cv_pinned_model conversation) (gs_router g) of
       (Inl _, s) \<Rightarrow> (Inl (OtherFailure ''Exception''), g\<lparr>gs_router := s\<rparr>)
     | (Inr r, s) \<Rightarrow> (Inr r, g\<lparr>gs_router := s\<rparr>))"

definition log_failure :: "('r, 'p) chat_env \<Rightarrow> Principal \<Rightarrow> IdempotentRequest \<Rightarrow> string \<Rightarrow> RoutingMode \<Rightarrow> RoutingFailed \<Rightarrow> instant \<Rightarrow> ('r, 'a) gact" where
  "log_failure env caller body cid mode f started =
     gbind (chat_elapsed_ms env started) (\<lambda>ms.
     gbind (transaction (cn_base env) (\<lambda>x. on_log (record_failed (tx_request_id x) (tx_now x) caller (rf_error f) (iq_model body) ms (rf_spec f) (Some cid)
       (rf_trail f) False (quota_scope_for (rf_key_pool f) (pr_user_id caller)) (rf_key_pool f) mode))) (\<lambda>_.
     graise (app_failure (rf_error f))))"

definition outcome_meta :: "RouterOutcome \<Rightarrow> string \<Rightarrow> MessageMeta" where
  "outcome_meta oc requested = default_meta\<lparr>mm_provider_used := Some (ms_provider (ro_spec oc)), mm_model_used := Some (ms_model (ro_spec oc)),
     mm_slot_used := Some (ms_slot (ro_spec oc)), mm_requested_slot := Some requested, mm_substituted := is_substitution requested (ms_slot (ro_spec oc)),
     mm_attempts := int (ro_attempts oc), mm_tokens_in := Some (us_tokens_in (cp_usage (ro_completion oc))),
     mm_tokens_out := Some (us_tokens_out (cp_usage (ro_completion oc))), mm_degraded := rr_degraded (ro_report oc),
     mm_extraction_tier := rr_extraction_tier (ro_report oc), mm_messages_dropped := int (rr_messages_dropped (ro_report oc)),
     mm_key_pool := Some (ro_key_pool oc)\<rparr>"

definition store_answer :: "('r, 'p) chat_env \<Rightarrow> Principal \<Rightarrow> IdempotentRequest \<Rightarrow> Conversation \<Rightarrow> CanonicalMessage list \<Rightarrow> RouterOutcome \<Rightarrow> int
    \<Rightarrow> ('r, CanonicalMessage) gact" where
  "store_answer env caller body conversation history oc latency_ms = transaction (cn_base env) (\<lambda>x.
     let uid = pr_user_id caller; cid = cv_id conversation in
     gbind (on_store (msg_append (tx_message_id x 0) (tx_now x) cid uid Assistant [TextBlock (cp_text (ro_completion oc))]
       (Some (outcome_meta oc (iq_model body))) None)) (\<lambda>assistant.
     gbind (case (if cv_pinned_model conversation = None then pin_target (history @ [assistant]) else None) of
         Some model \<Rightarrow> gbind (on_store (\<lambda>d. Inr (set_pinned (tx_clock x) cid uid model d))) (\<lambda>_. greturn ())
       | None \<Rightarrow> greturn ()) (\<lambda>_.
     gbind (on_log (record_turn_success (tx_request_id x) (tx_now x) caller (ro_spec oc) (iq_model body) (cp_usage (ro_completion oc)) latency_ms (Some cid)
       False (ro_trail oc) (is_substitution (iq_model body) (ms_slot (ro_spec oc))) 0 (quota_scope_for (Some (ro_key_pool oc)) uid)
       (Some (ro_key_pool oc)) COMPLETE)) (\<lambda>_.
     greturn assistant))))"

definition put_answer :: "('r, 'p) chat_env \<Rightarrow> IdempotentRequest \<Rightarrow> CanonicalMessage list \<Rightarrow> string option \<Rightarrow> RouterOutcome \<Rightarrow> ('r, unit) gact" where
  "put_answer env body history key oc = (case key of
      Some k \<Rightarrow> gwhen (cn_cache env \<and> is_cacheable (iq_temperature body) history (rr_degraded (ro_report oc)) (rr_truncated (ro_report oc)))
        (gbind (wall_now (cn_base env)) (\<lambda>now. to_redis (cache_put (ge_redis (cn_base env)) k
          \<lparr>cr_text = cp_text (ro_completion oc), cr_provider = ms_provider (ro_spec oc), cr_model = ms_model (ro_spec oc), cr_slot = ms_slot (ro_spec oc),
           cr_finish_reason = reason_text (cp_finish_reason (ro_completion oc)), cr_tokens_in = us_tokens_in (cp_usage (ro_completion oc)),
           cr_tokens_out = us_tokens_out (cp_usage (ro_completion oc)), cr_usage_estimated = us_estimated (cp_usage (ro_completion oc)),
           cr_created_at = ge_iso (cn_base env) now\<rparr>)))
    | None \<Rightarrow> greturn ())"

text \<open>\<^verbatim>\<open>_to_response\<close> for a routed answer.\<close>

definition outcome_response :: "instant \<Rightarrow> string \<Rightarrow> RouterOutcome \<Rightarrow> string \<Rightarrow> string option \<Rightarrow> string \<Rightarrow> string \<Rightarrow> ChatCompletionResponse" where
  "outcome_response now rid oc requested warning cid mid = (let spec = ro_spec oc; u = cp_usage (ro_completion oc) in
     \<lparr>re_id = rid, re_created = py_int_of_float now, re_model = ms_model spec,
      re_choices = one_choice (cp_text (ro_completion oc)) (reason_text (cp_finish_reason (ro_completion oc))),
      re_usage = usage_out (us_tokens_in u) (us_tokens_out u) (us_estimated u),
      re_served_by = \<lparr>sb_slot = ms_slot spec, sb_provider = ms_provider spec, sb_model = ms_model spec\<rparr>, re_requested_slot = requested,
      re_substituted = is_substitution requested (ms_slot spec), re_attempts = int (ro_attempts oc), re_degraded = rr_degraded (ro_report oc),
      re_extraction_tier = rr_extraction_tier (ro_report oc), re_messages_dropped = int (rr_messages_dropped (ro_report oc)), re_warning = warning,
      re_key_pool = Some (ro_key_pool oc), re_conversation_id = cid, re_message_id = mid\<rparr>)"

definition serve_cache_hit :: "('r, 'p) chat_env \<Rightarrow> Principal \<Rightarrow> IdempotentRequest \<Rightarrow> Conversation \<Rightarrow> CachedResponse \<Rightarrow> instant \<Rightarrow> ('r, chat_reply) gact" where
  "serve_cache_hit env caller body conversation c started =
     gbind (transaction (cn_base env) (\<lambda>x.
       gbind (on_store (msg_append (tx_message_id x 0) (tx_now x) (cv_id conversation) (pr_user_id caller) Assistant [TextBlock (cr_text c)]
         (Some (hit_meta c (iq_model body))) None)) (\<lambda>assistant.
       gbind (chat_elapsed_ms env started) (\<lambda>ms.
       gbind (on_log (record_cache_hit (tx_request_id x) (tx_now x) caller (cr_provider c) (cr_model c) (cr_slot c) (iq_model body) ms
         (Some (cv_id conversation)) (is_substitution (iq_model body) (cr_slot c)) SYSTEM_SCOPE)) (\<lambda>_.
       greturn assistant))))) (\<lambda>assistant.
     gbind (wall_now (cn_base env)) (\<lambda>now.
     greturn (JsonReply (hit_response now (or_label (cn_context_id env) (cm_id assistant)) c (cr_finish_reason c) (iq_model body)
       (pin_warning (cv_pinned_model conversation) (iq_model body) (cr_slot c)) (cv_id conversation) (cm_id assistant)) HIT False)))"

definition answer_turn :: "('r, 'p) chat_env \<Rightarrow> Principal \<Rightarrow> IdempotentRequest \<Rightarrow> Conversation \<Rightarrow> CanonicalMessage list \<Rightarrow> ('r, chat_reply) gact" where
  "answer_turn env caller body conversation history =
     gbind (perf_now env) (\<lambda>started.
     let key = cache_key_of env body history in
     gbind (cached_answer env key) (\<lambda>hit. case hit of
       Some c \<Rightarrow> serve_cache_hit env caller body conversation c started
     | None \<Rightarrow>
       gbind (call_router env conversation history body) (\<lambda>r. case r of
         Inl f \<Rightarrow> log_failure env caller body (cv_id conversation) COMPLETE f started
       | Inr oc \<Rightarrow>
           gbind (chat_elapsed_ms env started) (\<lambda>ms.
           gbind (store_answer env caller body conversation history oc ms) (\<lambda>assistant.
           gbind (put_answer env body history key oc) (\<lambda>_.
           gbind (wall_now (cn_base env)) (\<lambda>now.
           greturn (JsonReply (outcome_response now (or_label (cn_context_id env) (cm_id assistant)) oc (iq_model body)
             (pin_warning (cv_pinned_model conversation) (iq_model body) (ms_slot (ro_spec oc))) (cv_id conversation) (cm_id assistant))
             (if key = None then BYPASS else MISS) False))))))))"

subsection \<open>With streaming\<close>

text \<open>The frames of a replayed answer; cutting the text into pieces always ends.\<close>

definition replay_frames :: "CachedResponse \<Rightarrow> string \<Rightarrow> string \<Rightarrow> string \<Rightarrow> ('r, frame list) gact" where
  "replay_frames c requested cid mid = (case cached_frames c requested cid mid of
      None \<Rightarrow> graise (OtherFailure ''CancelledError'') | Some ps \<Rightarrow> greturn (map Event ps))"

definition swallow :: "('r, unit) gact \<Rightarrow> ('r, unit) gact" where
  "swallow m g = (Inr (), snd (m g))"

definition stream_turn :: "('r, 'p) chat_env \<Rightarrow> Principal \<Rightarrow> IdempotentRequest \<Rightarrow> Conversation \<Rightarrow> CanonicalMessage list \<Rightarrow> string option \<Rightarrow> ClaimTicket option
    \<Rightarrow> instant \<Rightarrow> ('r, chat_reply) gact" where
  "stream_turn env caller body conversation history key ticket started g =
    (case route_stream (cn_routing env history (params_of body)) (iq_model body) (cv_pinned_model conversation) (gs_router g) of
       (Inl _, s) \<Rightarrow> (Inl (OtherFailure ''Exception''), g\<lparr>gs_router := s\<rparr>)
     | (Inr (events, failure), s) \<Rightarrow>
        (let (fs, e, w) = drive (Some (ge_redis (cn_base env))) (cn_wakes env) events failure
               (new_turn (cv_id conversation) (cn_message_uuid env) (iq_model body) (cv_pinned_model conversation)) (rs_world s);
             g1 = g\<lparr>gs_router := s\<lparr>rs_world := w\<rparr>\<rparr>;
             co = \<lparr>co_principal = caller, co_cache = cn_cache env, co_cache_key = key, co_idempotency = ticket\<rparr>
         in if fs \<noteq> [] then (Inr (StreamReply fs (Some e) (if key = None then BYPASS else MISS) False), after_stream (cn_base env) co e g1)
            else case e of
              Raised f \<Rightarrow> log_failure env caller body (cv_id conversation) STREAM f started g1
            | ClientGone _ \<Rightarrow> (Inl (OtherFailure ''StopAsyncIteration''), g1)
            | _ \<Rightarrow> (Inl (OtherFailure ''CancelledError''), g1)))"

definition stream_chat_completion :: "('r, 'p) chat_env \<Rightarrow> Principal \<Rightarrow> IdempotentRequest \<Rightarrow> Conversation \<Rightarrow> CanonicalMessage list \<Rightarrow> ClaimTicket option
    \<Rightarrow> ('r, chat_reply) gact" where
  "stream_chat_completion env caller body conversation history ticket =
     gbind (perf_now env) (\<lambda>started.
     let key = cache_key_of env body history in
     gbind (cached_answer env key) (\<lambda>hit. case hit of
       Some c \<Rightarrow>
         gbind (chat_elapsed_ms env started) (\<lambda>ms.
         gbind (replay_frames c (iq_model body) (cv_id conversation) (cn_message_uuid env)) (\<lambda>fs.
         gbind (swallow (persist_cache_hit (cn_base env) \<lparr>co_principal = caller, co_cache = False, co_cache_key = None, co_idempotency = ticket\<rparr> c
           (iq_model body) (cv_id conversation) (cn_message_uuid env) ms)) (\<lambda>_.
         greturn (StreamReply fs None HIT False))))
     | None \<Rightarrow> stream_turn env caller body conversation history key ticket started))"

subsection \<open>The handler\<close>

definition serve_completion :: "('r, 'p) chat_env \<Rightarrow> Principal \<Rightarrow> IdempotentRequest \<Rightarrow> ClaimTicket option \<Rightarrow> ('r, chat_reply) gact" where
  "serve_completion env caller body ticket =
     gbind (open_turn env caller body) (\<lambda>conversation.
     gbind (read_history env (cv_id conversation) (pr_user_id caller)) (\<lambda>history.
       if iq_stream body then stream_chat_completion env caller body conversation history ticket
       else answer_turn env caller body conversation history))"

definition as_replayable :: "string \<Rightarrow> ChatCompletionResponse \<Rightarrow> failure + CachedResponse" where
  "as_replayable now stored = (case re_choices stored of
      [] \<Rightarrow> Inl (OtherFailure ''IndexError'')
    | choice # _ \<Rightarrow> Inr \<lparr>cr_text = ch_message choice, cr_provider = sb_provider (re_served_by stored), cr_model = sb_model (re_served_by stored),
        cr_slot = sb_slot (re_served_by stored), cr_finish_reason = ch_finish_reason choice, cr_tokens_in = uo_prompt_tokens (re_usage stored),
        cr_tokens_out = uo_completion_tokens (re_usage stored), cr_usage_estimated = uo_estimated (re_usage stored), cr_created_at = now\<rparr>)"

definition serve_replay :: "('r, 'p) chat_env \<Rightarrow> Principal \<Rightarrow> IdempotentRequest \<Rightarrow> IdempotencyEnvelope \<Rightarrow> ('r, chat_reply option) gact" where
  "serve_replay env caller body envelope = (case Option.bind (ie_response envelope) (response_validate (cn_validator env)) of
      None \<Rightarrow> greturn None
    | Some stored \<Rightarrow>
        gbind (perf_now env) (\<lambda>started.
        gbind (chat_elapsed_ms env started) (\<lambda>ms.
        gbind (transaction (cn_base env) (\<lambda>x. on_log (record_replay (tx_request_id x) (tx_now x) caller (iq_model body) ms (Some (re_conversation_id stored))))) (\<lambda>_.
        let status = or_label (ie_cache_status envelope) BYPASS in
        if iq_stream body
        then gbind (wall_now (cn_base env)) (\<lambda>now.
             gbind (glift (as_replayable (ge_iso (cn_base env) now) stored)) (\<lambda>c.
             gbind (replay_frames c (iq_model body) (re_conversation_id stored) (re_message_id stored)) (\<lambda>fs.
             greturn (Some (StreamReply fs None status True)))))
        else greturn (Some (JsonReply stored status True))))))"

definition idempotency_in_flight :: failure where
  "idempotency_in_flight = AppFailure (app_error C_Conflict (Some ''A request with this Idempotency-Key is still being processed.'')
     (Some ''idempotency_in_flight'') Map.empty [''Retry-After'' \<mapsto> ''1''])"

definition idempotency_key_reuse :: failure where
  "idempotency_key_reuse = AppFailure (app_error C_Conflict (Some ''This Idempotency-Key was already used for a different request.'')
     (Some ''idempotency_key_reuse'') Map.empty Map.empty)"

definition ticket_for :: "('r, 'p) chat_env \<Rightarrow> Principal \<Rightarrow> IdempotentRequest \<Rightarrow> string \<Rightarrow> ClaimTicket" where
  "ticket_for env caller body key = \<lparr>ct_key = key, ct_user_id = pr_user_id caller, ct_fingerprint = fingerprint (cn_sha256 env) body (pr_user_id caller),
     ct_request_id = or_label (cn_context_id env) (cn_uuid env), ct_stream = iq_stream body\<rparr>"

text \<open>Claim, serve, then release on every exception and complete a body that is in hand.\<close>

definition under_claim :: "('r, 'p) chat_env \<Rightarrow> ClaimTicket option \<Rightarrow> ('r, chat_reply) gact \<Rightarrow> ('r, chat_reply) gact" where
  "under_claim env ticket m g = (case m g of
      (Inl e, g1) \<Rightarrow> (case ticket of
          None \<Rightarrow> (Inl e, g1)
        | Some t \<Rightarrow> gbind (to_redis (ticket_release (ge_redis (cn_base env)) t)) (\<lambda>_. graise e) g1)
    | (Inr (JsonReply r status replayed), g1) \<Rightarrow> (case ticket of
          None \<Rightarrow> (Inr (JsonReply r status replayed), g1)
        | Some t \<Rightarrow> gbind (to_redis (ticket_complete (ge_redis (cn_base env)) t (response_dump r) (Some status))) (\<lambda>_. greturn (JsonReply r status replayed)) g1)
    | (Inr (StreamReply fs e status replayed), g1) \<Rightarrow> (Inr (StreamReply fs e status replayed), g1))"

definition claim_for :: "('r, 'p) chat_env \<Rightarrow> ClaimTicket \<Rightarrow> ('r, ClaimResult) gact" where
  "claim_for env t = gbind (on_redis (claim (ge_redis (cn_base env)) (ct_key t) (ct_user_id t) (ct_fingerprint t) (ct_request_id t) (ct_stream t)))
     (\<lambda>r. case r of Inl _ \<Rightarrow> graise (OtherFailure ''ValueError'') | Inr c \<Rightarrow> greturn c)"

definition create_chat_completion :: "('r, 'p) chat_env \<Rightarrow> Principal \<Rightarrow> IdempotentRequest \<Rightarrow> string option \<Rightarrow> ('r, chat_reply) gact" where
  "create_chat_completion env caller body idempotency_key =
     gbind (glift (validate_slot env (iq_model body))) (\<lambda>_. case idempotency_key of
       None \<Rightarrow> under_claim env None (serve_completion env caller body None)
     | Some raw \<Rightarrow>
         gbind (glift (validated_idempotency_key raw)) (\<lambda>key.
         let t = ticket_for env caller body key in
         gbind (claim_for env t) (\<lambda>c. case c of
           InFlight _ \<Rightarrow> graise idempotency_in_flight
         | FingerprintMismatch _ \<Rightarrow> graise idempotency_key_reuse
         | Replay envelope \<Rightarrow> gbind (serve_replay env caller body envelope) (\<lambda>r. case r of
               Some reply \<Rightarrow> greturn reply
             | None \<Rightarrow> under_claim env None (serve_completion env caller body None))
         | Claimed \<Rightarrow> under_claim env (Some t) (serve_completion env caller body (Some t)))))"

end
