(* ===== verification/Gw_Completions_Props.thy ===== *)
theory Gw_Completions_Props
  imports Gw_Completions
begin

text \<open>
  The chat endpoint as a whole: every change it makes to the tables is a step of its own user, a turn keeps what was said,
  a failure frees the idempotency key and a retry repeats the answer.
\<close>

subsection \<open>What a request may do to the tables\<close>

text \<open>A step of the request's user, or what other sessions committed when a transaction began.\<close>

definition request_step :: "string \<Rightarrow> 'r genv \<Rightarrow> store \<Rightarrow> store \<Rightarrow> bool" where
  "request_step u base d d' \<longleftrightarrow> store_step u d d' \<or> (\<exists>n. d' = tx_others (ge_txn base n) d)"

definition request_steps :: "string \<Rightarrow> 'r genv \<Rightarrow> store \<Rightarrow> store \<Rightarrow> bool" where
  "request_steps u base = (request_step u base)\<^sup>*\<^sup>*"

definition stays :: "string \<Rightarrow> 'r genv \<Rightarrow> ('r, 'a) gact \<Rightarrow> bool" where
  "stays u base m \<longleftrightarrow> (\<forall>g. request_steps u base (gs_store g) (gs_store (snd (m g))))"

lemma request_steps_refl [simp]: "request_steps u base d d"
  by (simp add: request_steps_def)

lemma request_steps_trans: "request_steps u base d d1 \<Longrightarrow> request_steps u base d1 d2 \<Longrightarrow> request_steps u base d d2"
  by (simp add: request_steps_def)

lemma request_steps_own: "store_step u d d' \<Longrightarrow> request_steps u base d d'"
  by (simp add: request_steps_def request_step_def r_into_rtranclp)

lemma request_steps_others: "request_steps u base d (tx_others (ge_txn base n) d)"
  unfolding request_steps_def by (rule r_into_rtranclp) (auto simp: request_step_def)

lemma stays_same_store: "(\<And>g. gs_store (snd (m g)) = gs_store g) \<Longrightarrow> stays u base m"
  by (simp add: stays_def)

lemma stays_gbind [intro]:
  assumes "stays u base m" "\<And>x. stays u base (f x)"
  shows "stays u base (gbind m f)"
  unfolding stays_def
proof
  fix g
  show "request_steps u base (gs_store g) (gs_store (snd (gbind m f g)))"
  proof (cases "m g")
    case (Pair r g1)
    have 1: "request_steps u base (gs_store g) (gs_store g1)" using assms(1) Pair unfolding stays_def by (metis snd_conv)
    show ?thesis
    proof (cases r)
      case (Inl e)
      then show ?thesis using 1 Pair by (simp add: gbind_def)
    next
      case (Inr x)
      have "request_steps u base (gs_store g1) (gs_store (snd (f x g1)))" using assms(2) unfolding stays_def by blast
      then show ?thesis using 1 Pair Inr by (auto simp: gbind_def intro: request_steps_trans)
    qed
  qed
qed

lemma stays_basic [intro, simp]:
  "stays u base (greturn x)" "stays u base (graise e)" "stays u base (wall_now base')" "stays u base (perf_now env)" "stays u base (to_redis f)"
  "stays u base (on_redis h)" "stays u base (glift y)" "stays u base (call_router env conversation history body)"
  by (rule stays_same_store, simp add: greturn_def graise_def wall_now_def perf_now_def on_redis_def glift_def call_router_def Let_def split: sum.splits prod.splits)+

lemma stays_when [intro]: "stays u base m \<Longrightarrow> stays u base (gwhen b m)"
  by (simp add: gwhen_def)

lemma stays_swallow [intro]: "stays u base m \<Longrightarrow> stays u base (swallow m)"
  by (simp add: stays_def swallow_def)

lemma stays_elapsed [intro, simp]: "stays u base (chat_elapsed_ms env t)"
  unfolding chat_elapsed_ms_def by auto

lemma stays_on_store [intro]:
  assumes "\<And>d x d'. f d = Inr (x, d') \<Longrightarrow> request_steps u base d d'"
  shows "stays u base (on_store f)"
  unfolding stays_def on_store_def using assms by (auto split: sum.splits prod.splits)

lemma stays_on_log [intro]:
  assumes "\<And>mr d row d'. fst (f mr d) = Inr (row, d') \<Longrightarrow> request_steps u base d d'"
  shows "stays u base (on_log f)"
  unfolding stays_def on_log_def using assms by (auto split: sum.splits prod.splits) (metis fst_conv)

lemma stays_transaction [intro]:
  assumes "\<And>x. stays u base ((body :: txn \<Rightarrow> ('a, 'b) gact) x)"
  shows "stays u base (transaction base (body :: txn \<Rightarrow> ('a, 'b) gact))"
  unfolding stays_def
proof
  fix g :: "'a gstate"
  let ?x = "ge_txn base (gs_txns g)" let ?d = "tx_others ?x (gs_store g)" let ?g = "g\<lparr>gs_store := ?d, gs_txns := Suc (gs_txns g)\<rparr>"
  have 1: "request_steps u base (gs_store g) ?d" by (rule request_steps_others)
  have "request_steps u base (gs_store ?g) (gs_store (snd (body ?x ?g)))" using assms unfolding stays_def by blast
  then have 2: "request_steps u base (gs_store g) (gs_store (snd (body ?x ?g)))" using 1 by (auto intro: request_steps_trans)
  show "request_steps u base (gs_store g) (gs_store (snd (transaction base body g)))"
    using 1 2 by (cases "body ?x ?g") (auto simp: transaction_def Let_def split: sum.split)
qed

lemma stays_append [intro]: "stays u base (on_store (msg_append i now cid u role content meta mid))"
  by (rule stays_on_store) (blast intro: request_steps_own step_append)

lemma stays_create [intro]: "stays u base (on_store (conv_create i now u title slot))"
  by (rule stays_on_store) (blast intro: request_steps_own step_create)

lemma stays_touch [intro]: "stays u base (on_store (\<lambda>d. Inr (touch now cid u slot d)))"
  by (rule stays_on_store) (auto intro: request_steps_own step_touch)

lemma stays_pin [intro]: "stays u base (on_store (\<lambda>d. Inr (set_pinned now cid u model d)))"
  by (rule stays_on_store) (auto intro: request_steps_own step_pin)

lemma stays_read [intro]: "stays u base (on_store (\<lambda>d. Inr (f d, d)))"
  by (rule stays_on_store) simp

lemma log_steps:
  "req_create i now r d = Inr (row, d') \<Longrightarrow> rq_user_id r = u \<Longrightarrow> request_steps u base d d'"
  by (blast intro: request_steps_own step_log)

lemma facades_stay [intro]:
  assumes "u = pr_user_id caller"
  shows "stays u base (on_log (record_turn_success rid now caller spec slot usage ms cid hit trail swapped wasted scope pool mode))"
    "stays u base (on_log (record_failed rid now caller err slot ms mspec cid trail swapped scope pool mode))"
    "stays u base (on_log (record_cache_hit rid now caller provider model cslot slot ms cid swapped scope))"
    "stays u base (on_log (record_replay rid now caller slot ms cid))"
    "stays u base (on_log (record_stream_failure rid now caller slot ms ecode mspec cid trail swapped wasted scope pool))"
  by (rule stays_on_log, use assms in \<open>auto simp: record_turn_success_def record_failed_def record_cache_hit_def record_replay_def record_stream_failure_def
      turn_row_def request_row_def intro: log_steps\<close>)+

lemma collector_stays:
  assumes "u = pr_user_id (co_principal co)"
  shows "stays u base (collector_persist base co r)"
proof -
  have cache: "stays u base (write_cache base co r spec)" for spec unfolding write_cache_def by (auto split: option.split)
  have claim: "stays u base (complete_claim base co r spec)" for spec unfolding complete_claim_def by (auto split: option.split)
  have "stays u base (persist_success base co r x)" for x
    unfolding persist_success_def Let_def assms using cache claim
    by (auto simp: assms intro!: stays_gbind stays_append facades_stay split: option.split)
  moreover have "stays u base (persist_failure base co r x)" for x
    unfolding persist_failure_def using assms by (auto intro!: stays_gbind facades_stay split: option.split)
  ultimately show ?thesis unfolding collector_persist_def by auto
qed

lemma cache_hit_stays:
  assumes "u = pr_user_id (co_principal co)"
  shows "stays u base (persist_cache_hit base co c requested cid mid ms)"
  unfolding persist_cache_hit_def assms by (auto intro!: stays_gbind stays_transaction stays_append facades_stay split: option.split)

lemma after_stream_stays:
  assumes "u = pr_user_id (co_principal co)"
  shows "request_steps u base (gs_store g) (gs_store (after_stream base co e g))"
  using collector_stays [OF assms] by (auto simp: after_stream_def stays_def split: option.split)

lemma resolve_conversation_stays: "stays (pr_user_id caller) base (resolve_conversation x caller body)"
  unfolding resolve_conversation_def by (auto intro!: stays_gbind stays_create stays_read split: option.split)

lemma append_inbound_stays: "stays u base (append_inbound x cid u owned n ms)"
  by (induction ms arbitrary: n) (auto intro!: stays_gbind stays_append)

lemma open_turn_stays: "stays (pr_user_id caller) (cn_base env) (open_turn env caller body)"
  unfolding open_turn_def
  by (intro stays_transaction stays_gbind resolve_conversation_stays append_inbound_stays stays_touch) auto

lemma read_history_stays: "stays u (cn_base env) (read_history env cid uid)"
  unfolding stays_def read_history_def Let_def by (simp add: request_steps_others)

lemma cached_answer_stays: "stays u base (cached_answer env key)"
  unfolding cached_answer_def by (auto intro!: stays_gbind split: option.split)

lemma log_failure_stays: "stays (pr_user_id caller) (cn_base env) (log_failure env caller body cid mode f started)"
  unfolding log_failure_def by (auto intro!: stays_gbind stays_transaction facades_stay)

lemma store_answer_stays: "stays (pr_user_id caller) (cn_base env) (store_answer env caller body conversation history oc ms)"
  unfolding store_answer_def Let_def by (auto intro!: stays_gbind stays_transaction stays_append stays_pin facades_stay split: option.split)

lemma put_answer_stays: "stays u base (put_answer env body history key oc)"
  unfolding put_answer_def by (auto intro!: stays_gbind stays_when split: option.split)

lemma serve_cache_hit_stays: "stays (pr_user_id caller) (cn_base env) (serve_cache_hit env caller body conversation c started)"
  unfolding serve_cache_hit_def by (auto intro!: stays_gbind stays_transaction stays_append facades_stay)

lemma answer_turn_stays: "stays (pr_user_id caller) (cn_base env) (answer_turn env caller body conversation history)"
  unfolding answer_turn_def Let_def
  by (auto intro!: stays_gbind cached_answer_stays serve_cache_hit_stays log_failure_stays store_answer_stays put_answer_stays split: option.split sum.split)

lemma stream_turn_stays: "stays (pr_user_id caller) (cn_base env) (stream_turn env caller body conversation history key ticket started)"
  unfolding stays_def
proof
  fix g
  let ?co = "\<lparr>co_principal = caller, co_cache = cn_cache env, co_cache_key = key, co_idempotency = ticket\<rparr>"
  have after: "request_steps (pr_user_id caller) (cn_base env) (gs_store g) (gs_store (after_stream (cn_base env) ?co e (g\<lparr>gs_router := s\<rparr>)))" for e s
    using after_stream_stays [where g = "g\<lparr>gs_router := s\<rparr>" and co = ?co and u = "pr_user_id caller"] by simp
  have fail: "request_steps (pr_user_id caller) (cn_base env) (gs_store g) (gs_store (snd (log_failure env caller body cid STREAM f started (g\<lparr>gs_router := s\<rparr>))))" for cid f s
    using log_failure_stays [of caller env body cid STREAM f started] unfolding stays_def by (metis gstate.simps(1) gstate.ext_inject gstate.surjective gstate.update_convs(3))
  show "request_steps (pr_user_id caller) (cn_base env) (gs_store g) (gs_store (snd (stream_turn env caller body conversation history key ticket started g)))"
    using after fail by (auto simp: stream_turn_def Let_def split: sum.split prod.split stream_end.split)
qed

lemma replay_frames_stays [simp]: "stays u base (replay_frames c requested cid mid)"
  unfolding replay_frames_def by (auto split: option.split)

lemma stream_chat_completion_stays: "stays (pr_user_id caller) (cn_base env) (stream_chat_completion env caller body conversation history ticket)"
  unfolding stream_chat_completion_def Let_def
  by (auto intro!: stays_gbind stays_swallow cached_answer_stays cache_hit_stays stream_turn_stays split: option.split)

lemma serve_completion_stays: "stays (pr_user_id caller) (cn_base env) (serve_completion env caller body ticket)"
  unfolding serve_completion_def
  by (auto intro!: stays_gbind open_turn_stays read_history_stays stream_chat_completion_stays answer_turn_stays)

lemma serve_replay_stays: "stays (pr_user_id caller) (cn_base env) (serve_replay env caller body envelope)"
  unfolding serve_replay_def Let_def by (auto intro!: stays_gbind stays_transaction facades_stay split: option.split)

lemma under_claim_stays:
  assumes "stays u base m"
  shows "stays u base (under_claim env ticket m)"
  unfolding stays_def
proof
  fix g
  have "request_steps u base (gs_store g) (gs_store (snd (m g)))" using assms by (simp add: stays_def)
  then show "request_steps u base (gs_store g) (gs_store (snd (under_claim env ticket m g)))"
    by (cases "m g") (auto simp: under_claim_def gbind_def graise_def greturn_def split: sum.split option.split chat_reply.split)
qed

lemma claim_for_stays: "stays u base (claim_for env t)"
  unfolding claim_for_def by (auto intro!: stays_gbind split: sum.split)

lemma create_chat_completion_stays: "stays (pr_user_id caller) (cn_base env) (create_chat_completion env caller body key)"
  unfolding create_chat_completion_def Let_def
  by (auto intro!: stays_gbind under_claim_stays serve_completion_stays serve_replay_stays claim_for_stays split: option.split ClaimResult.split)

text \<open>C37: a chat request, streamed or not, answered, replayed or failed at any point, leaves tables whose every history is valid,
  and nothing of another user's conversations changes, whatever other sessions commit meanwhile that has these two
  properties itself.\<close>

theorem chat_keeps_the_tables:
  assumes "store_reachable (gs_store g)" "v \<noteq> pr_user_id caller"
    and others: "\<forall>n d. store_reachable d \<longrightarrow> store_reachable (tx_others (ge_txn (cn_base env) n) d) \<and>
      get_owned cid v (tx_others (ge_txn (cn_base env) n) d) = get_owned cid v d \<and>
      list_for_conversation cid v (tx_others (ge_txn (cn_base env) n) d) = list_for_conversation cid v d"
    and g': "g' = snd (create_chat_completion env caller body key g)"
  shows "store_reachable (gs_store g') \<and> get_owned cid v (gs_store g') = get_owned cid v (gs_store g) \<and>
    list_for_conversation cid v (gs_store g') = list_for_conversation cid v (gs_store g)"
proof -
  have "(request_step (pr_user_id caller) (cn_base env))\<^sup>*\<^sup>* (gs_store g) (gs_store g')"
    using create_chat_completion_stays [of caller env body key] g' by (simp add: stays_def request_steps_def)
  then show ?thesis
  proof (induction rule: rtranclp_induct)
    case base
    then show ?case using assms(1) by simp
  next
    case (step d d')
    from step.hyps(2) show ?case unfolding request_step_def
    proof
      assume own: "store_step (pr_user_id caller) d d'"
      then show ?thesis using step.IH others_read_the_same [OF _ own assms(2), of cid] store_reachable.go by metis
    next
      assume "\<exists>n. d' = tx_others (ge_txn (cn_base env) n) d"
      then show ?thesis using step.IH others by auto
    qed
  qed
qed

subsection \<open>The history of one turn\<close>

lemma append_history:
  assumes "store_reachable d" "list_for_conversation cid uid d = Inr ms" and a: "msg_append i now cid uid role content meta mid d = Inr (m, d')"
  shows "list_for_conversation cid uid d' = Inr (ms @ [m])" "m = message_of (id_for mid i) now cid (int (length ms)) role content (meta_for meta)"
    "get_owned cid uid d \<noteq> None" "get_owned cid uid d' = get_owned cid uid d" "store_reachable d'"
proof -
  show own: "get_owned cid uid d \<noteq> None"
  proof
    assume "get_owned cid uid d = None"
    with a show False by (simp add: msg_append_def)
  qed
  then have rows: "canonicals (rows_of cid d) = Inr ms" using assms(2) by (metis list_for_conversation_def)
  then have v: "validate ms = Inr ()" using stored_history [OF assms(1), of cid] by auto
  show "m = message_of (id_for mid i) now cid (int (length ms)) role content (meta_for meta)" using a unfolding append_iff [OF rows v refl] by simp
  show same: "get_owned cid uid d' = get_owned cid uid d" using a unfolding append_iff [OF rows v refl] by (simp add: get_owned_def)
  show "list_for_conversation cid uid d' = Inr (ms @ [m])" using append_rows(1) [OF rows v a] own same by (simp add: list_for_conversation_def)
  show "store_reachable d'" by (rule store_reachable.go [OF assms(1) step_append [OF a]])
qed

lemma update_history:
  assumes "own_update u d d'"
  shows "list_for_conversation cid uid d' = list_for_conversation cid uid d"
proof -
  obtain P f where d': "d' = d\<lparr>sto_conversations := map (\<lambda>c. if P c then f c else c) (sto_conversations d)\<rparr>"
    and f: "\<forall>c. cv_id (f c) = cv_id c \<and> cv_user_id (f c) = cv_user_id c" using assms unfolding own_update_def by blast
  have "List.find (is_owned cid uid) (map (\<lambda>c. if P c then f c else c) xs) = None \<longleftrightarrow> List.find (is_owned cid uid) xs = None" for xs
    using f by (induction xs) (auto simp: is_owned_def)
  then show ?thesis by (simp add: list_for_conversation_def get_owned_def rows_of_def d')
qed

lemma log_history: "req_create i now r d = Inr (row, d') \<Longrightarrow> list_for_conversation cid uid d' = list_for_conversation cid uid d"
  by (auto simp: req_create_Inr list_for_conversation_def get_owned_def rows_of_def)

definition alone :: "'r genv \<Rightarrow> bool" where
  "alone base \<longleftrightarrow> (\<forall>n d. tx_others (ge_txn base n) d = d)"

text \<open>What a turn's question looks like in the history.\<close>

definition asks :: "IdempotentMessage \<Rightarrow> CanonicalMessage \<Rightarrow> bool" where
  "asks i m \<longleftrightarrow> cm_role m = input_role (im_role i) \<and> hd (cm_content m) = TextBlock (im_content i)"

lemma on_store_Inr: "on_store f g = (Inr x, g') \<longleftrightarrow> (\<exists>d. f (gs_store g) = Inr (x, d) \<and> g' = g\<lparr>gs_store := d\<rparr>)"
  by (auto simp: on_store_def split: sum.splits)

lemma glift_Inr: "glift y g = (Inr x, g') \<longleftrightarrow> y = Inr x \<and> g' = g"
  by (cases y) (auto simp: glift_def graise_def greturn_def)

lemma append_inbound_history:
  assumes "append_inbound x cid uid owned n msgs g = (Inr (), g')" "store_reachable (gs_store g)" "list_for_conversation cid uid (gs_store g) = Inr ms"
  shows "\<exists>asked. list_for_conversation cid uid (gs_store g') = Inr (ms @ asked) \<and> list_all2 asks msgs asked \<and> store_reachable (gs_store g')"
  using assms
proof (induction msgs arbitrary: n g ms)
  case Nil
  then show ?case by (auto simp: greturn_def)
next
  case (Cons i msgs)
  from Cons.prems(1) obtain refs m d1 where a: "msg_append (tx_message_id x n) (tx_now x) cid uid (input_role (im_role i)) (TextBlock (im_content i) # refs) None None (gs_store g) = Inr (m, d1)"
    and rest: "append_inbound x cid uid owned (Suc n) msgs (g\<lparr>gs_store := d1\<rparr>) = (Inr (), g')"
    by (auto simp: gbind_Inr glift_Inr on_store_Inr simp del: input_role.simps)
  note h = append_history [OF Cons.prems(2,3) a]
  from Cons.IH [OF rest, of "ms @ [m]"] h(1,5) obtain asked where "list_for_conversation cid uid (gs_store g') = Inr ((ms @ [m]) @ asked)" "list_all2 asks msgs asked"
    "store_reachable (gs_store g')" by auto
  moreover have "asks i m" using h(2) by (simp add: asks_def message_of_def)
  ultimately show ?case by (intro exI [of _ "m # asked"]) simp
qed

lemma resolve_history:
  assumes "resolve_conversation x caller body g = (Inr c, g1)" "store_reachable (gs_store g)" "list_for_conversation (cv_id c) (pr_user_id caller) (gs_store g) = Inr ms"
  shows "list_for_conversation (cv_id c) (pr_user_id caller) (gs_store g1) = Inr ms \<and> store_reachable (gs_store g1)"
proof (cases "iq_conversation_id body")
  case None
  then obtain d1 where a: "conv_create (tx_conversation_id x) (tx_now x) (pr_user_id caller) None (iq_model body) (gs_store g) = Inr (c, d1)" "gs_store g1 = d1"
    using assms(1) by (auto simp: resolve_conversation_def on_store_Inr)
  then have d1: "d1 = (gs_store g)\<lparr>sto_conversations := sto_conversations (gs_store g) @ [c]\<rparr>" "cv_id c \<notin> cv_id ` set (sto_conversations (gs_store g))"
    by (auto simp: conv_create_def Let_def list_ex_iff split: if_splits)
  have "\<forall>m\<in>set (sto_messages (gs_store g)). mg_conversation_id m \<noteq> cv_id c" using store_reachable_ok [OF assms(2)] d1(2) unfolding store_ok_def by (metis image_subset_iff)
  then have "filter (\<lambda>m. mg_conversation_id m = cv_id c) (sto_messages (gs_store g)) = []" by (simp add: filter_empty_conv)
  then have "rows_of (cv_id c) (gs_store g) = []" by (simp add: rows_of_def)
  moreover have "get_owned (cv_id c) (pr_user_id caller) (gs_store g) = None"
    using d1(2) unfolding get_owned_def find_None_iff is_owned_def by (metis image_eqI)
  ultimately have "ms = []" "list_for_conversation (cv_id c) (pr_user_id caller) d1 = Inr []" using assms(3) by (simp_all add: list_for_conversation_def d1 rows_of_def)
  then show ?thesis using a assms(2) store_reachable.go [OF _ step_create] by auto
next
  case (Some cid)
  then have "g1 = g" using assms(1)
    by (auto simp: resolve_conversation_def gbind_Inr on_store_Inr graise_def greturn_def split: option.splits if_splits)
  then show ?thesis using assms by simp
qed

lemma open_turn_history:
  assumes "alone (cn_base env)" "open_turn env caller body g = (Inr c, g1)" "store_reachable (gs_store g)"
    "list_for_conversation (cv_id c) (pr_user_id caller) (gs_store g) = Inr ms"
  shows "\<exists>asked. list_for_conversation (cv_id c) (pr_user_id caller) (gs_store g1) = Inr (ms @ asked) \<and> list_all2 asks (iq_messages body) asked \<and> store_reachable (gs_store g1)"
proof -
  let ?x = "ge_txn (cn_base env) (gs_txns g)"
  have "(g\<lparr>gs_store := tx_others ?x (gs_store g), gs_txns := Suc (gs_txns g)\<rparr>) = g\<lparr>gs_txns := Suc (gs_txns g)\<rparr>" using assms(1) by (simp add: alone_def)
  with transaction_commits(1) [OF assms(2) [unfolded open_turn_def]] obtain g2 g3 owned where
    r: "resolve_conversation ?x caller body (g\<lparr>gs_txns := Suc (gs_txns g)\<rparr>) = (Inr c, g2)"
    and i: "append_inbound ?x (cv_id c) (pr_user_id caller) owned 0 (iq_messages body) g2 = (Inr (), g3)"
    and t: "\<exists>b. touch (tx_clock ?x) (cv_id c) (pr_user_id caller) (Some (iq_model body)) (gs_store g3) = (b, gs_store g1)"
    by (auto simp: gbind_Inr glift_Inr on_store_Inr greturn_def)
  have h2: "list_for_conversation (cv_id c) (pr_user_id caller) (gs_store g2) = Inr ms" "store_reachable (gs_store g2)"
    using resolve_history [OF r] assms(3,4) by auto
  from append_inbound_history [OF i h2(2,1)] obtain asked where "list_for_conversation (cv_id c) (pr_user_id caller) (gs_store g3) = Inr (ms @ asked)"
    "list_all2 asks (iq_messages body) asked" "store_reachable (gs_store g3)" by blast
  moreover obtain b where "touch (tx_clock ?x) (cv_id c) (pr_user_id caller) (Some (iq_model body)) (gs_store g3) = (b, gs_store g1)" using t by blast
  ultimately show ?thesis using update_history [OF own_updates(1)] store_reachable.go [OF _ step_touch] by metis
qed

lemma on_log_Inr: "on_log f g = (Inr u, g') \<longleftrightarrow> (\<exists>row d mr. f (gs_metrics g) (gs_store g) = (Inr (row, d), mr) \<and> g' = g\<lparr>gs_store := d, gs_metrics := mr\<rparr>)"
  by (auto simp: on_log_def split: sum.splits prod.splits)

lemma facade_history:
  "fst (record_turn_success rid now caller spec slot usage ms c hit trail swapped wasted scope pool mode mr d) = Inr (row, d') \<Longrightarrow>
    list_for_conversation cid uid d' = list_for_conversation cid uid d"
  "fst (record_cache_hit rid now caller provider model cslot slot ms c swapped scope mr d) = Inr (row, d') \<Longrightarrow>
    list_for_conversation cid uid d' = list_for_conversation cid uid d"
  "fst (record_failed rid now caller err slot ms mspec c trail swapped scope pool mode mr d) = Inr (row, d') \<Longrightarrow>
    list_for_conversation cid uid d' = list_for_conversation cid uid d"
  by (auto simp: record_turn_success_def record_cache_hit_def record_failed_def intro: log_history)

lemma alone_transaction:
  assumes "alone base"
  shows "transaction base body g = (Inl e, g') \<Longrightarrow> gs_store g' = gs_store g"
    "transaction base body g = (Inr y, g') \<Longrightarrow> body (ge_txn base (gs_txns g)) (g\<lparr>gs_txns := Suc (gs_txns g)\<rparr>) = (Inr y, g')"
  using assms transaction_store [of base body g e g'] transaction_commits(1) [of base body g y g'] by (auto simp: alone_def)

text \<open>The answer of a turn is the one message its transaction adds.\<close>

lemma store_answer_history:
  assumes "alone (cn_base env)" "store_answer env caller body c history oc ms g = (Inr m, g')" "store_reachable (gs_store g)"
    "list_for_conversation (cv_id c) (pr_user_id caller) (gs_store g) = Inr h"
  shows "list_for_conversation (cv_id c) (pr_user_id caller) (gs_store g') = Inr (h @ [m]) \<and> cm_role m = Assistant \<and> cm_content m = [TextBlock (cp_text (ro_completion oc))]"
proof -
  let ?x = "ge_txn (cn_base env) (gs_txns g)" and ?cid = "cv_id c" and ?uid = "pr_user_id caller"
  from alone_transaction(2) [OF assms(1) assms(2) [unfolded store_answer_def]] obtain d1 g2 where
    a: "msg_append (tx_message_id ?x 0) (tx_now ?x) ?cid ?uid Assistant [TextBlock (cp_text (ro_completion oc))] (Some (outcome_meta oc (iq_model body))) None (gs_store g) = Inr (m, d1)"
    and p: "(case (if cv_pinned_model c = None then pin_target (history @ [m]) else None) of
         Some model \<Rightarrow> gbind (on_store (\<lambda>d. Inr (set_pinned (tx_clock ?x) ?cid ?uid model d))) (\<lambda>_. greturn ())
       | None \<Rightarrow> greturn ()) (g\<lparr>gs_txns := Suc (gs_txns g), gs_store := d1\<rparr>) = (Inr (), g2)"
    and l: "\<exists>row. fst (record_turn_success (tx_request_id ?x) (tx_now ?x) caller (ro_spec oc) (iq_model body) (cp_usage (ro_completion oc)) ms (Some ?cid)
       False (ro_trail oc) (is_substitution (iq_model body) (ms_slot (ro_spec oc))) 0 (quota_scope_for (Some (ro_key_pool oc)) ?uid)
       (Some (ro_key_pool oc)) COMPLETE (gs_metrics g2) (gs_store g2)) = Inr (row, gs_store g')"
    by (auto simp: Let_def gbind_Inr on_store_Inr on_log_Inr greturn_def)
  note h = append_history [OF assms(3,4) a]
  have "list_for_conversation ?cid ?uid (gs_store g2) = list_for_conversation ?cid ?uid d1"
  proof (cases "if cv_pinned_model c = None then pin_target (history @ [m]) else None")
    case None
    then show ?thesis using p by (simp only: option.case) (auto simp: greturn_def)
  next
    case (Some model)
    then have "\<exists>b. set_pinned (tx_clock ?x) ?cid ?uid model d1 = (b, gs_store g2)" using p by (simp only: option.case) (auto simp: gbind_Inr on_store_Inr greturn_def)
    then show ?thesis using update_history [OF own_updates(2)] by blast
  qed
  then show ?thesis using h(1,2) l facade_history(1) [of "tx_request_id ?x"] by (auto simp: message_of_def)
qed

lemma hit_history:
  assumes "alone (cn_base env)" "serve_cache_hit env caller body c v started g = (out, g')" "store_reachable (gs_store g)"
    "list_for_conversation (cv_id c) (pr_user_id caller) (gs_store g) = Inr h"
  shows "case out of Inl e \<Rightarrow> gs_store g' = gs_store g
    | Inr (JsonReply r _ _) \<Rightarrow> (\<exists>m. list_for_conversation (cv_id c) (pr_user_id caller) (gs_store g') = Inr (h @ [m]) \<and> cm_role m = Assistant \<and>
        cm_content m = [TextBlock (cr_text v)] \<and> cm_id m = re_message_id r \<and> re_conversation_id r = cv_id c \<and> map ch_message (re_choices r) = [cr_text v])
    | Inr (StreamReply _ _ _ _) \<Rightarrow> False"
proof -
  let ?x = "ge_txn (cn_base env) (gs_txns g)" and ?cid = "cv_id c" and ?uid = "pr_user_id caller"
  let ?t = "transaction (cn_base env) (\<lambda>x.
       gbind (on_store (msg_append (tx_message_id x 0) (tx_now x) (cv_id c) (pr_user_id caller) Assistant [TextBlock (cr_text v)]
         (Some (hit_meta v (iq_model body))) None)) (\<lambda>assistant.
       gbind (chat_elapsed_ms env started) (\<lambda>ms.
       gbind (on_log (record_cache_hit (tx_request_id x) (tx_now x) caller (cr_provider v) (cr_model v) (cr_slot v) (iq_model body) ms
         (Some (cv_id c)) (is_substitution (iq_model body) (cr_slot v)) SYSTEM_SCOPE)) (\<lambda>_.
       greturn assistant))))"
  show ?thesis
  proof (cases "?t g")
    case (Pair res g1)
    show ?thesis
    proof (cases res)
      case (Inl e)
      then show ?thesis using assms(2) Pair alone_transaction(1) [OF assms(1)] by (auto simp: serve_cache_hit_def gbind_def)
    next
      case (Inr m)
      have g': "gs_store g' = gs_store g1" and out: "\<exists>now. out = Inr (JsonReply (hit_response now (or_label (cn_context_id env) (cm_id m)) v (cr_finish_reason v) (iq_model body)
          (pin_warning (cv_pinned_model c) (iq_model body) (cr_slot v)) ?cid (cm_id m)) HIT False)"
        using assms(2) Pair Inr by (auto simp: serve_cache_hit_def gbind_def [of ?t] greturn_def)
      from alone_transaction(2) [OF assms(1) Pair [unfolded Inr]] obtain d1 where
        a: "msg_append (tx_message_id ?x 0) (tx_now ?x) ?cid ?uid Assistant [TextBlock (cr_text v)] (Some (hit_meta v (iq_model body))) None (gs_store g) = Inr (m, d1)"
        and l: "\<exists>row ms mr mr'. record_cache_hit (tx_request_id ?x) (tx_now ?x) caller (cr_provider v) (cr_model v) (cr_slot v) (iq_model body) ms
           (Some ?cid) (is_substitution (iq_model body) (cr_slot v)) SYSTEM_SCOPE mr d1 = (Inr (row, gs_store g1), mr')"
        by (auto simp: gbind_Inr on_store_Inr on_log_Inr greturn_def chat_elapsed_ms_def perf_now_def) blast
      note h = append_history [OF assms(3,4) a]
      have "list_for_conversation ?cid ?uid (gs_store g') = Inr (h @ [m])" using g' l h(1) facade_history(2) [of "tx_request_id ?x"] by (metis fst_conv)
      then show ?thesis using out h(2) by (auto simp: message_of_def hit_response_def one_choice_def)
    qed
  qed
qed

lemma cached_answer_store: "gs_store (snd (cached_answer env key g)) = gs_store g"
  by (auto simp: cached_answer_def gbind_def on_redis_def glift_def greturn_def graise_def Let_def split: option.split prod.split sum.split)

lemma call_router_store: "gs_store (snd (call_router env c history body g)) = gs_store g"
  by (auto simp: call_router_def split: prod.split sum.split)

lemma elapsed_run: "\<exists>ms. chat_elapsed_ms env t g = (Inr ms, g\<lparr>gs_reads := Suc (gs_reads g)\<rparr>)"
  by (simp add: chat_elapsed_ms_def gbind_def perf_now_def greturn_def)

lemma perf_bind [simp]: "gbind (perf_now env) f g = f (cn_perf env (gs_reads g)) (g\<lparr>gs_reads := Suc (gs_reads g)\<rparr>)"
  by (simp add: gbind_def perf_now_def)

lemma elapsed_bind: "\<exists>ms. gbind (chat_elapsed_ms env t) f g = f ms (g\<lparr>gs_reads := Suc (gs_reads g)\<rparr>)"
  using elapsed_run [of env t g] by (auto simp: gbind_def)

lemma put_answer_run: "\<exists>g'. put_answer env body history key oc g = (Inr (), g') \<and> gs_store g' = gs_store g"
  by (cases key; cases "cn_cache env \<and> is_cacheable (iq_temperature body) history (rr_degraded (ro_report oc)) (rr_truncated (ro_report oc))")
    (auto simp: put_answer_def greturn_def)

lemma log_failure_history:
  assumes "alone (cn_base env)"
  shows "\<exists>e g'. log_failure env caller body c mode f started g = (Inl e :: failure + 'a, g') \<and> list_for_conversation cid uid (gs_store g') = list_for_conversation cid uid (gs_store g)"
proof -
  let ?g = "g\<lparr>gs_reads := Suc (gs_reads g)\<rparr>"
  obtain ms where ms: "log_failure env caller body c mode f started g = gbind (transaction (cn_base env) (\<lambda>x. on_log (record_failed (tx_request_id x) (tx_now x) caller (rf_error f)
     (iq_model body) ms (rf_spec f) (Some c) (rf_trail f) False (quota_scope_for (rf_key_pool f) (pr_user_id caller)) (rf_key_pool f) mode))) (\<lambda>_. graise (app_failure (rf_error f)) :: _ \<Rightarrow> (failure + 'a) \<times> _) ?g"
    (is "_ = gbind ?t _ _")
    unfolding log_failure_def using elapsed_bind by blast
  show ?thesis
  proof (cases "?t ?g")
    case (Pair res g1)
    show ?thesis
    proof (cases res)
      case (Inl e)
      have "gs_store g1 = gs_store g" using alone_transaction(1) [OF assms Pair [unfolded Inl]] by simp
      then show ?thesis using Pair ms Inl by (auto simp: gbind_def)
    next
      case (Inr u)
      from alone_transaction(2) [OF assms Pair [unfolded Inr]] facade_history(3)
      have "list_for_conversation cid uid (gs_store g1) = list_for_conversation cid uid (gs_store g)" by (auto simp: on_log_Inr) (metis fst_conv)
      then show ?thesis using Pair ms Inr by (auto simp: gbind_def graise_def)
    qed
  qed
qed

text \<open>What a reply says of the history behind it.\<close>

definition replied :: "string \<Rightarrow> CanonicalMessage list \<Rightarrow> store \<Rightarrow> string \<Rightarrow> failure + chat_reply \<Rightarrow> bool" where
  "replied cid h d uid out \<longleftrightarrow> (case out of
      Inl e \<Rightarrow> list_for_conversation cid uid d = Inr h
    | Inr (JsonReply r _ _) \<Rightarrow> (\<exists>m t. list_for_conversation cid uid d = Inr (h @ [m]) \<and> cm_role m = Assistant \<and> cm_content m = [TextBlock t] \<and>
        cm_id m = re_message_id r \<and> re_conversation_id r = cid \<and> map ch_message (re_choices r) = [t])
    | Inr (StreamReply _ _ _ _) \<Rightarrow> False)"

lemma routed_history:
  assumes "alone (cn_base env)" "store_reachable (gs_store g)" "list_for_conversation (cv_id c) (pr_user_id caller) (gs_store g) = Inr h"
    and run: "gbind (store_answer env caller body c history oc ms) (\<lambda>assistant. gbind (put_answer env body history key oc) (\<lambda>_.
      gbind (wall_now (cn_base env)) (\<lambda>now. greturn (JsonReply (outcome_response now (or_label (cn_context_id env) (cm_id assistant)) oc (iq_model body)
        (pin_warning (cv_pinned_model c) (iq_model body) (ms_slot (ro_spec oc))) (cv_id c) (cm_id assistant)) status False)))) g = (out, g')"
  shows "replied (cv_id c) h (gs_store g') (pr_user_id caller) out"
proof -
  obtain m g3 where st: "store_answer env caller body c history oc ms g = (m, g3)" by (metis prod.exhaust)
  show ?thesis
  proof (cases m)
    case (Inl e)
    then have "gs_store g3 = gs_store g" using st alone_transaction(1) [OF assms(1), of _ g] by (simp add: store_answer_def)
    then show ?thesis using run st Inl assms(3) by (auto simp: gbind_def [of "store_answer env caller body c history oc ms"] replied_def)
  next
    case a: (Inr assistant)
    have h: "list_for_conversation (cv_id c) (pr_user_id caller) (gs_store g3) = Inr (h @ [assistant]) \<and> cm_role assistant = Assistant \<and>
        cm_content assistant = [TextBlock (cp_text (ro_completion oc))]"
      by (rule store_answer_history [OF assms(1) st [unfolded a] assms(2,3)])
    obtain g4 where g4: "put_answer env body history key oc g3 = (Inr (), g4)" "gs_store g4 = gs_store g3" using put_answer_run by blast
    show ?thesis using run st a g4 h
      by (auto simp: gbind_def [of "store_answer env caller body c history oc ms"] gbind_def [of "put_answer env body history key oc"] greturn_def replied_def
          outcome_response_def one_choice_def Let_def)
  qed
qed

lemma answer_turn_history:
  assumes "alone (cn_base env)" "store_reachable (gs_store g)" "list_for_conversation (cv_id c) (pr_user_id caller) (gs_store g) = Inr h"
    "answer_turn env caller body c history g = (out, g')"
  shows "replied (cv_id c) h (gs_store g') (pr_user_id caller) out"
proof -
  let ?g = "g\<lparr>gs_reads := Suc (gs_reads g)\<rparr>" and ?key = "cache_key_of env body history" and ?st = "cn_perf env (gs_reads g)"
  obtain hit g1 where hit: "cached_answer env ?key ?g = (hit, g1)" by (metis prod.exhaust)
  have s1: "gs_store g1 = gs_store g" using cached_answer_store [of env ?key ?g] hit by simp
  show ?thesis
  proof (cases hit)
    case (Inl e)
    then show ?thesis using assms(3,4) hit s1 by (auto simp: answer_turn_def Let_def gbind_def [of "cached_answer env ?key"] replied_def)
  next
    case (Inr o1)
    show ?thesis
    proof (cases o1)
      case (Some v)
      then have "serve_cache_hit env caller body c v ?st g1 = (out, g')"
        using assms(4) hit Inr by (simp add: answer_turn_def Let_def gbind_def [of "cached_answer env ?key"])
      from hit_history [OF assms(1) this] show ?thesis using assms(2,3) s1 by (auto simp: replied_def split: sum.splits chat_reply.splits)
    next
      case None
      obtain r g2 where r: "call_router env c history body g1 = (r, g2)" by (metis prod.exhaust)
      have s2: "gs_store g2 = gs_store g" using call_router_store [of env c history body g1] r s1 by simp
      note run = assms(4) [unfolded answer_turn_def Let_def perf_bind gbind_def [of "cached_answer env ?key"] hit Inr None option.case sum.case prod.case
          gbind_def [of "call_router env c history body"] r]
      show ?thesis
      proof (cases r)
        case (Inl e)
        then show ?thesis using run assms(3) s2 by (auto simp: replied_def)
      next
        case r1: (Inr r1)
        show ?thesis
        proof (cases r1)
          case (Inl f)
          then have "log_failure env caller body (cv_id c) COMPLETE f ?st g2 = (out, g')" using run r1 by simp
          moreover obtain e g3 where "log_failure env caller body (cv_id c) COMPLETE f ?st g2 = (Inl e :: failure + chat_reply, g3)"
            "list_for_conversation (cv_id c) (pr_user_id caller) (gs_store g3) = Inr h"
            using log_failure_history [OF assms(1), where 'a = chat_reply] assms(3) s2 by metis
          ultimately show ?thesis by (auto simp: replied_def)
        next
          case (Inr oc)
          obtain ms where ms: "chat_elapsed_ms env ?st g2 = (Inr ms, g2\<lparr>gs_reads := Suc (gs_reads g2)\<rparr>)" using elapsed_run by blast
          show ?thesis
            by (rule routed_history [OF assms(1) _ _ run [unfolded r1 sum.case Inr prod.case gbind_def [of "chat_elapsed_ms env ?st"] ms]]) (use assms(2,3) s2 in simp_all)
        qed
      qed
    qed
  qed
qed


subsection \<open>The claim of a request\<close>

lemma quiet_client_call: "quiet (snd (client_call op w)) = quiet w"
  by (auto simp: client_call_def Let_def quiet_def split: delivery.splits prod.splits)

lemma quiet_ticket: "quiet (ticket_complete R t body cs w) = quiet w" "quiet (ticket_release R t w) = quiet w"
  by (auto simp: ticket_complete_def idem_complete_def ticket_release_def release_claim_def quiet_client_call split: sum.split)

lemma claimed_run:
  assumes "validate_slot env (iq_model body) = Inr ()" "validated_idempotency_key raw = Inr key" "t = ticket_for env caller body key"
    and "claim_for env t g = (Inr Claimed, g0)"
  shows "create_chat_completion env caller body (Some raw) g = under_claim env (Some t) (serve_completion env caller body (Some t)) g0"
  using assms by (simp add: create_chat_completion_def glift_def Let_def gbind_def [of "claim_for env (ticket_for env caller body key)"])

lemma replay_run:
  assumes "validate_slot env (iq_model body) = Inr ()" "validated_idempotency_key raw = Inr key" "t = ticket_for env caller body key"
    and "claim_for env t g = (Inr (Replay e), g0)"
  shows "create_chat_completion env caller body (Some raw) g = gbind (serve_replay env caller body e) (\<lambda>r. case r of
      Some reply \<Rightarrow> greturn reply | None \<Rightarrow> under_claim env None (serve_completion env caller body None)) g0"
  using assms by (simp add: create_chat_completion_def glift_def Let_def gbind_def [of "claim_for env (ticket_for env caller body key)"])

lemma claim_for_store: "gs_store (snd (claim_for env t g)) = gs_store g"
  by (auto simp: claim_for_def gbind_def on_redis_def greturn_def graise_def Let_def split: sum.split prod.split)

lemma claim_for_again:
  assumes "claim_again (ge_redis (cn_base env)) t (ct_request_id t) (gs_world g) = Inr c"
  obtains w where "claim_for env t g = (Inr c, put_world (\<lambda>_. w) g)"
  using assms
  by (cases "claim (ge_redis (cn_base env)) (ct_key t) (ct_user_id t) (ct_fingerprint t) (ct_request_id t) (ct_stream t) (gs_world g)")
    (auto simp: claim_again_def claim_for_def gbind_def on_redis_def greturn_def put_world_def)

text \<open>C39: a request that fails frees its key: whatever went wrong after the claim, a retry with the same key may claim it again.\<close>

theorem failure_frees_the_key:
  assumes "redis_server (ge_redis (cn_base env)) view" "quiet (gs_world g1)" "idempotency (ct_user_id t) (ct_key t) = Inr k"
    and "validate_slot env (iq_model body) = Inr ()" "validated_idempotency_key raw = Inr key" "t = ticket_for env caller body key"
    and "fst (claim_for env t g) = Inr Claimed" "create_chat_completion env caller body (Some raw) g = (Inl e, g1)"
  shows "claim_again (ge_redis (cn_base env)) t rid (gs_world g1) = Inr Claimed"
proof -
  obtain g0 where g0: "claim_for env t g = (Inr Claimed, g0)" using assms(7) by (cases "claim_for env t g") auto
  obtain out gs where s: "serve_completion env caller body (Some t) g0 = (out, gs)" by (metis prod.exhaust)
  have "gs_world g1 = ticket_release (ge_redis (cn_base env)) t (gs_world gs)"
    using assms(8) claimed_run [OF assms(4-6) g0] s by (cases out) (auto simp: under_claim_def gbind_def graise_def greturn_def split: chat_reply.splits)
  then show ?thesis using released_claim_is_free [OF assms(1) _ assms(3)] assms(2) quiet_ticket(2) by metis
qed

lemma answer_status:
  assumes "answer_turn env caller body c history g = (Inr (JsonReply r s b), g')"
  shows "s \<noteq> [] \<and> \<not> b"
  using assms
  by (auto simp: answer_turn_def Let_def gbind_Inr serve_cache_hit_def greturn_def log_failure_def graise_def HIT_def MISS_def BYPASS_def split: option.splits sum.splits if_splits)
    (metis sum.exhaust)+

lemma served_reply:
  assumes "alone (cn_base env)" "store_reachable (gs_store g)" "\<not> iq_stream body" "serve_completion env caller body ticket g = (Inr (JsonReply r s b), g')"
  shows "s \<noteq> []" "re_conversation_id r \<in> cv_id ` set (sto_conversations (gs_store g'))"
proof -
  from assms(3,4) obtain c g1 history g2 where o: "open_turn env caller body g = (Inr c, g1)" "read_history env (cv_id c) (pr_user_id caller) g1 = (Inr history, g2)"
    "answer_turn env caller body c history g2 = (Inr (JsonReply r s b), g')" by (auto simp: serve_completion_def gbind_Inr)
  show "s \<noteq> []" using answer_status [OF o(3)] by simp
  have g2: "gs_store g2 = gs_store g1" "list_for_conversation (cv_id c) (pr_user_id caller) (gs_store g2) = Inr history"
    using o(2) assms(1) by (auto simp: read_history_def alone_def Let_def)
  have "store_reachable (gs_store g1)"
  proof -
    obtain ms where "list_for_conversation (cv_id c) (pr_user_id caller) (gs_store g) = Inr ms"
      using stored_history [OF assms(2), of "cv_id c"] by (metis list_for_conversation_def)
    then show ?thesis using open_turn_history [OF assms(1) o(1) assms(2)] by blast
  qed
  then have "replied (cv_id c) history (gs_store g') (pr_user_id caller) (Inr (JsonReply r s b))"
    using answer_turn_history [OF assms(1) _ g2(2) o(3)] g2(1) by simp
  then obtain h where "list_for_conversation (cv_id c) (pr_user_id caller) (gs_store g') = Inr h" "h \<noteq> []" "re_conversation_id r = cv_id c" by (auto simp: replied_def)
  then show "re_conversation_id r \<in> cv_id ` set (sto_conversations (gs_store g'))"
    using owned_conversation [of "cv_id c" "pr_user_id caller"] by (auto simp: list_for_conversation_def split: if_splits)
qed

lemma replay_once:
  assumes "alone (cn_base env)" "\<not> iq_stream body" "Option.bind (ie_response e) (response_validate (cn_validator env)) = Some r"
    and x: "x = ge_txn (cn_base env) (gs_txns g)" "\<not> tx_fails x" "tx_request_id x \<notin> rq_id ` set (sto_requests (gs_store g))"
    and "re_conversation_id r \<in> cv_id ` set (sto_conversations (gs_store g))"
  shows "\<exists>g' row. serve_replay env caller body e g = (Inr (Some (JsonReply r (or_label (ie_cache_status e) BYPASS) True)), g') \<and>
    gs_store g' = (gs_store g)\<lparr>sto_requests := sto_requests (gs_store g) @ [row]\<rparr> \<and> rq_status row = STATUS_REPLAYED \<and> rq_conversation_id row = Some (re_conversation_id r) \<and>
    gs_router g' = gs_router g"
proof -
  let ?g = "g\<lparr>gs_reads := Suc (gs_reads g)\<rparr>"
  obtain ms where ms: "chat_elapsed_ms env (cn_perf env (gs_reads g)) ?g = (Inr ms, ?g\<lparr>gs_reads := Suc (gs_reads ?g)\<rparr>)" using elapsed_run by blast
  have others: "tx_others x d = d" for d using assms(1) x(1) by (simp add: alone_def)
  have q: "req_create (tx_request_id x) (tx_now x) (turn_row caller STATUS_REPLAYED (iq_model body) (Some (re_conversation_id r)) ms) (gs_store g) =
      Inr ((turn_row caller STATUS_REPLAYED (iq_model body) (Some (re_conversation_id r)) ms)\<lparr>rq_id := tx_request_id x, rq_created_at := tx_now x\<rparr>,
        (gs_store g)\<lparr>sto_requests := sto_requests (gs_store g) @ [(turn_row caller STATUS_REPLAYED (iq_model body) (Some (re_conversation_id r)) ms)\<lparr>rq_id := tx_request_id x, rq_created_at := tx_now x\<rparr>]\<rparr>)"
    using x(3) assms(7) by (simp add: req_create_Inr turn_row_def)
  show ?thesis
    unfolding serve_replay_def assms(3) option.case perf_bind gbind_def [of "chat_elapsed_ms env _"] ms Let_def sum.case prod.case
    using x(1,2) others q assms(2)
    by (simp add: gbind_def transaction_def Let_def on_log_def record_replay_def greturn_def)
      (rule exI, rule conjI, rule refl, simp add: turn_row_def request_row_def)
qed


text \<open>When the conversation was deleted meanwhile, the log row of the replay violates its foreign key: the retry is a 500.\<close>

lemma replay_after_delete_fails:
  assumes "alone (cn_base env)" "validate_slot env (iq_model body) = Inr ()" "validated_idempotency_key raw = Inr key" "t = ticket_for env caller body key"
    and "claim_for env t g = (Inr (Replay e), g0)" "Option.bind (ie_response e) (response_validate (cn_validator env)) = Some r"
    and "re_conversation_id r \<notin> cv_id ` set (sto_conversations (gs_store g0))"
  shows "fst (create_chat_completion env caller body (Some raw) g) = Inl integrity_error"
proof -
  let ?g = "g0\<lparr>gs_reads := Suc (gs_reads g0)\<rparr>"
  obtain ms where ms: "chat_elapsed_ms env (cn_perf env (gs_reads g0)) ?g = (Inr ms, ?g\<lparr>gs_reads := Suc (gs_reads ?g)\<rparr>)" using elapsed_run by blast
  have others: "tx_others (ge_txn (cn_base env) n) d = d" for n d using assms(1) by (simp add: alone_def)
  have "req_create i now (turn_row caller STATUS_REPLAYED (iq_model body) (Some (re_conversation_id r)) ms) (gs_store g0) = Inl integrity_error" for i now
  proof -
    have "\<not> list_ex (\<lambda>v. cv_id v = re_conversation_id r) (sto_conversations (gs_store g0))" unfolding list_ex_iff using assms(7) by (metis imageI)
    then show ?thesis by (simp add: req_create_def turn_row_def)
  qed
  then have "fst (serve_replay env caller body e g0) = Inl integrity_error"
    unfolding serve_replay_def assms(6) option.case perf_bind gbind_def [of "chat_elapsed_ms env _"] ms Let_def sum.case prod.case
    using others by (simp add: gbind_def transaction_def Let_def on_log_def record_replay_def)
  then show ?thesis unfolding replay_run [OF assms(2-5)] by (cases "serve_replay env caller body e g0") (auto simp: gbind_def)
qed

subsection \<open>A request\<close>

definition ex_base :: "'r redis \<Rightarrow> 'r genv" where
  "ex_base R = (ex_genv R)\<lparr>ge_txn := (\<lambda>n. ex_txn\<lparr>tx_message_id := (\<lambda>i. replicate (Suc n) (CHR ''x'') @ replicate i (CHR ''y'')), tx_request_id := replicate (Suc n) (CHR ''z'')\<rparr>)\<rparr>"

definition ex_chat :: "'r redis \<Rightarrow> ('r, unit) renv \<Rightarrow> ('r, unit) chat_env" where
  "ex_chat R routing = \<lparr>cn_base = ex_base R, cn_routing = (\<lambda>_ _. routing),
     cn_registry = \<lparr>pr_specs = [(''general'', [ex_slot ''a'' 0])], pr_adapters = [''p''], pr_keys = [(''p'', ''k'')], pr_internal_slots = [], pr_private_key_only_slots = []\<rparr>,
     cn_private = (\<lambda>_. Inr False), cn_files = [], cn_cache = True, cn_sha256 = (\<lambda>_. ''h''), cn_validator = strict_validator, cn_context_id = Some ''r'', cn_uuid = ''r'',
     cn_message_uuid = ''m'', cn_perf = (\<lambda>_. 0), cn_wakes = ex_wakes\<rparr>"

definition ex_caller :: Principal where
  "ex_caller = \<lparr>pr_user_id = ''u'', pr_auth_method = Am_session, pr_api_key_id = None, pr_tier = ''free''\<rparr>"

definition ex_body :: "string option \<Rightarrow> IdempotentRequest" where
  "ex_body cid = \<lparr>iq_model = AUTO, iq_messages = [\<lparr>im_role = ''user'', im_content = ''again'', im_file_refs = []\<rparr>], iq_conversation_id = cid,
     iq_temperature = 0, iq_max_tokens = None, iq_top_p = None, iq_stop = [], iq_stream = False\<rparr>"

definition ex_conversation :: Conversation where
  "ex_conversation = \<lparr>cv_id = ''c'', cv_user_id = ''u'', cv_title = None, cv_preferred_slot = ''auto'', cv_pinned_model = None, cv_created_at = 0, cv_updated_at = 0\<rparr>"

definition ex_follow_up :: CanonicalMessage where
  "ex_follow_up = message_of ''x'' 2 ''c'' 1 User [TextBlock ''again''] default_meta"

definition ex_turn_opened :: store where
  "ex_turn_opened = snd (touch 2 ''c'' ''u'' (Some AUTO) (snd (projr (msg_append ''x'' 2 ''c'' ''u'' User [TextBlock ''again''] None None ex_asked))))"

lemma ex_open_steps: "get_owned ''c'' ''u'' ex_asked = Some ex_conversation"
  "\<exists>d b. msg_append ''x'' 2 ''c'' ''u'' User [TextBlock ''again''] None None ex_asked = Inr (ex_follow_up, d) \<and> touch 2 ''c'' ''u'' (Some AUTO) d = (b, ex_turn_opened)"
  "list_for_conversation ''c'' ''u'' ex_turn_opened = Inr [ex_question, ex_follow_up]"
proof -
  show "get_owned ''c'' ''u'' ex_asked = Some ex_conversation" by code_simp
  have "case msg_append ''x'' 2 ''c'' ''u'' User [TextBlock ''again''] None None ex_asked of Inl _ \<Rightarrow> False | Inr (m, _) \<Rightarrow> m = ex_follow_up" by code_simp
  then show "\<exists>d b. msg_append ''x'' 2 ''c'' ''u'' User [TextBlock ''again''] None None ex_asked = Inr (ex_follow_up, d) \<and> touch 2 ''c'' ''u'' (Some AUTO) d = (b, ex_turn_opened)"
    by (auto simp: ex_turn_opened_def split: sum.splits prod.splits) (metis prod.collapse)
  show "list_for_conversation ''c'' ''u'' ex_turn_opened = Inr [ex_question, ex_follow_up]" by code_simp
qed

definition ex_state :: "store \<Rightarrow> 'r rstate \<Rightarrow> nat \<Rightarrow> nat \<Rightarrow> 'r gstate" where
  "ex_state d s n r = \<lparr>gs_store = d, gs_metrics = None, gs_router = s, gs_txns = n, gs_reads = r\<rparr>"

lemma ex_open:
  "open_turn (ex_chat R routing) ex_caller (ex_body (Some ''c'')) (ex_state ex_asked s 0 0) = (Inr ex_conversation, ex_state ex_turn_opened s 1 0)"
proof -
  obtain d b where d: "msg_append ''x'' 2 ''c'' ''u'' User [TextBlock ''again''] None None ex_asked = Inr (ex_follow_up, d)" "touch 2 ''c'' ''u'' (Some AUTO) d = (b, ex_turn_opened)"
    using ex_open_steps(2) by blast
  then show ?thesis
    by (simp add: open_turn_def transaction_def Let_def ex_chat_def ex_base_def ex_genv_def ex_txn_def resolve_conversation_def ex_body_def ex_caller_def ex_state_def gbind_def
        glift_def on_store_def greturn_def resolve_file_refs_def ex_open_steps(1) ex_conversation_def)
qed

lemma ex_alone: "alone (cn_base (ex_chat R routing))"
  by (simp add: alone_def ex_chat_def ex_base_def ex_genv_def ex_txn_def)

definition ex_served :: "store" where
  "ex_served = snd (projr (msg_append ''xxx'' 2 ''c'' ''u'' Assistant [TextBlock ''hi''] (Some (hit_meta ex_cached AUTO)) None ex_turn_opened))"

lemma ex_hit_append: "\<exists>m. msg_append ''xxx'' 2 ''c'' ''u'' Assistant [TextBlock ''hi''] (Some (hit_meta ex_cached AUTO)) None ex_turn_opened = Inr (m, ex_served) \<and> cm_id m = ''xxx''"
proof -
  have "case msg_append ''xxx'' 2 ''c'' ''u'' Assistant [TextBlock ''hi''] (Some (hit_meta ex_cached AUTO)) None ex_turn_opened of Inl _ \<Rightarrow> False | Inr (m, _) \<Rightarrow> cm_id m = ''xxx''"
    by code_simp
  then show ?thesis by (auto simp: ex_served_def split: sum.splits prod.splits)
qed

lemma ex_served_rows: "sto_requests ex_served = []" "list_ex (\<lambda>v. cv_id v = ''c'') (sto_conversations ex_served)"
  by code_simp+

lemma ex_state_fields [simp]: "gs_store (ex_state d s n r) = d" "gs_metrics (ex_state d s n r) = None" "gs_router (ex_state d s n r) = s" "gs_txns (ex_state d s n r) = n"
  "gs_reads (ex_state d s n r) = r" "(ex_state d s n r)\<lparr>gs_store := d'\<rparr> = ex_state d' s n r" "(ex_state d s n r)\<lparr>gs_txns := n'\<rparr> = ex_state d s n' r"
  "(ex_state d s n r)\<lparr>gs_reads := r'\<rparr> = ex_state d s n r'" "(ex_state d s n r)\<lparr>gs_metrics := None\<rparr> = ex_state d s n r" "(ex_state d s n r)\<lparr>gs_router := s'\<rparr> = ex_state d s' n r"
  by (simp_all add: ex_state_def)

lemma ex_txns: "tx_others (ge_txn (cn_base (ex_chat R routing)) n) = (\<lambda>d. d)" "tx_now (ge_txn (cn_base (ex_chat R routing)) n) = 2"
  "\<not> tx_fails (ge_txn (cn_base (ex_chat R routing)) n)" "tx_message_id (ge_txn (cn_base (ex_chat R routing)) n) 0 = replicate (Suc n) (CHR ''x'')"
  "tx_request_id (ge_txn (cn_base (ex_chat R routing)) n) = replicate (Suc n) (CHR ''z'')"
  by (simp_all add: ex_chat_def ex_base_def ex_genv_def ex_txn_def)

lemma ex_hit:
  "\<exists>r d. serve_cache_hit (ex_chat R routing) ex_caller (ex_body (Some ''c'')) ex_conversation ex_cached started (ex_state ex_turn_opened s 2 n) = (Inr (JsonReply r HIT False), ex_state d s 3 (Suc (Suc n))) \<and>
     rq_id ` set (sto_requests d) = {''zzz''} \<and> re_conversation_id r = ''c''"
proof -
  obtain m where m: "msg_append ''xxx'' 2 ''c'' ''u'' Assistant [TextBlock ''hi''] (Some (hit_meta ex_cached AUTO)) None ex_turn_opened = Inr (m, ex_served)" using ex_hit_append by blast
  have two: "replicate 2 c = [c, c]" for c :: char by (simp add: eval_nat_numeral)
  have names: "cv_id ex_conversation = ''c''" "pr_user_id ex_caller = ''u''" "iq_model (ex_body (Some ''c'')) = AUTO" "cr_text ex_cached = ''hi''"
    by (simp_all add: ex_conversation_def ex_caller_def ex_body_def ex_cached_def)
  show ?thesis
    unfolding serve_cache_hit_def transaction_def Let_def ex_state_fields ex_txns names
    by (auto simp: gbind_def on_store_def on_log_def m greturn_def wall_now_def chat_elapsed_ms_def perf_now_def record_cache_hit_def req_create_def turn_row_def request_row_def
        ex_served_rows hit_response_def Let_def ex_txns two)
qed

definition ex_keyspace :: keyspace where
  "ex_keyspace = [''cache:exact:h'' \<mapsto> (RStr (FJson (JObj (asdict ex_cached))), None)]"

definition ex_renv :: "(keyspace, unit) renv" where
  "ex_renv = \<lparr>en_redis = mem_redis, en_registry = \<lparr>pr_specs = [], pr_adapters = [], pr_keys = [], pr_internal_slots = [], pr_private_key_only_slots = []\<rparr>, en_breaker = default_breaker, en_quota = None, en_context_id = None,
     en_clock = of_nat, en_uuid = (\<lambda>_. ''u''), en_resolve = (\<lambda>_ _. Inl OtherError), en_render = (\<lambda>_. Inl OtherError), en_complete = (\<lambda>_ _ _. (Inl ex_down, None)),
     en_stream = (\<lambda>_ _ _. ([], None)), en_jitter = (\<lambda>_ c. c), en_max_attempts = 1, en_rank_by_latency = False\<rparr>"

abbreviation ex_env_mem :: "(keyspace, unit) chat_env" where
  "ex_env_mem \<equiv> ex_chat mem_redis ex_renv"

definition ex_first :: "keyspace gstate" where
  "ex_first = ex_state ex_asked (ex_router_state (calm ex_keyspace)) 0 0"

definition ex_claim :: "string option \<Rightarrow> ClaimTicket" where
  "ex_claim cid = ticket_for ex_env_mem ex_caller (ex_body cid) ''k''"

lemma ex_valid: "validate_slot ex_env_mem (iq_model (ex_body cid)) = Inr ()" "validated_idempotency_key ''k'' = Inr ''k''"
proof -
  show "validate_slot ex_env_mem (iq_model (ex_body cid)) = Inr ()" by (simp add: validate_slot_def ex_body_def)
  have "case validated_idempotency_key ''k'' of Inr y \<Rightarrow> y = ''k'' | Inl _ \<Rightarrow> False" by code_simp
  then show "validated_idempotency_key ''k'' = Inr ''k''" by (auto split: sum.splits)
qed

lemma ex_claim_key: "idempotency (ct_user_id (ex_claim cid)) (ct_key (ex_claim cid)) = Inr ''idem:u:k''"
  by (simp add: ex_claim_def ticket_for_def ex_caller_def ex_idem_key)

lemma ex_claimed:
  obtains w where "claim_for ex_env_mem (ex_claim cid) ex_first = (Inr Claimed, ex_state ex_asked (ex_router_state w) 0 0)" "quiet w" "wd_srv w ''cache:exact:h'' = ex_keyspace ''cache:exact:h''"
proof -
  let ?t = "ex_claim cid"
  have key: "idempotency ''u'' ''k'' = Inr ''idem:u:k''" by (rule ex_idem_key)
  obtain w where c: "claim mem_redis ''k'' ''u'' (ct_fingerprint ?t) (ct_request_id ?t) (ct_stream ?t) (calm ex_keyspace) = (Inr Claimed, w)" "quiet w"
    "wd_srv w ''cache:exact:h'' = ex_keyspace ''cache:exact:h''"
    by (simp add: claim_def key Let_def cbind_def creturn_def client_call_def calm_def mem_redis_def ex_keyspace_def quiet_def)
  have "ct_key ?t = ''k''" "ct_user_id ?t = ''u''" "ge_redis (cn_base ex_env_mem) = mem_redis"
    by (simp_all add: ex_claim_def ticket_for_def ex_caller_def ex_chat_def ex_base_def ex_genv_def)
  then have "claim_for ex_env_mem ?t ex_first = (Inr Claimed, ex_state ex_asked (ex_router_state w) 0 0)"
    using c(1) by (simp add: claim_for_def gbind_def on_redis_def gs_world_def ex_first_def ex_router_state_def greturn_def)
  then show ?thesis using that c(2,3) by blast
qed

lemma ex_cache_read:
  assumes "quiet w" "wd_srv w ''cache:exact:h'' = ex_keyspace ''cache:exact:h''"
  obtains w' where "cached_answer ex_env_mem (Some ''h'') (ex_state d (ex_router_state w) n r) = (Inr (Some ex_cached), ex_state d (ex_router_state w') n r)" "quiet w'"
proof -
  have key: "exact_cache ''h'' = Inr ''cache:exact:h''" by code_simp
  have "cache_get mem_redis ''h'' w = (Some (asdict ex_cached), w\<lparr>wd_sent := Suc (wd_sent w), wd_srv := wd_srv w\<rparr>)"
    using assms(2) by (simp add: cache_get_def key client_call_quiet [OF assms(1)] reading_def mem_redis_def ks_get_def ex_keyspace_def cached_of_asdict)
  moreover have "cached_value (asdict ex_cached) = Inr ex_cached" by (simp add: cached_value_def asdict_def)
  moreover have "ge_redis (cn_base ex_env_mem) = mem_redis" by (simp add: ex_chat_def ex_base_def ex_genv_def)
  ultimately show ?thesis using that [of "w\<lparr>wd_sent := Suc (wd_sent w), wd_srv := wd_srv w\<rparr>"] assms(1)
    by (simp add: cached_answer_def gbind_def on_redis_def gs_world_def ex_router_state_def glift_def greturn_def)
qed

lemma ex_first_call:
  obtains r g1 where "create_chat_completion ex_env_mem ex_caller (ex_body (Some ''c'')) (Some ''k'') ex_first = (Inr (JsonReply r HIT False), g1)" "quiet (gs_world g1)"
    "tx_request_id (ge_txn (cn_base ex_env_mem) (gs_txns g1)) \<notin> rq_id ` set (sto_requests (gs_store g1))"
proof -
  let ?body = "ex_body (Some ''c'')"
  obtain w where c: "claim_for ex_env_mem (ex_claim (Some ''c'')) ex_first = (Inr Claimed, ex_state ex_asked (ex_router_state w) 0 0)" "quiet w"
    "wd_srv w ''cache:exact:h'' = ex_keyspace ''cache:exact:h''" by (rule ex_claimed)
  let ?h = "[ex_question, ex_follow_up]"
  have hist: "read_history ex_env_mem ''c'' ''u'' (ex_state ex_turn_opened (ex_router_state w) 1 0) = (Inr ?h, ex_state ex_turn_opened (ex_router_state w) 2 0)"
    by (simp add: read_history_def Let_def ex_txns ex_open_steps(3) unhandled_def numeral_2_eq_2)
  have key: "cache_key_of ex_env_mem ?body ?h = Some ''h''" by (simp add: cache_key_of_def is_cacheable_def ex_body_def ex_chat_def request_hash_def)
  obtain w' where w': "cached_answer ex_env_mem (Some ''h'') (ex_state ex_turn_opened (ex_router_state w) 2 (Suc 0)) = (Inr (Some ex_cached), ex_state ex_turn_opened (ex_router_state w') 2 (Suc 0))" "quiet w'"
    by (rule ex_cache_read [OF c(2,3)])
  obtain r d where hit: "serve_cache_hit ex_env_mem ex_caller ?body ex_conversation ex_cached (cn_perf ex_env_mem 0) (ex_state ex_turn_opened (ex_router_state w') 2 (Suc 0)) =
      (Inr (JsonReply r HIT False), ex_state d (ex_router_state w') 3 (Suc (Suc (Suc 0))))" "rq_id ` set (sto_requests d) = {''zzz''}"
    using ex_hit [where R = mem_redis and routing = ex_renv and started = "cn_perf ex_env_mem 0" and s = "ex_router_state w'" and n = "Suc 0"] by (elim exE conjE) (rule that)
  have names: "cv_id ex_conversation = ''c''" "pr_user_id ex_caller = ''u''" "\<not> iq_stream ?body" by (simp_all add: ex_conversation_def ex_caller_def ex_body_def)
  have ans: "answer_turn ex_env_mem ex_caller ?body ex_conversation ?h (ex_state ex_turn_opened (ex_router_state w) 2 0) = (Inr (JsonReply r HIT False), ex_state d (ex_router_state w') 3 (Suc (Suc (Suc 0))))"
    using w'(1) hit(1) by (simp add: answer_turn_def Let_def key gbind_def [of "cached_answer ex_env_mem (Some ''h'')"])
  have "serve_completion ex_env_mem ex_caller ?body (Some (ex_claim (Some ''c''))) (ex_state ex_asked (ex_router_state w) 0 0) = (Inr (JsonReply r HIT False), ex_state d (ex_router_state w') 3 (Suc (Suc (Suc 0))))"
    using ans hist by (simp add: serve_completion_def gbind_def ex_open names)
  then have "create_chat_completion ex_env_mem ex_caller ?body (Some ''k'') ex_first = (Inr (JsonReply r HIT False),
      put_world (ticket_complete (ge_redis (cn_base ex_env_mem)) (ex_claim (Some ''c'')) (response_dump r) (Some HIT)) (ex_state d (ex_router_state w') 3 (Suc (Suc (Suc 0)))))"
    using claimed_run [OF ex_valid ex_claim_def c(1)] by (simp add: under_claim_def gbind_def greturn_def)
  from that [OF this] show ?thesis
    using w'(2) hit(2) by (simp add: quiet_ticket gs_world_def [of "ex_state _ _ _ _"] ex_router_state_def ex_txns eval_nat_numeral)
qed


lemma ex_missing:
  obtains e g1 where "create_chat_completion ex_env_mem ex_caller (ex_body (Some ''nope'')) (Some ''k'') ex_first = (Inl e, g1)" "quiet (gs_world g1)"
proof -
  obtain w where c: "claim_for ex_env_mem (ex_claim (Some ''nope'')) ex_first = (Inr Claimed, ex_state ex_asked (ex_router_state w) 0 0)" "quiet w" by (rule ex_claimed)
  have "get_owned ''nope'' ''u'' ex_asked = None" by code_simp
  then have "serve_completion ex_env_mem ex_caller (ex_body (Some ''nope'')) t (ex_state ex_asked (ex_router_state w) 0 0) = (Inl conversation_not_found, ex_state ex_asked (ex_router_state w) 1 0)" for t
    by (simp add: serve_completion_def gbind_def open_turn_def transaction_def Let_def ex_txns resolve_conversation_def on_store_def graise_def ex_body_def ex_caller_def)
  then have "create_chat_completion ex_env_mem ex_caller (ex_body (Some ''nope'')) (Some ''k'') ex_first = (Inl conversation_not_found,
      put_world (ticket_release (ge_redis (cn_base ex_env_mem)) (ex_claim (Some ''nope''))) (ex_state ex_asked (ex_router_state w) 1 0))"
    using claimed_run [OF ex_valid ex_claim_def c(1)] by (simp add: under_claim_def gbind_def graise_def)
  from that [OF this] show ?thesis using c(2) by (simp add: quiet_ticket gs_world_def [of "ex_state _ _ _ _"] ex_router_state_def)
qed

theorem failure_frees_the_key_witness:
  "\<exists>e g1. create_chat_completion ex_env_mem ex_caller (ex_body (Some ''nope'')) (Some ''k'') ex_first = (Inl e, g1) \<and>
     claim_again mem_redis (ex_claim (Some ''nope'')) ''r2'' (gs_world g1) = Inr Claimed"
proof -
  obtain e g1 where f: "create_chat_completion ex_env_mem ex_caller (ex_body (Some ''nope'')) (Some ''k'') ex_first = (Inl e, g1)" "quiet (gs_world g1)" by (rule ex_missing)
  obtain w where c: "claim_for ex_env_mem (ex_claim (Some ''nope'')) ex_first = (Inr Claimed, ex_state ex_asked (ex_router_state w) 0 0)" by (rule ex_claimed)
  have claimed: "fst (claim_for ex_env_mem (ex_claim (Some ''nope'')) ex_first) = Inr Claimed" using c by simp
  have R: "ge_redis (cn_base ex_env_mem) = mem_redis" by (simp add: ex_chat_def ex_base_def ex_genv_def)
  then have rs: "redis_server (ge_redis (cn_base ex_env_mem)) (\<lambda>v. v)" using mem_redis_server by simp
  from failure_frees_the_key [OF rs f(2) ex_claim_key ex_valid ex_claim_def claimed f(1), of "''r2''"] f(1) show ?thesis unfolding R by blast
qed

theorem chat_keeps_the_tables_witness:
  "store_reachable (gs_store (snd (create_chat_completion ex_env_mem ex_caller (ex_body (Some ''c'')) (Some ''k'') ex_first))) \<and>
   list_for_conversation ''c'' ''v'' (gs_store (snd (create_chat_completion ex_env_mem ex_caller (ex_body (Some ''c'')) (Some ''k'') ex_first))) = list_for_conversation ''c'' ''v'' ex_asked"
proof -
  have a: "store_reachable (gs_store ex_first)" "''v'' \<noteq> pr_user_id ex_caller" using ex_asked_facts(1) by (simp_all add: ex_first_def ex_caller_def)
  show ?thesis using chat_keeps_the_tables [OF a, of ex_env_mem "''c''", OF _ refl] by (simp add: ex_txns ex_first_def)
qed


end
