(* ===== verification/Spec2Isabelle.thy ===== *)
theory Spec2Isabelle
  imports Gw_Quota_Workers Gw_Breaker_Props Gw_Selection Gw_Router_Props Gw_Cache Gw_Stream Gw_Perception_Props Gw_Completions_Props
begin

text \<open>
  A verification development for the LLM gateway under \<^verbatim>\<open>src/app\<close>: one HTTP endpoint in front of several LLM
  providers, which chooses a model, spends a shared quota, fails over between candidates and streams the answer.

  \<^bold>\<open>The program and how its parts interact.\<close> A request is authenticated by a token or a gateway key and counted by the
  rate limiter. A chat request is checked against the idempotency store and the exact cache. Otherwise the router walks a chain of candidates that selection computed from the slot table: for each one
  it asks the circuit breaker, renders the conversation into the candidate's context window (the perception lane turns
  files into bytes or text for that candidate), reserves quota, sends through the provider's adapter with the
  credential that was resolved for it, and on an error retries or moves on. A streamed turn hands the router's events to the orchestrator, which writes
  server-sent events and, at the end, the stored result. Breaker, quota counters, cache and idempotency keys live in
  Redis and are shared by all worker processes.

  \<^bold>\<open>Theories and sources.\<close>
    \<^item> \<^verbatim>\<open>Gw_Prelude\<close>: exceptions as sums (\<open>'a exn\<close>, \<open>ebind\<close>), floats as rationals, shared list and option facts.
      \<^verbatim>\<open>Gw_Json\<close>: values of \<^verbatim>\<open>json.loads\<close>. \<^verbatim>\<open>Gw_Text\<close>: the string functions of Python the code uses, and the regular
      expressions for durations.
    \<^item> \<^verbatim>\<open>Gw_Redis\<close>: the Redis client as a record of commands over an opaque server, the locale \<open>redis_server\<close> with the
      documented effect of each command, its interpretation on an in-memory keyspace, and the \<open>world\<close>: a server with a
      schedule of what other processes do, and which commands raise, between any two commands of the caller.
    \<^item> \<^verbatim>\<open>Gw_Types\<close>: \<^verbatim>\<open>providers/types.py\<close>, \<^verbatim>\<open>providers/errors.py\<close>. \<^verbatim>\<open>Gw_Keys\<close>: \<^verbatim>\<open>cache/keys.py\<close>.
    \<^item> \<^verbatim>\<open>Gw_Windows\<close>: \<^verbatim>\<open>quota/windows.py\<close> and the limit tables of \<^verbatim>\<open>config.py\<close>; the time zone database is the locale
      \<open>timezone\<close>, interpreted on UTC. \<^verbatim>\<open>Gw_Scripts\<close>: the three Lua scripts of \<^verbatim>\<open>quota/scripts\<close>.
      \<^verbatim>\<open>Gw_Quota\<close>: \<^verbatim>\<open>quota/tracker.py\<close>, \<^verbatim>\<open>quota/lanes.py\<close>, \<^verbatim>\<open>quota/allocations.py\<close>, with \<^verbatim>\<open>Gw_Quota_Laws\<close>,
      \<^verbatim>\<open>Gw_Quota_Props\<close> (one caller on an arbitrary schedule) and \<^verbatim>\<open>Gw_Quota_Workers\<close> (any number of workers, a step
      relation and its invariant).
    \<^item> \<^verbatim>\<open>Gw_Breaker\<close>, \<^verbatim>\<open>Gw_Breaker_Props\<close>: \<^verbatim>\<open>routing/circuit_breaker.py\<close> and the abstract closed/open/half-open machine
      it refines.
    \<^item> \<^verbatim>\<open>Gw_Registry\<close>: \<^verbatim>\<open>providers/registry.py\<close> and the provider tables of \<^verbatim>\<open>config.py\<close>. \<^verbatim>\<open>Gw_Selection\<close>:
      \<^verbatim>\<open>routing/selection.py\<close> and the latency table of \<^verbatim>\<open>usage/metrics.py\<close>.
    \<^item> \<^verbatim>\<open>Gw_Router\<close>, \<^verbatim>\<open>Gw_Router_Props\<close>: \<^verbatim>\<open>routing/router.py\<close>, both loops. The upstreams, the renderer, the clock, the
      uuids and the credentials are fields of the environment record \<open>renv\<close>.
    \<^item> \<^verbatim>\<open>Gw_Canonical\<close>, \<^verbatim>\<open>Gw_Fitting\<close>, \<^verbatim>\<open>Gw_Render\<close>: \<^verbatim>\<open>memory/canonical.py\<close>, \<^verbatim>\<open>memory/fitting.py\<close>, \<^verbatim>\<open>memory/render.py\<close>.
    \<^item> \<^verbatim>\<open>Gw_Cache\<close>: \<^verbatim>\<open>cache/exact.py\<close>, \<^verbatim>\<open>cache/idempotency.py\<close>. \<^verbatim>\<open>Gw_Stream\<close>: \<^verbatim>\<open>streaming/sse.py\<close>,
      \<^verbatim>\<open>streaming/orchestrator.py\<close>.
    \<^item> \<^verbatim>\<open>Gw_RateLimit\<close>: the limiter of \<^verbatim>\<open>deps.py\<close>. \<^verbatim>\<open>Gw_Errors\<close>: \<^verbatim>\<open>core/errors.py\<close> and its handlers. \<^verbatim>\<open>Gw_Tables\<close>: the
      tables of users, gateway keys, provider keys and allocations with the repositories over them. \<^verbatim>\<open>Gw_Auth\<close>:
      \<^verbatim>\<open>auth/jwt.py\<close>, \<^verbatim>\<open>auth/api_keys.py\<close>, \<^verbatim>\<open>auth/dependency.py\<close>. \<^verbatim>\<open>Gw_Byok\<close>: \<^verbatim>\<open>keys_resolution/resolver.py\<close> and the
      endpoints of \<^verbatim>\<open>api/keys.py\<close>. The JOSE library, digests, encryption and the random source are parameters.
    \<^item> \<^verbatim>\<open>Gw_Adapter\<close>: \<^verbatim>\<open>providers/base.py\<close>, with the HTTP client as a parameter and the contract of an adapter as the
      locale \<open>provider_adapter\<close>; \<^verbatim>\<open>Gw_Chat\<close>: \<^verbatim>\<open>providers/groq.py\<close> and \<^verbatim>\<open>providers/openrouter.py\<close>; \<^verbatim>\<open>Gw_Gemini\<close>:
      \<^verbatim>\<open>providers/gemini.py\<close>, each an interpretation of it; \<^verbatim>\<open>Gw_Adapters\<close>: what holds of all three, with the router
      and the renderer.
    \<^item> \<^verbatim>\<open>Gw_Extract\<close>: \<^verbatim>\<open>perception/extractors.py\<close> and \<^verbatim>\<open>db/repo/extractions.py\<close>; \<^verbatim>\<open>Gw_Perception\<close>:
      \<^verbatim>\<open>perception/lane.py\<close> and \<^verbatim>\<open>perception/local.py\<close>; \<^verbatim>\<open>Gw_Perception_Props\<close>: their theorems. The database is a
      table with a schedule of other sessions; PyMuPDF, Pillow, Tesseract and the object store are parameters.

  \<^bold>\<open>What is shown.\<close>
    \<^item> Quota: a reservation is all or nothing and never oversubscribes a window, for one caller on any schedule and
      for any interleaving of workers; commit and release settle exactly what was reserved; Redis failures refuse;
      hints only raise a counter; the lanes' shares stay within the published limit.
    \<^item> Breaker: every call is a transition of the abstract machine; it opens when it must, holds for its cooldown and
      lets one probe through.
    \<^item> Selection and registry: what a chain contains, in which order, and what configuration is accepted.
    \<^item> Router: candidates are tried in order and accounted for, attempts are bounded, the books of a call agree with
      its trail, the events of a stream follow a grammar. All follow from the loop rule of the locale \<open>route_loop\<close>,
      interpreted twice on the model's own loop.
    \<^item> Memory: validation is the schema, fitting stays within the budget, keeps the question, accounts for what it
      omits and gives up only when nothing is left to cut.
    \<^item> Cache and streaming: the life of an idempotency key, cache keys, replay; the client of a stream shows exactly
      the stored answer, the frames follow the wire protocol, and a stream ends.
    \<^item> Access: only a proved identity gets a principal; a gateway key lives from its creation to its revocation; a
      request's credentials are a snapshot; the limiter admits no more than its limit and its hints suffice.
    \<^item> Adapters: an answer or an error that names the model asked for; a refusal stays a refusal through the router;
      keepalives change nothing; payloads stay within the budget; durations are read as they are written.
    \<^item> Perception: every file is read or refused, once per request; a model's reading is never lost; a native file is
      never free; what is resolved can be sent.
    \<^item> Findings: theorems that exhibit where the code departs from its documentation (the probe race, the attempt
      budget, the daily counter a release skips, the hint's lost update, the claim released by a request that does not
      own it, documents cut after their message was dropped, an outage reported as a bad token, a moderation verdict that is
      retried, an escaping exception on an odd finish reason, a stored local reading that no model replaces, a refused
      reading that is cached).

  \<^bold>\<open>Arithmetic, loops and bounds.\<close> Python integers are \<open>int\<close>; floats are exact rationals, so rounding is not modelled.
  Every loop is total (structural recursion, or a measure: \<open>serve_candidate\<close> counts retries, \<open>await_winner\<close> the polls
  left, \<open>find_durations\<close> and \<open>split_sections\<close> the text left) except two that may not end: \<open>chunk_for_replay\<close> is a partial function, proved to return for a positive target, and \<open>cut_more\<close> is
  a \<open>while_option\<close>, proved to return always. No definition uses fuel.

  \<^bold>\<open>Not modelled.\<close> Logging, tracing and Prometheus exposition change no state a caller sees. The chat, conversation,
  file, model and admin endpoints with their schemas, the tables of conversations, messages, files and requests, the
  stream collector and the usage log, the object store's backends and the operator scripts are not modelled; where the
  modelled code calls them they are parameters. Task cancellation inside \<^verbatim>\<open>asyncio\<close> is represented only by the points
  where the schedule of other processes may act.
\<close>

end
